(* ===== verification/Prelude.thy ===== *)
theory Prelude
  imports Main "HOL-Library.Word"
begin

text \<open>
  What every theory of the development shares.

  \<^item> Types: Go strings and byte slices are both \<open>char list\<close> (a Go string is a sequence of
    bytes), a \<open>time.Time\<close> is the number of nanoseconds since the epoch and a
    \<open>time.Duration\<close> a number of nanoseconds, both as \<open>int\<close>.
  \<^item> Fixed-width integers: Go's \<open>int64\<close> and \<open>int32\<close> are \<open>int\<close> values; the
    wrap-around of two's complement is written out with \<open>int64\<close> and \<open>int32\<close>
    wherever an operation can leave the range.
  \<^item> Tables: a database table is the list of its rows; the lemmas below say what the
    list functions do to the primary key and to a lookup by it.
\<close>

named_theorems table_simps \<open>what a statement does to keys and lookups\<close>
named_theorems inv_intros \<open>every operation keeps the invariant\<close>

type_synonym bytes = string
type_synonym time = int
type_synonym duration = int

abbreviation ord :: "char \<Rightarrow> nat" where
  "ord c \<equiv> of_char c"

abbreviation chr :: "nat \<Rightarrow> char" where
  "chr n \<equiv> char_of n"

section \<open>Durations\<close>

definition time_Second :: duration where "time_Second = 1000000000"
definition time_Millisecond :: duration where "time_Millisecond = 1000000"
definition time_Minute :: duration where "time_Minute = 60 * time_Second"
definition time_Hour :: duration where "time_Hour = 60 * time_Minute"

lemmas duration_defs = time_Second_def time_Millisecond_def time_Minute_def time_Hour_def

section \<open>Fixed-width signed integers\<close>

definition int64 :: "int \<Rightarrow> int" where
  "int64 x = (x + 9223372036854775808) mod 18446744073709551616 - 9223372036854775808"

definition int32 :: "int \<Rightarrow> int" where
  "int32 x = (x + 2147483648) mod 4294967296 - 2147483648"

definition max_int64 :: int where "max_int64 = 9223372036854775807"

lemma int64_id: "- 9223372036854775808 \<le> x \<Longrightarrow> x \<le> 9223372036854775807 \<Longrightarrow> int64 x = x"
  by (simp add: int64_def)

lemma int32_id: "- 2147483648 \<le> x \<Longrightarrow> x \<le> 2147483647 \<Longrightarrow> int32 x = x"
  by (simp add: int32_def)

lemma int64_sint: "int64 x = sint (word_of_int x :: 64 word)"
  by (simp add: int64_def signed_of_int signed_take_bit_eq_take_bit_shift take_bit_eq_mod)

lemma int64_range: "- 9223372036854775808 \<le> int64 x \<and> int64 x \<le> 9223372036854775807"
proof -
  have "0 \<le> (x + 9223372036854775808) mod 18446744073709551616"
    and "(x + 9223372036854775808) mod 18446744073709551616 < 18446744073709551616"
    by simp_all
  then show ?thesis unfolding int64_def by linarith
qed

section \<open>Strings\<close>

text \<open>\<open>strings.Split\<close> and \<open>strings.Cut\<close> for a one-character separator.\<close>

fun strings_Split :: "string \<Rightarrow> char \<Rightarrow> string list" where
  "strings_Split [] sep = [[]]"
| "strings_Split (c # cs) sep =
     (if c = sep then [] # strings_Split cs sep
      else (case strings_Split cs sep of [] \<Rightarrow> [[c]] | p # ps \<Rightarrow> (c # p) # ps))"

definition strings_Cut :: "string \<Rightarrow> char \<Rightarrow> string \<times> string \<times> bool" where
  "strings_Cut s sep =
     (if sep \<in> set s then (takeWhile (\<lambda>c. c \<noteq> sep) s, tl (dropWhile (\<lambda>c. c \<noteq> sep) s), True)
      else (s, [], False))"

lemma strings_Split_not_Nil [simp]: "strings_Split s sep \<noteq> []"
  by (induction s) (auto split: list.splits)

lemma strings_Split_no_sep: "sep \<notin> set s \<Longrightarrow> strings_Split s sep = [s]"
  by (induction s) auto

lemma strings_Split_append:
  "sep \<notin> set s \<Longrightarrow> strings_Split (s @ sep # rest) sep = s # strings_Split rest sep"
  by (induction s) auto

lemma strings_Split_parts: "p \<in> set (strings_Split s sep) \<Longrightarrow> set p \<subseteq> set s - {sep}"
  by (induction s arbitrary: p) (fastforce split: if_splits list.splits)+

lemma strings_Cut_append:
  "sep \<notin> set s \<Longrightarrow> strings_Cut (s @ sep # rest) sep = (s, rest, True)"
  by (auto simp: strings_Cut_def takeWhile_append dropWhile_append)

lemma strings_Cut_SomeD: "strings_Cut s sep = (a, b, True) \<Longrightarrow> s = a @ sep # b \<and> sep \<notin> set a"
proof -
  assume cut: "strings_Cut s sep = (a, b, True)"
  then have "sep \<in> set s" by (auto simp: strings_Cut_def split: if_splits)
  then obtain u v where s: "s = u @ sep # v" and u: "sep \<notin> set u" by (meson split_list_first)
  with cut show ?thesis by (simp add: strings_Cut_append)
qed

section \<open>Tables\<close>

text \<open>The row with a given primary key: the first one, and the only one while keys are distinct.\<close>

definition lookup_by :: "('r \<Rightarrow> 'k) \<Rightarrow> 'k \<Rightarrow> 'r list \<Rightarrow> 'r option" where
  "lookup_by key k rows = find (\<lambda>r. key r = k) rows"

lemma lookup_by_Nil [simp]: "lookup_by key k [] = None"
  by (simp add: lookup_by_def)

lemma lookup_by_Cons [simp]:
  "lookup_by key k (r # rows) = (if key r = k then Some r else lookup_by key k rows)"
  by (simp add: lookup_by_def)

lemma lookup_by_SomeD: "lookup_by key k rows = Some r \<Longrightarrow> r \<in> set rows \<and> key r = k"
  by (induction rows) (auto split: if_splits)

lemma lookup_by_None: "lookup_by key k rows = None \<longleftrightarrow> k \<notin> key ` set rows"
  by (induction rows) auto

lemma lookup_by_in: "distinct (map key rows) \<Longrightarrow> r \<in> set rows \<Longrightarrow> lookup_by key (key r) rows = Some r"
  by (induction rows) (auto simp: image_iff)

lemma lookup_by_iff:
  "distinct (map key rows) \<Longrightarrow> lookup_by key k rows = Some r \<longleftrightarrow> r \<in> set rows \<and> key r = k"
  by (metis lookup_by_SomeD lookup_by_in)

lemma lookup_by_append:
  "lookup_by key k (xs @ ys) =
     (case lookup_by key k xs of None \<Rightarrow> lookup_by key k ys | Some r \<Rightarrow> Some r)"
  by (induction xs) auto

lemma lookup_by_filter_key [table_simps]:
  "lookup_by key k (filter (\<lambda>r. P (key r)) rows) = (if P k then lookup_by key k rows else None)"
  by (induction rows) auto

lemma find_key_guard:
  "distinct (map key rows) \<Longrightarrow>
     find (\<lambda>r. key r = k \<and> Q r) rows =
       (case lookup_by key k rows of None \<Rightarrow> None | Some r \<Rightarrow> if Q r then Some r else None)"
proof (induction rows)
  case (Cons r rows)
  show ?case
  proof (cases "key r = k")
    case True
    with Cons.prems have "find (\<lambda>r. key r = k \<and> Q r) rows = None"
      by (auto simp: find_None_iff image_iff)
    with True show ?thesis by simp
  qed (use Cons in simp)
qed simp

lemma find_filter: "find Q (filter P rows) = find (\<lambda>r. Q r \<and> P r) rows"
  by (induction rows) auto

lemma lookup_by_filter:
  "distinct (map key rows) \<Longrightarrow>
     lookup_by key k (filter P rows) =
       (case lookup_by key k rows of None \<Rightarrow> None | Some r \<Rightarrow> if P r then Some r else None)"
  unfolding lookup_by_def [of key k "filter P rows"] find_filter by (rule find_key_guard)

lemma distinct_map_filter_key: "distinct (map key rows) \<Longrightarrow> distinct (map key (filter P rows))"
  by (rule distinct_map_filter)

lemma distinct_map_snoc:
  "distinct (map key rows) \<Longrightarrow> key r \<notin> key ` set rows \<Longrightarrow> distinct (map key (rows @ [r]))"
  by simp

lemma filter_key_length:
  "distinct (map key rows) \<Longrightarrow>
     length (filter (\<lambda>r. key r = k \<and> Q r) rows) =
       (case lookup_by key k rows of None \<Rightarrow> 0 | Some r \<Rightarrow> if Q r then 1 else 0)"
proof (induction rows)
  case (Cons r rows)
  show ?case
  proof (cases "key r = k")
    case True
    with Cons.prems have "filter (\<lambda>r. key r = k \<and> Q r) rows = []"
      by (auto simp: filter_empty_conv image_iff)
    with True show ?thesis by simp
  qed (use Cons in simp)
qed simp

text \<open>
  The contract of an \<open>UPDATE\<close>: the new row keeps the primary key. Every update statement of the
  model interprets this locale.
\<close>

locale keyed_update =
  fixes key :: "'r \<Rightarrow> 'k" and f :: "'r \<Rightarrow> 'r"
  assumes key_f: "key (f r) = key r"
begin

lemma keys: "map key (map (\<lambda>r. if P r then f r else r) rows) = map key rows"
  by (induction rows) (auto simp: key_f)

lemma comp: "key \<circ> (\<lambda>r. if P r then f r else r) = key"
  by (auto simp: key_f)

lemma lookup:
  "lookup_by key k (map (\<lambda>r. if P r then f r else r) rows) =
     map_option (\<lambda>r. if P r then f r else r) (lookup_by key k rows)"
  by (induction rows) (auto simp: key_f)

lemma unchanged:
  "(\<And>r. r \<in> set rows \<Longrightarrow> P r \<Longrightarrow> key r = k) \<Longrightarrow> k' \<noteq> k \<Longrightarrow>
     lookup_by key k' (map (\<lambda>r. if P r then f r else r) rows) = lookup_by key k' rows"
  by (induction rows) (auto simp: key_f)

end

end
