(* ===== verification/App_Errors.thy ===== *)
theory App_Errors
  imports Prelude
begin

text \<open>
  Errors as values: the sentinels of \<open>internal/domain/errors.go\<close>, the application errors of
  \<open>internal/platform/errors/errors.go\<close> and the answer \<open>httpErrorHandler\<close> of
  \<open>internal/adapter/httpserver/middleware.go\<close> makes of them.

  A Go error that wraps another with \<open>fmt.Errorf("...: %w", err)\<close> is, for every test the
  code makes of it (\<open>errors.Is\<close>, \<open>errors.AsType\<close>), the error it wraps, so wrapping is not
  represented. A driver or storage error that wraps no sentinel is \<open>DbErr\<close> or \<open>StorageErr\<close>.
\<close>

section \<open>JSON values of answers\<close>

text \<open>\<open>JTime t\<close> stands for the string \<open>t.UTC().Format(time.RFC3339)\<close>.\<close>

datatype json =
    JStr string
  | JInt int
  | JBool bool
  | JTime time
  | JList "json list"
  | JObj "(string \<times> json) list"

section \<open>Application errors\<close>

datatype ErrorType = BadRequest | NotFound | Conflict | Forbidden | Gone | Unavailable | Internal

datatype err =
    ErrNotFound
  | ErrDuplicate
  | ErrForbidden
  | ErrConflict
  | ErrInvalidParts
  | ErrUploadNotFound
  | DbErr
  | StorageErr
  | CtxCanceled
  | PlainErr string
  | HTTPError nat "string option"
  | AppError ErrorType string "err option" "(string \<times> json) list"

fun errors_Is :: "err \<Rightarrow> err \<Rightarrow> bool" where
  "errors_Is (AppError t m c ctx) target =
     (AppError t m c ctx = target \<or> (case c of None \<Rightarrow> False | Some e \<Rightarrow> errors_Is e target))"
| "errors_Is e target = (e = target)"

fun asHTTPError :: "err \<Rightarrow> (nat \<times> string option) option" where
  "asHTTPError (HTTPError code msg) = Some (code, msg)"
| "asHTTPError (AppError t m (Some e) ctx) = asHTTPError e"
| "asHTTPError _ = None"

fun HTTPStatus :: "ErrorType \<Rightarrow> nat" where
  "HTTPStatus BadRequest = 400"
| "HTTPStatus NotFound = 404"
| "HTTPStatus Conflict = 409"
| "HTTPStatus Forbidden = 403"
| "HTTPStatus Gone = 410"
| "HTTPStatus Unavailable = 503"
| "HTTPStatus Internal = 500"

definition BadRequestError :: "string \<Rightarrow> err" where
  "BadRequestError msg = AppError BadRequest msg None []"

definition NotFoundError :: "string \<Rightarrow> err" where
  "NotFoundError msg = AppError NotFound msg None []"

definition ForbiddenError :: "string \<Rightarrow> err" where
  "ForbiddenError msg = AppError Forbidden msg None []"

definition ConflictError :: "string \<Rightarrow> err" where
  "ConflictError msg = AppError Conflict msg None []"

definition GoneError :: "string \<Rightarrow> (string \<times> json) list \<Rightarrow> err" where
  "GoneError msg ctx = AppError Gone msg None ctx"

definition UnavailableError :: "string \<Rightarrow> err" where
  "UnavailableError msg = AppError Unavailable msg None []"

definition InternalError :: "string \<Rightarrow> err \<Rightarrow> err" where
  "InternalError msg cause = AppError Internal msg (Some cause) []"

lemmas app_error_defs =
  BadRequestError_def NotFoundError_def ForbiddenError_def ConflictError_def GoneError_def
  UnavailableError_def InternalError_def

fun AsAppError :: "err \<Rightarrow> err" where
  "AsAppError (AppError t m c ctx) = AppError t m c ctx"
| "AsAppError e = InternalError ''internal server error'' e"

definition isAppError :: "err \<Rightarrow> bool" where
  "isAppError e = (case e of AppError _ _ _ _ \<Rightarrow> True | _ \<Rightarrow> False)"

text \<open>\<open>ToResponse\<close>: the message, and the context under \<open>details\<close> when there is one.\<close>

definition ErrorResponse :: "string \<Rightarrow> (string \<times> json) list \<Rightarrow> json" where
  "ErrorResponse msg details =
     JObj ((''error'', JStr msg) # (if details = [] then [] else [(''details'', JObj details)]))"

fun ToResponse :: "err \<Rightarrow> json" where
  "ToResponse (AppError t m c ctx) = ErrorResponse m ctx"
| "ToResponse _ = ErrorResponse [] []"

section \<open>Answers\<close>

record response =
  status :: nat
  headers :: "(string \<times> string) list"
  body :: "json option"
  blob :: bytes

definition JSON :: "nat \<Rightarrow> json \<Rightarrow> response" where
  "JSON code v = \<lparr>status = code, headers = [], body = Some v, blob = []\<rparr>"

definition NoContent :: "nat \<Rightarrow> response" where
  "NoContent code = \<lparr>status = code, headers = [], body = None, blob = []\<rparr>"

text \<open>\<open>http.StatusText\<close> of the error codes Echo raises itself.\<close>

definition StatusText :: "nat \<Rightarrow> string" where
  "StatusText code =
     (if code = 400 then ''Bad Request'' else if code = 401 then ''Unauthorized''
      else if code = 403 then ''Forbidden'' else if code = 404 then ''Not Found''
      else if code = 405 then ''Method Not Allowed'' else if code = 408 then ''Request Timeout''
      else if code = 413 then ''Request Entity Too Large''
      else if code = 415 then ''Unsupported Media Type''
      else if code = 429 then ''Too Many Requests'' else [])"

definition httpErrorHandler :: "err \<Rightarrow> response" where
  "httpErrorHandler e =
     (case asHTTPError e of
        Some (code, msg) \<Rightarrow>
          JSON code (ErrorResponse
            (if code \<ge> 500 then ''internal server error''
             else (case msg of Some m \<Rightarrow> (if m \<noteq> [] then m else StatusText code)
                   | None \<Rightarrow> StatusText code)) [])
      | None \<Rightarrow>
          (case AsAppError e of
             AppError t m c ctx \<Rightarrow> JSON (HTTPStatus t) (ToResponse (AsAppError e))
           | _ \<Rightarrow> NoContent 500))"

text \<open>What a handler returns: an error for \<open>httpErrorHandler\<close> or an answer it wrote itself.\<close>

type_synonym answer = "err + response"

definition answer_status :: "answer \<Rightarrow> nat" where
  "answer_status a = (case a of Inl e \<Rightarrow> status (httpErrorHandler e) | Inr r \<Rightarrow> status r)"

section \<open>Facts\<close>

lemma errors_Is_simps [simp]:
  "errors_Is (AppError t m None ctx) target \<longleftrightarrow> target = AppError t m None ctx"
  "errors_Is (AppError t m (Some e) ctx) target \<longleftrightarrow>
     target = AppError t m (Some e) ctx \<or> errors_Is e target"
  by auto

declare errors_Is.simps(1) [simp del]

lemma AsAppError_shape: "\<exists>t m c ctx. AsAppError e = AppError t m c ctx"
  by (cases e) (auto simp: app_error_defs)

lemma HTTPStatus_range: "400 \<le> HTTPStatus t \<and> HTTPStatus t < 600"
  by (cases t) auto

lemma httpErrorHandler_AppError:
  "asHTTPError (AppError t m c ctx) = None \<Longrightarrow>
     httpErrorHandler (AppError t m c ctx) = JSON (HTTPStatus t) (ErrorResponse m ctx)"
  by (simp add: httpErrorHandler_def)

lemma asHTTPError_app [simp]: "asHTTPError (AppError t m None ctx) = None"
  by simp

lemma answer_status_simps [simp]:
  "answer_status (Inr r) = status r"
  "answer_status (Inl (BadRequestError m)) = 400"
  "answer_status (Inl (NotFoundError m)) = 404"
  "answer_status (Inl (ForbiddenError m)) = 403"
  "answer_status (Inl (ConflictError m)) = 409"
  "answer_status (Inl (GoneError m ctx)) = 410"
  "answer_status (Inl (UnavailableError m)) = 503"
  by (simp_all add: answer_status_def httpErrorHandler_def app_error_defs JSON_def)

lemma answer_status_internal:
  "asHTTPError e = None \<Longrightarrow> answer_status (Inl (InternalError m e)) = 500"
  by (simp add: answer_status_def httpErrorHandler_def app_error_defs JSON_def)

lemma status_simps [simp]: "status (JSON c v) = c" "status (NoContent c) = c"
  by (simp_all add: JSON_def NoContent_def)

end
