(* ===== verification/Base64.thy ===== *)
theory Base64
  imports Prelude
begin

text \<open>
  \<open>base64.RawURLEncoding\<close> of Go's standard library, as the repository uses it for tokens,
  public ids, metadata envelopes and transfer values: the URL alphabet without padding.

  The decoder is Go's non-strict one: carriage returns and line feeds are skipped wherever
  they stand, and the unused low bits of the last character are ignored.
\<close>

section \<open>The alphabet\<close>

definition b64_char :: "nat \<Rightarrow> char" where
  "b64_char n =
     chr (if n < 26 then n + 65
          else if n < 52 then n + 71
          else if n < 62 then n - 4
          else if n = 62 then 45 else 95)"

definition b64_val :: "char \<Rightarrow> nat option" where
  "b64_val c =
     (if 65 \<le> ord c \<and> ord c \<le> 90 then Some (ord c - 65)
      else if 97 \<le> ord c \<and> ord c \<le> 122 then Some (ord c - 71)
      else if 48 \<le> ord c \<and> ord c \<le> 57 then Some (ord c + 4)
      else if ord c = 45 then Some 62
      else if ord c = 95 then Some 63
      else None)"

section \<open>Encoding and decoding\<close>

fun EncodeToString :: "bytes \<Rightarrow> string" where
  "EncodeToString [] = []"
| "EncodeToString [a] =
     [b64_char (ord a div 4), b64_char ((ord a mod 4) * 16)]"
| "EncodeToString [a, b] =
     [b64_char (ord a div 4), b64_char ((ord a mod 4) * 16 + ord b div 16),
      b64_char ((ord b mod 16) * 4)]"
| "EncodeToString (a # b # c # rest) =
     b64_char (ord a div 4) # b64_char ((ord a mod 4) * 16 + ord b div 16) #
     b64_char ((ord b mod 16) * 4 + ord c div 64) # b64_char (ord c mod 64) #
     EncodeToString rest"

fun b64_groups :: "nat list \<Rightarrow> bytes option" where
  "b64_groups [] = Some []"
| "b64_groups [w] = None"
| "b64_groups [w, x] = Some [chr (w * 4 + x div 16)]"
| "b64_groups [w, x, y] =
     Some [chr (w * 4 + x div 16), chr ((x mod 16) * 16 + y div 4)]"
| "b64_groups (w # x # y # z # rest) =
     map_option (\<lambda>bs. chr (w * 4 + x div 16) # chr ((x mod 16) * 16 + y div 4) #
                       chr ((y mod 4) * 64 + z) # bs) (b64_groups rest)"

fun b64_vals :: "string \<Rightarrow> nat list option" where
  "b64_vals [] = Some []"
| "b64_vals (c # cs) =
     (case b64_val c of None \<Rightarrow> None | Some v \<Rightarrow> map_option ((#) v) (b64_vals cs))"

definition is_newline :: "char \<Rightarrow> bool" where
  "is_newline c \<longleftrightarrow> ord c = 10 \<or> ord c = 13"

definition DecodeString :: "string \<Rightarrow> bytes option" where
  "DecodeString s =
     (case b64_vals (filter (\<lambda>c. \<not> is_newline c) s) of
        None \<Rightarrow> None
      | Some vs \<Rightarrow> b64_groups vs)"

section \<open>Facts about single characters\<close>

lemma ord_less_256: "ord c < 256"
  by (rule nat_of_char_less_256)

lemma ord_chr_small [simp]: "n < 256 \<Longrightarrow> ord (chr n) = n"
  by (simp add: of_char_of)

lemma chr_ord_eq: "ord c = n \<Longrightarrow> chr n = c"
  by (metis char_of_char)

lemma b64_val_char [simp]: "n < 64 \<Longrightarrow> b64_val (b64_char n) = Some n"
  by (auto simp: b64_val_def b64_char_def)

lemma b64_val_less: "b64_val c = Some v \<Longrightarrow> v < 64"
  by (auto simp: b64_val_def split: if_splits)

lemma b64_char_val: "b64_val c = Some v \<Longrightarrow> b64_char v = c"
  by (auto simp: b64_val_def b64_char_def char_of_char chr_ord_eq split: if_splits)

lemma b64_char_not_newline [simp]: "n < 64 \<Longrightarrow> \<not> is_newline (b64_char n)"
  by (auto simp: is_newline_def b64_char_def)

lemma b64_val_newline: "is_newline c \<Longrightarrow> b64_val c = None"
  by (auto simp: b64_val_def is_newline_def)

lemma b64_index_bounds [simp]:
  "ord a div 4 < 64" "(ord a mod 4) * 16 < 64" "(ord a mod 4) * 16 + ord b div 16 < 64"
  "(ord b mod 16) * 4 < 64" "(ord b mod 16) * 4 + ord c div 64 < 64"
proof -
  have a: "ord a < 256" and b: "ord b < 256" and c: "ord c < 256" by simp_all
  show "ord a div 4 < 64" using a by linarith
  show "(ord a mod 4) * 16 < 64" by linarith
  have "ord b div 16 < 16" using b by linarith
  moreover have "ord a mod 4 < 4" by simp
  ultimately show "(ord a mod 4) * 16 + ord b div 16 < 64" by linarith
  show "(ord b mod 16) * 4 < 64" by linarith
  have "ord c div 64 < 4" using c by linarith
  moreover have "ord b mod 16 < 16" by simp
  ultimately show "(ord b mod 16) * 4 + ord c div 64 < 64" by linarith
qed

section \<open>The round trip and the length of an encoding\<close>

lemma b64_vals_append:
  "b64_vals (xs @ ys) =
     (case b64_vals xs of None \<Rightarrow> None | Some vs \<Rightarrow> map_option ((@) vs) (b64_vals ys))"
  by (induction xs)
     (auto split: option.splits simp: option.map_comp comp_def option.map_ident map_option_case)

lemma b64_vals_length: "b64_vals cs = Some vs \<Longrightarrow> length vs = length cs"
  by (induction cs arbitrary: vs) (auto split: option.splits)

lemma b64_vals_small: "b64_vals cs = Some vs \<Longrightarrow> \<forall>v \<in> set vs. v < 64"
  by (induction cs arbitrary: vs) (auto split: option.splits dest: b64_val_less)

lemma set_EncodeToString: "c \<in> set (EncodeToString bs) \<Longrightarrow> \<exists>n < 64. c = b64_char n"
  by (induction bs rule: EncodeToString.induct) (auto; force)+

lemma filter_EncodeToString:
  "filter (\<lambda>c. \<not> is_newline c) (EncodeToString bs) = EncodeToString bs"
  by (rule filter_True) (auto dest: set_EncodeToString)

lemma nibble_less: "ord b div 16 < 16" "ord c div 64 < 4"
  using ord_less_256 [of b] ord_less_256 [of c] by linarith+

lemma nibble_simps [simp]:
  "ord b div 16 div 16 = 0" "ord b div 16 mod 16 = ord b div 16"
  "ord c div 64 div 4 = 0" "ord c div 64 mod 4 = ord c div 64"
  by (simp_all only: div_less mod_less nibble_less)

lemma b64_vals_EncodeToString:
  "\<exists>vs. b64_vals (EncodeToString bs) = Some vs \<and> b64_groups vs = Some bs"
proof (induction bs rule: EncodeToString.induct)
  case (4 a b c rest)
  then obtain vs where "b64_vals (EncodeToString rest) = Some vs" "b64_groups vs = Some rest"
    by blast
  then show ?case by (simp add: char_of_char)
qed (simp_all add: char_of_char)

lemma decode_encode: "DecodeString (EncodeToString bs) = Some bs"
  using b64_vals_EncodeToString [of bs]
  by (auto simp: DecodeString_def filter_EncodeToString)

lemma EncodeToString_inj: "EncodeToString xs = EncodeToString ys \<Longrightarrow> xs = ys"
  by (metis decode_encode option.inject)

lemma length_EncodeToString: "length (EncodeToString bs) = (length bs * 4 + 2) div 3"
  by (induction bs rule: EncodeToString.induct) auto

lemma length_b64_groups:
  "b64_groups vs = Some bs \<Longrightarrow> length bs = length vs * 3 div 4 \<and> length vs mod 4 \<noteq> 1"
proof (induction vs arbitrary: bs rule: b64_groups.induct)
  case (5 w x y z rest)
  then obtain bs' where "b64_groups rest = Some bs'" "length bs = 3 + length bs'" by auto
  with "5.IH" show ?case by fastforce
qed auto

lemma b64_groups_defined: "length vs mod 4 \<noteq> 1 \<Longrightarrow> b64_groups vs \<noteq> None"
  by (induction vs rule: b64_groups.induct) auto

end
