(* ===== verification/Sha256.thy ===== *)
theory Sha256
  imports Prelude
begin

unbundle bit_operations_syntax

text \<open>
  SHA-256 (FIPS 180-4) as Go's \<open>crypto/sha256\<close> computes it and the lower-case hexadecimal
  of \<open>encoding/hex\<close>: what \<open>internal/platform/crypto/hash.go\<close> stores instead of bearer
  tokens and what upload parts are checked against.
\<close>

type_synonym u32 = "32 word"
type_synonym hash_state = "u32 list"

section \<open>The compression function\<close>

text \<open>
  The round constants are the first 32 bits of the fractional parts of the cube roots of the
  first 64 primes, the initial state those of the square roots of the first 8, in decimal.
\<close>

definition sha256_K :: "u32 list" where
  "sha256_K =
    [1116352408, 1899447441, 3049323471, 3921009573, 961987163, 1508970993, 2453635748,
     2870763221, 3624381080, 310598401, 607225278, 1426881987, 1925078388, 2162078206,
     2614888103, 3248222580, 3835390401, 4022224774, 264347078, 604807628, 770255983,
     1249150122, 1555081692, 1996064986, 2554220882, 2821834349, 2952996808, 3210313671,
     3336571891, 3584528711, 113926993, 338241895, 666307205, 773529912, 1294757372,
     1396182291, 1695183700, 1986661051, 2177026350, 2456956037, 2730485921, 2820302411,
     3259730800, 3345764771, 3516065817, 3600352804, 4094571909, 275423344, 430227734,
     506948616, 659060556, 883997877, 958139571, 1322822218, 1537002063, 1747873779,
     1955562222, 2024104815, 2227730452, 2361852424, 2428436474, 2756734187, 3204031479,
     3329325298]"

definition sha256_H0 :: hash_state where
  "sha256_H0 =
    [1779033703, 3144134277, 1013904242, 2773480762, 1359893119, 2600822924, 528734635,
     1541459225]"

definition rotr :: "nat \<Rightarrow> u32 \<Rightarrow> u32" where
  "rotr n x = drop_bit n x OR push_bit (32 - n) x"

definition big_sigma0 :: "u32 \<Rightarrow> u32" where
  "big_sigma0 x = rotr 2 x XOR rotr 13 x XOR rotr 22 x"

definition big_sigma1 :: "u32 \<Rightarrow> u32" where
  "big_sigma1 x = rotr 6 x XOR rotr 11 x XOR rotr 25 x"

definition small_sigma0 :: "u32 \<Rightarrow> u32" where
  "small_sigma0 x = rotr 7 x XOR rotr 18 x XOR drop_bit 3 x"

definition small_sigma1 :: "u32 \<Rightarrow> u32" where
  "small_sigma1 x = rotr 17 x XOR rotr 19 x XOR drop_bit 10 x"

text \<open>The message schedule: the 16 words of the block, extended to 64.\<close>

fun extend_schedule :: "nat \<Rightarrow> u32 list \<Rightarrow> u32 list" where
  "extend_schedule 0 w = w"
| "extend_schedule (Suc n) w =
     (let t = length w
      in extend_schedule n
           (w @ [small_sigma1 (w ! (t - 2)) + w ! (t - 7) +
                 small_sigma0 (w ! (t - 15)) + w ! (t - 16)]))"

fun sha256_round :: "hash_state \<Rightarrow> u32 \<times> u32 \<Rightarrow> hash_state" where
  "sha256_round [a, b, c, d, e, f, g, h] (k, w) =
     (let t1 = h + big_sigma1 e + ((e AND f) XOR (NOT e AND g)) + k + w;
          t2 = big_sigma0 a + ((a AND b) XOR (a AND c) XOR (b AND c))
      in [t1 + t2, a, b, c, d + t1, e, f, g])"
| "sha256_round s _ = s"

definition be32 :: "char list \<Rightarrow> u32" where
  "be32 cs = foldl (\<lambda>acc c. push_bit 8 acc OR of_char c) 0 cs"

fun split_every :: "nat \<Rightarrow> nat \<Rightarrow> 'a list \<Rightarrow> 'a list list" where
  "split_every 0 n xs = []"
| "split_every (Suc k) n xs = take n xs # split_every k n (drop n xs)"

definition sha256_block :: "hash_state \<Rightarrow> bytes \<Rightarrow> hash_state" where
  "sha256_block h block =
     map2 (+) h
       (foldl sha256_round h
          (zip sha256_K (extend_schedule 48 (map be32 (split_every 16 4 block)))))"

section \<open>Padding and the digest\<close>

fun be_bytes :: "nat \<Rightarrow> int \<Rightarrow> bytes" where
  "be_bytes 0 n = []"
| "be_bytes (Suc k) n = be_bytes k (n div 256) @ [char_of n]"

definition pad_zeros :: "nat \<Rightarrow> nat" where
  "pad_zeros len = (if len mod 64 < 56 then 55 - len mod 64 else 119 - len mod 64)"

definition sha256_pad :: "bytes \<Rightarrow> bytes" where
  "sha256_pad msg =
     msg @ [chr 128] @ replicate (pad_zeros (length msg)) (chr 0) @
     be_bytes 8 (8 * int (length msg))"

definition Sum256 :: "bytes \<Rightarrow> bytes" where
  "Sum256 msg =
     (let p = sha256_pad msg
      in concat (map (\<lambda>w. be_bytes 4 (uint w))
           (foldl sha256_block sha256_H0 (split_every (length p div 64) 64 p))))"

section \<open>Hexadecimal\<close>

definition hex_digit :: "nat \<Rightarrow> char" where
  "hex_digit n = chr (if n < 10 then n + 48 else n + 87)"

definition hex_EncodeToString :: "bytes \<Rightarrow> string" where
  "hex_EncodeToString bs = concat (map (\<lambda>b. [hex_digit (ord b div 16), hex_digit (ord b mod 16)]) bs)"

section \<open>Lengths\<close>

lemma length_be_bytes [simp]: "length (be_bytes k n) = k"
  by (induction k arbitrary: n) auto

lemma pad_zeros_block: "(len + pad_zeros len + 9) mod 64 = 0"
proof -
  have "(len mod 64 + (pad_zeros len + 9)) mod 64 = 0"
  proof (cases "len mod 64 < 56")
    case False
    moreover have "len mod 64 < 64" by simp
    ultimately have eq: "len mod 64 + (pad_zeros len + 9) = 128" by (simp add: pad_zeros_def)
    show ?thesis unfolding eq by simp
  qed (simp add: pad_zeros_def)
  then show ?thesis by (simp add: mod_add_left_eq add.assoc)
qed

lemma length_sha256_pad: "length (sha256_pad msg) mod 64 = 0"
  using pad_zeros_block [of "length msg"] by (simp add: sha256_pad_def add_ac)

lemma length_sha256_round: "length s = 8 \<Longrightarrow> length (sha256_round s kw) = 8"
  by (cases "(s, kw)" rule: sha256_round.cases) (auto simp: Let_def)

lemma length_fold_rounds: "length s = 8 \<Longrightarrow> length (foldl sha256_round s kws) = 8"
  by (induction kws arbitrary: s) (auto simp: length_sha256_round)

lemma length_sha256_block: "length h = 8 \<Longrightarrow> length (sha256_block h b) = 8"
  by (simp add: sha256_block_def length_fold_rounds)

lemma length_fold_blocks: "length h = 8 \<Longrightarrow> length (foldl sha256_block h bs) = 8"
  by (induction bs arbitrary: h) (auto simp: length_sha256_block)

lemma length_concat_const: "\<forall>x \<in> set xs. length (f x) = k \<Longrightarrow> length (concat (map f xs)) = k * length xs"
  by (induction xs) auto

lemma length_Sum256: "length (Sum256 msg) = 32"
  by (simp add: Sum256_def Let_def length_concat_const [where k = 4] length_fold_blocks sha256_H0_def)

lemma length_hex: "length (hex_EncodeToString bs) = 2 * length bs"
  unfolding hex_EncodeToString_def by (rule length_concat_const) simp

definition is_hex_digit :: "char \<Rightarrow> bool" where
  "is_hex_digit c \<longleftrightarrow> (48 \<le> ord c \<and> ord c \<le> 57) \<or> (97 \<le> ord c \<and> ord c \<le> 102)"

lemma is_hex_digit_hex_digit: "n < 16 \<Longrightarrow> is_hex_digit (hex_digit n)"
  by (auto simp: is_hex_digit_def hex_digit_def of_char_of)

lemma hex_digits: "c \<in> set (hex_EncodeToString bs) \<Longrightarrow> is_hex_digit c"
proof -
  assume "c \<in> set (hex_EncodeToString bs)"
  then obtain b where "c = hex_digit (ord b div 16) \<or> c = hex_digit (ord b mod 16)"
    by (auto simp: hex_EncodeToString_def)
  moreover have "ord b div 16 < 16" using nat_of_char_less_256 [of b] by linarith
  ultimately show ?thesis by (auto simp: is_hex_digit_hex_digit)
qed

end
