(* ===== verification/Domain.thy ===== *)
theory Domain
  imports App_Errors Base64 Sha256
begin

text \<open>
  The domain types and rules: \<open>internal/domain\<close> (secrets, tombstones, upload sessions, transfers,
  validation of what clients send, storage keys) and \<open>internal/platform/crypto/hash.go\<close> (token
  hashes and their comparison).
\<close>

section \<open>Records\<close>

record Secret =
  s_PublicID :: string
  s_MetadataTokenHash :: string
  s_BlobTokenHash :: string
  s_DeletionTokenHash :: string
  s_EncryptedMeta :: string
  s_BlobSize :: int
  s_BurnAfterRead :: bool
  s_ExpiresAt :: time
  s_CreatedAt :: time
  s_RetrievedAt :: "time option"
  s_StorageKey :: string

datatype TombstoneOutcome = TombstoneOpened | TombstoneExpired | TombstoneDeleted

fun outcome_string :: "TombstoneOutcome \<Rightarrow> string" where
  "outcome_string TombstoneOpened = ''opened''"
| "outcome_string TombstoneExpired = ''expired''"
| "outcome_string TombstoneDeleted = ''deleted''"

record SecretTombstone =
  tb_PublicID :: string
  tb_MetadataTokenHash :: string
  tb_DeletionTokenHash :: string
  tb_Outcome :: TombstoneOutcome
  tb_BurnAfterRead :: bool
  tb_EndedAt :: time
  tb_FirstOpenedAt :: "time option"
  tb_OpenedByOwner :: bool
  tb_KeepUntil :: time

datatype UploadSessionState =
    UploadSessionStatePending | UploadSessionStateCompleted | UploadSessionStateAborted

record UploadSession =
  u_SessionID :: string
  u_UploadTokenHash :: string
  u_PublicID :: string
  u_StorageKey :: string
  u_S3UploadID :: string
  u_BlobSize :: int
  u_MetadataTokenHash :: string
  u_BlobTokenHash :: string
  u_DeletionTokenHash :: string
  u_EncryptedMeta :: string
  u_BurnAfterRead :: bool
  u_SecretExpiresAt :: time
  u_UploadExpiresAt :: time
  u_State :: UploadSessionState
  u_CreatedAt :: time
  u_CompletedAt :: "time option"
  u_AbortedAt :: "time option"

record UploadPart =
  p_SessionID :: string
  p_PartNumber :: int
  p_Offset :: int
  p_Size :: int
  p_SHA256 :: string
  p_ETag :: string
  p_CreatedAt :: time

record CompletedPart =
  cp_PartNumber :: int
  cp_ETag :: string

record CleanupBatch =
  Found :: nat
  Removed :: nat

section \<open>Transfers\<close>

definition TransferSideSender :: string where "TransferSideSender = ''sender''"
definition TransferSideReceiver :: string where "TransferSideReceiver = ''receiver''"
definition TransferCloseDone :: string where "TransferCloseDone = ''done''"
definition TransferCloseCancelled :: string where "TransferCloseCancelled = ''cancelled''"
definition TransferCloseMismatch :: string where "TransferCloseMismatch = ''mismatch''"
definition TransferCloseExpired :: string where "TransferCloseExpired = ''expired''"

lemmas transfer_consts =
  TransferSideSender_def TransferSideReceiver_def TransferCloseDone_def
  TransferCloseCancelled_def TransferCloseMismatch_def TransferCloseExpired_def

definition TransferShareBytes :: nat where "TransferShareBytes = 32"
definition TransferConfirmationBytes :: nat where "TransferConfirmationBytes = 32"
definition TransferDeliveryBytes :: nat where "TransferDeliveryBytes = 552"

lemmas transfer_sizes =
  TransferShareBytes_def TransferConfirmationBytes_def TransferDeliveryBytes_def

text \<open>A nil byte slice is \<open>None\<close>.\<close>

record Transfer =
  t_TransferID :: string
  t_Nameplate :: int
  t_SenderTokenHash :: string
  t_ReceiverTokenHash :: string
  t_Offer :: bytes
  t_AnswerShare :: "bytes option"
  t_AnswerConfirmation :: "bytes option"
  t_Delivery :: "bytes option"
  t_CloseReason :: string
  t_CreatedAt :: time
  t_ExpiresAt :: time
  t_ClosedAt :: "time option"

definition Claimed :: "Transfer \<Rightarrow> bool" where
  "Claimed t \<longleftrightarrow> t_ReceiverTokenHash t \<noteq> []"

definition Answered :: "Transfer \<Rightarrow> bool" where
  "Answered t \<longleftrightarrow> t_AnswerShare t \<noteq> None"

definition Delivered :: "Transfer \<Rightarrow> bool" where
  "Delivered t \<longleftrightarrow> t_Delivery t \<noteq> None"

definition Ended :: "Transfer \<Rightarrow> time \<Rightarrow> bool" where
  "Ended t now \<longleftrightarrow> t_ClosedAt t \<noteq> None \<or> \<not> now < t_ExpiresAt t"

definition ValidTransferCloseReason :: "string \<Rightarrow> bool" where
  "ValidTransferCloseReason reason \<longleftrightarrow>
     reason = TransferCloseCancelled \<or> reason = TransferCloseMismatch"

section \<open>Tombstones\<close>

definition TombstoneRetention :: duration where
  "TombstoneRetention = 7 * 24 * time_Hour"

definition TombstoneKeepUntil :: "time \<Rightarrow> time \<Rightarrow> time" where
  "TombstoneKeepUntil expiresAt endedAt =
     (if endedAt > expiresAt then endedAt + TombstoneRetention
      else expiresAt + TombstoneRetention)"

lemma TombstoneKeepUntil_max:
  "TombstoneKeepUntil e d = max e d + TombstoneRetention"
  by (simp add: TombstoneKeepUntil_def)

section \<open>Validation\<close>

definition PublicIDLength :: nat where "PublicIDLength = 22"
definition TokenLength :: nat where "TokenLength = 43"
definition EncryptedMetaMaxBytes :: nat where "EncryptedMetaMaxBytes = 8192"
definition metadataV2NonceLength :: nat where "metadataV2NonceLength = 24"

text \<open>
  The Go loop ranges over the runes of the string. A byte outside ASCII starts a rune of at
  least 128 or an invalid one, which no branch accepts, so the loop accepts exactly the
  strings all of whose bytes are accepted.
\<close>

fun base64url_bytes :: "string \<Rightarrow> bool" where
  "base64url_bytes [] = True"
| "base64url_bytes (r # rs) =
     (if 65 \<le> ord r \<and> ord r \<le> 90 then base64url_bytes rs
      else if 97 \<le> ord r \<and> ord r \<le> 122 then base64url_bytes rs
      else if 48 \<le> ord r \<and> ord r \<le> 57 then base64url_bytes rs
      else if ord r = 45 \<or> ord r = 95 then base64url_bytes rs
      else False)"

definition isUnpaddedBase64URL :: "string \<Rightarrow> bool" where
  "isUnpaddedBase64URL value = (if value = [] then False else base64url_bytes value)"

definition ValidPublicID :: "string \<Rightarrow> bool" where
  "ValidPublicID publicID \<longleftrightarrow> length publicID = PublicIDLength \<and> isUnpaddedBase64URL publicID"

definition ValidToken :: "string \<Rightarrow> bool" where
  "ValidToken token \<longleftrightarrow> length token = TokenLength \<and> isUnpaddedBase64URL token"

definition ValidEncryptedMeta :: "string \<Rightarrow> bool" where
  "ValidEncryptedMeta envelope =
     (if envelope = [] \<or> length envelope > EncryptedMetaMaxBytes then False
      else (case strings_Split envelope (CHR ''$'') of
              [version, nonceText, cipherText] \<Rightarrow>
                (if version \<noteq> ''v2'' then False
                 else (case DecodeString nonceText of
                         None \<Rightarrow> False
                       | Some nonce \<Rightarrow>
                           (if length nonce \<noteq> metadataV2NonceLength then False
                            else if cipherText = [] \<or> \<not> isUnpaddedBase64URL cipherText then False
                            else DecodeString cipherText \<noteq> None)))
            | _ \<Rightarrow> False))"

lemmas validation_consts =
  PublicIDLength_def TokenLength_def EncryptedMetaMaxBytes_def metadataV2NonceLength_def

section \<open>Storage keys and token hashes\<close>

definition UploadStorageKey :: "string \<Rightarrow> string" where
  "UploadStorageKey sessionID = ''blobs/'' @ sessionID"

definition TokenHash :: "string \<Rightarrow> string" where
  "TokenHash token = hex_EncodeToString (Sum256 token)"

text \<open>\<open>subtle.ConstantTimeCompare\<close>: the differences of all byte pairs are collected in one word.\<close>

definition ConstantTimeCompare :: "bytes \<Rightarrow> bytes \<Rightarrow> nat" where
  "ConstantTimeCompare x y =
     (if length x \<noteq> length y then 0
      else if foldl (\<lambda>v (a, b). v OR (of_char a XOR of_char b)) (0 :: 8 word) (zip x y) = 0
           then 1 else 0)"

definition TokensEqual :: "string \<Rightarrow> string \<Rightarrow> bool" where
  "TokensEqual a b \<longleftrightarrow> ConstantTimeCompare a b = 1"

section \<open>Facts about validation\<close>

lemma base64url_bytes_iff: "base64url_bytes s \<longleftrightarrow> (\<forall>c \<in> set s. b64_val c \<noteq> None)"
  by (induction s) (auto simp: b64_val_def)

lemma isUnpaddedBase64URL_iff:
  "isUnpaddedBase64URL s \<longleftrightarrow> s \<noteq> [] \<and> (\<forall>c \<in> set s. b64_val c \<noteq> None)"
  by (simp add: isUnpaddedBase64URL_def base64url_bytes_iff)

lemma isUnpaddedBase64URL_encode: "bs \<noteq> [] \<Longrightarrow> isUnpaddedBase64URL (EncodeToString bs)"
  by (auto simp: isUnpaddedBase64URL_iff dest!: set_EncodeToString)
     (cases bs rule: EncodeToString.cases; simp)

lemma b64_vals_defined: "(\<forall>c \<in> set s. b64_val c \<noteq> None) \<Longrightarrow> \<exists>vs. b64_vals s = Some vs"
  by (induction s) auto

lemma DecodeString_url:
  assumes "isUnpaddedBase64URL s"
  obtains vs where "b64_vals s = Some vs" "length vs = length s" "DecodeString s = b64_groups vs"
proof -
  have "filter (\<lambda>c. \<not> is_newline c) s = s"
    using assms by (fastforce simp: isUnpaddedBase64URL_iff filter_id_conv dest: b64_val_newline)
  moreover obtain vs where "b64_vals s = Some vs"
    using assms b64_vals_defined [of s] by (auto simp: isUnpaddedBase64URL_iff)
  ultimately show ?thesis using that [of vs] by (simp add: DecodeString_def b64_vals_length)
qed

lemma ValidToken_decodes:
  assumes "ValidToken s"
  shows "\<exists>bs. DecodeString s = Some bs \<and> length bs = 32"
proof -
  have len: "length s = 43" and url: "isUnpaddedBase64URL s"
    using assms by (auto simp: ValidToken_def TokenLength_def)
  obtain vs where vs: "length vs = length s" "DecodeString s = b64_groups vs"
    using DecodeString_url [OF url] by blast
  then have "b64_groups vs \<noteq> None" using len by (intro b64_groups_defined) simp
  with vs len length_b64_groups [of vs] show ?thesis by auto
qed

lemma ValidToken_encode: "length bs = 32 \<Longrightarrow> ValidToken (EncodeToString bs)"
  by (auto simp: ValidToken_def TokenLength_def length_EncodeToString intro!: isUnpaddedBase64URL_encode)

lemma ValidPublicID_encode: "length bs = 16 \<Longrightarrow> ValidPublicID (EncodeToString bs)"
  by (auto simp: ValidPublicID_def PublicIDLength_def length_EncodeToString
      intro!: isUnpaddedBase64URL_encode)

lemma ValidToken_not_Nil [simp]: "\<not> ValidToken []" "\<not> ValidPublicID []"
  by (simp_all add: ValidToken_def ValidPublicID_def isUnpaddedBase64URL_def)

section \<open>Facts about token hashes\<close>

lemma of_char_word_inj: "(of_char a :: 8 word) = of_char b \<longleftrightarrow> a = b"
proof
  assume "(of_char a :: 8 word) = of_char b"
  then have "unat (of_nat (ord a) :: 8 word) = unat (of_nat (ord b) :: 8 word)"
    by (simp add: of_nat_of_char)
  then have "ord a = ord b"
    using ord_less_256 [of a] ord_less_256 [of b] by (simp add: unat_of_nat)
  then show "a = b" by simp
qed simp

lemma word_or_zero: "(a :: 'a::len word) OR b = 0 \<longleftrightarrow> a = 0 \<and> b = 0"
  by (metis or_eq_0_iff)

lemma word_xor_zero: "(a :: 'a::len word) XOR b = 0 \<longleftrightarrow> a = b"
  by (metis xor.assoc xor.right_neutral xor_self_eq)

lemma compare_fold:
  "foldl (\<lambda>v (a, b). v OR (of_char a XOR of_char b)) (v :: 8 word) ps = 0 \<longleftrightarrow>
     v = 0 \<and> (\<forall>(a, b) \<in> set ps. a = b)"
  by (induction ps arbitrary: v) (auto simp: word_or_zero word_xor_zero of_char_word_inj)

lemma TokensEqual_iff [simp]: "TokensEqual a b \<longleftrightarrow> a = b"
proof (cases "length a = length b")
  case True
  then have "(\<forall>(x, y) \<in> set (zip a b). x = y) \<longleftrightarrow> a = b"
    by (induction a b rule: list_induct2) auto
  with True show ?thesis by (simp add: TokensEqual_def ConstantTimeCompare_def compare_fold)
next
  case False
  then show ?thesis by (auto simp: TokensEqual_def ConstantTimeCompare_def)
qed

lemma length_TokenHash [simp]: "length (TokenHash t) = 64"
  by (simp add: TokenHash_def length_hex length_Sum256)

lemma TokenHash_not_Nil [simp]: "TokenHash t \<noteq> []"
  using length_TokenHash [of t] by (cases "TokenHash t") auto

lemma UploadStorageKey_inj [simp]: "UploadStorageKey a = UploadStorageKey b \<longleftrightarrow> a = b"
  by (simp add: UploadStorageKey_def)

end
