(* ===== verification/Db.thy ===== *)
theory Db
  imports Domain
begin

text \<open>
  The database: the tables of \<open>internal/adapter/postgres/migrations\<close> and the statements of
  \<open>internal/adapter/postgres/queries\<close>, as sqlc embeds them in \<open>dbsqlc/*.sql.go\<close>.

  A table is the list of its rows. A select filters, an update maps, a delete filters, an
  insert appends after checking the primary key, the unique indexes and the foreign key.
  \<open>ORDER BY\<close> is a stable sort: rows that tie stay in insertion order (SQL leaves their order
  open). \<open>FOR UPDATE SKIP LOCKED\<close> takes the set of rows other transactions hold locked as
  the argument \<open>locked\<close>. The trigger of migration 007 appends to \<open>notified\<close>.
  Rows whose columns are all \<open>NOT NULL\<close> up to one timestamp are the domain records; the
  two tables with nullable text or bytes have row types of their own. Bounds of column
  types are checked where the code converts (\<open>int32\<close>); timestamps are exact here, while
  the driver rounds them to microseconds.
\<close>

section \<open>Rows\<close>

record RetrievalSession =
  rs_PublicID :: string
  rs_SessionTokenHash :: string
  rs_ExpiresAt :: time
  rs_CreatedAt :: time

record UploadSessionRow =
  us_SessionID :: string
  us_PublicID :: string
  us_UploadTokenHash :: string
  us_MetadataTokenHash :: "string option"
  us_BlobTokenHash :: "string option"
  us_DeletionTokenHash :: "string option"
  us_S3UploadID :: string
  us_BlobSize :: int
  us_EncryptedMeta :: "string option"
  us_BurnAfterRead :: bool
  us_SecretExpiresAt :: time
  us_UploadExpiresAt :: time
  us_State :: UploadSessionState
  us_CreatedAt :: time
  us_CompletedAt :: "time option"
  us_AbortedAt :: "time option"
  us_StorageKey :: string

record CodeTransfer =
  ct_TransferID :: string
  ct_Nameplate :: int
  ct_SenderTokenHash :: string
  ct_ReceiverTokenHash :: "string option"
  ct_Offer :: bytes
  ct_AnswerShare :: "bytes option"
  ct_AnswerConfirmation :: "bytes option"
  ct_Delivery :: "bytes option"
  ct_CloseReason :: "string option"
  ct_CreatedAt :: time
  ct_ExpiresAt :: time
  ct_ClosedAt :: "time option"

record db =
  secrets :: "Secret list"
  retrieval_sessions :: "RetrievalSession list"
  secret_tombstones :: "SecretTombstone list"
  upload_sessions :: "UploadSessionRow list"
  upload_parts :: "UploadPart list"
  code_transfers :: "CodeTransfer list"
  notified :: "string list"

definition empty_db :: db where
  "empty_db = \<lparr>secrets = [], retrieval_sessions = [], secret_tombstones = [],
     upload_sessions = [], upload_parts = [], code_transfers = [], notified = []\<rparr>"

section \<open>Statement errors\<close>

datatype sql_error = UniqueViolation string | ForeignKeyViolation

definition isDuplicateKeyError :: "sql_error \<Rightarrow> bool" where
  "isDuplicateKeyError e = (case e of UniqueViolation _ \<Rightarrow> True | ForeignKeyViolation \<Rightarrow> False)"

section \<open>secrets.sql\<close>

definition q_CreateSecret :: "Secret \<Rightarrow> db \<Rightarrow> sql_error + db" where
  "q_CreateSecret s db =
     (if s_PublicID s \<in> set (map s_PublicID (secrets db))
      then Inl (UniqueViolation ''secrets_pkey'')
      else Inr (db\<lparr>secrets := secrets db @ [s\<lparr>s_RetrievedAt := None\<rparr>]\<rparr>))"

definition q_GetSecretByPublicID :: "string \<Rightarrow> time \<Rightarrow> db \<Rightarrow> Secret option" where
  "q_GetSecretByPublicID publicID nowAt db =
     find (\<lambda>s. s_PublicID s = publicID \<and> s_ExpiresAt s > nowAt) (secrets db)"

definition q_GetSecretIgnoringExpiry :: "string \<Rightarrow> db \<Rightarrow> Secret option" where
  "q_GetSecretIgnoringExpiry publicID db = find (\<lambda>s. s_PublicID s = publicID) (secrets db)"

definition claimable :: "time \<Rightarrow> string \<Rightarrow> string \<Rightarrow> Secret \<Rightarrow> bool" where
  "claimable nowAt publicID blobTokenHash s \<longleftrightarrow>
     s_PublicID s = publicID \<and> s_BlobTokenHash s = blobTokenHash \<and> s_BurnAfterRead s \<and>
     s_RetrievedAt s = None \<and> s_ExpiresAt s > nowAt"

definition q_ClaimBurnAfterRead :: "time \<Rightarrow> string \<Rightarrow> string \<Rightarrow> db \<Rightarrow> nat \<times> db" where
  "q_ClaimBurnAfterRead nowAt publicID blobTokenHash db =
     (length (filter (claimable nowAt publicID blobTokenHash) (secrets db)),
      db\<lparr>secrets := map (\<lambda>s. if claimable nowAt publicID blobTokenHash s
                            then s\<lparr>s_RetrievedAt := Some nowAt\<rparr> else s) (secrets db)\<rparr>)"

definition q_MarkSecretOpened :: "time \<Rightarrow> string \<Rightarrow> db \<Rightarrow> db" where
  "q_MarkSecretOpened nowAt publicID db =
     db\<lparr>secrets := map (\<lambda>s. if s_PublicID s = publicID \<and> s_RetrievedAt s = None
                           then s\<lparr>s_RetrievedAt := Some nowAt\<rparr> else s) (secrets db)\<rparr>"

text \<open>Deleting a secret deletes its retrieval sessions (\<open>ON DELETE CASCADE\<close>).\<close>

definition delete_secrets :: "(string \<Rightarrow> bool) \<Rightarrow> db \<Rightarrow> db" where
  "delete_secrets P db =
     db\<lparr>secrets := filter (\<lambda>s. \<not> P (s_PublicID s)) (secrets db),
        retrieval_sessions := filter (\<lambda>r. \<not> P (rs_PublicID r)) (retrieval_sessions db)\<rparr>"

definition q_DeleteSecret :: "string \<Rightarrow> db \<Rightarrow> Secret option \<times> db" where
  "q_DeleteSecret publicID db =
     (find (\<lambda>s. s_PublicID s = publicID) (secrets db), delete_secrets (\<lambda>p. p = publicID) db)"

definition secret_due :: "time \<Rightarrow> db \<Rightarrow> Secret \<Rightarrow> bool" where
  "secret_due nowAt db s \<longleftrightarrow>
     s_ExpiresAt s < nowAt \<or>
     (s_BurnAfterRead s \<and> s_RetrievedAt s \<noteq> None \<and>
      \<not> (\<exists>rs \<in> set (retrieval_sessions db).
           rs_PublicID rs = s_PublicID s \<and> rs_ExpiresAt rs > nowAt))"

definition q_SelectSecretsForCleanup :: "(string \<Rightarrow> bool) \<Rightarrow> time \<Rightarrow> int \<Rightarrow> db \<Rightarrow> Secret list" where
  "q_SelectSecretsForCleanup locked nowAt batchSize db =
     take (nat batchSize)
       (filter (\<lambda>s. \<not> locked (s_PublicID s))
         (sort_key s_ExpiresAt (filter (secret_due nowAt db) (secrets db))))"

definition q_DeleteSecretsByPublicIDs :: "string list \<Rightarrow> db \<Rightarrow> nat \<times> db" where
  "q_DeleteSecretsByPublicIDs publicIds db =
     (length (filter (\<lambda>s. s_PublicID s \<in> set publicIds) (secrets db)),
      delete_secrets (\<lambda>p. p \<in> set publicIds) db)"

section \<open>retrieval\_sessions.sql\<close>

definition q_GetSecretByPublicIDForUpdate :: "string \<Rightarrow> time \<Rightarrow> db \<Rightarrow> Secret option" where
  "q_GetSecretByPublicIDForUpdate publicID nowAt db =
     find (\<lambda>s. s_PublicID s = publicID \<and> s_ExpiresAt s > nowAt) (secrets db)"

definition q_CreateRetrievalSession :: "RetrievalSession \<Rightarrow> db \<Rightarrow> sql_error + db" where
  "q_CreateRetrievalSession r db =
     (if rs_SessionTokenHash r \<in> set (map rs_SessionTokenHash (retrieval_sessions db))
      then Inl (UniqueViolation ''retrieval_sessions_session_token_hash_key'')
      else if rs_PublicID r \<notin> set (map s_PublicID (secrets db)) then Inl ForeignKeyViolation
      else Inr (db\<lparr>retrieval_sessions := retrieval_sessions db @ [r]\<rparr>))"

text \<open>The join, as the secret of the first session that matches.\<close>

definition q_GetSecretByRetrievalSession :: "string \<Rightarrow> string \<Rightarrow> time \<Rightarrow> db \<Rightarrow> Secret option" where
  "q_GetSecretByRetrievalSession publicID sessionTokenHash nowAt db =
     (case find (\<lambda>rs. rs_PublicID rs = publicID \<and> rs_SessionTokenHash rs = sessionTokenHash \<and>
                      rs_ExpiresAt rs > nowAt) (retrieval_sessions db) of
        None \<Rightarrow> None
      | Some rs \<Rightarrow>
          find (\<lambda>s. s_PublicID s = rs_PublicID rs \<and> s_PublicID s = publicID \<and> s_ExpiresAt s > nowAt)
            (secrets db))"

definition q_DeleteExpiredRetrievalSessions :: "time \<Rightarrow> db \<Rightarrow> nat \<times> db" where
  "q_DeleteExpiredRetrievalSessions nowAt db =
     (length (filter (\<lambda>r. rs_ExpiresAt r < nowAt) (retrieval_sessions db)),
      db\<lparr>retrieval_sessions := filter (\<lambda>r. \<not> rs_ExpiresAt r < nowAt) (retrieval_sessions db)\<rparr>)"

section \<open>secret\_tombstones.sql\<close>

text \<open>\<open>ON CONFLICT (public_id) DO NOTHING\<close>: the first outcome recorded stays.\<close>

definition insert_tombstone :: "SecretTombstone \<Rightarrow> SecretTombstone list \<Rightarrow> SecretTombstone list" where
  "insert_tombstone t ts =
     (if tb_PublicID t \<in> set (map tb_PublicID ts) then ts else ts @ [t])"

definition q_CreateTombstone :: "SecretTombstone \<Rightarrow> db \<Rightarrow> db" where
  "q_CreateTombstone t db = db\<lparr>secret_tombstones := insert_tombstone t (secret_tombstones db)\<rparr>"

definition expired_tombstone :: "time \<Rightarrow> Secret \<Rightarrow> SecretTombstone" where
  "expired_tombstone keepUntil s =
     \<lparr>tb_PublicID = s_PublicID s, tb_MetadataTokenHash = s_MetadataTokenHash s,
      tb_DeletionTokenHash = s_DeletionTokenHash s, tb_Outcome = TombstoneExpired,
      tb_BurnAfterRead = s_BurnAfterRead s, tb_EndedAt = s_ExpiresAt s,
      tb_FirstOpenedAt = (if s_BurnAfterRead s then None else s_RetrievedAt s),
      tb_OpenedByOwner = False, tb_KeepUntil = keepUntil\<rparr>"

definition q_CreateTombstonesForExpiredSecrets :: "time \<Rightarrow> string list \<Rightarrow> time \<Rightarrow> db \<Rightarrow> db" where
  "q_CreateTombstonesForExpiredSecrets keepUntil publicIds nowAt db =
     db\<lparr>secret_tombstones :=
          fold (\<lambda>s ts. insert_tombstone (expired_tombstone keepUntil s) ts)
            (filter (\<lambda>s. s_PublicID s \<in> set publicIds \<and> s_ExpiresAt s < nowAt) (secrets db))
            (secret_tombstones db)\<rparr>"

definition q_GetTombstone :: "string \<Rightarrow> time \<Rightarrow> db \<Rightarrow> SecretTombstone option" where
  "q_GetTombstone publicID nowAt db =
     find (\<lambda>t. tb_PublicID t = publicID \<and> tb_KeepUntil t > nowAt) (secret_tombstones db)"

definition q_DeleteExpiredTombstones :: "time \<Rightarrow> db \<Rightarrow> nat \<times> db" where
  "q_DeleteExpiredTombstones nowAt db =
     (length (filter (\<lambda>t. tb_KeepUntil t \<le> nowAt) (secret_tombstones db)),
      db\<lparr>secret_tombstones := filter (\<lambda>t. \<not> tb_KeepUntil t \<le> nowAt) (secret_tombstones db)\<rparr>)"

section \<open>upload\_sessions.sql\<close>

definition is_pending :: "UploadSessionRow \<Rightarrow> bool" where
  "is_pending u \<longleftrightarrow> us_State u = UploadSessionStatePending"

definition q_SecretExistsByPublicID :: "string \<Rightarrow> db \<Rightarrow> bool" where
  "q_SecretExistsByPublicID publicID db \<longleftrightarrow> publicID \<in> set (map s_PublicID (secrets db))"

text \<open>The primary key and the partial unique index of migration 003 on pending sessions.\<close>

definition q_CreateUploadSession :: "UploadSessionRow \<Rightarrow> db \<Rightarrow> sql_error + db" where
  "q_CreateUploadSession u db =
     (let u = u\<lparr>us_State := UploadSessionStatePending, us_CompletedAt := None, us_AbortedAt := None\<rparr>
      in if us_SessionID u \<in> set (map us_SessionID (upload_sessions db))
         then Inl (UniqueViolation ''upload_sessions_pkey'')
         else if us_PublicID u \<in> set (map us_PublicID (filter is_pending (upload_sessions db)))
         then Inl (UniqueViolation ''idx_upload_sessions_pending_public_id'')
         else Inr (db\<lparr>upload_sessions := upload_sessions db @ [u]\<rparr>))"

definition q_GetUploadSession :: "string \<Rightarrow> db \<Rightarrow> UploadSessionRow option" where
  "q_GetUploadSession sessionID db = find (\<lambda>u. us_SessionID u = sessionID) (upload_sessions db)"

definition q_GetUploadSessionForUpdate :: "string \<Rightarrow> db \<Rightarrow> UploadSessionRow option" where
  "q_GetUploadSessionForUpdate sessionID db =
     find (\<lambda>u. us_SessionID u = sessionID) (upload_sessions db)"

definition q_UploadSessionExists :: "string \<Rightarrow> db \<Rightarrow> bool" where
  "q_UploadSessionExists sessionID db \<longleftrightarrow> sessionID \<in> set (map us_SessionID (upload_sessions db))"

definition q_ListExpiredUploadSessionsForUpdate ::
    "(string \<Rightarrow> bool) \<Rightarrow> time \<Rightarrow> int \<Rightarrow> db \<Rightarrow> UploadSessionRow list" where
  "q_ListExpiredUploadSessionsForUpdate locked nowAt batchSize db =
     take (nat batchSize)
       (filter (\<lambda>u. \<not> locked (us_SessionID u))
         (sort_key us_UploadExpiresAt
           (filter (\<lambda>u. is_pending u \<and> us_UploadExpiresAt u < nowAt) (upload_sessions db))))"

definition update_sessions ::
    "(UploadSessionRow \<Rightarrow> bool) \<Rightarrow> (UploadSessionRow \<Rightarrow> UploadSessionRow) \<Rightarrow> db \<Rightarrow> db" where
  "update_sessions P f db =
     db\<lparr>upload_sessions := map (\<lambda>u. if P u then f u else u) (upload_sessions db)\<rparr>"

definition blank_material :: "UploadSessionRow \<Rightarrow> UploadSessionRow" where
  "blank_material u =
     u\<lparr>us_MetadataTokenHash := None, us_BlobTokenHash := None, us_DeletionTokenHash := None,
       us_EncryptedMeta := None\<rparr>"

definition mark_completed :: "time \<Rightarrow> UploadSessionRow \<Rightarrow> UploadSessionRow" where
  "mark_completed nowAt u =
     blank_material (u\<lparr>us_State := UploadSessionStateCompleted, us_CompletedAt := Some nowAt\<rparr>)"

definition mark_aborted :: "time \<Rightarrow> UploadSessionRow \<Rightarrow> UploadSessionRow" where
  "mark_aborted nowAt u =
     blank_material (u\<lparr>us_State := UploadSessionStateAborted, us_AbortedAt := Some nowAt\<rparr>)"

definition q_MarkUploadSessionCompleted :: "time \<Rightarrow> string \<Rightarrow> db \<Rightarrow> db" where
  "q_MarkUploadSessionCompleted nowAt sessionID db =
     update_sessions (\<lambda>u. us_SessionID u = sessionID) (mark_completed nowAt) db"

definition q_MarkUploadSessionAborted :: "time \<Rightarrow> string \<Rightarrow> db \<Rightarrow> nat \<times> db" where
  "q_MarkUploadSessionAborted nowAt sessionID db =
     (length (filter (\<lambda>u. us_SessionID u = sessionID \<and> is_pending u) (upload_sessions db)),
      update_sessions (\<lambda>u. us_SessionID u = sessionID \<and> is_pending u) (mark_aborted nowAt) db)"

definition q_MarkUploadSessionsAborted :: "time \<Rightarrow> string list \<Rightarrow> db \<Rightarrow> nat \<times> db" where
  "q_MarkUploadSessionsAborted nowAt sessionIds db =
     (length (filter (\<lambda>u. us_SessionID u \<in> set sessionIds \<and> is_pending u) (upload_sessions db)),
      update_sessions (\<lambda>u. us_SessionID u \<in> set sessionIds \<and> is_pending u) (mark_aborted nowAt) db)"

definition q_ListUploadPartsBySession :: "string \<Rightarrow> db \<Rightarrow> UploadPart list" where
  "q_ListUploadPartsBySession sessionID db =
     sort_key p_PartNumber (filter (\<lambda>p. p_SessionID p = sessionID) (upload_parts db))"

definition q_GetUploadPartForUpdate :: "string \<Rightarrow> int \<Rightarrow> db \<Rightarrow> UploadPart option" where
  "q_GetUploadPartForUpdate sessionID partNumber db =
     find (\<lambda>p. p_SessionID p = sessionID \<and> p_PartNumber p = partNumber) (upload_parts db)"

definition q_CreateUploadPart :: "UploadPart \<Rightarrow> db \<Rightarrow> sql_error + db" where
  "q_CreateUploadPart p db =
     (if (p_SessionID p, p_PartNumber p) \<in> set (map (\<lambda>p. (p_SessionID p, p_PartNumber p)) (upload_parts db))
      then Inl (UniqueViolation ''upload_parts_pkey'')
      else if p_SessionID p \<notin> set (map us_SessionID (upload_sessions db)) then Inl ForeignKeyViolation
      else Inr (db\<lparr>upload_parts := upload_parts db @ [p]\<rparr>))"

definition q_DeleteUploadPartsBySession :: "string \<Rightarrow> db \<Rightarrow> db" where
  "q_DeleteUploadPartsBySession sessionID db =
     db\<lparr>upload_parts := filter (\<lambda>p. p_SessionID p \<noteq> sessionID) (upload_parts db)\<rparr>"

text \<open>\<open>COALESCE(completed_at, aborted_at) < before\<close>; a null comparison selects nothing. The
  parts go with their session (\<open>ON DELETE CASCADE\<close>).\<close>

definition finished_before :: "time \<Rightarrow> UploadSessionRow \<Rightarrow> bool" where
  "finished_before before u \<longleftrightarrow>
     \<not> is_pending u \<and>
     (case us_CompletedAt u of
        Some t \<Rightarrow> t < before
      | None \<Rightarrow> (case us_AbortedAt u of Some t \<Rightarrow> t < before | None \<Rightarrow> False))"

definition q_DeleteFinishedUploadSessions :: "time \<Rightarrow> db \<Rightarrow> nat \<times> db" where
  "q_DeleteFinishedUploadSessions before db =
     (let gone = map us_SessionID (filter (finished_before before) (upload_sessions db))
      in (length gone,
          db\<lparr>upload_sessions := filter (\<lambda>u. \<not> finished_before before u) (upload_sessions db),
             upload_parts := filter (\<lambda>p. p_SessionID p \<notin> set gone) (upload_parts db)\<rparr>))"

section \<open>code\_transfers.sql\<close>

definition transfer_open :: "CodeTransfer \<Rightarrow> bool" where
  "transfer_open t \<longleftrightarrow> ct_ClosedAt t = None"

definition transfer_active :: "time \<Rightarrow> CodeTransfer \<Rightarrow> bool" where
  "transfer_active nowAt t \<longleftrightarrow> ct_ClosedAt t = None \<and> ct_ExpiresAt t > nowAt"

text \<open>An update also fires the trigger \<open>code_transfers_notify\<close> for every row it touches.\<close>

definition update_transfers ::
    "(CodeTransfer \<Rightarrow> bool) \<Rightarrow> (CodeTransfer \<Rightarrow> CodeTransfer) \<Rightarrow> db \<Rightarrow> nat \<times> db" where
  "update_transfers P f db =
     (length (filter P (code_transfers db)),
      db\<lparr>code_transfers := map (\<lambda>t. if P t then f t else t) (code_transfers db),
         notified := notified db @ map ct_TransferID (filter P (code_transfers db))\<rparr>)"

definition close_row :: "string \<Rightarrow> time \<Rightarrow> CodeTransfer \<Rightarrow> CodeTransfer" where
  "close_row reason nowAt t = t\<lparr>ct_CloseReason := Some reason, ct_ClosedAt := Some nowAt\<rparr>"

definition q_CloseExpiredActiveTransfers :: "time \<Rightarrow> db \<Rightarrow> db" where
  "q_CloseExpiredActiveTransfers nowAt db =
     snd (update_transfers (\<lambda>t. ct_ClosedAt t = None \<and> ct_ExpiresAt t \<le> nowAt)
            (close_row TransferCloseExpired nowAt) db)"

definition q_NextFreeNameplate :: "int \<Rightarrow> db \<Rightarrow> int option" where
  "q_NextFreeNameplate maxNameplate db =
     find (\<lambda>n. n \<notin> set (map ct_Nameplate (filter transfer_open (code_transfers db))))
       [1..maxNameplate]"

definition q_CreateTransfer :: "CodeTransfer \<Rightarrow> db \<Rightarrow> sql_error + db" where
  "q_CreateTransfer t db =
     (if ct_TransferID t \<in> set (map ct_TransferID (code_transfers db))
      then Inl (UniqueViolation ''code_transfers_pkey'')
      else if ct_Nameplate t \<in> set (map ct_Nameplate (filter transfer_open (code_transfers db)))
      then Inl (UniqueViolation ''idx_code_transfers_active_nameplate'')
      else Inr (db\<lparr>code_transfers := code_transfers db @
             [t\<lparr>ct_ReceiverTokenHash := None, ct_AnswerShare := None, ct_AnswerConfirmation := None,
                ct_Delivery := None, ct_CloseReason := None, ct_ClosedAt := None\<rparr>]\<rparr>))"

definition claimable_transfer :: "int \<Rightarrow> time \<Rightarrow> CodeTransfer \<Rightarrow> bool" where
  "claimable_transfer nameplate nowAt t \<longleftrightarrow>
     ct_Nameplate t = nameplate \<and> ct_ReceiverTokenHash t = None \<and> transfer_active nowAt t"

definition q_ClaimTransfer :: "string \<Rightarrow> int \<Rightarrow> time \<Rightarrow> db \<Rightarrow> CodeTransfer option \<times> db" where
  "q_ClaimTransfer receiverTokenHash nameplate nowAt db =
     (map_option (\<lambda>t. t\<lparr>ct_ReceiverTokenHash := Some receiverTokenHash\<rparr>)
        (find (claimable_transfer nameplate nowAt) (code_transfers db)),
      snd (update_transfers (claimable_transfer nameplate nowAt)
             (\<lambda>t. t\<lparr>ct_ReceiverTokenHash := Some receiverTokenHash\<rparr>) db))"

definition q_ClaimedTransferExists :: "int \<Rightarrow> time \<Rightarrow> db \<Rightarrow> bool" where
  "q_ClaimedTransferExists nameplate nowAt db \<longleftrightarrow>
     (\<exists>t \<in> set (code_transfers db).
        ct_Nameplate t = nameplate \<and> ct_ReceiverTokenHash t \<noteq> None \<and> transfer_active nowAt t)"

definition q_GetTransfer :: "string \<Rightarrow> db \<Rightarrow> CodeTransfer option" where
  "q_GetTransfer transferID db = find (\<lambda>t. ct_TransferID t = transferID) (code_transfers db)"

definition answerable :: "string \<Rightarrow> time \<Rightarrow> CodeTransfer \<Rightarrow> bool" where
  "answerable transferID nowAt t \<longleftrightarrow>
     ct_TransferID t = transferID \<and> ct_AnswerShare t = None \<and> ct_ReceiverTokenHash t \<noteq> None \<and>
     transfer_active nowAt t"

definition q_AnswerTransfer :: "bytes \<Rightarrow> bytes \<Rightarrow> string \<Rightarrow> time \<Rightarrow> db \<Rightarrow> nat \<times> db" where
  "q_AnswerTransfer share confirmation transferID nowAt db =
     update_transfers (answerable transferID nowAt)
       (\<lambda>t. t\<lparr>ct_AnswerShare := Some share, ct_AnswerConfirmation := Some confirmation\<rparr>) db"

definition deliverable :: "string \<Rightarrow> time \<Rightarrow> CodeTransfer \<Rightarrow> bool" where
  "deliverable transferID nowAt t \<longleftrightarrow>
     ct_TransferID t = transferID \<and> ct_AnswerShare t \<noteq> None \<and> transfer_active nowAt t"

definition q_DeliverTransfer :: "bytes \<Rightarrow> time \<Rightarrow> string \<Rightarrow> db \<Rightarrow> nat \<times> db" where
  "q_DeliverTransfer delivery nowAt transferID db =
     update_transfers (deliverable transferID nowAt)
       (\<lambda>t. close_row TransferCloseDone nowAt (t\<lparr>ct_Delivery := Some delivery\<rparr>)) db"

definition q_CloseTransfer :: "string \<Rightarrow> time \<Rightarrow> string \<Rightarrow> db \<Rightarrow> nat \<times> db" where
  "q_CloseTransfer reason nowAt transferID db =
     update_transfers (\<lambda>t. ct_TransferID t = transferID \<and> ct_ClosedAt t = None)
       (close_row reason nowAt) db"

definition ended_before :: "time \<Rightarrow> CodeTransfer \<Rightarrow> bool" where
  "ended_before before t \<longleftrightarrow>
     ct_ExpiresAt t < before \<or> (case ct_ClosedAt t of Some c \<Rightarrow> c < before | None \<Rightarrow> False)"

definition q_DeleteEndedTransfers :: "time \<Rightarrow> db \<Rightarrow> nat \<times> db" where
  "q_DeleteEndedTransfers before db =
     (length (filter (ended_before before) (code_transfers db)),
      db\<lparr>code_transfers := filter (\<lambda>t. \<not> ended_before before t) (code_transfers db)\<rparr>)"

end
