(* ===== verification/Repo_Base.thy ===== *)
theory Repo_Base
  imports Db
begin

text \<open>
  What the repository methods share: statements that can fail, and transactions.

  A statement meets one of three fates. \<open>Fine\<close>: it ran. \<open>Failed\<close>: it did not run and the
  driver reports an error. \<open>Lost\<close>: it ran, but the answer was lost and the driver reports an
  error. A method takes the fates of its statements as an argument (each statement occurs at
  most once in a method), so a theorem about all fates covers every failure.
  Inside a transaction a statement that fails either way ends the method, whose deferred
  rollback undoes everything; a commit that is \<open>Lost\<close> is in force although the method
  returns an error.
\<close>

datatype fate = Fine | Failed | Lost

datatype query =
    QBegin | QCommit
  | QCreateSecret | QGetSecretByPublicID | QGetSecretIgnoringExpiry | QClaimBurnAfterRead
  | QMarkSecretOpened | QDeleteSecret | QSelectSecretsForCleanup | QDeleteSecretsByPublicIDs
  | QGetSecretByPublicIDForUpdate | QCreateRetrievalSession | QGetSecretByRetrievalSession
  | QDeleteExpiredRetrievalSessions
  | QCreateTombstone | QCreateTombstonesForExpiredSecrets | QGetTombstone | QDeleteExpiredTombstones
  | QSecretExistsByPublicID | QCreateUploadSession | QGetUploadSession | QGetUploadSessionForUpdate
  | QUploadSessionExists | QListExpiredUploadSessionsForUpdate | QMarkUploadSessionCompleted
  | QMarkUploadSessionAborted | QMarkUploadSessionsAborted | QListUploadPartsBySession
  | QGetUploadPartForUpdate | QCreateUploadPart | QDeleteUploadPartsBySession
  | QDeleteFinishedUploadSessions
  | QLockTransferNameplates | QCloseExpiredActiveTransfers | QNextFreeNameplate | QCreateTransfer
  | QClaimTransfer | QClaimedTransferExists | QGetTransfer | QAnswerTransfer | QDeliverTransfer
  | QCloseTransfer | QDeleteEndedTransfers

type_synonym fates = "query \<Rightarrow> fate"

definition no_faults :: fates where "no_faults = (\<lambda>_. Fine)"

definition bad :: "fates \<Rightarrow> query \<Rightarrow> bool" where
  "bad flt q \<longleftrightarrow> flt q \<noteq> Fine"

lemma bad_no_faults [simp]: "\<not> bad no_faults q" "no_faults q = Fine"
  by (simp_all add: bad_def no_faults_def)

text \<open>The end of a transaction that started in \<open>db\<close> and has reached \<open>db'\<close>.\<close>

definition commit :: "fates \<Rightarrow> 'a \<Rightarrow> db \<Rightarrow> db \<Rightarrow> (err + 'a) \<times> db" where
  "commit flt x db db' =
     (case flt QCommit of
        Fine \<Rightarrow> (Inr x, db')
      | Failed \<Rightarrow> (Inl DbErr, db)
      | Lost \<Rightarrow> (Inl DbErr, db'))"

text \<open>A statement outside a transaction, which commits on its own.\<close>

definition autocommit :: "fates \<Rightarrow> query \<Rightarrow> 'a \<Rightarrow> db \<Rightarrow> db \<Rightarrow> (err + 'a) \<times> db" where
  "autocommit flt q x db db' =
     (case flt q of
        Fine \<Rightarrow> (Inr x, db')
      | Failed \<Rightarrow> (Inl DbErr, db)
      | Lost \<Rightarrow> (Inl DbErr, db'))"

lemma commit_cases:
  "commit flt x db db' = (Inr x, db') \<and> flt QCommit = Fine \<or>
   commit flt x db db' = (Inl DbErr, db) \<and> flt QCommit = Failed \<or>
   commit flt x db db' = (Inl DbErr, db') \<and> flt QCommit = Lost"
  by (cases "flt QCommit") (auto simp: commit_def)

lemma commit_InrD: "commit flt x db db' = (Inr y, db2) \<Longrightarrow> y = x \<and> db2 = db'"
  by (auto simp: commit_def split: fate.splits)

lemma commit_InlD: "commit flt x db db' = (Inl e, db2) \<Longrightarrow> e = DbErr \<and> (db2 = db \<or> db2 = db')"
  by (auto simp: commit_def split: fate.splits)

lemma commit_snd: "snd (commit flt x db db') \<in> {db, db'}"
  by (auto simp: commit_def split: fate.splits)

lemma commit_no_faults [simp]: "commit no_faults x db db' = (Inr x, db')"
  by (simp add: commit_def)

lemma commit_pred: "P db \<Longrightarrow> P db' \<Longrightarrow> P (snd (commit flt x db db'))"
  by (auto simp: commit_def split: fate.splits)

lemma autocommit_InrD: "autocommit flt q x db db' = (Inr y, db2) \<Longrightarrow> y = x \<and> db2 = db' \<and> \<not> bad flt q"
  by (auto simp: autocommit_def bad_def split: fate.splits)

lemma autocommit_snd: "snd (autocommit flt q x db db') \<in> {db, db'}"
  by (auto simp: autocommit_def split: fate.splits)

lemma autocommit_no_faults [simp]: "autocommit no_faults q x db db' = (Inr x, db')"
  by (simp add: autocommit_def)

lemma autocommit_pred: "P db \<Longrightarrow> P db' \<Longrightarrow> P (snd (autocommit flt q x db db'))"
  by (auto simp: autocommit_def split: fate.splits)

end
