(* ===== verification/Secret_Repo.thy ===== *)
theory Secret_Repo
  imports Repo_Base
begin

text \<open>
  \<open>internal/adapter/postgres/secret_repo.go\<close>, the \<open>SecretRepo\<close> part: secrets, retrieval sessions
  and tombstones. One definition per method, statement by statement, over the tables of \<open>Db\<close>;
  a method returns the error or the value and the database it leaves.
\<close>

section \<open>Tombstone parameters\<close>

definition recipientOpenedAt :: "Secret \<Rightarrow> time option" where
  "recipientOpenedAt s = (if s_BurnAfterRead s then None else s_RetrievedAt s)"

definition tombstoneParams :: "Secret \<Rightarrow> TombstoneOutcome \<Rightarrow> time \<Rightarrow> bool \<Rightarrow> SecretTombstone" where
  "tombstoneParams s outcome now byOwner =
     (let firstOpened =
        (if outcome = TombstoneOpened \<and> \<not> byOwner then Some now else recipientOpenedAt s)
      in \<lparr>tb_PublicID = s_PublicID s, tb_MetadataTokenHash = s_MetadataTokenHash s,
          tb_DeletionTokenHash = s_DeletionTokenHash s, tb_Outcome = outcome,
          tb_BurnAfterRead = s_BurnAfterRead s, tb_EndedAt = now, tb_FirstOpenedAt = firstOpened,
          tb_OpenedByOwner = byOwner, tb_KeepUntil = TombstoneKeepUntil (s_ExpiresAt s) now\<rparr>)"

section \<open>Methods\<close>

definition repo_Create :: "fates \<Rightarrow> Secret \<Rightarrow> time \<Rightarrow> db \<Rightarrow> (err + unit) \<times> db" where
  "repo_Create flt s now db =
     (case q_CreateSecret (s\<lparr>s_CreatedAt := now\<rparr>) db of
        Inl e \<Rightarrow> (if bad flt QCreateSecret then (Inl DbErr, db)
                  else if isDuplicateKeyError e then (Inl ErrDuplicate, db) else (Inl DbErr, db))
      | Inr db' \<Rightarrow> autocommit flt QCreateSecret () db db')"

definition repo_GetByPublicID :: "fates \<Rightarrow> string \<Rightarrow> time \<Rightarrow> db \<Rightarrow> err + Secret" where
  "repo_GetByPublicID flt publicID now db =
     (if bad flt QGetSecretByPublicID then Inl DbErr
      else (case q_GetSecretByPublicID publicID now db of
              None \<Rightarrow> Inl ErrNotFound
            | Some s \<Rightarrow> Inr s))"

text \<open>
  The switch of \<open>StartRetrievalSession\<close>: a one-time secret is claimed and gets its tombstone, a
  reusable one is marked opened the first time a recipient opens it. The result is the secret
  as the method returns it and the database inside the transaction.
\<close>

definition open_secret ::
    "fates \<Rightarrow> Secret \<Rightarrow> bool \<Rightarrow> string \<Rightarrow> string \<Rightarrow> time \<Rightarrow> db \<Rightarrow> err + (Secret \<times> db)" where
  "open_secret flt secret byOwner publicID blobTokenHash now db =
     (if s_BurnAfterRead secret then
        (if bad flt QClaimBurnAfterRead then Inl DbErr
         else (let (n, db1) = q_ClaimBurnAfterRead now publicID blobTokenHash db
               in if n = 0 then Inl ErrNotFound
                  else if bad flt QCreateTombstone then Inl DbErr
                  else Inr (secret\<lparr>s_RetrievedAt := Some now\<rparr>,
                            q_CreateTombstone (tombstoneParams secret TombstoneOpened now byOwner) db1)))
      else if \<not> byOwner \<and> s_RetrievedAt secret = None then
        (if bad flt QMarkSecretOpened then Inl DbErr
         else Inr (secret\<lparr>s_RetrievedAt := Some now\<rparr>, q_MarkSecretOpened now publicID db))
      else Inr (secret, db))"

definition repo_StartRetrievalSession ::
    "fates \<Rightarrow> string \<Rightarrow> string \<Rightarrow> string \<Rightarrow> string \<Rightarrow> time \<Rightarrow> time \<Rightarrow> db \<Rightarrow> (err + Secret) \<times> db" where
  "repo_StartRetrievalSession flt publicID blobTokenHash deletionTokenHash sessionTokenHash expiresAt now db =
     (if bad flt QBegin \<or> bad flt QGetSecretByPublicIDForUpdate then (Inl DbErr, db)
      else (case q_GetSecretByPublicIDForUpdate publicID now db of
        None \<Rightarrow> (Inl ErrNotFound, db)
      | Some secret \<Rightarrow>
          (if s_BurnAfterRead secret \<and> s_RetrievedAt secret \<noteq> None then (Inl ErrNotFound, db)
           else if \<not> TokensEqual blobTokenHash (s_BlobTokenHash secret) then (Inl ErrForbidden, db)
           else
             (let byOwner = (deletionTokenHash \<noteq> [] \<and>
                             TokensEqual deletionTokenHash (s_DeletionTokenHash secret))
              in (case open_secret flt secret byOwner publicID blobTokenHash now db of
                    Inl e \<Rightarrow> (Inl e, db)
                  | Inr (secret', db1) \<Rightarrow>
                      (if bad flt QCreateRetrievalSession then (Inl DbErr, db)
                       else (case q_CreateRetrievalSession
                                    \<lparr>rs_PublicID = publicID, rs_SessionTokenHash = sessionTokenHash,
                                     rs_ExpiresAt = expiresAt, rs_CreatedAt = now\<rparr> db1 of
                               Inl e \<Rightarrow> (Inl DbErr, db)
                             | Inr db2 \<Rightarrow> commit flt secret' db db2)))))))"

definition repo_GetByRetrievalSession :: "fates \<Rightarrow> string \<Rightarrow> string \<Rightarrow> time \<Rightarrow> db \<Rightarrow> err + Secret" where
  "repo_GetByRetrievalSession flt publicID sessionTokenHash now db =
     (if bad flt QGetSecretByRetrievalSession then Inl DbErr
      else (case q_GetSecretByRetrievalSession publicID sessionTokenHash now db of
              None \<Rightarrow> Inl ErrForbidden
            | Some s \<Rightarrow> Inr s))"

definition repo_Delete :: "fates \<Rightarrow> string \<Rightarrow> time \<Rightarrow> db \<Rightarrow> (err + unit) \<times> db" where
  "repo_Delete flt publicID now db =
     (if bad flt QBegin \<or> bad flt QDeleteSecret then (Inl DbErr, db)
      else (let (row, db1) = q_DeleteSecret publicID db
            in (case row of
                  None \<Rightarrow> (Inl ErrNotFound, db)
                | Some s \<Rightarrow>
                    (if bad flt QCreateTombstone then (Inl DbErr, db)
                     else commit flt () db
                            (q_CreateTombstone (tombstoneParams s TombstoneDeleted now False) db1)))))"

text \<open>
  \<open>DeleteExpired\<close> runs the callback \<open>beforeDelete\<close> on every selected row in turn; the callback
  works on the object store, whose state \<open>'s\<close> is threaded through, and reports success.
\<close>

fun run_callbacks :: "('r \<Rightarrow> 's \<Rightarrow> bool \<times> 's) \<Rightarrow> 'r list \<Rightarrow> 's \<Rightarrow> 'r list \<times> 's" where
  "run_callbacks cb [] st = ([], st)"
| "run_callbacks cb (r # rs) st =
     (let (ok, st1) = cb r st; (done, st2) = run_callbacks cb rs st1
      in (if ok then r # done else done, st2))"

lemma run_callbacks_subset: "run_callbacks cb rows st = (ok, st') \<Longrightarrow> set ok \<subseteq> set rows"
proof (induction rows arbitrary: st ok st')
  case (Cons r rows)
  then show ?case by (fastforce simp: Let_def split: prod.splits if_splits)
qed simp

text \<open>The statements after the callbacks, for the public ids whose object is gone.\<close>

definition finish_DeleteExpired ::
    "fates \<Rightarrow> time \<Rightarrow> nat \<Rightarrow> string list \<Rightarrow> db \<Rightarrow> (err + CleanupBatch) \<times> db" where
  "finish_DeleteExpired flt now found removable db =
     (if removable = [] then commit flt \<lparr>Found = found, Removed = 0\<rparr> db db
      else if bad flt QCreateTombstonesForExpiredSecrets then (Inl DbErr, db)
      else
        (let db1 = q_CreateTombstonesForExpiredSecrets (now + TombstoneRetention) removable now db
         in if bad flt QDeleteSecretsByPublicIDs then (Inl DbErr, db)
            else (let (removed, db2) = q_DeleteSecretsByPublicIDs removable db1
                  in commit flt \<lparr>Found = found, Removed = removed\<rparr> db db2)))"

definition repo_DeleteExpired ::
    "fates \<Rightarrow> (string \<Rightarrow> bool) \<Rightarrow> (string \<Rightarrow> 's \<Rightarrow> bool \<times> 's) \<Rightarrow> time \<Rightarrow> int \<Rightarrow> 's \<times> db \<Rightarrow>
       (err + CleanupBatch) \<times> 's \<times> db" where
  "repo_DeleteExpired flt locked beforeDelete now limit w =
     (if bad flt QBegin \<or> bad flt QSelectSecretsForCleanup then (Inl DbErr, w)
      else
        (let rows = q_SelectSecretsForCleanup locked now (int32 limit) (snd w);
             (ok, st) = run_callbacks (\<lambda>s. beforeDelete (s_StorageKey s)) rows (fst w);
             (r, db) = finish_DeleteExpired flt now (length rows) (map s_PublicID ok) (snd w)
         in (r, st, db)))"

definition repo_DeleteExpiredRetrievalSessions :: "fates \<Rightarrow> time \<Rightarrow> db \<Rightarrow> (err + nat) \<times> db" where
  "repo_DeleteExpiredRetrievalSessions flt now db =
     (let (n, db') = q_DeleteExpiredRetrievalSessions now db
      in autocommit flt QDeleteExpiredRetrievalSessions n db db')"

definition repo_GetTombstone :: "fates \<Rightarrow> string \<Rightarrow> time \<Rightarrow> db \<Rightarrow> err + SecretTombstone" where
  "repo_GetTombstone flt publicID now db =
     (if bad flt QGetTombstone then Inl DbErr
      else (case q_GetTombstone publicID now db of
              Some t \<Rightarrow> Inr t
            | None \<Rightarrow>
                (if bad flt QGetSecretIgnoringExpiry then Inl DbErr
                 else (case q_GetSecretIgnoringExpiry publicID db of
                         None \<Rightarrow> Inl ErrNotFound
                       | Some s \<Rightarrow>
                           (if s_ExpiresAt s > now then Inl ErrNotFound
                            else Inr \<lparr>tb_PublicID = s_PublicID s,
                                      tb_MetadataTokenHash = s_MetadataTokenHash s,
                                      tb_DeletionTokenHash = s_DeletionTokenHash s,
                                      tb_Outcome = TombstoneExpired,
                                      tb_BurnAfterRead = s_BurnAfterRead s,
                                      tb_EndedAt = s_ExpiresAt s,
                                      tb_FirstOpenedAt = recipientOpenedAt s,
                                      tb_OpenedByOwner = False,
                                      tb_KeepUntil = TombstoneKeepUntil (s_ExpiresAt s) now\<rparr>)))))"

definition repo_DeleteExpiredTombstones :: "fates \<Rightarrow> time \<Rightarrow> db \<Rightarrow> (err + nat) \<times> db" where
  "repo_DeleteExpiredTombstones flt now db =
     (let (n, db') = q_DeleteExpiredTombstones now db
      in autocommit flt QDeleteExpiredTombstones n db db')"

section \<open>The invariant of the three tables\<close>

text \<open>
  Primary keys and the unique session token are distinct, and every retrieval session belongs
  to a stored secret: what the schema promises.
\<close>

definition secret_ids :: "db \<Rightarrow> string list" where
  "secret_ids db = map s_PublicID (secrets db)"

definition tombstone_ids :: "db \<Rightarrow> string list" where
  "tombstone_ids db = map tb_PublicID (secret_tombstones db)"

definition session_tokens :: "db \<Rightarrow> string list" where
  "session_tokens db = map rs_SessionTokenHash (retrieval_sessions db)"

definition session_pids :: "db \<Rightarrow> string set" where
  "session_pids db = rs_PublicID ` set (retrieval_sessions db)"

lemmas id_defs = secret_ids_def tombstone_ids_def session_tokens_def session_pids_def

definition secrets_inv :: "db \<Rightarrow> bool" where
  "secrets_inv db \<longleftrightarrow>
     distinct (secret_ids db) \<and> distinct (tombstone_ids db) \<and> distinct (session_tokens db) \<and>
     session_pids db \<subseteq> set (secret_ids db)"

abbreviation secret_of :: "db \<Rightarrow> string \<Rightarrow> Secret option" where
  "secret_of db pid \<equiv> lookup_by s_PublicID pid (secrets db)"

abbreviation tombstone_of :: "db \<Rightarrow> string \<Rightarrow> SecretTombstone option" where
  "tombstone_of db pid \<equiv> lookup_by tb_PublicID pid (secret_tombstones db)"

lemma secrets_invD:
  assumes "secrets_inv db"
  shows "distinct (map s_PublicID (secrets db))" "distinct (map tb_PublicID (secret_tombstones db))"
    "distinct (map rs_SessionTokenHash (retrieval_sessions db))"
  using assms by (simp_all add: secrets_inv_def id_defs)

interpretation retrieved: keyed_update s_PublicID "\<lambda>s. s\<lparr>s_RetrievedAt := Some t\<rparr>" for t
  by unfold_locales simp

section \<open>Lookups by public id\<close>

lemma q_GetSecretByPublicID_iff:
  "secrets_inv db \<Longrightarrow>
     q_GetSecretByPublicID pid now db =
       (case secret_of db pid of None \<Rightarrow> None | Some s \<Rightarrow> if s_ExpiresAt s > now then Some s else None)"
  unfolding q_GetSecretByPublicID_def by (rule find_key_guard) (rule secrets_invD)

lemma q_GetSecretByPublicIDForUpdate_iff:
  "secrets_inv db \<Longrightarrow>
     q_GetSecretByPublicIDForUpdate pid now db =
       (case secret_of db pid of None \<Rightarrow> None | Some s \<Rightarrow> if s_ExpiresAt s > now then Some s else None)"
  unfolding q_GetSecretByPublicIDForUpdate_def by (rule find_key_guard) (rule secrets_invD)

lemma q_GetSecretIgnoringExpiry_iff: "q_GetSecretIgnoringExpiry pid db = secret_of db pid"
  by (simp add: q_GetSecretIgnoringExpiry_def lookup_by_def)

lemma q_GetTombstone_iff:
  "secrets_inv db \<Longrightarrow>
     q_GetTombstone pid now db =
       (case tombstone_of db pid of None \<Rightarrow> None | Some t \<Rightarrow> if tb_KeepUntil t > now then Some t else None)"
  unfolding q_GetTombstone_def by (rule find_key_guard) (rule secrets_invD)

lemmas secret_lookups =
  q_GetSecretByPublicID_iff q_GetSecretByPublicIDForUpdate_iff q_GetSecretIgnoringExpiry_iff
  q_GetTombstone_iff

lemma insert_tombstone_lookup:
  "lookup_by tb_PublicID k (insert_tombstone t ts) =
     (case lookup_by tb_PublicID k ts of
        Some t' \<Rightarrow> Some t' | None \<Rightarrow> if tb_PublicID t = k then Some t else None)"
proof (cases "tb_PublicID t \<in> tb_PublicID ` set ts")
  case True
  then have "lookup_by tb_PublicID (tb_PublicID t) ts \<noteq> None" by (simp add: lookup_by_None)
  with True show ?thesis by (auto simp: insert_tombstone_def split: option.splits)
next
  case False
  then have "lookup_by tb_PublicID (tb_PublicID t) ts = None" by (simp add: lookup_by_None)
  with False show ?thesis by (auto simp: insert_tombstone_def lookup_by_append split: option.splits)
qed

lemma insert_tombstone_distinct:
  "distinct (map tb_PublicID ts) \<Longrightarrow> distinct (map tb_PublicID (insert_tombstone t ts))"
  by (auto simp: insert_tombstone_def)

lemma fold_insert_tombstone_distinct:
  "distinct (map tb_PublicID ts) \<Longrightarrow>
     distinct (map tb_PublicID (fold (\<lambda>s. insert_tombstone (f s)) xs ts))"
  by (induction xs arbitrary: ts) (auto simp: insert_tombstone_distinct)

lemma tombstone_of_insert [table_simps]:
  "tombstone_of (q_CreateTombstone t db) k =
     (case tombstone_of db k of
        Some t' \<Rightarrow> Some t' | None \<Rightarrow> if tb_PublicID t = k then Some t else None)"
  by (simp add: q_CreateTombstone_def insert_tombstone_lookup)

lemma tb_PublicID_params [simp]:
  "tb_PublicID (tombstoneParams s out now own) = s_PublicID s"
  "tb_PublicID (expired_tombstone k s) = s_PublicID s"
  by (simp_all add: tombstoneParams_def expired_tombstone_def Let_def)

section \<open>Every method keeps the invariant\<close>

lemmas secrets_inv_commit = commit_pred [where P = secrets_inv] autocommit_pred [where P = secrets_inv]

lemma ids_simps [simp]:
  "secret_ids (q_CreateTombstone t db) = secret_ids db"
  "session_tokens (q_CreateTombstone t db) = session_tokens db"
  "session_pids (q_CreateTombstone t db) = session_pids db"
  "secret_ids (snd (q_ClaimBurnAfterRead now pid h db)) = secret_ids db"
  "tombstone_ids (snd (q_ClaimBurnAfterRead now pid h db)) = tombstone_ids db"
  "session_tokens (snd (q_ClaimBurnAfterRead now pid h db)) = session_tokens db"
  "session_pids (snd (q_ClaimBurnAfterRead now pid h db)) = session_pids db"
  "secret_ids (q_MarkSecretOpened now pid db) = secret_ids db"
  "tombstone_ids (q_MarkSecretOpened now pid db) = tombstone_ids db"
  "session_tokens (q_MarkSecretOpened now pid db) = session_tokens db"
  "session_pids (q_MarkSecretOpened now pid db) = session_pids db"
  "secret_ids (q_CreateTombstonesForExpiredSecrets k ids now db) = secret_ids db"
  "session_tokens (q_CreateTombstonesForExpiredSecrets k ids now db) = session_tokens db"
  "session_pids (q_CreateTombstonesForExpiredSecrets k ids now db) = session_pids db"
  by (simp_all add: id_defs q_CreateTombstone_def q_ClaimBurnAfterRead_def q_MarkSecretOpened_def
      q_CreateTombstonesForExpiredSecrets_def retrieved.comp)

lemma ids_delete_secrets [simp]:
  "secret_ids (delete_secrets P db) = filter (\<lambda>p. \<not> P p) (secret_ids db)"
  "tombstone_ids (delete_secrets P db) = tombstone_ids db"
  "session_pids (delete_secrets P db) = {p \<in> session_pids db. \<not> P p}"
  by (auto simp: id_defs delete_secrets_def filter_map comp_def)

lemma inv_CreateTombstone [inv_intros]: "secrets_inv db \<Longrightarrow> secrets_inv (q_CreateTombstone t db)"
  by (simp add: secrets_inv_def)
     (simp add: tombstone_ids_def q_CreateTombstone_def insert_tombstone_distinct)

lemma inv_ClaimBurnAfterRead [inv_intros]:
  "secrets_inv db \<Longrightarrow> secrets_inv (snd (q_ClaimBurnAfterRead now pid h db))"
  by (simp add: secrets_inv_def)

lemma inv_MarkSecretOpened [inv_intros]:
  "secrets_inv db \<Longrightarrow> secrets_inv (q_MarkSecretOpened now pid db)"
  by (simp add: secrets_inv_def)

lemma inv_CreateRetrievalSession [inv_intros]:
  "secrets_inv db \<Longrightarrow> q_CreateRetrievalSession r db = Inr db' \<Longrightarrow> secrets_inv db'"
  by (force simp: secrets_inv_def id_defs q_CreateRetrievalSession_def split: if_splits)

lemma inv_delete_secrets [inv_intros]: "secrets_inv db \<Longrightarrow> secrets_inv (delete_secrets P db)"
  by (auto simp: secrets_inv_def) (simp add: session_tokens_def delete_secrets_def distinct_map_filter_key)

lemma inv_CreateSecret [inv_intros]:
  "secrets_inv db \<Longrightarrow> q_CreateSecret s db = Inr db' \<Longrightarrow> secrets_inv db'"
  by (force simp: secrets_inv_def id_defs q_CreateSecret_def split: if_splits)

lemma inv_CreateTombstonesForExpired [inv_intros]:
  "secrets_inv db \<Longrightarrow> secrets_inv (q_CreateTombstonesForExpiredSecrets k ids now db)"
  by (simp add: secrets_inv_def)
     (simp add: tombstone_ids_def q_CreateTombstonesForExpiredSecrets_def fold_insert_tombstone_distinct)

lemma inv_DeleteExpiredRetrievalSessions [inv_intros]:
  "secrets_inv db \<Longrightarrow> secrets_inv (snd (q_DeleteExpiredRetrievalSessions now db))"
  by (auto simp: secrets_inv_def id_defs q_DeleteExpiredRetrievalSessions_def distinct_map_filter_key)

lemma inv_DeleteExpiredTombstones [inv_intros]:
  "secrets_inv db \<Longrightarrow> secrets_inv (snd (q_DeleteExpiredTombstones now db))"
  by (auto simp: secrets_inv_def id_defs q_DeleteExpiredTombstones_def distinct_map_filter_key)

lemma open_secret_inv [inv_intros]:
  "secrets_inv db \<Longrightarrow> open_secret flt s own pid h now db = Inr (s', db') \<Longrightarrow> secrets_inv db'"
  using inv_ClaimBurnAfterRead [of db now pid h]
  by (auto simp: open_secret_def split: if_splits prod.splits intro!: inv_intros)

lemma repo_Create_inv [inv_intros]:
  "secrets_inv db \<Longrightarrow> secrets_inv (snd (repo_Create flt s now db))"
  by (auto simp: repo_Create_def split: sum.splits intro!: secrets_inv_commit intro: inv_CreateSecret)

lemma repo_StartRetrievalSession_inv [inv_intros]:
  "secrets_inv db \<Longrightarrow> secrets_inv (snd (repo_StartRetrievalSession flt pid bh dh sh e now db))"
  by (auto simp: repo_StartRetrievalSession_def Let_def split: option.splits sum.splits prod.splits
      intro!: secrets_inv_commit intro: inv_CreateRetrievalSession open_secret_inv)

lemma repo_Delete_inv [inv_intros]:
  "secrets_inv db \<Longrightarrow> secrets_inv (snd (repo_Delete flt pid now db))"
  by (auto simp: repo_Delete_def q_DeleteSecret_def split: option.splits
      intro!: secrets_inv_commit inv_CreateTombstone inv_delete_secrets)

lemma finish_DeleteExpired_inv [inv_intros]:
  "secrets_inv db \<Longrightarrow> secrets_inv (snd (finish_DeleteExpired flt now n ids db))"
  by (auto simp: finish_DeleteExpired_def q_DeleteSecretsByPublicIDs_def Let_def
      intro!: secrets_inv_commit inv_CreateTombstonesForExpired inv_delete_secrets)

lemma repo_DeleteExpired_db:
  "snd (snd (repo_DeleteExpired flt locked cb now limit w)) = snd w \<or>
   (\<exists>n ids. snd (snd (repo_DeleteExpired flt locked cb now limit w)) =
             snd (finish_DeleteExpired flt now n ids (snd w)))"
  by (auto simp: repo_DeleteExpired_def Let_def split: prod.split) (metis snd_conv)

lemma repo_DeleteExpired_inv [inv_intros]:
  "secrets_inv (snd w) \<Longrightarrow> secrets_inv (snd (snd (repo_DeleteExpired flt locked cb now limit w)))"
  using repo_DeleteExpired_db [of flt locked cb now limit w] finish_DeleteExpired_inv by metis

lemma repo_cleanup_inv [inv_intros]:
  "secrets_inv db \<Longrightarrow> secrets_inv (snd (repo_DeleteExpiredRetrievalSessions flt now db))"
  "secrets_inv db \<Longrightarrow> secrets_inv (snd (repo_DeleteExpiredTombstones flt now db))"
  using inv_DeleteExpiredRetrievalSessions [of db now] inv_DeleteExpiredTombstones [of db now]
  by (auto simp: repo_DeleteExpiredRetrievalSessions_def repo_DeleteExpiredTombstones_def
      split: prod.splits intro!: secrets_inv_commit)

end
