(* ===== verification/Secret_Life.thy ===== *)
theory Secret_Life
  imports Secret_Repo
begin

text \<open>
  The life of a secret over any sequence of repository calls, with every statement free to
  fail: what changes on a stored secret, what an opening does, and how often a one-time
  secret opens.
\<close>

section \<open>What each statement does to a secret\<close>

text \<open>
  A stored secret is immutable, except that its retrieval time is set once, and it can go.
\<close>

definition secret_le :: "Secret option \<Rightarrow> Secret option \<Rightarrow> bool" where
  "secret_le x y \<longleftrightarrow>
     (case y of
        None \<Rightarrow> True
      | Some s' \<Rightarrow>
          (case x of
             None \<Rightarrow> False
           | Some s \<Rightarrow> s' = s \<or>
               (s_RetrievedAt s = None \<and> s' = s\<lparr>s_RetrievedAt := s_RetrievedAt s'\<rparr> \<and>
                s_RetrievedAt s' \<noteq> None)))"

lemma secret_le_refl [simp]: "secret_le x x"
  by (cases x) (auto simp: secret_le_def)

lemma secret_le_None [simp]: "secret_le x None"
  by (simp add: secret_le_def)

lemma secret_le_trans: "secret_le x y \<Longrightarrow> secret_le y z \<Longrightarrow> secret_le x z"
  by (auto simp: secret_le_def split: option.splits)

lemma secret_le_retrieve: "s_RetrievedAt s = None \<Longrightarrow> secret_le (Some s) (Some (s\<lparr>s_RetrievedAt := Some t\<rparr>))"
  by (simp add: secret_le_def)

lemma secret_of_simps [table_simps]:
  "secret_of (q_CreateTombstone t db) k = secret_of db k"
  "secret_of (q_CreateTombstonesForExpiredSecrets kp ids now db) k = secret_of db k"
  "secret_of (snd (q_DeleteExpiredRetrievalSessions now db)) k = secret_of db k"
  "secret_of (snd (q_DeleteExpiredTombstones now db)) k = secret_of db k"
  "secret_of (snd (q_ClaimBurnAfterRead now pid h db)) k =
     map_option (\<lambda>s. if claimable now pid h s then s\<lparr>s_RetrievedAt := Some now\<rparr> else s) (secret_of db k)"
  "secret_of (q_MarkSecretOpened now pid db) k =
     map_option (\<lambda>s. if s_PublicID s = pid \<and> s_RetrievedAt s = None
                     then s\<lparr>s_RetrievedAt := Some now\<rparr> else s) (secret_of db k)"
  "secret_of (delete_secrets P db) k = (if P k then None else secret_of db k)"
  by (simp_all add: q_CreateTombstone_def q_CreateTombstonesForExpiredSecrets_def
      q_DeleteExpiredRetrievalSessions_def q_DeleteExpiredTombstones_def q_ClaimBurnAfterRead_def
      q_MarkSecretOpened_def delete_secrets_def retrieved.lookup
      lookup_by_filter_key [of s_PublicID k "\<lambda>p. \<not> P p"])

lemma secret_of_CreateRetrievalSession:
  "q_CreateRetrievalSession r db = Inr db' \<Longrightarrow>
     secret_of db' k = secret_of db k \<and> tombstone_of db' k = tombstone_of db k"
  by (auto simp: q_CreateRetrievalSession_def split: if_splits)

lemma tombstone_of_simps [table_simps]:
  "tombstone_of (snd (q_ClaimBurnAfterRead now pid h db)) k = tombstone_of db k"
  "tombstone_of (q_MarkSecretOpened now pid db) k = tombstone_of db k"
  "tombstone_of (delete_secrets P db) k = tombstone_of db k"
  "tombstone_of (snd (q_DeleteExpiredRetrievalSessions now db)) k = tombstone_of db k"
  by (simp_all add: q_ClaimBurnAfterRead_def q_MarkSecretOpened_def delete_secrets_def
      q_DeleteExpiredRetrievalSessions_def)

lemma fold_insert_tombstone_lookup:
  "distinct (map s_PublicID xs) \<Longrightarrow> (\<And>s. tb_PublicID (f s) = s_PublicID s) \<Longrightarrow>
     lookup_by tb_PublicID k (fold (\<lambda>s. insert_tombstone (f s)) xs ts) =
       (case lookup_by tb_PublicID k ts of
          Some t \<Rightarrow> Some t
        | None \<Rightarrow> map_option f (lookup_by s_PublicID k xs))"
proof (induction xs arbitrary: ts)
  case Nil
  then show ?case by (simp split: option.splits)
next
  case (Cons s xs)
  have "lookup_by s_PublicID (s_PublicID s) xs = None"
    using Cons.prems by (auto simp: lookup_by_None)
  then show ?case using Cons by (auto simp: insert_tombstone_lookup split: option.splits)
qed

lemma tombstone_of_CreateTombstonesForExpired [table_simps]:
  assumes "secrets_inv db"
  shows "tombstone_of (q_CreateTombstonesForExpiredSecrets kp ids now db) k =
     (case tombstone_of db k of
        Some t \<Rightarrow> Some t
      | None \<Rightarrow> (case secret_of db k of
                  None \<Rightarrow> None
                | Some s \<Rightarrow> if k \<in> set ids \<and> s_ExpiresAt s < now then Some (expired_tombstone kp s) else None))"
proof -
  have d: "distinct (map s_PublicID (secrets db))" using assms by (rule secrets_invD)
  show ?thesis
    by (auto simp: q_CreateTombstonesForExpiredSecrets_def fold_insert_tombstone_lookup
        distinct_map_filter_key d lookup_by_filter [OF d] split: option.splits
        dest: lookup_by_SomeD)
qed

section \<open>What each method does to a secret\<close>

lemma commit_secret_le:
  "(\<And>k. secret_le (secret_of db k) (secret_of db' k)) \<Longrightarrow>
     secret_le (secret_of db k) (secret_of (snd (commit flt x db db')) k)"
  by (auto simp: commit_def split: fate.splits)

lemma claim_le: "secret_le (secret_of db k) (secret_of (snd (q_ClaimBurnAfterRead now pid h db)) k)"
  by (cases "secret_of db k") (auto simp: table_simps claimable_def secret_le_retrieve)

lemma mark_le: "secret_le (secret_of db k) (secret_of (q_MarkSecretOpened now pid db) k)"
  by (cases "secret_of db k") (auto simp: table_simps secret_le_retrieve)

lemma delete_le: "secret_le (secret_of db k) (secret_of (delete_secrets P db) k)"
  by (simp add: table_simps)

lemma open_secret_le:
  "open_secret flt s own pid h now db = Inr (s', db') \<Longrightarrow> secret_le (secret_of db k) (secret_of db' k)"
  using claim_le [of k db now pid h]
  by (auto simp: open_secret_def secret_of_simps(1) mark_le split: if_splits prod.splits)

lemma repo_StartRetrievalSession_le:
  "secret_le (secret_of db k) (secret_of (snd (repo_StartRetrievalSession flt pid bh dh sh e now db)) k)"
proof -
  have "secret_le (secret_of db k) (secret_of db2 k)"
    if "open_secret flt s own pid bh now db = Inr (s', db1)" "q_CreateRetrievalSession r db1 = Inr db2"
    for s own s' db1 r db2 k
    using open_secret_le [OF that(1), of k] secret_of_CreateRetrievalSession [OF that(2), of k] by simp
  then show ?thesis
    by (auto simp: repo_StartRetrievalSession_def Let_def split: option.splits sum.splits prod.splits
        intro!: commit_secret_le)
qed

lemma repo_Delete_le: "secret_le (secret_of db k) (secret_of (snd (repo_Delete flt pid now db)) k)"
  by (auto simp: repo_Delete_def q_DeleteSecret_def table_simps split: option.splits
      intro!: commit_secret_le)

lemma finish_DeleteExpired_le:
  "secret_le (secret_of db k) (secret_of (snd (finish_DeleteExpired flt now n ids db)) k)"
  by (auto simp: finish_DeleteExpired_def q_DeleteSecretsByPublicIDs_def table_simps
      intro!: commit_secret_le)

lemma repo_DeleteExpired_le:
  "secret_le (secret_of (snd w) k) (secret_of (snd (snd (repo_DeleteExpired flt locked cb now limit w))) k)"
  using repo_DeleteExpired_db [of flt locked cb now limit w] finish_DeleteExpired_le [of k "snd w"]
  by (metis secret_le_refl)

lemma repo_cleanup_le:
  "secret_of (snd (repo_DeleteExpiredRetrievalSessions flt now db)) k = secret_of db k"
  "secret_of (snd (repo_DeleteExpiredTombstones flt now db)) k = secret_of db k"
  by (auto simp: repo_DeleteExpiredRetrievalSessions_def repo_DeleteExpiredTombstones_def
      autocommit_def q_DeleteExpiredRetrievalSessions_def q_DeleteExpiredTombstones_def
      split: fate.splits)

section \<open>Runs of repository calls\<close>

datatype 's secret_op =
    OpCreate fates Secret time
  | OpStart fates string string string string time time
  | OpDelete fates string time
  | OpDeleteExpired fates "string \<Rightarrow> bool" "string \<Rightarrow> 's \<Rightarrow> bool \<times> 's" time int
  | OpDeleteExpiredSessions fates time
  | OpDeleteExpiredTombstones fates time

text \<open>One call: whether it was a \<open>StartRetrievalSession\<close> that succeeded, and the state it leaves.\<close>

fun secret_step :: "'s secret_op \<Rightarrow> 's \<times> db \<Rightarrow> bool \<times> 's \<times> db" where
  "secret_step (OpCreate flt s now) (st, db) = (False, st, snd (repo_Create flt s now db))"
| "secret_step (OpStart flt pid bh dh sh e now) (st, db) =
     (let (r, db') = repo_StartRetrievalSession flt pid bh dh sh e now db
      in (case r of Inl _ \<Rightarrow> False | Inr _ \<Rightarrow> True, st, db'))"
| "secret_step (OpDelete flt pid now) (st, db) = (False, st, snd (repo_Delete flt pid now db))"
| "secret_step (OpDeleteExpired flt locked cb now limit) w =
     (False, snd (repo_DeleteExpired flt locked cb now limit w))"
| "secret_step (OpDeleteExpiredSessions flt now) (st, db) =
     (False, st, snd (repo_DeleteExpiredRetrievalSessions flt now db))"
| "secret_step (OpDeleteExpiredTombstones flt now) (st, db) =
     (False, st, snd (repo_DeleteExpiredTombstones flt now db))"

fun secret_run :: "'s secret_op list \<Rightarrow> 's \<times> db \<Rightarrow> 's \<times> db" where
  "secret_run [] w = w"
| "secret_run (x # xs) w = secret_run xs (snd (secret_step x w))"

fun opens_of :: "string \<Rightarrow> 's secret_op \<Rightarrow> bool" where
  "opens_of pid (OpStart flt p bh dh sh e now) = (p = pid)"
| "opens_of pid _ = False"

fun creates :: "string \<Rightarrow> 's secret_op \<Rightarrow> bool" where
  "creates pid (OpCreate flt s now) = (s_PublicID s = pid)"
| "creates pid _ = False"

text \<open>How many calls of the run opened the secret \<open>pid\<close>.\<close>

fun opens :: "string \<Rightarrow> 's secret_op list \<Rightarrow> 's \<times> db \<Rightarrow> nat" where
  "opens pid [] w = 0"
| "opens pid (x # xs) w =
     (if opens_of pid x \<and> fst (secret_step x w) then 1 else 0) +
     opens pid xs (snd (secret_step x w))"

lemma secret_step_inv: "secrets_inv (snd w) \<Longrightarrow> secrets_inv (snd (snd (secret_step x w)))"
  by (cases "(x, w)" rule: secret_step.cases)
     (auto simp: repo_Create_inv repo_StartRetrievalSession_inv repo_Delete_inv repo_DeleteExpired_inv
        repo_cleanup_inv Let_def split: prod.split dest!: arg_cong [where f = snd]
        dest: sym [of "snd _"])

lemma create_other:
  "s_PublicID s \<noteq> k \<Longrightarrow> secret_of (snd (repo_Create flt s now db)) k = secret_of db k"
  by (auto simp: repo_Create_def q_CreateSecret_def autocommit_def lookup_by_append
      split: fate.splits option.splits)

lemma secret_step_le:
  "\<not> creates k x \<Longrightarrow> secret_le (secret_of (snd w) k) (secret_of (snd (snd (secret_step x w))) k)"
proof (cases "(x, w)" rule: secret_step.cases)
  case (2 flt pid bh dh sh e now st db)
  then show ?thesis
    using repo_StartRetrievalSession_le [of k db flt pid bh dh sh e now]
    by (auto split: prod.split)
qed (auto simp: create_other repo_Delete_le repo_DeleteExpired_le repo_cleanup_le)

lemma secret_run_inv: "secrets_inv (snd w) \<Longrightarrow> secrets_inv (snd (secret_run xs w))"
  by (induction xs arbitrary: w) (auto simp: secret_step_inv)

section \<open>Opening a secret\<close>

definition by_owner :: "string \<Rightarrow> Secret \<Rightarrow> bool" where
  "by_owner deletionTokenHash s \<longleftrightarrow> deletionTokenHash \<noteq> [] \<and> deletionTokenHash = s_DeletionTokenHash s"

text \<open>The secret as an opening leaves it, and the tombstone of a one-time secret that was opened.\<close>

definition opened_secret :: "bool \<Rightarrow> time \<Rightarrow> Secret \<Rightarrow> Secret" where
  "opened_secret own now s =
     (if s_BurnAfterRead s \<or> (\<not> own \<and> s_RetrievedAt s = None)
      then s\<lparr>s_RetrievedAt := Some now\<rparr> else s)"

lemma secret_of_key: "secret_of db k = Some s \<Longrightarrow> s_PublicID s = k"
  by (auto dest: lookup_by_SomeD)

lemma claim_count:
  "secrets_inv db \<Longrightarrow> secret_of db pid = Some s \<Longrightarrow>
     fst (q_ClaimBurnAfterRead now pid bh db) = (if claimable now pid bh s then 1 else 0)"
  using filter_key_length [of s_PublicID "secrets db" pid
      "\<lambda>s. s_BlobTokenHash s = bh \<and> s_BurnAfterRead s \<and> s_RetrievedAt s = None \<and> s_ExpiresAt s > now"]
  by (auto simp: q_ClaimBurnAfterRead_def claimable_def secrets_invD dest!: secret_of_key cong: conj_cong)
     (simp_all add: claimable_def [abs_def])

lemma open_secret_effect:
  assumes inv: "secrets_inv db" and s: "secret_of db pid = Some s"
    and live: "s_ExpiresAt s > now" and fresh: "s_BurnAfterRead s \<Longrightarrow> s_RetrievedAt s = None"
    and tok: "s_BlobTokenHash s = bh"
    and ok: "open_secret flt s own pid bh now db = Inr (s', db')"
  shows "s' = opened_secret own now s \<and> secret_of db' pid = Some s' \<and>
     tombstone_of db' pid =
       (if s_BurnAfterRead s
        then (case tombstone_of db pid of
                Some t \<Rightarrow> Some t | None \<Rightarrow> Some (tombstoneParams s TombstoneOpened now own))
        else tombstone_of db pid)"
proof -
  have pid: "s_PublicID s = pid" using s by (rule secret_of_key)
  show ?thesis
  proof (cases "s_BurnAfterRead s")
    case True
    then have c: "claimable now pid bh s" using live fresh tok pid by (simp add: claimable_def)
    obtain n db1 where q: "q_ClaimBurnAfterRead now pid bh db = (n, db1)" by fastforce
    have "secret_of db1 pid = Some (s\<lparr>s_RetrievedAt := Some now\<rparr>)"
      and "tombstone_of db1 pid = tombstone_of db pid"
      using secret_of_simps(5) [of pid now pid bh db] tombstone_of_simps(1) [of pid now pid bh db] q s c
      by simp_all
    then show ?thesis using ok True pid q
      by (auto simp: open_secret_def opened_secret_def table_simps split: if_splits option.splits)
  next
    case False
    then show ?thesis using ok s pid
      by (auto simp: open_secret_def opened_secret_def table_simps split: if_splits)
  qed
qed

lemma repo_StartRetrievalSession_InrD:
  assumes inv: "secrets_inv db"
    and ok: "repo_StartRetrievalSession flt pid bh dh sh e now db = (Inr s', db')"
  obtains s where "secret_of db pid = Some s" "s_ExpiresAt s > now" "s_BlobTokenHash s = bh"
    "s_BurnAfterRead s \<Longrightarrow> s_RetrievedAt s = None"
    "s' = opened_secret (by_owner dh s) now s" "secret_of db' pid = Some s'"
    "tombstone_of db' pid =
       (if s_BurnAfterRead s
        then (case tombstone_of db pid of
                Some t \<Rightarrow> Some t
              | None \<Rightarrow> Some (tombstoneParams s TombstoneOpened now (by_owner dh s)))
        else tombstone_of db pid)"
    "\<lparr>rs_PublicID = pid, rs_SessionTokenHash = sh, rs_ExpiresAt = e, rs_CreatedAt = now\<rparr>
       \<in> set (retrieval_sessions db')"
proof -
  from ok inv obtain s own s1 db1 db2 where
    s: "secret_of db pid = Some s" and live: "s_ExpiresAt s > now" and tok: "s_BlobTokenHash s = bh"
    and fresh: "s_BurnAfterRead s \<Longrightarrow> s_RetrievedAt s = None" and own: "own = by_owner dh s"
    and op: "open_secret flt s own pid bh now db = Inr (s1, db1)"
    and rs: "q_CreateRetrievalSession \<lparr>rs_PublicID = pid, rs_SessionTokenHash = sh,
                rs_ExpiresAt = e, rs_CreatedAt = now\<rparr> db1 = Inr db2"
    and c: "commit flt s1 db db2 = (Inr s', db')"
    by (auto simp: repo_StartRetrievalSession_def secret_lookups by_owner_def
        split: if_splits option.splits sum.splits prod.splits)
  from commit_InrD [OF c] have "s' = s1" "db' = db2" by simp_all
  with rs that [OF s live tok fresh] open_secret_effect [OF inv s live fresh tok op]
    secret_of_CreateRetrievalSession [OF rs] own
  show ?thesis by (auto simp: q_CreateRetrievalSession_def split: if_splits)
qed

section \<open>A one-time secret opens once\<close>

definition spent :: "Secret option \<Rightarrow> bool" where
  "spent x = (case x of None \<Rightarrow> True | Some s \<Rightarrow> s_BurnAfterRead s \<and> s_RetrievedAt s \<noteq> None)"

lemma spent_le: "secret_le x y \<Longrightarrow> spent x \<Longrightarrow> spent y"
  by (auto simp: secret_le_def spent_def split: option.splits)

lemma spent_never_opens:
  "secrets_inv (snd w) \<Longrightarrow> spent (secret_of (snd w) pid) \<Longrightarrow> opens_of pid x \<Longrightarrow> \<not> fst (secret_step x w)"
proof (cases "(x, w)" rule: secret_step.cases)
  case (2 flt p bh dh sh e now st db)
  assume "secrets_inv (snd w)" "spent (secret_of (snd w) pid)" "opens_of pid x"
  then show ?thesis using 2
    by (auto simp: spent_def split: prod.split sum.split elim!: repo_StartRetrievalSession_InrD)
qed auto

lemma opening_spends:
  "secrets_inv (snd w) \<Longrightarrow> opens_of pid x \<Longrightarrow> fst (secret_step x w) \<Longrightarrow>
     secret_of (snd w) pid = Some s \<Longrightarrow> s_BurnAfterRead s \<Longrightarrow>
     spent (secret_of (snd (snd (secret_step x w))) pid)"
proof (cases "(x, w)" rule: secret_step.cases)
  case (2 flt p bh dh sh e now st db)
  assume "secrets_inv (snd w)" "opens_of pid x" "fst (secret_step x w)"
    "secret_of (snd w) pid = Some s" "s_BurnAfterRead s"
  then show ?thesis using 2
    by (auto simp: spent_def opened_secret_def split: prod.splits sum.splits
        elim!: repo_StartRetrievalSession_InrD)
qed auto

lemma spent_run:
  "secrets_inv (snd w) \<Longrightarrow> spent (secret_of (snd w) pid) \<Longrightarrow> \<forall>x \<in> set xs. \<not> creates pid x \<Longrightarrow>
     opens pid xs w = 0"
proof (induction xs arbitrary: w)
  case (Cons x xs)
  have "opens pid xs (snd (secret_step x w)) = 0"
    using Cons.prems by (intro Cons.IH) (auto simp: secret_step_inv intro: spent_le [OF secret_step_le])
  with Cons.prems show ?case by (auto dest: spent_never_opens)
qed simp

text \<open>
  Property C1. However the calls of the server interleave and whatever statements fail, and
  even when a commit is in force although its answer was lost: as long as nobody creates a
  secret under the same public id again, a one-time secret is opened at most once.
\<close>

theorem one_time_opens_at_most_once:
  assumes "secrets_inv (snd w)" and "secret_of (snd w) pid = Some s" and "s_BurnAfterRead s"
    and "\<forall>x \<in> set xs. \<not> creates pid x"
  shows "opens pid xs w \<le> 1"
  using assms
proof (induction xs arbitrary: w s)
  case (Cons x xs)
  let ?w = "snd (secret_step x w)"
  have inv: "secrets_inv (snd ?w)" using Cons.prems by (simp add: secret_step_inv)
  have "\<not> creates pid x" using Cons.prems by simp
  then have le: "secret_le (secret_of (snd w) pid) (secret_of (snd ?w) pid)"
    by (rule secret_step_le)
  show ?case
  proof (cases "spent (secret_of (snd ?w) pid)")
    case True
    then have "opens pid xs ?w = 0" using inv Cons.prems by (intro spent_run) auto
    then show ?thesis by simp
  next
    case False
    then obtain s' where s': "secret_of (snd ?w) pid = Some s'" by (auto simp: spent_def split: option.splits)
    moreover have "s_BurnAfterRead s'" using le s' Cons.prems by (auto simp: secret_le_def)
    ultimately have "opens pid xs ?w \<le> 1" using inv Cons.prems by (intro Cons.IH) auto
    moreover have "\<not> (opens_of pid x \<and> fst (secret_step x w))"
      using False opening_spends [of w pid x s] Cons.prems by auto
    ultimately show ?thesis by auto
  qed
qed simp

text \<open>A one-time secret that a recipient and then its owner try to open: the first call wins.\<close>

definition demo_secret :: Secret where
  "demo_secret = \<lparr>s_PublicID = ''p'', s_MetadataTokenHash = ''m'', s_BlobTokenHash = ''b'',
     s_DeletionTokenHash = ''d'', s_EncryptedMeta = ''e'', s_BlobSize = 10, s_BurnAfterRead = True,
     s_ExpiresAt = 100, s_CreatedAt = 0, s_RetrievedAt = None, s_StorageKey = ''k''\<rparr>"

definition demo_db :: db where
  "demo_db = empty_db\<lparr>secrets := [demo_secret]\<rparr>"

lemma demo_inv: "secrets_inv demo_db" "secret_of demo_db ''p'' = Some demo_secret"
  by (simp_all add: secrets_inv_def id_defs demo_db_def demo_secret_def empty_db_def)

theorem one_time_opens_at_most_once_witness:
  "opens ''p'' [OpStart no_faults ''p'' ''b'' '''' ''x'' 50 10, OpStart no_faults ''p'' ''b'' ''d'' ''y'' 50 11]
     ((), demo_db) \<le> 1"
  by (rule one_time_opens_at_most_once [where s = demo_secret])
     (simp_all add: demo_inv demo_secret_def)

lemma demo_open:
  "repo_StartRetrievalSession no_faults ''p'' ''b'' '''' ''x'' 50 10 demo_db =
     (Inr (demo_secret\<lparr>s_RetrievedAt := Some 10\<rparr>),
      demo_db\<lparr>secrets := [demo_secret\<lparr>s_RetrievedAt := Some 10\<rparr>],
        retrieval_sessions := [\<lparr>rs_PublicID = ''p'', rs_SessionTokenHash = ''x'',
           rs_ExpiresAt = 50, rs_CreatedAt = 10\<rparr>],
        secret_tombstones := [tombstoneParams demo_secret TombstoneOpened 10 False]\<rparr>)"
  by (simp add: repo_StartRetrievalSession_def demo_db_def demo_secret_def empty_db_def
      q_GetSecretByPublicIDForUpdate_def open_secret_def q_ClaimBurnAfterRead_def claimable_def
      q_CreateTombstone_def insert_tombstone_def q_CreateRetrievalSession_def tombstoneParams_def
      recipientOpenedAt_def)

end
