(* ===== verification/Secret_Trace.thy ===== *)
theory Secret_Trace
  imports Secret_Life
begin

text \<open>
  What the cleanup may remove, how long a recorded outcome stands (\<open>GetTombstone\<close>), and how long
  a retrieval session keeps a secret readable: all over runs of repository calls in which any
  statement may fail. \<open>Secret_Runs\<close> shows that the recorded outcome is the right one.
\<close>

section \<open>Effects, whatever the outcome of the commit\<close>

definition sure_commit :: "fates \<Rightarrow> fates" where
  "sure_commit flt = flt(QCommit := Fine)"

lemma bad_sure_commit [simp]: "q \<noteq> QCommit \<Longrightarrow> bad (sure_commit flt) q = bad flt q"
  by (simp add: sure_commit_def bad_def)

lemma sure_commit_QCommit [simp]: "sure_commit flt QCommit = Fine"
  by (simp add: sure_commit_def)

lemma open_secret_sure_commit [simp]: "open_secret (sure_commit flt) = open_secret flt"
  by (intro ext) (simp add: open_secret_def cong: if_cong)

text \<open>A call that changes the database leaves what it would have left on success.\<close>

lemma repo_StartRetrievalSession_db:
  "snd (repo_StartRetrievalSession flt pid bh dh sh e now db) = db \<or>
   (\<exists>s. repo_StartRetrievalSession (sure_commit flt) pid bh dh sh e now db =
          (Inr s, snd (repo_StartRetrievalSession flt pid bh dh sh e now db)))"
  by (auto simp: repo_StartRetrievalSession_def commit_def Let_def
      split: option.splits sum.splits prod.splits fate.splits)

lemma repo_Delete_db:
  "snd (repo_Delete flt pid now db) = db \<or>
   (\<exists>s. secret_of db pid = Some s \<and>
        snd (repo_Delete flt pid now db) =
          q_CreateTombstone (tombstoneParams s TombstoneDeleted now False)
            (delete_secrets (\<lambda>p. p = pid) db))"
  by (auto simp: repo_Delete_def q_DeleteSecret_def lookup_by_def commit_def
      split: option.splits fate.splits)

lemma repo_DeleteExpired_cases:
  assumes "w' = snd (repo_DeleteExpired flt locked cb now limit w)"
  shows "snd w' = snd w \<or>
    (\<exists>ids. ids \<subseteq> s_PublicID ` set (q_SelectSecretsForCleanup locked now (int32 limit) (snd w)) \<and>
       (\<exists>xs. ids = set xs \<and>
        snd w' = delete_secrets (\<lambda>p. p \<in> ids)
               (q_CreateTombstonesForExpiredSecrets (now + TombstoneRetention) xs now (snd w))))"
proof -
  let ?rows = "q_SelectSecretsForCleanup locked now (int32 limit) (snd w)"
  obtain ok st where run: "run_callbacks (\<lambda>s. cb (s_StorageKey s)) ?rows (fst w) = (ok, st)"
    by fastforce
  have sub: "set (map s_PublicID ok) \<subseteq> s_PublicID ` set ?rows"
    using run_callbacks_subset [OF run] by auto
  have "snd (finish_DeleteExpired flt now n ids db) = db \<or>
        snd (finish_DeleteExpired flt now n ids db) =
          delete_secrets (\<lambda>p. p \<in> set ids) (q_CreateTombstonesForExpiredSecrets (now + TombstoneRetention) ids now db)"
    for n ids db
    by (auto simp: finish_DeleteExpired_def q_DeleteSecretsByPublicIDs_def Let_def commit_def
        split: fate.splits)
  note fin = this
  obtain r db where "finish_DeleteExpired flt now (length ?rows) (map s_PublicID ok) (snd w) = (r, db)"
    by fastforce
  with assms run have "snd w' = snd w \<or> snd w' = db"
    by (simp add: repo_DeleteExpired_def Let_def)
  moreover have "db = snd w \<or> db = delete_secrets (\<lambda>p. p \<in> set (map s_PublicID ok))
      (q_CreateTombstonesForExpiredSecrets (now + TombstoneRetention) (map s_PublicID ok) now (snd w))"
    using fin [where n = "length ?rows" and ids = "map s_PublicID ok" and db = "snd w"]
      \<open>finish_DeleteExpired _ _ _ _ _ = _\<close> by simp
  ultimately show ?thesis using sub by blast
qed

lemma selected_due:
  "s \<in> set (q_SelectSecretsForCleanup locked now n db) \<Longrightarrow>
     s \<in> set (secrets db) \<and> secret_due now db s \<and> \<not> locked (s_PublicID s)"
  by (auto simp: q_SelectSecretsForCleanup_def dest: in_set_takeD)

text \<open>What the cleanup removes was due, and no other transaction held it.\<close>

lemma repo_DeleteExpired_removed:
  assumes inv: "secrets_inv (snd w)" and s: "secret_of (snd w) k = Some s"
    and gone: "secret_of (snd (snd (repo_DeleteExpired flt locked cb now limit w))) k = None"
  shows "secret_due now (snd w) s \<and> \<not> locked k"
proof -
  let ?rows = "q_SelectSecretsForCleanup locked now (int32 limit) (snd w)"
  from repo_DeleteExpired_cases [OF refl, of flt locked cb now limit w] s gone
  have "k \<in> s_PublicID ` set ?rows"
    by (auto simp: table_simps split: if_splits)
  then obtain s' where s': "s' \<in> set ?rows" "s_PublicID s' = k" by auto
  from selected_due [OF s'(1)] s' s have "s' = s"
    using lookup_by_in [OF secrets_invD(1) [OF inv], of s'] by simp
  with selected_due [OF s'(1)] s' show ?thesis by auto
qed

text \<open>
  Property C8. The cleanup never removes a secret that can still be opened or is being
  downloaded: whatever fails, a secret that \<open>DeleteExpired\<close> removes is past its expiry, or is a
  one-time secret that was opened and has no retrieval session left that is in force.
\<close>

theorem cleanup_removes_only_due:
  assumes "secrets_inv (snd w)" and "secret_of (snd w) pid = Some s"
    and "secret_of (snd (snd (repo_DeleteExpired flt locked beforeDelete now limit w))) pid = None"
  shows "\<not> locked pid \<and>
     (s_ExpiresAt s < now \<or>
      s_BurnAfterRead s \<and> s_RetrievedAt s \<noteq> None \<and>
      (\<forall>r. r \<in> set (retrieval_sessions (snd w)) \<and> rs_PublicID r = pid \<longrightarrow> rs_ExpiresAt r \<le> now))"
  using repo_DeleteExpired_removed [OF assms] secret_of_key [OF assms(2)]
  by (auto simp: secret_due_def not_less)

lemma demo_cleanup:
  "repo_DeleteExpired no_faults (\<lambda>_. False) (\<lambda>_ st. (True, st)) 101 10 ((), demo_db) =
     (Inr \<lparr>Found = 1, Removed = 1\<rparr>, (),
      demo_db\<lparr>secrets := [], secret_tombstones := [expired_tombstone (101 + TombstoneRetention) demo_secret]\<rparr>)"
  by (simp add: repo_DeleteExpired_def demo_db_def demo_secret_def empty_db_def int32_def
      q_SelectSecretsForCleanup_def secret_due_def finish_DeleteExpired_def Let_def
      q_CreateTombstonesForExpiredSecrets_def insert_tombstone_def q_DeleteSecretsByPublicIDs_def
      delete_secrets_def expired_tombstone_def)

theorem cleanup_removes_only_due_witness:
  "s_ExpiresAt demo_secret < 101"
proof -
  have "\<not> (\<lambda>_ :: string. False) ''p'' \<and>
     (s_ExpiresAt demo_secret < 101 \<or>
      s_BurnAfterRead demo_secret \<and> s_RetrievedAt demo_secret \<noteq> None \<and>
      (\<forall>r. r \<in> set (retrieval_sessions (snd ((), demo_db))) \<and> rs_PublicID r = ''p'' \<longrightarrow> rs_ExpiresAt r \<le> 101))"
    by (rule cleanup_removes_only_due [where flt = no_faults and beforeDelete = "\<lambda>_ st. (True, st)" and limit = 10])
       (simp_all add: demo_inv demo_cleanup)
  then show ?thesis by (simp add: demo_secret_def)
qed

section \<open>Tombstones\<close>

text \<open>A cleanup of tombstones at a time when those kept until \<open>T\<close> are still kept.\<close>

fun remembers_until :: "time \<Rightarrow> 's secret_op \<Rightarrow> bool" where
  "remembers_until T (OpDeleteExpiredTombstones flt now) = (now < T)"
| "remembers_until T _ = True"

lemma tombstone_of_DeleteExpired:
  "secrets_inv db \<Longrightarrow> tombstone_of (snd (repo_DeleteExpiredTombstones flt now db)) k \<in>
     {tombstone_of db k,
      (case tombstone_of db k of None \<Rightarrow> None | Some t \<Rightarrow> if tb_KeepUntil t \<le> now then None else Some t)}"
  using lookup_by_filter [of tb_PublicID "secret_tombstones db" k "\<lambda>t. \<not> tb_KeepUntil t \<le> now"]
    secrets_invD [of db]
  by (auto simp: repo_DeleteExpiredTombstones_def autocommit_def q_DeleteExpiredTombstones_def
      split: fate.splits option.splits)

lemma tombstone_of_unchanged [simp]:
  "tombstone_of (snd (repo_Create flt s now db)) k = tombstone_of db k"
  "tombstone_of (snd (repo_DeleteExpiredRetrievalSessions flt now db)) k = tombstone_of db k"
  by (auto simp: repo_Create_def q_CreateSecret_def repo_DeleteExpiredRetrievalSessions_def
      autocommit_def q_DeleteExpiredRetrievalSessions_def split: fate.splits)

lemma open_secret_tombstone:
  "open_secret flt s own pid h now db = Inr (s', db') \<Longrightarrow> tombstone_of db k = Some t \<Longrightarrow>
     tombstone_of db' k = Some t"
  using tombstone_of_simps(1) [of k now pid h db]
  by (auto simp: open_secret_def tombstone_of_insert tombstone_of_simps(2) split: if_splits prod.splits)

lemma repo_StartRetrievalSession_tombstone:
  "tombstone_of db k = Some t \<Longrightarrow>
     tombstone_of (snd (repo_StartRetrievalSession flt pid bh dh sh e now db)) k = Some t"
proof -
  assume t: "tombstone_of db k = Some t"
  have "tombstone_of db2 k = Some t"
    if "open_secret flt s own pid bh now db = Inr (s', db1)" "q_CreateRetrievalSession r db1 = Inr db2"
    for s own s' db1 r db2
    using open_secret_tombstone [OF that(1) t] secret_of_CreateRetrievalSession [OF that(2), of k] by simp
  with t show ?thesis
    by (auto simp: repo_StartRetrievalSession_def Let_def commit_def
        split: option.splits sum.splits prod.splits fate.splits)
qed

lemma secret_step_tombstone:
  assumes inv: "secrets_inv (snd w)" and t: "tombstone_of (snd w) k = Some t"
    and r: "remembers_until (tb_KeepUntil t) x"
  shows "tombstone_of (snd (snd (secret_step x w))) k = Some t"
proof (cases "(x, w)" rule: secret_step.cases)
  case (2 flt pid bh dh sh e now st db)
  then show ?thesis using t repo_StartRetrievalSession_tombstone [where flt = flt and pid = pid and bh = bh and dh = dh and sh = sh and e = e and now = now and db = db and k = k and t = t]
    by (auto split: prod.split)
next
  case (3 flt pid now st db)
  then show ?thesis using t repo_Delete_db [of flt pid now db] by (auto simp: table_simps)
next
  case (4 flt locked cb now limit w')
  then show ?thesis using inv t repo_DeleteExpired_cases [OF refl, of flt locked cb now limit w]
    by (auto simp: table_simps)
next
  case (6 flt now st db)
  then show ?thesis using inv t r tombstone_of_DeleteExpired [of db k flt now] by auto
qed (use t in simp_all)

lemma secret_run_tombstone:
  "secrets_inv (snd w) \<Longrightarrow> tombstone_of (snd w) k = Some t \<Longrightarrow>
     \<forall>x \<in> set xs. remembers_until (tb_KeepUntil t) x \<Longrightarrow> tombstone_of (snd (secret_run xs w)) k = Some t"
  by (induction xs arbitrary: w) (auto simp: secret_step_tombstone secret_step_inv)

lemma GetTombstone_row:
  "secrets_inv db \<Longrightarrow> tombstone_of db k = Some t \<Longrightarrow> now < tb_KeepUntil t \<Longrightarrow>
     repo_GetTombstone no_faults k now db = Inr t"
  by (simp add: repo_GetTombstone_def secret_lookups)

text \<open>
  Property C9. The first recorded outcome of a secret stands: until its retention ends, every
  later \<open>GetTombstone\<close> answers the same tombstone, whatever is opened, deleted or cleaned up in
  between, and even when a secret is created under the same id again.
\<close>

theorem first_outcome_stands:
  assumes "secrets_inv (snd w)" and "tombstone_of (snd w) pid = Some t"
    and "\<forall>x \<in> set xs. remembers_until (tb_KeepUntil t) x" and "now < tb_KeepUntil t"
  shows "repo_GetTombstone no_faults pid now (snd (secret_run xs w)) = Inr t"
  using assms by (intro GetTombstone_row) (auto simp: secret_run_tombstone secret_run_inv)

theorem first_outcome_stands_witness:
  "repo_GetTombstone no_faults ''p'' 30
     (snd (secret_run [OpDelete no_faults ''p'' 20 :: unit secret_op]
        ((), snd (repo_StartRetrievalSession no_faults ''p'' ''b'' '''' ''x'' 50 10 demo_db)))) =
     Inr (tombstoneParams demo_secret TombstoneOpened 10 False)"
  by (rule first_outcome_stands; (simp only: snd_conv demo_open)?;
      simp add: secrets_inv_def id_defs demo_db_def empty_db_def demo_secret_def
        tombstoneParams_def TombstoneKeepUntil_def TombstoneRetention_def duration_defs)

section \<open>An opening touches one secret\<close>

lemma keep_until_params:
  "s_ExpiresAt s + TombstoneRetention \<le> tb_KeepUntil (tombstoneParams s out now own) \<and>
   tb_MetadataTokenHash (tombstoneParams s out now own) = s_MetadataTokenHash s"
  by (simp add: tombstoneParams_def TombstoneKeepUntil_def Let_def)

lemma opened_secret_simps [simp]:
  "s_ExpiresAt (opened_secret own now s) = s_ExpiresAt s"
  "s_BurnAfterRead (opened_secret own now s) = s_BurnAfterRead s"
  "s_MetadataTokenHash (opened_secret own now s) = s_MetadataTokenHash s"
  by (simp_all add: opened_secret_def)

lemma claim_other:
  assumes "k \<noteq> pid"
  shows "secret_of (snd (q_ClaimBurnAfterRead now pid bh db)) k = secret_of db k \<and>
     tombstone_of (snd (q_ClaimBurnAfterRead now pid bh db)) k = tombstone_of db k"
  using assms by (cases "secret_of db k") (auto simp: table_simps claimable_def dest: secret_of_key)

lemma mark_other: "k \<noteq> pid \<Longrightarrow> secret_of (q_MarkSecretOpened now pid db) k = secret_of db k"
  by (cases "secret_of db k") (auto simp: table_simps dest: secret_of_key)

lemma repo_StartRetrievalSession_other:
  "k \<noteq> pid \<Longrightarrow> secret_of (snd (repo_StartRetrievalSession flt pid bh dh sh e now db)) k = secret_of db k \<and>
     tombstone_of (snd (repo_StartRetrievalSession flt pid bh dh sh e now db)) k = tombstone_of db k"
proof -
  assume k: "k \<noteq> pid"
  have op: "secret_of db1 k = secret_of db k \<and> tombstone_of db1 k = tombstone_of db k"
    if "open_secret flt s own pid bh now db = Inr (s', db1)" "s_PublicID s = pid" for s own s' db1
    using that k claim_other [OF k, of now bh db]
    by (auto simp: open_secret_def tombstone_of_insert tombstone_of_simps(2) secret_of_simps(1)
        mark_other split: if_splits prod.splits option.splits)
  have "q_GetSecretByPublicIDForUpdate pid now db = Some s \<Longrightarrow> s_PublicID s = pid" for s
    by (auto simp: q_GetSecretByPublicIDForUpdate_def find_Some_iff)
  then have "secret_of db2 k = secret_of db k \<and> tombstone_of db2 k = tombstone_of db k"
    if "q_GetSecretByPublicIDForUpdate pid now db = Some s"
      "open_secret flt s own pid bh now db = Inr (s', db1)" "q_CreateRetrievalSession r db1 = Inr db2"
    for s own s' db1 r db2
    using op [OF that(2)] that secret_of_CreateRetrievalSession [OF that(3), of k] by auto
  then show ?thesis
    by (auto simp: repo_StartRetrievalSession_def Let_def commit_def
        split: option.splits sum.splits prod.splits fate.splits)
qed

lemma remembers_until_mono: "remembers_until T x \<Longrightarrow> T \<le> T' \<Longrightarrow> remembers_until T' x"
  by (cases "(T, x)" rule: remembers_until.cases) auto

lemma tb_KeepUntil_expired [simp]:
  "tb_KeepUntil (expired_tombstone k s) = k"
  "tb_MetadataTokenHash (expired_tombstone k s) = s_MetadataTokenHash s"
  by (simp_all add: expired_tombstone_def)

section \<open>A retrieval session keeps its secret readable\<close>

text \<open>Calls that do not end the session \<open>r\<close> of the secret \<open>s\<close> before the time \<open>T\<close>.\<close>

fun undisturbed :: "string \<Rightarrow> time \<Rightarrow> 's secret_op \<Rightarrow> bool" where
  "undisturbed pid T (OpDelete flt p now) = (p \<noteq> pid)"
| "undisturbed pid T (OpDeleteExpired flt locked cb now limit) = (now < T)"
| "undisturbed pid T (OpDeleteExpiredSessions flt now) = (now < T)"
| "undisturbed pid T _ = True"

definition readable :: "RetrievalSession \<Rightarrow> Secret \<Rightarrow> db \<Rightarrow> bool" where
  "readable r s db \<longleftrightarrow>
     r \<in> set (retrieval_sessions db) \<and>
     (\<exists>s'. secret_of db (rs_PublicID r) = Some s' \<and> secret_le (Some s) (Some s'))"

lemma readable_intro:
  "readable r s db \<Longrightarrow> set (retrieval_sessions db) \<subseteq> set (retrieval_sessions db') \<Longrightarrow>
     secret_le (secret_of db (rs_PublicID r)) (secret_of db' (rs_PublicID r)) \<Longrightarrow>
     secret_of db' (rs_PublicID r) \<noteq> None \<Longrightarrow> readable r s db'"
  unfolding readable_def by (metis not_None_eq secret_le_trans subsetD)

lemma secret_le_stored: "secret_le (Some s) (Some s') \<Longrightarrow>
    s_ExpiresAt s' = s_ExpiresAt s \<and> s_PublicID s' = s_PublicID s"
  by (auto simp: secret_le_def dest: arg_cong [where f = s_ExpiresAt] arg_cong [where f = s_PublicID])

lemma open_secret_stored:
  "open_secret flt s own pid bh now db = Inr (s', db1) \<Longrightarrow>
     retrieval_sessions db1 = retrieval_sessions db \<and> (secret_of db1 k = None \<longleftrightarrow> secret_of db k = None)"
  using secret_of_simps(5) [of k now pid bh db]
  by (auto simp: open_secret_def secret_of_simps(1,6) split: if_splits prod.splits)
     (auto simp: q_ClaimBurnAfterRead_def q_CreateTombstone_def q_MarkSecretOpened_def)

lemma repo_StartRetrievalSession_stored:
  "set (retrieval_sessions db) \<subseteq> set (retrieval_sessions (snd (repo_StartRetrievalSession flt pid bh dh sh e now db))) \<and>
   (secret_of (snd (repo_StartRetrievalSession flt pid bh dh sh e now db)) k = None \<longleftrightarrow> secret_of db k = None)"
proof -
  have "set (retrieval_sessions db) \<subseteq> set (retrieval_sessions db2) \<and>
      (secret_of db2 k = None \<longleftrightarrow> secret_of db k = None)"
    if "open_secret flt s own pid bh now db = Inr (s', db1)" "q_CreateRetrievalSession r db1 = Inr db2"
    for s own s' db1 r db2
    using open_secret_stored [OF that(1), of k] that(2)
    by (auto simp: q_CreateRetrievalSession_def split: if_splits)
  then show ?thesis
    by (auto simp: repo_StartRetrievalSession_def Let_def commit_def
        split: option.splits sum.splits prod.splits fate.splits)
qed

lemma repo_Create_stored:
  "secret_of db k \<noteq> None \<Longrightarrow>
     secret_of (snd (repo_Create flt s now db)) k = secret_of db k \<and>
     retrieval_sessions (snd (repo_Create flt s now db)) = retrieval_sessions db"
  by (auto simp: repo_Create_def q_CreateSecret_def autocommit_def lookup_by_append
      split: fate.splits option.splits)

lemma readable_delete:
  "readable r s db \<Longrightarrow> \<not> P (rs_PublicID r) \<Longrightarrow> readable r s (delete_secrets P db)"
  by (auto simp: readable_def table_simps) (auto simp: delete_secrets_def)

lemma readable_not_due:
  assumes inv: "secrets_inv db" and r: "readable r s db" and now: "now < rs_ExpiresAt r" "now < s_ExpiresAt s"
    and sel: "s' \<in> set (q_SelectSecretsForCleanup locked now n db)"
  shows "s_PublicID s' \<noteq> rs_PublicID r"
proof
  assume eq: "s_PublicID s' = rs_PublicID r"
  from selected_due [OF sel] have s': "s' \<in> set (secrets db)" "secret_due now db s'" by auto
  with r eq lookup_by_in [OF secrets_invD(1) [OF inv] s'(1)] have "secret_le (Some s) (Some s')"
    by (simp add: readable_def)
  with s'(2) r now eq secret_le_stored [of s s'] show False
    by (auto simp: secret_due_def readable_def)
qed

lemma readable_same:
  "readable r s db \<Longrightarrow> retrieval_sessions db' = retrieval_sessions db \<Longrightarrow> secrets db' = secrets db \<Longrightarrow>
     readable r s db'"
  by (simp add: readable_def)

lemma secret_step_readable:
  assumes inv: "secrets_inv (snd w)" and r: "readable r s (snd w)"
    and u: "undisturbed (rs_PublicID r) T x" and T: "T \<le> rs_ExpiresAt r" "T \<le> s_ExpiresAt s"
  shows "readable r s (snd (snd (secret_step x w)))"
proof (cases "(x, w)" rule: secret_step.cases)
  case (1 flt new now st db)
  then show ?thesis
    using r repo_Create_stored [where k = "rs_PublicID r" and flt = flt and s = new and now = now and db = db]
    by (auto simp: readable_def)
next
  case (2 flt pid bh dh sh e now st db)
  have db: "readable r s db" using r 2 by simp
  then have "secret_of db (rs_PublicID r) \<noteq> None" by (auto simp: readable_def)
  then have "secret_of (snd (repo_StartRetrievalSession flt pid bh dh sh e now db)) (rs_PublicID r) \<noteq> None"
    by (simp add: repo_StartRetrievalSession_stored)
  then have "readable r s (snd (repo_StartRetrievalSession flt pid bh dh sh e now db))"
    by (rule readable_intro [OF db conjunct1 [OF repo_StartRetrievalSession_stored] repo_StartRetrievalSession_le])
  then show ?thesis using 2 by (auto split: prod.split)
next
  case (3 flt pid now st db)
  then have "readable r s (delete_secrets (\<lambda>p. p = pid) db)"
    using r u by (intro readable_delete) auto
  then have "readable r s (q_CreateTombstone t (delete_secrets (\<lambda>p. p = pid) db))" for t
    by (rule readable_same) (simp_all add: q_CreateTombstone_def)
  then show ?thesis using r 3 repo_Delete_db [of flt pid now db] by auto
next
  case (4 flt locked cb now limit w')
  from repo_DeleteExpired_cases [OF refl, of flt locked cb now limit w] show ?thesis
  proof (elim disjE exE conjE)
    fix ids xs
    assume ids: "ids \<subseteq> s_PublicID ` set (q_SelectSecretsForCleanup locked now (int32 limit) (snd w))"
      and db: "snd (snd (repo_DeleteExpired flt locked cb now limit w)) = delete_secrets (\<lambda>p. p \<in> ids)
        (q_CreateTombstonesForExpiredSecrets (now + TombstoneRetention) xs now (snd w))"
    have "now < rs_ExpiresAt r" "now < s_ExpiresAt s" using u T 4 by auto
    from readable_not_due [OF inv r this]
    have "s_PublicID x \<noteq> rs_PublicID r" if "x \<in> set (q_SelectSecretsForCleanup locked now (int32 limit) (snd w))" for x
      using that by blast
    then have "rs_PublicID r \<notin> s_PublicID ` set (q_SelectSecretsForCleanup locked now (int32 limit) (snd w))"
      by (metis imageE)
    then have "rs_PublicID r \<notin> ids" using ids by (rule contra_subsetD [rotated])
    moreover have "readable r s (q_CreateTombstonesForExpiredSecrets (now + TombstoneRetention) xs now (snd w))"
      using r by (rule readable_same) (simp_all add: q_CreateTombstonesForExpiredSecrets_def)
    ultimately show ?thesis using 4 db by (simp add: readable_delete)
  next
    assume "snd (snd (repo_DeleteExpired flt locked cb now limit w)) = snd w"
    moreover have "snd (snd (secret_step x w)) = snd (snd (repo_DeleteExpired flt locked cb now limit w))"
      using 4 by simp
    ultimately show ?thesis using r by simp
  qed
next
  case (5 flt now st db)
  then show ?thesis using r u T
    by (auto simp: readable_def repo_DeleteExpiredRetrievalSessions_def autocommit_def
        q_DeleteExpiredRetrievalSessions_def split: fate.splits)
next
  case (6 flt now st db)
  then show ?thesis using r
    by (auto simp: readable_def repo_DeleteExpiredTombstones_def autocommit_def
        q_DeleteExpiredTombstones_def split: fate.splits)
qed

lemma secret_run_readable:
  "secrets_inv (snd w) \<Longrightarrow> readable r s (snd w) \<Longrightarrow> T \<le> rs_ExpiresAt r \<Longrightarrow> T \<le> s_ExpiresAt s \<Longrightarrow>
     \<forall>x \<in> set xs. undisturbed (rs_PublicID r) T x \<Longrightarrow> readable r s (snd (secret_run xs w))"
proof (induction xs arbitrary: w)
  case (Cons x xs)
  then have "readable r s (snd (snd (secret_step x w)))"
    by (intro secret_step_readable [where T = T]) auto
  then show ?case using Cons by (simp add: secret_step_inv)
qed simp

lemma find_unique:
  assumes "r \<in> set xs" and "P r" and "\<forall>x \<in> set xs. P x \<longrightarrow> x = r"
  shows "find P xs = Some r"
proof -
  obtain x where x: "find P xs = Some x" using assms(1,2) by (metis find_None_iff not_None_eq)
  then have "x \<in> set xs \<and> P x" by (auto simp: find_Some_iff)
  with assms(3) x show ?thesis by metis
qed

lemma readable_get:
  assumes inv: "secrets_inv db" and r: "readable r s db" and now: "now < rs_ExpiresAt r" "now < s_ExpiresAt s"
  shows "\<exists>s'. repo_GetByRetrievalSession no_faults (rs_PublicID r) (rs_SessionTokenHash r) now db = Inr s' \<and>
            secret_le (Some s) (Some s')"
proof -
  obtain s' where s': "secret_of db (rs_PublicID r) = Some s'" "secret_le (Some s) (Some s')"
    and mem: "r \<in> set (retrieval_sessions db)" using r by (auto simp: readable_def)
  have "find (\<lambda>rs. rs_PublicID rs = rs_PublicID r \<and> rs_SessionTokenHash rs = rs_SessionTokenHash r \<and>
               rs_ExpiresAt rs > now) (retrieval_sessions db) = Some r"
  proof -
    have "rs = r" if "rs \<in> set (retrieval_sessions db)" "rs_SessionTokenHash rs = rs_SessionTokenHash r" for rs
      using that mem secrets_invD(3) [OF inv] by (auto simp: distinct_map inj_on_def)
    then show ?thesis using mem now by (intro find_unique) auto
  qed
  moreover have "find (\<lambda>s. s_PublicID s = rs_PublicID r \<and> s_PublicID s = rs_PublicID r \<and> s_ExpiresAt s > now)
      (secrets db) = Some s'"
  proof (rule find_unique)
    show "s' \<in> set (secrets db)" using lookup_by_SomeD [OF s'(1)] by simp
    show "s_PublicID s' = rs_PublicID r \<and> s_PublicID s' = rs_PublicID r \<and> now < s_ExpiresAt s'"
      using lookup_by_SomeD [OF s'(1)] secret_le_stored [OF s'(2)] now by simp
    have "x = s'" if "x \<in> set (secrets db)" "s_PublicID x = rs_PublicID r" for x
      using lookup_by_in [OF secrets_invD(1) [OF inv] that(1)] that(2) s'(1) by simp
    then show "\<forall>x \<in> set (secrets db). s_PublicID x = rs_PublicID r \<and> s_PublicID x = rs_PublicID r \<and>
        now < s_ExpiresAt x \<longrightarrow> x = s'" by blast
  qed
  ultimately show ?thesis using s'
    by (simp add: repo_GetByRetrievalSession_def q_GetSecretByRetrievalSession_def)
qed

text \<open>
  Property C5. A recipient who opened a secret can read it for as long as the retrieval session
  lasts: until the session or the secret expires, no cleanup, no other opening and no failure
  takes the secret away; only a deletion by its owner does.
\<close>

theorem session_keeps_secret_readable:
  assumes "secrets_inv (snd w)" and "r \<in> set (retrieval_sessions (snd w))"
    and "secret_of (snd w) (rs_PublicID r) = Some s"
    and "\<forall>x \<in> set xs. undisturbed (rs_PublicID r) (min (rs_ExpiresAt r) (s_ExpiresAt s)) x"
    and "now < min (rs_ExpiresAt r) (s_ExpiresAt s)"
  shows "\<exists>s'. repo_GetByRetrievalSession no_faults (rs_PublicID r) (rs_SessionTokenHash r) now
                 (snd (secret_run xs w)) = Inr s' \<and>
              s' = s\<lparr>s_RetrievedAt := s_RetrievedAt s'\<rparr>"
proof -
  have "readable r s (snd (secret_run xs w))"
    using assms by (intro secret_run_readable [where T = "min (rs_ExpiresAt r) (s_ExpiresAt s)"])
      (auto simp: readable_def)
  moreover have "secrets_inv (snd (secret_run xs w))" using assms(1) by (rule secret_run_inv)
  ultimately show ?thesis
    using readable_get [of "snd (secret_run xs w)" r s now] assms(5) by (auto simp: secret_le_def)
qed

theorem session_keeps_secret_readable_witness:
  "\<exists>s'. repo_GetByRetrievalSession no_faults ''p'' ''x'' 30
          (snd (secret_run [OpDeleteExpired no_faults (\<lambda>_. False) (\<lambda>_ st. (True, st)) 20 10]
             ((), snd (repo_StartRetrievalSession no_faults ''p'' ''b'' '''' ''x'' 50 10 demo_db)))) = Inr s'"
proof -
  let ?r = "\<lparr>rs_PublicID = ''p'', rs_SessionTokenHash = ''x'', rs_ExpiresAt = 50, rs_CreatedAt = 10\<rparr>"
  let ?w = "((), snd (repo_StartRetrievalSession no_faults ''p'' ''b'' '''' ''x'' 50 10 demo_db))"
  have inv: "secrets_inv (snd ?w)"
    by (simp only: snd_conv) (intro repo_StartRetrievalSession_inv demo_inv)
  have r: "?r \<in> set (retrieval_sessions (snd ?w))" by (simp add: demo_open)
  have s: "secret_of (snd ?w) (rs_PublicID ?r) = Some (demo_secret\<lparr>s_RetrievedAt := Some 10\<rparr>)"
    by (simp add: demo_open demo_secret_def)
  from session_keeps_secret_readable [OF inv r s,
      of "[OpDeleteExpired no_faults (\<lambda>_. False) (\<lambda>_ st. (True, st)) 20 10]" 30]
  show ?thesis by (auto simp: demo_secret_def)
qed

end
