(* ===== verification/Upload_Repo.thy ===== *)
theory Upload_Repo
  imports Secret_Repo
begin

text \<open>
  \<open>internal/adapter/postgres/secret_repo.go\<close>, the upload sessions: one definition per method,
  statement by statement.

  Two methods look something up and then insert in a second statement that does not see the
  first one's lock; \<open>env\<close> is what other transactions commit in between. Methods that run a
  callback on the object store thread its state \<open>'s\<close> through.
\<close>

section \<open>Rows and domain values\<close>

text \<open>A nullable text column read as a Go string: null is empty.\<close>

definition text_String :: "string option \<Rightarrow> string" where
  "text_String t = (case t of Some s \<Rightarrow> s | None \<Rightarrow> [])"

lemma text_String_simps [simp]: "text_String (Some s) = s" "text_String None = []"
  by (simp_all add: text_String_def)

definition uploadSessionFromRow :: "UploadSessionRow \<Rightarrow> UploadSession" where
  "uploadSessionFromRow row =
     \<lparr>u_SessionID = us_SessionID row, u_UploadTokenHash = us_UploadTokenHash row,
      u_PublicID = us_PublicID row, u_StorageKey = us_StorageKey row,
      u_S3UploadID = us_S3UploadID row, u_BlobSize = us_BlobSize row,
      u_MetadataTokenHash = text_String (us_MetadataTokenHash row),
      u_BlobTokenHash = text_String (us_BlobTokenHash row),
      u_DeletionTokenHash = text_String (us_DeletionTokenHash row),
      u_EncryptedMeta = text_String (us_EncryptedMeta row),
      u_BurnAfterRead = us_BurnAfterRead row, u_SecretExpiresAt = us_SecretExpiresAt row,
      u_UploadExpiresAt = us_UploadExpiresAt row, u_State = us_State row,
      u_CreatedAt = us_CreatedAt row, u_CompletedAt = us_CompletedAt row,
      u_AbortedAt = us_AbortedAt row\<rparr>"

text \<open>The parameters of the insert statement.\<close>

definition uploadSessionParams :: "UploadSession \<Rightarrow> UploadSessionRow" where
  "uploadSessionParams session =
     \<lparr>us_SessionID = u_SessionID session, us_PublicID = u_PublicID session,
      us_UploadTokenHash = u_UploadTokenHash session,
      us_MetadataTokenHash = Some (u_MetadataTokenHash session),
      us_BlobTokenHash = Some (u_BlobTokenHash session),
      us_DeletionTokenHash = Some (u_DeletionTokenHash session),
      us_S3UploadID = u_S3UploadID session, us_BlobSize = u_BlobSize session,
      us_EncryptedMeta = Some (u_EncryptedMeta session),
      us_BurnAfterRead = u_BurnAfterRead session,
      us_SecretExpiresAt = u_SecretExpiresAt session,
      us_UploadExpiresAt = u_UploadExpiresAt session, us_State = UploadSessionStatePending,
      us_CreatedAt = u_CreatedAt session, us_CompletedAt = None, us_AbortedAt = None,
      us_StorageKey = u_StorageKey session\<rparr>"

section \<open>Methods\<close>

text \<open>The insert of \<open>CreateUploadSession\<close>, its second statement.\<close>

definition insert_UploadSession :: "fates \<Rightarrow> UploadSession \<Rightarrow> db \<Rightarrow> (err + unit) \<times> db" where
  "insert_UploadSession flt session db =
     (case q_CreateUploadSession (uploadSessionParams session) db of
        Inl e \<Rightarrow> (if bad flt QCreateUploadSession then (Inl DbErr, db)
                  else if isDuplicateKeyError e then (Inl ErrDuplicate, db)
                  else (Inl DbErr, db))
      | Inr db' \<Rightarrow> autocommit flt QCreateUploadSession () db db')"

definition repo_CreateUploadSession ::
    "fates \<Rightarrow> (db \<Rightarrow> db) \<Rightarrow> UploadSession \<Rightarrow> db \<Rightarrow> (err + unit) \<times> db" where
  "repo_CreateUploadSession flt env session db =
     (if bad flt QSecretExistsByPublicID then (Inl DbErr, db)
      else if q_SecretExistsByPublicID (u_PublicID session) db then (Inl ErrDuplicate, db)
      else insert_UploadSession flt session (env db))"

text \<open>Two reads, the second of which may see a later state of the database.\<close>

definition repo_GetUploadSession ::
    "fates \<Rightarrow> string \<Rightarrow> db \<Rightarrow> db \<Rightarrow> err + (UploadSession \<times> UploadPart list)" where
  "repo_GetUploadSession flt sessionID db db' =
     (if bad flt QGetUploadSession then Inl DbErr
      else (case q_GetUploadSession sessionID db of
              None \<Rightarrow> Inl ErrNotFound
            | Some session \<Rightarrow>
                (if bad flt QListUploadPartsBySession then Inl DbErr
                 else Inr (uploadSessionFromRow session, q_ListUploadPartsBySession sessionID db'))))"

text \<open>The insert of \<open>RecordUploadPart\<close> and the commit after it.\<close>

definition insert_UploadPart :: "fates \<Rightarrow> UploadPart \<Rightarrow> db \<Rightarrow> (err + UploadPart) \<times> db" where
  "insert_UploadPart flt part db =
     (let row = part\<lparr>p_PartNumber := int32 (p_PartNumber part)\<rparr>
      in (case q_CreateUploadPart row db of
            Inl e \<Rightarrow> (if bad flt QCreateUploadPart then (Inl DbErr, db)
                      else if isDuplicateKeyError e then (Inl ErrConflict, db)
                      else (Inl DbErr, db))
          | Inr db' \<Rightarrow>
              (if bad flt QCreateUploadPart then (Inl DbErr, db) else commit flt row db db')))"

definition repo_RecordUploadPart ::
    "fates \<Rightarrow> (db \<Rightarrow> db) \<Rightarrow> UploadPart \<Rightarrow> db \<Rightarrow> (err + UploadPart) \<times> db" where
  "repo_RecordUploadPart flt env part db =
     (if bad flt QBegin \<or> bad flt QGetUploadPartForUpdate then (Inl DbErr, db)
      else
        (case q_GetUploadPartForUpdate (p_SessionID part) (int32 (p_PartNumber part)) db of
           Some existing \<Rightarrow>
             (if p_Offset existing \<noteq> p_Offset part \<or> p_Size existing \<noteq> p_Size part \<or>
                 p_SHA256 existing \<noteq> p_SHA256 part
              then (Inl ErrConflict, db)
              else commit flt existing db db)
         | None \<Rightarrow> insert_UploadPart flt part (env db)))"

text \<open>The secret a completed upload becomes.\<close>

definition completedSecret :: "UploadSession \<Rightarrow> time \<Rightarrow> Secret" where
  "completedSecret session now =
     \<lparr>s_PublicID = u_PublicID session, s_MetadataTokenHash = u_MetadataTokenHash session,
      s_BlobTokenHash = u_BlobTokenHash session, s_DeletionTokenHash = u_DeletionTokenHash session,
      s_EncryptedMeta = u_EncryptedMeta session, s_BlobSize = u_BlobSize session,
      s_BurnAfterRead = u_BurnAfterRead session, s_ExpiresAt = u_SecretExpiresAt session,
      s_CreatedAt = now, s_RetrievedAt = None, s_StorageKey = u_StorageKey session\<rparr>"

definition completedSession :: "UploadSession \<Rightarrow> time \<Rightarrow> UploadSession" where
  "completedSession session now =
     session\<lparr>u_State := UploadSessionStateCompleted, u_CompletedAt := Some now,
             u_MetadataTokenHash := [], u_BlobTokenHash := [], u_DeletionTokenHash := [],
             u_EncryptedMeta := []\<rparr>"

text \<open>The statements after \<open>finalize\<close>.\<close>

definition finish_CompleteUploadSession ::
    "fates \<Rightarrow> UploadSession \<Rightarrow> string \<Rightarrow> time \<Rightarrow> db \<Rightarrow> (err + UploadSession) \<times> db" where
  "finish_CompleteUploadSession flt session sessionID now db =
     (case q_CreateSecret (completedSecret session now) db of
        Inl e \<Rightarrow> (if bad flt QCreateSecret then (Inl DbErr, db)
                  else if isDuplicateKeyError e then (Inl ErrDuplicate, db) else (Inl DbErr, db))
      | Inr db1 \<Rightarrow>
          (if bad flt QCreateSecret \<or> bad flt QMarkUploadSessionCompleted \<or>
              bad flt QDeleteUploadPartsBySession
           then (Inl DbErr, db)
           else commit flt (completedSession session now) db
                  (q_DeleteUploadPartsBySession sessionID
                    (q_MarkUploadSessionCompleted now sessionID db1))))"

definition repo_CompleteUploadSession ::
    "fates \<Rightarrow> string \<Rightarrow> time \<Rightarrow> (UploadSession \<Rightarrow> UploadPart list \<Rightarrow> 's \<Rightarrow> err option \<times> 's) \<Rightarrow>
       's \<times> db \<Rightarrow> (err + UploadSession) \<times> 's \<times> db" where
  "repo_CompleteUploadSession flt sessionID now finalize w =
     (if bad flt QBegin \<or> bad flt QGetUploadSessionForUpdate then (Inl DbErr, w)
      else
        (case q_GetUploadSessionForUpdate sessionID (snd w) of
           None \<Rightarrow> (Inl ErrNotFound, w)
         | Some row \<Rightarrow>
             (let session = uploadSessionFromRow row
              in (case u_State session of
                    UploadSessionStateCompleted \<Rightarrow> (Inr session, w)
                  | UploadSessionStateAborted \<Rightarrow> (Inl ErrConflict, w)
                  | UploadSessionStatePending \<Rightarrow>
                      (if bad flt QListUploadPartsBySession then (Inl DbErr, w)
                       else
                         (case finalize session (q_ListUploadPartsBySession sessionID (snd w)) (fst w) of
                            (Some e, st) \<Rightarrow> (Inl e, st, snd w)
                          | (None, st) \<Rightarrow>
                              (let (r, db') = finish_CompleteUploadSession flt session sessionID now (snd w)
                               in (r, st, db'))))))))"

definition repo_AbortUploadSession :: "fates \<Rightarrow> string \<Rightarrow> time \<Rightarrow> db \<Rightarrow> (err + unit) \<times> db" where
  "repo_AbortUploadSession flt sessionID now db =
     (case autocommit flt QMarkUploadSessionAborted
             (fst (q_MarkUploadSessionAborted now sessionID db)) db
             (snd (q_MarkUploadSessionAborted now sessionID db)) of
        (Inl e, db') \<Rightarrow> (Inl e, db')
      | (Inr n, db') \<Rightarrow>
          (if n = 0 then
             (if bad flt QUploadSessionExists then (Inl DbErr, db')
              else if \<not> q_UploadSessionExists sessionID db' then (Inl ErrNotFound, db')
              else (Inl ErrConflict, db'))
           else (Inr (), db')))"

definition repo_ClearUploadParts :: "fates \<Rightarrow> string \<Rightarrow> db \<Rightarrow> (err + unit) \<times> db" where
  "repo_ClearUploadParts flt sessionID db =
     autocommit flt QDeleteUploadPartsBySession () db (q_DeleteUploadPartsBySession sessionID db)"

definition finish_AbortExpired ::
    "fates \<Rightarrow> time \<Rightarrow> nat \<Rightarrow> string list \<Rightarrow> db \<Rightarrow> (err + CleanupBatch) \<times> db" where
  "finish_AbortExpired flt now found abortable db =
     (if abortable = [] then commit flt \<lparr>Found = found, Removed = 0\<rparr> db db
      else if bad flt QMarkUploadSessionsAborted then (Inl DbErr, db)
      else (let (aborted, db1) = q_MarkUploadSessionsAborted now abortable db
            in commit flt \<lparr>Found = found, Removed = aborted\<rparr> db db1))"

definition repo_AbortExpiredUploadSessions ::
    "fates \<Rightarrow> (string \<Rightarrow> bool) \<Rightarrow> (UploadSession \<Rightarrow> 's \<Rightarrow> bool \<times> 's) \<Rightarrow> time \<Rightarrow> int \<Rightarrow> 's \<times> db \<Rightarrow>
       (err + CleanupBatch) \<times> 's \<times> db" where
  "repo_AbortExpiredUploadSessions flt locked beforeAbort now limit w =
     (if bad flt QBegin \<or> bad flt QListExpiredUploadSessionsForUpdate then (Inl DbErr, w)
      else
        (let rows = q_ListExpiredUploadSessionsForUpdate locked now (int32 limit) (snd w);
             (ok, st) = run_callbacks beforeAbort (map uploadSessionFromRow rows) (fst w);
             (r, db) = finish_AbortExpired flt now (length rows) (map u_SessionID ok) (snd w)
         in (r, st, db)))"

definition repo_DeleteFinishedUploadSessions :: "fates \<Rightarrow> time \<Rightarrow> db \<Rightarrow> (err + nat) \<times> db" where
  "repo_DeleteFinishedUploadSessions flt finishedBefore db =
     (let (n, db') = q_DeleteFinishedUploadSessions finishedBefore db
      in autocommit flt QDeleteFinishedUploadSessions n db db')"

end
