(* ===== verification/Upload_Life.thy ===== *)
theory Upload_Life
  imports Upload_Repo
begin

text \<open>
  The life of an upload session: the invariant of its two tables, the state machine pending to
  completed or aborted over any sequence of repository calls, what a completion does, and what
  a method that fails leaves behind.
\<close>

section \<open>The invariant\<close>

abbreviation session_of :: "db \<Rightarrow> string \<Rightarrow> UploadSessionRow option" where
  "session_of db sid \<equiv> lookup_by us_SessionID sid (upload_sessions db)"

definition part_key :: "UploadPart \<Rightarrow> string \<times> int" where
  "part_key p = (p_SessionID p, p_PartNumber p)"

text \<open>A pending session carries the share material, a finished one none of it.\<close>

definition session_shape :: "UploadSessionRow \<Rightarrow> bool" where
  "session_shape u \<longleftrightarrow>
     (if is_pending u
      then us_MetadataTokenHash u \<noteq> None \<and> us_BlobTokenHash u \<noteq> None \<and>
           us_DeletionTokenHash u \<noteq> None \<and> us_EncryptedMeta u \<noteq> None \<and>
           us_CompletedAt u = None \<and> us_AbortedAt u = None
      else us_MetadataTokenHash u = None \<and> us_BlobTokenHash u = None \<and>
           us_DeletionTokenHash u = None \<and> us_EncryptedMeta u = None \<and>
           (us_CompletedAt u \<noteq> None \<longleftrightarrow> us_State u = UploadSessionStateCompleted) \<and>
           (us_AbortedAt u \<noteq> None \<longleftrightarrow> us_State u = UploadSessionStateAborted))"

definition uploads_inv :: "db \<Rightarrow> bool" where
  "uploads_inv db \<longleftrightarrow>
     distinct (map us_SessionID (upload_sessions db)) \<and>
     distinct (map us_PublicID (filter is_pending (upload_sessions db))) \<and>
     distinct (map part_key (upload_parts db)) \<and>
     p_SessionID ` set (upload_parts db) \<subseteq> us_SessionID ` set (upload_sessions db) \<and>
     (\<forall>u \<in> set (upload_sessions db). session_shape u)"

lemma uploads_inv_cong:
  "upload_sessions db' = upload_sessions db \<Longrightarrow> upload_parts db' = upload_parts db \<Longrightarrow>
     uploads_inv db' = uploads_inv db"
  by (simp add: uploads_inv_def)

lemma uploads_inv_ids: "uploads_inv db \<Longrightarrow> distinct (map us_SessionID (upload_sessions db))"
  by (simp add: uploads_inv_def)

lemma mark_simps [simp]:
  "us_SessionID (mark_completed t u) = us_SessionID u" "us_SessionID (mark_aborted t u) = us_SessionID u"
  "us_PublicID (mark_completed t u) = us_PublicID u" "us_PublicID (mark_aborted t u) = us_PublicID u"
  "us_StorageKey (mark_completed t u) = us_StorageKey u" "us_StorageKey (mark_aborted t u) = us_StorageKey u"
  "us_State (mark_completed t u) = UploadSessionStateCompleted"
  "us_State (mark_aborted t u) = UploadSessionStateAborted"
  "\<not> is_pending (mark_completed t u)" "\<not> is_pending (mark_aborted t u)"
  by (simp_all add: mark_completed_def mark_aborted_def blank_material_def is_pending_def)

lemma mark_shape:
  "session_shape u \<Longrightarrow> is_pending u \<Longrightarrow> session_shape (mark_completed t u)"
  "session_shape u \<Longrightarrow> is_pending u \<Longrightarrow> session_shape (mark_aborted t u)"
  by (auto simp: session_shape_def mark_completed_def mark_aborted_def blank_material_def is_pending_def)

interpretation completed: keyed_update us_SessionID "mark_completed t" for t
  by unfold_locales simp

interpretation aborted: keyed_update us_SessionID "mark_aborted t" for t
  by unfold_locales simp

text \<open>The two updates that end pending sessions keep the invariant.\<close>

lemma filter_pending_update:
  "(\<And>u. f u \<in> {mark_completed t u, mark_aborted t u}) \<Longrightarrow>
     filter is_pending (map (\<lambda>u. if P u then f u else u) us) = filter (\<lambda>u. is_pending u \<and> \<not> P u) us"
proof (induction us)
  case (Cons u us)
  have "\<not> is_pending (f u)" using Cons.prems [of u] by auto
  with Cons show ?case by simp
qed simp

lemma uploads_inv_replace:
  assumes inv: "uploads_inv db" and ids: "map us_SessionID us = map us_SessionID (upload_sessions db)"
    and "distinct (map us_PublicID (filter is_pending us))" and "\<forall>u \<in> set us. session_shape u"
  shows "uploads_inv (db\<lparr>upload_sessions := us\<rparr>)"
proof -
  have "us_SessionID ` set us = us_SessionID ` set (upload_sessions db)"
    using ids by (metis set_map)
  with assms show ?thesis by (simp add: uploads_inv_def)
qed

lemma uploads_inv_end:
  assumes inv: "uploads_inv db" and f: "\<And>u. f u \<in> {mark_completed t u, mark_aborted t u}"
    and P: "\<And>u. u \<in> set (upload_sessions db) \<Longrightarrow> P u \<Longrightarrow> is_pending u"
  shows "uploads_inv (update_sessions P f db)"
  unfolding update_sessions_def
proof (rule uploads_inv_replace [OF inv])
  let ?us = "map (\<lambda>u. if P u then f u else u) (upload_sessions db)"
  have "us_SessionID (if P u then f u else u) = us_SessionID u" for u
    using f [of u] by auto
  then show "map us_SessionID ?us = map us_SessionID (upload_sessions db)"
    by (simp add: comp_def)
  show "distinct (map us_PublicID (filter is_pending ?us))"
    using inv filter_pending_update [OF f, of P "upload_sessions db"]
    by (simp add: uploads_inv_def distinct_map_filter flip: filter_filter)
  have "session_shape (f u)" if "u \<in> set (upload_sessions db)" "P u" for u
    using f [of u] P [OF that] inv that(1) mark_shape by (auto simp: uploads_inv_def)
  then show "\<forall>u \<in> set ?us. session_shape u" using inv by (auto simp: uploads_inv_def)
qed

section \<open>Every method keeps the invariant\<close>

lemma session_of_key: "session_of db sid = Some u \<Longrightarrow> us_SessionID u = sid \<and> u \<in> set (upload_sessions db)"
  by (auto dest: lookup_by_SomeD)

lemma q_GetUploadSession_lookup [simp]:
  "q_GetUploadSession sid db = session_of db sid" "q_GetUploadSessionForUpdate sid db = session_of db sid"
  by (simp_all add: q_GetUploadSession_def q_GetUploadSessionForUpdate_def lookup_by_def)

lemma inv_CreateUploadSession [inv_intros]:
  assumes inv: "uploads_inv db" and q: "q_CreateUploadSession (uploadSessionParams s) db = Inr db'"
  shows "uploads_inv db'"
proof -
  let ?u = "(uploadSessionParams s)\<lparr>us_State := UploadSessionStatePending, us_CompletedAt := None, us_AbortedAt := None\<rparr>"
  have "session_shape ?u" by (simp add: session_shape_def is_pending_def uploadSessionParams_def)
  with inv q show ?thesis
    by (auto simp: uploads_inv_def q_CreateUploadSession_def Let_def is_pending_def split: if_splits) blast
qed

lemma inv_MarkAborted [inv_intros]:
  "uploads_inv db \<Longrightarrow> uploads_inv (snd (q_MarkUploadSessionAborted now sid db))"
  "uploads_inv db \<Longrightarrow> uploads_inv (snd (q_MarkUploadSessionsAborted now sids db))"
  by (auto simp: q_MarkUploadSessionAborted_def q_MarkUploadSessionsAborted_def
      intro!: uploads_inv_end [where t = now])

lemma inv_MarkCompleted [inv_intros]:
  assumes inv: "uploads_inv db" and u: "session_of db sid = Some u" "is_pending u"
  shows "uploads_inv (q_MarkUploadSessionCompleted now sid db)"
proof -
  have "v = u" if "v \<in> set (upload_sessions db)" "us_SessionID v = sid" for v
    using lookup_by_in [OF uploads_inv_ids [OF inv] that(1)] that(2) u(1) by simp
  with u(2) show ?thesis
    unfolding q_MarkUploadSessionCompleted_def by (intro uploads_inv_end [OF inv]) auto
qed

lemma inv_DeleteUploadParts [inv_intros]:
  "uploads_inv db \<Longrightarrow> uploads_inv (q_DeleteUploadPartsBySession sid db)"
  by (auto simp: uploads_inv_def q_DeleteUploadPartsBySession_def distinct_map_filter_key)

lemma inv_CreateUploadPart [inv_intros]:
  "uploads_inv db \<Longrightarrow> q_CreateUploadPart p db = Inr db' \<Longrightarrow> uploads_inv db'"
  by (auto simp: uploads_inv_def q_CreateUploadPart_def part_key_def image_def split: if_splits) blast+

lemma inv_DeleteFinished [inv_intros]:
  assumes inv: "uploads_inv db"
  shows "uploads_inv (snd (q_DeleteFinishedUploadSessions before db))"
proof -
  let ?keep = "filter (\<lambda>u. \<not> finished_before before u) (upload_sessions db)"
  let ?gone = "us_SessionID ` set (filter (finished_before before) (upload_sessions db))"
  have parts: "us_SessionID ` set (upload_sessions db) - ?gone \<subseteq> us_SessionID ` set ?keep"
    by auto
  have "filter is_pending ?keep = filter (\<lambda>u. \<not> finished_before before u) (filter is_pending (upload_sessions db))"
    by (simp add: filter_filter conj_commute)
  moreover have "distinct (map us_PublicID (filter is_pending (upload_sessions db)))"
    using inv by (simp add: uploads_inv_def)
  ultimately have "distinct (map us_PublicID (filter is_pending ?keep))"
    by (metis distinct_map_filter_key)
  with inv parts show ?thesis
    unfolding uploads_inv_def q_DeleteFinishedUploadSessions_def Let_def
    by (simp add: distinct_map_filter_key) blast
qed

lemmas uploads_inv_commit = commit_pred [where P = uploads_inv] autocommit_pred [where P = uploads_inv]

lemma uploads_inv_secret:
  "uploads_inv (db\<lparr>secrets := ss\<rparr>) = uploads_inv db"
  by (rule uploads_inv_cong) simp_all

lemma inv_CreateSecret_uploads [inv_intros]:
  "uploads_inv db \<Longrightarrow> q_CreateSecret s db = Inr db' \<Longrightarrow> uploads_inv db'"
  by (auto simp: q_CreateSecret_def uploads_inv_secret split: if_splits)

lemma q_CreateSecret_upload_tables [simp]:
  "q_CreateSecret s db = Inr db' \<Longrightarrow> upload_sessions db' = upload_sessions db \<and> upload_parts db' = upload_parts db"
  by (auto simp: q_CreateSecret_def split: if_splits)

text \<open>
  However others run between the two statements of a method that is not protected by a lock,
  it leaves the database alone or does its insert after them.
\<close>

lemma repo_CreateUploadSession_db:
  "snd (repo_CreateUploadSession flt env s db) \<in> {db, snd (insert_UploadSession flt s (env db))}"
  by (simp add: repo_CreateUploadSession_def)

lemma repo_RecordUploadPart_db:
  "snd (repo_RecordUploadPart flt env p db) \<in> {db, snd (insert_UploadPart flt p (env db))}"
  by (auto simp: repo_RecordUploadPart_def commit_def split: option.split fate.split)

lemma insert_UploadSession_inv [inv_intros]:
  "uploads_inv db \<Longrightarrow> uploads_inv (snd (insert_UploadSession flt s db))"
  by (auto simp: insert_UploadSession_def split: sum.splits
      intro!: uploads_inv_commit intro: inv_CreateUploadSession)

lemma insert_UploadPart_inv [inv_intros]:
  "uploads_inv db \<Longrightarrow> uploads_inv (snd (insert_UploadPart flt p db))"
  by (auto simp: insert_UploadPart_def Let_def split: sum.splits
      intro!: uploads_inv_commit intro: inv_CreateUploadPart)

lemma finish_CompleteUploadSession_inv [inv_intros]:
  assumes "uploads_inv db" and "session_of db sid = Some u" and "is_pending u"
  shows "uploads_inv (snd (finish_CompleteUploadSession flt s sid now db))"
proof -
  have "uploads_inv (q_DeleteUploadPartsBySession sid (q_MarkUploadSessionCompleted now sid db1))"
    if "q_CreateSecret sec db = Inr db1" for sec db1
    using that assms q_CreateSecret_upload_tables [OF that]
    by (intro inv_DeleteUploadParts inv_MarkCompleted) (auto intro: inv_CreateSecret_uploads)
  with assms(1) show ?thesis
    by (auto simp: finish_CompleteUploadSession_def split: sum.splits intro!: uploads_inv_commit)
qed

lemma u_State_fromRow [simp]:
  "u_State (uploadSessionFromRow u) = us_State u" "u_SessionID (uploadSessionFromRow u) = us_SessionID u"
  "u_StorageKey (uploadSessionFromRow u) = us_StorageKey u" "u_PublicID (uploadSessionFromRow u) = us_PublicID u"
  by (simp_all add: uploadSessionFromRow_def)

lemma repo_CompleteUploadSession_db:
  "snd (snd (repo_CompleteUploadSession flt sid now fin w)) = snd w \<or>
   (\<exists>u. session_of (snd w) sid = Some u \<and> is_pending u \<and>
      fin (uploadSessionFromRow u) (q_ListUploadPartsBySession sid (snd w)) (fst w) =
        (None, fst (snd (repo_CompleteUploadSession flt sid now fin w))) \<and>
      repo_CompleteUploadSession flt sid now fin w =
        (fst (finish_CompleteUploadSession flt (uploadSessionFromRow u) sid now (snd w)),
         fst (snd (repo_CompleteUploadSession flt sid now fin w)),
         snd (finish_CompleteUploadSession flt (uploadSessionFromRow u) sid now (snd w))))"
  by (auto simp: repo_CompleteUploadSession_def is_pending_def Let_def
      split: option.splits UploadSessionState.splits prod.splits)

lemma repo_CompleteUploadSession_inv [inv_intros]:
  "uploads_inv (snd w) \<Longrightarrow> uploads_inv (snd (snd (repo_CompleteUploadSession flt sid now fin w)))"
  using repo_CompleteUploadSession_db [of flt sid now fin w]
  by (metis finish_CompleteUploadSession_inv snd_conv)

lemma repo_AbortUploadSession_inv [inv_intros]:
  "uploads_inv db \<Longrightarrow> uploads_inv (snd (repo_AbortUploadSession flt sid now db))"
  using inv_MarkAborted(1) [of db now sid]
  by (auto simp: repo_AbortUploadSession_def autocommit_def split: fate.splits)

lemma repo_ClearUploadParts_inv [inv_intros]:
  "uploads_inv db \<Longrightarrow> uploads_inv (snd (repo_ClearUploadParts flt sid db))"
  by (auto simp: repo_ClearUploadParts_def intro!: uploads_inv_commit inv_DeleteUploadParts)

lemma finish_AbortExpired_inv [inv_intros]:
  "uploads_inv db \<Longrightarrow> uploads_inv (snd (finish_AbortExpired flt now n sids db))"
  using inv_MarkAborted(2) [of db now sids]
  by (auto simp: finish_AbortExpired_def split: prod.splits intro!: uploads_inv_commit)

lemma repo_AbortExpired_db:
  "snd (snd (repo_AbortExpiredUploadSessions flt locked cb now limit w)) = snd w \<or>
   (\<exists>n sids. set sids \<subseteq> us_SessionID ` set (q_ListExpiredUploadSessionsForUpdate locked now (int32 limit) (snd w)) \<and>
      snd (snd (repo_AbortExpiredUploadSessions flt locked cb now limit w)) =
        snd (finish_AbortExpired flt now n sids (snd w)))"
proof -
  let ?rows = "q_ListExpiredUploadSessionsForUpdate locked now (int32 limit) (snd w)"
  obtain ok st where run: "run_callbacks cb (map uploadSessionFromRow ?rows) (fst w) = (ok, st)"
    by fastforce
  obtain r db where fin: "finish_AbortExpired flt now (length ?rows) (map u_SessionID ok) (snd w) = (r, db)"
    by fastforce
  have "set (map u_SessionID ok) \<subseteq> us_SessionID ` set ?rows"
    using run_callbacks_subset [OF run] by auto
  moreover have "snd (snd (repo_AbortExpiredUploadSessions flt locked cb now limit w)) \<in> {snd w, db}"
    using run fin by (simp add: repo_AbortExpiredUploadSessions_def Let_def)
  ultimately show ?thesis using fin by (metis insertE singletonD snd_conv)
qed

lemma repo_AbortExpired_inv [inv_intros]:
  "uploads_inv (snd w) \<Longrightarrow>
     uploads_inv (snd (snd (repo_AbortExpiredUploadSessions flt locked cb now limit w)))"
  using repo_AbortExpired_db [of flt locked cb now limit w] finish_AbortExpired_inv by metis

lemma repo_DeleteFinished_inv [inv_intros]:
  "uploads_inv db \<Longrightarrow> uploads_inv (snd (repo_DeleteFinishedUploadSessions flt before db))"
  using inv_DeleteFinished [of db before]
  by (auto simp: repo_DeleteFinishedUploadSessions_def split: prod.splits intro!: uploads_inv_commit)

section \<open>What a completion does\<close>

lemma completedSession_row:
  "session_shape u \<Longrightarrow> is_pending u \<Longrightarrow>
     completedSession (uploadSessionFromRow u) now = uploadSessionFromRow (mark_completed now u)"
  by (simp add: completedSession_def uploadSessionFromRow_def mark_completed_def blank_material_def
      session_shape_def)

lemma q_MarkCompleted_session_of:
  "session_of (q_MarkUploadSessionCompleted now sid db) k =
     map_option (\<lambda>u. if us_SessionID u = sid then mark_completed now u else u) (session_of db k)"
  by (simp add: q_MarkUploadSessionCompleted_def update_sessions_def completed.lookup)

lemma upload_table_simps [simp]:
  "secrets (q_MarkUploadSessionCompleted now sid db) = secrets db"
  "secrets (q_DeleteUploadPartsBySession sid db) = secrets db"
  "upload_sessions (q_DeleteUploadPartsBySession sid db) = upload_sessions db"
  "upload_parts (q_DeleteUploadPartsBySession sid db) = filter (\<lambda>p. p_SessionID p \<noteq> sid) (upload_parts db)"
  "upload_parts (q_MarkUploadSessionCompleted now sid db) = upload_parts db"
  "secrets (snd (q_MarkUploadSessionAborted now sid db)) = secrets db"
  "secrets (snd (q_MarkUploadSessionsAborted now sids db)) = secrets db"
  "secrets (snd (q_DeleteFinishedUploadSessions before db)) = secrets db"
  by (simp_all add: q_MarkUploadSessionCompleted_def q_DeleteUploadPartsBySession_def update_sessions_def
      q_MarkUploadSessionAborted_def q_MarkUploadSessionsAborted_def q_DeleteFinishedUploadSessions_def Let_def)

text \<open>The database after a completion of the pending session \<open>u\<close>.\<close>

definition completed_db :: "UploadSessionRow \<Rightarrow> time \<Rightarrow> db \<Rightarrow> db" where
  "completed_db u now db =
     q_DeleteUploadPartsBySession (us_SessionID u)
       (q_MarkUploadSessionCompleted now (us_SessionID u)
         (db\<lparr>secrets := secrets db @ [completedSecret (uploadSessionFromRow u) now]\<rparr>))"

lemma completedSecret_simps [simp]:
  "s_PublicID (completedSecret s now) = u_PublicID s" "s_StorageKey (completedSecret s now) = u_StorageKey s"
  "(completedSecret s now)\<lparr>s_RetrievedAt := None\<rparr> = completedSecret s now"
  by (simp_all add: completedSecret_def)

lemma finish_CompleteUploadSession_cases:
  assumes "us_SessionID u = sid"
  shows "(\<exists>e. finish_CompleteUploadSession flt (uploadSessionFromRow u) sid now db = (Inl e, db)) \<or>
     secret_of db (us_PublicID u) = None \<and>
     (finish_CompleteUploadSession flt (uploadSessionFromRow u) sid now db =
        (Inr (completedSession (uploadSessionFromRow u) now), completed_db u now db) \<and> flt QCommit = Fine \<or>
      finish_CompleteUploadSession flt (uploadSessionFromRow u) sid now db = (Inl DbErr, completed_db u now db) \<and>
        flt QCommit = Lost)"
proof (cases "us_PublicID u \<in> s_PublicID ` set (secrets db)")
  case True
  then obtain e where "q_CreateSecret (completedSecret (uploadSessionFromRow u) now) db = Inl e"
    by (simp add: q_CreateSecret_def)
  then show ?thesis by (intro disjI1) (simp add: finish_CompleteUploadSession_def)
next
  case False
  then have "q_CreateSecret (completedSecret (uploadSessionFromRow u) now) db =
      Inr (db\<lparr>secrets := secrets db @ [completedSecret (uploadSessionFromRow u) now]\<rparr>)"
    by (simp add: q_CreateSecret_def)
  moreover have "secret_of db (us_PublicID u) = None" using False by (simp add: lookup_by_None)
  ultimately show ?thesis using assms
    by (auto simp: finish_CompleteUploadSession_def completed_db_def commit_def split: fate.splits)
qed

lemma completed_db_facts:
  assumes "session_of db sid = Some u" and "secret_of db (us_PublicID u) = None"
  shows "session_of (completed_db u now db) sid = Some (mark_completed now u)"
    "k \<noteq> sid \<Longrightarrow> session_of (completed_db u now db) k = session_of db k"
    "secret_of (completed_db u now db) (us_PublicID u) = Some (completedSecret (uploadSessionFromRow u) now)"
    "pid \<noteq> us_PublicID u \<Longrightarrow> secret_of (completed_db u now db) pid = secret_of db pid"
    "q_ListUploadPartsBySession sid (completed_db u now db) = []"
proof -
  note key = session_of_key [OF assms(1)]
  show "session_of (completed_db u now db) sid = Some (mark_completed now u)"
    using assms key by (simp add: completed_db_def q_MarkCompleted_session_of)
  show "session_of (completed_db u now db) k = session_of db k" if "k \<noteq> sid"
    using that key by (cases "session_of db k")
      (auto simp: completed_db_def q_MarkCompleted_session_of dest: session_of_key)
  show "secret_of (completed_db u now db) (us_PublicID u) = Some (completedSecret (uploadSessionFromRow u) now)"
    using assms by (simp add: completed_db_def lookup_by_append)
  show "secret_of (completed_db u now db) pid = secret_of db pid" if "pid \<noteq> us_PublicID u"
    using that by (simp add: completed_db_def lookup_by_append split: option.splits)
  show "q_ListUploadPartsBySession sid (completed_db u now db) = []"
    using key by (auto simp: completed_db_def q_ListUploadPartsBySession_def filter_empty_conv)
qed

lemma complete_InrD:
  assumes inv: "uploads_inv (snd w)"
    and ok: "repo_CompleteUploadSession flt sid now finalize w = (Inr session, w')"
  shows "\<exists>u. session_of (snd w) sid = Some u \<and>
    (us_State u = UploadSessionStateCompleted \<and> w' = w \<and> session = uploadSessionFromRow u \<or>
     is_pending u \<and>
     finalize (uploadSessionFromRow u) (q_ListUploadPartsBySession sid (snd w)) (fst w) = (None, fst w') \<and>
     secret_of (snd w) (us_PublicID u) = None \<and> snd w' = completed_db u now (snd w) \<and>
     session = uploadSessionFromRow (mark_completed now u))"
proof (cases "session_of (snd w) sid")
  case None
  then show ?thesis using ok by (auto simp: repo_CompleteUploadSession_def split: if_splits)
next
  case (Some u)
  show ?thesis
  proof (cases "us_State u")
    case UploadSessionStatePending
    then have p: "is_pending u" by (simp add: is_pending_def)
    have sid: "us_SessionID u = sid" "session_shape u"
      using session_of_key [OF Some] inv by (auto simp: uploads_inv_def)
    obtain st where st: "finalize (uploadSessionFromRow u) (q_ListUploadPartsBySession sid (snd w)) (fst w) = (None, st)"
      and fin: "finish_CompleteUploadSession flt (uploadSessionFromRow u) sid now (snd w) = (Inr session, snd w')"
        "fst w' = st"
      using ok Some UploadSessionStatePending
      by (auto simp: repo_CompleteUploadSession_def Let_def split: if_splits option.splits prod.splits)
    from finish_CompleteUploadSession_cases [OF sid(1), of flt now "snd w"] fin
    have "secret_of (snd w) (us_PublicID u) = None" "snd w' = completed_db u now (snd w)"
      "session = completedSession (uploadSessionFromRow u) now" by auto
    then show ?thesis using Some p st fin(2) completedSession_row [OF sid(2) p] by auto
  qed (use ok Some in \<open>auto simp: repo_CompleteUploadSession_def split: if_splits\<close>)
qed

text \<open>The secret a pending session becomes, field by field from the row of the session.\<close>

lemma completedSecret_row:
  assumes "session_shape u" and "is_pending u" and "s = completedSecret (uploadSessionFromRow u) now"
  shows "s_PublicID s = us_PublicID u \<and>
    us_MetadataTokenHash u = Some (s_MetadataTokenHash s) \<and> us_BlobTokenHash u = Some (s_BlobTokenHash s) \<and>
    us_DeletionTokenHash u = Some (s_DeletionTokenHash s) \<and> us_EncryptedMeta u = Some (s_EncryptedMeta s) \<and>
    s_BlobSize s = us_BlobSize u \<and> s_BurnAfterRead s = us_BurnAfterRead u \<and>
    s_ExpiresAt s = us_SecretExpiresAt u \<and> s_StorageKey s = us_StorageKey u \<and>
    s_CreatedAt s = now \<and> s_RetrievedAt s = None"
  using assms
  by (auto simp: session_shape_def completedSecret_def uploadSessionFromRow_def)

lemma mark_completed_row:
  "mark_completed now u = u\<lparr>us_State := UploadSessionStateCompleted, us_CompletedAt := Some now,
     us_MetadataTokenHash := None, us_BlobTokenHash := None, us_DeletionTokenHash := None,
     us_EncryptedMeta := None\<rparr>"
  by (simp add: mark_completed_def blank_material_def)


text \<open>
  A completed upload stays completed: a client that repeats the call gets the same
  answer as the first time, nothing is created again and storage is not called, whatever the
  callback would do.
\<close>

theorem complete_is_idempotent:
  assumes "uploads_inv (snd w)"
    and "repo_CompleteUploadSession flt sid now finalize w = (Inr session, w')"
  shows "repo_CompleteUploadSession no_faults sid now' finalize' w' = (Inr session, w')"
proof -
  from complete_InrD [OF assms] obtain u where "session_of (snd w') sid = Some u"
    "us_State u = UploadSessionStateCompleted" "session = uploadSessionFromRow u"
    using completed_db_facts(1) by (metis mark_simps(7))
  then show ?thesis by (simp add: repo_CompleteUploadSession_def)
qed

section \<open>The state machine of a session\<close>

text \<open>
  A session row can become only these: itself, its completed or aborted version when it was
  pending, or nothing (it was purged).
\<close>

definition session_le :: "UploadSessionRow option \<Rightarrow> UploadSessionRow option \<Rightarrow> bool" where
  "session_le x y \<longleftrightarrow>
     y = None \<or> x = y \<or>
     (\<exists>u t. x = Some u \<and> is_pending u \<and> (y = Some (mark_completed t u) \<or> y = Some (mark_aborted t u)))"

lemma session_le_refl [simp]: "session_le x x" "session_le x None"
  by (simp_all add: session_le_def)

lemma session_le_trans: "session_le x y \<Longrightarrow> session_le y z \<Longrightarrow> session_le x z"
  by (auto simp: session_le_def)

text \<open>
  The calls on upload sessions. A create or a record is its insert; what runs between its
  check and its insert are earlier operations of the run.
\<close>

datatype 's upload_op =
    UInsertSession fates UploadSession
  | UInsertPart fates UploadPart
  | UComplete fates string time "UploadSession \<Rightarrow> UploadPart list \<Rightarrow> 's \<Rightarrow> err option \<times> 's"
  | UAbort fates string time
  | UClearParts fates string
  | UAbortExpired fates "string \<Rightarrow> bool" "UploadSession \<Rightarrow> 's \<Rightarrow> bool \<times> 's" time int
  | UDeleteFinished fates time

fun upload_step :: "'s upload_op \<Rightarrow> 's \<times> db \<Rightarrow> 's \<times> db" where
  "upload_step (UInsertSession flt s) (st, db) = (st, snd (insert_UploadSession flt s db))"
| "upload_step (UInsertPart flt p) (st, db) = (st, snd (insert_UploadPart flt p db))"
| "upload_step (UComplete flt sid now finalize) w = snd (repo_CompleteUploadSession flt sid now finalize w)"
| "upload_step (UAbort flt sid now) (st, db) = (st, snd (repo_AbortUploadSession flt sid now db))"
| "upload_step (UClearParts flt sid) (st, db) = (st, snd (repo_ClearUploadParts flt sid db))"
| "upload_step (UAbortExpired flt locked cb now limit) w =
     snd (repo_AbortExpiredUploadSessions flt locked cb now limit w)"
| "upload_step (UDeleteFinished flt before) (st, db) =
     (st, snd (repo_DeleteFinishedUploadSessions flt before db))"

fun upload_run :: "'s upload_op list \<Rightarrow> 's \<times> db \<Rightarrow> 's \<times> db" where
  "upload_run [] w = w"
| "upload_run (x # xs) w = upload_run xs (upload_step x w)"

fun starts_session :: "string \<Rightarrow> 's upload_op \<Rightarrow> bool" where
  "starts_session sid (UInsertSession flt s) = (u_SessionID s = sid)"
| "starts_session sid _ = False"

lemma upload_step_inv: "uploads_inv (snd w) \<Longrightarrow> uploads_inv (snd (upload_step x w))"
  by (cases "(x, w)" rule: upload_step.cases)
     (auto simp: insert_UploadSession_inv insert_UploadPart_inv repo_AbortUploadSession_inv
        repo_ClearUploadParts_inv repo_DeleteFinished_inv repo_CompleteUploadSession_inv
        repo_AbortExpired_inv)

lemma commit_session_le:
  "session_le (session_of db k) (session_of db' k) \<Longrightarrow>
     session_le (session_of db k) (session_of (snd (commit flt x db db')) k)"
  "session_le (session_of db k) (session_of db' k) \<Longrightarrow>
     session_le (session_of db k) (session_of (snd (autocommit flt q x db db')) k)"
  by (auto simp: commit_def autocommit_def split: fate.splits)

lemma session_le_aborted:
  "(\<And>u. P u \<Longrightarrow> is_pending u) \<Longrightarrow>
     session_le (session_of db k) (session_of (update_sessions P (mark_aborted t) db) k)"
  by (cases "session_of db k") (auto simp: update_sessions_def aborted.lookup session_le_def)

lemma insert_UploadSession_le:
  "u_SessionID s \<noteq> k \<Longrightarrow> session_le (session_of db k) (session_of (snd (insert_UploadSession flt s db)) k)"
  by (auto simp: insert_UploadSession_def q_CreateUploadSession_def Let_def lookup_by_append
      uploadSessionParams_def split: option.splits intro!: commit_session_le)

lemma insert_UploadPart_sessions:
  "upload_sessions (snd (insert_UploadPart flt p db)) = upload_sessions db"
  by (auto simp: insert_UploadPart_def q_CreateUploadPart_def commit_def Let_def split: fate.split)

lemma repo_AbortUploadSession_le:
  "session_le (session_of db k) (session_of (snd (repo_AbortUploadSession flt sid now db)) k)"
  using session_le_aborted [of "\<lambda>u. us_SessionID u = sid \<and> is_pending u" k db now]
  by (auto simp: repo_AbortUploadSession_def autocommit_def q_MarkUploadSessionAborted_def split: fate.splits)

lemma repo_AbortExpired_le:
  "session_le (session_of (snd w) k)
     (session_of (snd (snd (repo_AbortExpiredUploadSessions flt locked cb now limit w))) k)"
proof -
  have "session_le (session_of db k) (session_of (snd (finish_AbortExpired flt now n sids db)) k)" for n sids db
    using session_le_aborted [of "\<lambda>u. us_SessionID u \<in> set sids \<and> is_pending u" k db now]
    by (auto simp: finish_AbortExpired_def q_MarkUploadSessionsAborted_def commit_def split: fate.splits)
  then show ?thesis using repo_AbortExpired_db [of flt locked cb now limit w] by (metis session_le_refl(1))
qed

lemma repo_DeleteFinished_le:
  assumes "uploads_inv db"
  shows "session_le (session_of db k) (session_of (snd (repo_DeleteFinishedUploadSessions flt before db)) k)"
  using lookup_by_filter [OF uploads_inv_ids [OF assms], of k "\<lambda>u. \<not> finished_before before u"]
  by (auto simp: repo_DeleteFinishedUploadSessions_def q_DeleteFinishedUploadSessions_def Let_def
      autocommit_def session_le_def split: fate.splits option.splits)

lemma repo_CompleteUploadSession_le:
  assumes inv: "uploads_inv (snd w)"
  shows "session_le (session_of (snd w) k)
     (session_of (snd (snd (repo_CompleteUploadSession flt sid now fin w))) k)"
  using repo_CompleteUploadSession_db [of flt sid now fin w]
proof (elim disjE exE conjE)
  fix u
  let ?f = "finish_CompleteUploadSession flt (uploadSessionFromRow u) sid now (snd w)"
  assume u: "session_of (snd w) sid = Some u" "is_pending u"
    and w': "repo_CompleteUploadSession flt sid now fin w =
      (fst ?f, fst (snd (repo_CompleteUploadSession flt sid now fin w)), snd ?f)"
  have "session_le (session_of (snd w) k) (session_of (completed_db u now (snd w)) k)"
    if "secret_of (snd w) (us_PublicID u) = None"
    using u completed_db_facts(1,2) [OF u(1) that, where now = now] by (cases "k = sid") (auto simp: session_le_def)
  with finish_CompleteUploadSession_cases [of u sid flt now "snd w"] session_of_key [OF u(1)]
  have "session_le (session_of (snd w) k) (session_of (snd ?f) k)" by auto
  with w' show ?thesis by (metis snd_conv)
qed simp

lemma upload_step_le:
  "uploads_inv (snd w) \<Longrightarrow> \<not> starts_session k x \<Longrightarrow>
     session_le (session_of (snd w) k) (session_of (snd (upload_step x w)) k)"
  by (cases "(x, w)" rule: upload_step.cases)
     (auto simp: insert_UploadSession_le insert_UploadPart_sessions repo_AbortUploadSession_le
        repo_AbortExpired_le repo_DeleteFinished_le repo_CompleteUploadSession_le
        repo_ClearUploadParts_def autocommit_def split: fate.split)

lemma upload_run_inv: "uploads_inv (snd w) \<Longrightarrow> uploads_inv (snd (upload_run xs w))"
  by (induction xs arbitrary: w) (auto simp: upload_step_inv)

lemma upload_run_le:
  "uploads_inv (snd w) \<Longrightarrow> \<forall>x \<in> set xs. \<not> starts_session k x \<Longrightarrow>
     session_le (session_of (snd w) k) (session_of (snd (upload_run xs w)) k)"
proof (induction xs arbitrary: w)
  case (Cons x xs)
  then have "session_le (session_of (snd w) k) (session_of (snd (upload_step x w)) k)"
    by (intro upload_step_le) auto
  moreover have "session_le (session_of (snd (upload_step x w)) k)
      (session_of (snd (upload_run xs (upload_step x w))) k)"
    using Cons by (simp add: upload_step_inv)
  ultimately show ?case by (simp add: session_le_trans)
qed simp

text \<open>
  Property C20. The state machine of an upload session: over any run of calls on upload
  sessions, with failures and interleaving, a pending session stays as it is or ends once, as
  completed or as aborted, with its share material blanked; an ended session never changes
  again until it is purged.
\<close>

theorem session_ends_once:
  assumes "uploads_inv (snd w)" and "session_of (snd w) sid = Some u"
    and "\<forall>x \<in> set xs. \<not> starts_session sid x" and "session_of (snd (upload_run xs w)) sid = Some u'"
  shows "u' = u \<or> is_pending u \<and> (\<exists>t. u' = mark_completed t u \<or> u' = mark_aborted t u)"
  using upload_run_le [OF assms(1,3)] assms(2,4) by (auto simp: session_le_def)

text \<open>A pending session of 7 bytes with one part, and the store that assembles it.\<close>

definition demo_session :: UploadSession where
  "demo_session = \<lparr>u_SessionID = ''s'', u_UploadTokenHash = ''t'', u_PublicID = ''q'',
     u_StorageKey = ''blobs/s'', u_S3UploadID = ''u'', u_BlobSize = 7, u_MetadataTokenHash = ''m'',
     u_BlobTokenHash = ''b'', u_DeletionTokenHash = ''d'', u_EncryptedMeta = ''e'',
     u_BurnAfterRead = False, u_SecretExpiresAt = 100, u_UploadExpiresAt = 50,
     u_State = UploadSessionStatePending, u_CreatedAt = 0, u_CompletedAt = None, u_AbortedAt = None\<rparr>"

definition demo_part :: UploadPart where
  "demo_part = \<lparr>p_SessionID = ''s'', p_PartNumber = 1, p_Offset = 0, p_Size = 7,
     p_SHA256 = ''h'', p_ETag = ''g'', p_CreatedAt = 1\<rparr>"

definition demo_uploads :: db where
  "demo_uploads = empty_db\<lparr>upload_sessions := [uploadSessionParams demo_session],
     upload_parts := [demo_part]\<rparr>"

definition demo_finalize :: "UploadSession \<Rightarrow> UploadPart list \<Rightarrow> string list \<Rightarrow> err option \<times> string list" where
  "demo_finalize s parts st = (None, u_StorageKey s # st)"

lemma demo_uploads_inv: "uploads_inv demo_uploads"
  by (simp add: uploads_inv_def demo_uploads_def empty_db_def demo_part_def part_key_def
      demo_session_def uploadSessionParams_def session_shape_def is_pending_def)

lemma demo_complete:
  "repo_CompleteUploadSession no_faults ''s'' 10 demo_finalize ([], demo_uploads) =
     (Inr (uploadSessionFromRow (mark_completed 10 (uploadSessionParams demo_session))), [''blobs/s''],
      completed_db (uploadSessionParams demo_session) 10 demo_uploads)"
proof -
  have row: "session_of demo_uploads ''s'' = Some (uploadSessionParams demo_session)"
    "us_SessionID (uploadSessionParams demo_session) = ''s''" "is_pending (uploadSessionParams demo_session)"
    "session_shape (uploadSessionParams demo_session)"
    by (simp_all add: demo_uploads_def empty_db_def demo_session_def uploadSessionParams_def
        is_pending_def session_shape_def)
  have "finish_CompleteUploadSession no_faults (uploadSessionFromRow (uploadSessionParams demo_session)) ''s'' 10 demo_uploads =
    (Inr (uploadSessionFromRow (mark_completed 10 (uploadSessionParams demo_session))),
     completed_db (uploadSessionParams demo_session) 10 demo_uploads)"
    using row completedSession_row [OF row(4,3), of 10]
    by (simp add: finish_CompleteUploadSession_def q_CreateSecret_def demo_uploads_def empty_db_def
        completed_db_def)
  with row show ?thesis
    by (simp add: repo_CompleteUploadSession_def demo_finalize_def is_pending_def)
       (simp add: demo_session_def uploadSessionParams_def uploadSessionFromRow_def)
qed


theorem complete_is_idempotent_witness:
  "\<exists>session w'. repo_CompleteUploadSession no_faults ''s'' 20 (\<lambda>_ _ st. (Some StorageErr, st)) w' =
      (Inr session, w') \<and> fst w' = [''blobs/s'']"
  using complete_is_idempotent [OF _ demo_complete, of 20 "\<lambda>_ _ st. (Some StorageErr, st)"] demo_uploads_inv
  by fastforce

theorem session_ends_once_witness:
  "mark_completed 10 (uploadSessionParams demo_session) = uploadSessionParams demo_session \<or>
   is_pending (uploadSessionParams demo_session) \<and>
   (\<exists>t. mark_completed 10 (uploadSessionParams demo_session) = mark_completed t (uploadSessionParams demo_session) \<or>
        mark_completed 10 (uploadSessionParams demo_session) = mark_aborted t (uploadSessionParams demo_session))"
proof (rule session_ends_once)
  let ?u = "uploadSessionParams demo_session"
  let ?xs = "[UComplete no_faults ''s'' 10 demo_finalize]"
  have s: "session_of demo_uploads ''s'' = Some ?u" "secret_of demo_uploads (us_PublicID ?u) = None"
    by (simp_all add: demo_uploads_def empty_db_def demo_session_def uploadSessionParams_def)
  show "uploads_inv (snd ([] :: string list, demo_uploads))" by (simp add: demo_uploads_inv)
  show "session_of (snd ([] :: string list, demo_uploads)) ''s'' = Some ?u" by (simp add: s)
  show "\<forall>x \<in> set ?xs. \<not> starts_session ''s'' x" by simp
  show "session_of (snd (upload_run ?xs ([], demo_uploads))) ''s'' = Some (mark_completed 10 ?u)"
    using completed_db_facts(1) [OF s, where now = 10] by (simp only: upload_run.simps upload_step.simps demo_complete snd_conv)
qed

section \<open>Failures\<close>

text \<open>
  One lemma per method that writes: after an error its own work is not there, unless the commit
  went through and only its answer was lost.
\<close>

lemma autocommit_failed:
  "flt q \<noteq> Lost \<Longrightarrow> isl (fst (autocommit flt q x db db')) \<Longrightarrow> snd (autocommit flt q x db db') = db"
  by (auto simp: autocommit_def split: fate.splits)

lemma commit_failed:
  "flt QCommit \<noteq> Lost \<Longrightarrow> isl (fst (commit flt x db db')) \<Longrightarrow> snd (commit flt x db db') = db"
  by (auto simp: commit_def split: fate.splits)

lemma failed_Create:
  "flt QCreateSecret \<noteq> Lost \<Longrightarrow> isl (fst (repo_Create flt s now db)) \<Longrightarrow> snd (repo_Create flt s now db) = db"
  by (auto simp: repo_Create_def autocommit_failed split: sum.splits if_splits)

lemma failed_StartRetrievalSession:
  "flt QCommit \<noteq> Lost \<Longrightarrow> isl (fst (repo_StartRetrievalSession flt pid bh dh sh e now db)) \<Longrightarrow>
     snd (repo_StartRetrievalSession flt pid bh dh sh e now db) = db"
  by (auto simp: repo_StartRetrievalSession_def Let_def commit_failed
      split: option.splits sum.splits prod.splits if_splits)

lemma failed_Delete:
  "flt QCommit \<noteq> Lost \<Longrightarrow> isl (fst (repo_Delete flt pid now db)) \<Longrightarrow> snd (repo_Delete flt pid now db) = db"
  by (auto simp: repo_Delete_def q_DeleteSecret_def commit_failed split: option.splits if_splits)

lemma failed_DeleteExpired:
  "flt QCommit \<noteq> Lost \<Longrightarrow> isl (fst (repo_DeleteExpired flt locked cb now limit w)) \<Longrightarrow>
     snd (snd (repo_DeleteExpired flt locked cb now limit w)) = snd w"
  by (auto simp: repo_DeleteExpired_def finish_DeleteExpired_def commit_def Let_def
      split: prod.splits fate.splits if_splits)

lemma failed_CreateUploadSession:
  "flt QCreateUploadSession \<noteq> Lost \<Longrightarrow> isl (fst (repo_CreateUploadSession flt env s db)) \<Longrightarrow>
     snd (repo_CreateUploadSession flt env s db) \<in> {db, env db}"
  by (auto simp: repo_CreateUploadSession_def insert_UploadSession_def autocommit_failed
      split: sum.splits if_splits)

lemma failed_RecordUploadPart:
  "flt QCommit \<noteq> Lost \<Longrightarrow> isl (fst (repo_RecordUploadPart flt env part db)) \<Longrightarrow>
     snd (repo_RecordUploadPart flt env part db) \<in> {db, env db}"
  by (auto simp: repo_RecordUploadPart_def insert_UploadPart_def Let_def commit_failed
      split: option.splits sum.splits if_splits)

lemma failed_CompleteUploadSession:
  "flt QCommit \<noteq> Lost \<Longrightarrow> isl (fst (repo_CompleteUploadSession flt sid now finalize w)) \<Longrightarrow>
     snd (snd (repo_CompleteUploadSession flt sid now finalize w)) = snd w"
  by (auto simp: repo_CompleteUploadSession_def finish_CompleteUploadSession_def commit_def Let_def
      split: option.splits sum.splits prod.splits fate.splits UploadSessionState.splits if_splits)

lemma failed_AbortUploadSession:
  assumes "flt QMarkUploadSessionAborted \<noteq> Lost" and "isl (fst (repo_AbortUploadSession flt sid now db))"
  shows "snd (repo_AbortUploadSession flt sid now db) = db"
proof -
  let ?q = "q_MarkUploadSessionAborted now sid db"
  have "map (\<lambda>u. if P u then f u else u) us = us" if "filter P us = []" for P f and us :: "UploadSessionRow list"
    using that by (induction us) (auto split: if_splits)
  then have "fst ?q = 0 \<Longrightarrow> snd ?q = db"
    by (simp add: q_MarkUploadSessionAborted_def update_sessions_def)
  with assms show ?thesis
    by (auto simp: repo_AbortUploadSession_def autocommit_def split: fate.splits if_splits)
qed

lemma failed_ClearUploadParts:
  "flt QDeleteUploadPartsBySession \<noteq> Lost \<Longrightarrow> isl (fst (repo_ClearUploadParts flt sid db)) \<Longrightarrow>
     snd (repo_ClearUploadParts flt sid db) = db"
  by (simp add: repo_ClearUploadParts_def autocommit_failed)

lemma failed_AbortExpired:
  "flt QCommit \<noteq> Lost \<Longrightarrow> isl (fst (repo_AbortExpiredUploadSessions flt locked cb now limit w)) \<Longrightarrow>
     snd (snd (repo_AbortExpiredUploadSessions flt locked cb now limit w)) = snd w"
  by (auto simp: repo_AbortExpiredUploadSessions_def finish_AbortExpired_def commit_def Let_def
      split: prod.splits fate.splits if_splits)

lemma failed_purges:
  "flt QDeleteFinishedUploadSessions \<noteq> Lost \<Longrightarrow> isl (fst (repo_DeleteFinishedUploadSessions flt before db)) \<Longrightarrow>
     snd (repo_DeleteFinishedUploadSessions flt before db) = db"
  "flt QDeleteExpiredRetrievalSessions \<noteq> Lost \<Longrightarrow> isl (fst (repo_DeleteExpiredRetrievalSessions flt now db)) \<Longrightarrow>
     snd (repo_DeleteExpiredRetrievalSessions flt now db) = db"
  "flt QDeleteExpiredTombstones \<noteq> Lost \<Longrightarrow> isl (fst (repo_DeleteExpiredTombstones flt now db)) \<Longrightarrow>
     snd (repo_DeleteExpiredTombstones flt now db) = db"
  by (auto simp: repo_DeleteFinishedUploadSessions_def repo_DeleteExpiredRetrievalSessions_def
      repo_DeleteExpiredTombstones_def autocommit_failed split: prod.splits)

text \<open>
  Property C26. A method of the repository of secrets and uploads that returns an error has
  changed nothing itself, unless its commit went through and only the answer was lost: at
  whichever statement it fails, and whatever the callback on the object store did before, no
  half of its work stays in the database. \<open>CreateUploadSession\<close> and \<open>RecordUploadPart\<close> leave
  at most what other transactions (\<open>env\<close>) committed between their two statements. A method of
  one statement commits by that statement.
\<close>

theorem failed_transaction_changes_nothing:
  assumes "flt QCommit \<noteq> Lost"
  shows "(isl (fst (repo_StartRetrievalSession flt pid bh dh sh e now db)) \<longrightarrow>
            snd (repo_StartRetrievalSession flt pid bh dh sh e now db) = db) \<and>
         (isl (fst (repo_Delete flt pid now db)) \<longrightarrow> snd (repo_Delete flt pid now db) = db) \<and>
         (isl (fst (repo_DeleteExpired flt locked beforeDelete now limit (st, db))) \<longrightarrow>
            snd (snd (repo_DeleteExpired flt locked beforeDelete now limit (st, db))) = db) \<and>
         (isl (fst (repo_RecordUploadPart flt env part db)) \<longrightarrow>
            snd (repo_RecordUploadPart flt env part db) \<in> {db, env db}) \<and>
         (isl (fst (repo_CompleteUploadSession flt sid now finalize (st, db))) \<longrightarrow>
            snd (snd (repo_CompleteUploadSession flt sid now finalize (st, db))) = db) \<and>
         (isl (fst (repo_AbortExpiredUploadSessions flt locked' beforeAbort now limit (st, db))) \<longrightarrow>
            snd (snd (repo_AbortExpiredUploadSessions flt locked' beforeAbort now limit (st, db))) = db) \<and>
         (flt QCreateSecret \<noteq> Lost \<and> isl (fst (repo_Create flt s now db)) \<longrightarrow>
            snd (repo_Create flt s now db) = db) \<and>
         (flt QCreateUploadSession \<noteq> Lost \<and> isl (fst (repo_CreateUploadSession flt env session db)) \<longrightarrow>
            snd (repo_CreateUploadSession flt env session db) \<in> {db, env db}) \<and>
         (flt QMarkUploadSessionAborted \<noteq> Lost \<and> isl (fst (repo_AbortUploadSession flt sid now db)) \<longrightarrow>
            snd (repo_AbortUploadSession flt sid now db) = db) \<and>
         (flt QDeleteUploadPartsBySession \<noteq> Lost \<and> isl (fst (repo_ClearUploadParts flt sid db)) \<longrightarrow>
            snd (repo_ClearUploadParts flt sid db) = db) \<and>
         (flt QDeleteFinishedUploadSessions \<noteq> Lost \<and> isl (fst (repo_DeleteFinishedUploadSessions flt now db)) \<longrightarrow>
            snd (repo_DeleteFinishedUploadSessions flt now db) = db) \<and>
         (flt QDeleteExpiredRetrievalSessions \<noteq> Lost \<and> isl (fst (repo_DeleteExpiredRetrievalSessions flt now db)) \<longrightarrow>
            snd (repo_DeleteExpiredRetrievalSessions flt now db) = db) \<and>
         (flt QDeleteExpiredTombstones \<noteq> Lost \<and> isl (fst (repo_DeleteExpiredTombstones flt now db)) \<longrightarrow>
            snd (repo_DeleteExpiredTombstones flt now db) = db)"
  using assms failed_DeleteExpired [where w = "(st, db)"] failed_CompleteUploadSession [where w = "(st, db)"]
    failed_AbortExpired [where w = "(st, db)"]
  by (intro conjI impI; (elim conjE)?)
     (simp_all only: failed_StartRetrievalSession failed_Delete failed_RecordUploadPart failed_Create
       failed_CreateUploadSession failed_AbortUploadSession failed_ClearUploadParts failed_purges simp_thms snd_conv)

text \<open>
  A completion whose commit fails, after the store has assembled the object: the session is
  still pending, its part is there, and there is no secret.
\<close>

theorem failed_transaction_changes_nothing_witness:
  "repo_CompleteUploadSession (no_faults(QCommit := Failed)) ''s'' 10 demo_finalize ([], demo_uploads) =
     (Inl DbErr, [''blobs/s''], demo_uploads)"
proof -
  let ?flt = "no_faults(QCommit := Failed)"
  let ?u = "uploadSessionParams demo_session"
  have row: "session_of demo_uploads ''s'' = Some ?u" "us_State ?u = UploadSessionStatePending"
    "u_StorageKey (uploadSessionFromRow ?u) = ''blobs/s''"
    by (simp_all add: demo_uploads_def empty_db_def demo_session_def uploadSessionParams_def)
  have "fst (finish_CompleteUploadSession ?flt (uploadSessionFromRow ?u) ''s'' 10 demo_uploads) = Inl DbErr"
    by (simp add: finish_CompleteUploadSession_def q_CreateSecret_def commit_def bad_def no_faults_def
        demo_uploads_def empty_db_def)
  with row have run: "fst (repo_CompleteUploadSession ?flt ''s'' 10 demo_finalize ([], demo_uploads)) = Inl DbErr"
    "fst (snd (repo_CompleteUploadSession ?flt ''s'' 10 demo_finalize ([], demo_uploads))) = [''blobs/s'']"
    by (auto simp: repo_CompleteUploadSession_def demo_finalize_def bad_def no_faults_def split: prod.split
        dest: arg_cong [where f = fst])
  from run(1) have "isl (fst (repo_CompleteUploadSession ?flt ''s'' 10 demo_finalize ([], demo_uploads)))" by simp
  then have "snd (snd (repo_CompleteUploadSession ?flt ''s'' 10 demo_finalize ([], demo_uploads))) = demo_uploads"
    by (rule failed_transaction_changes_nothing [THEN conjunct2, THEN conjunct2, THEN conjunct2, THEN conjunct2,
          THEN conjunct1, THEN mp, rotated]) simp
  with run show ?thesis by (simp add: prod_eq_iff)
qed

end
