(* ===== verification/Transfer_Repo.thy ===== *)
theory Transfer_Repo
  imports Repo_Base
begin

text \<open>
  \<open>internal/adapter/postgres/transfer_repo.go\<close>: the mailboxes of short-code transfers, one
  definition per method, and what any sequence of calls does to a mailbox: every value is
  written once and in protocol order, one receiver claims it, its nameplate is its own while it
  is open, and every change is notified.
\<close>

section \<open>Methods\<close>

definition transferFromRow :: "CodeTransfer \<Rightarrow> Transfer" where
  "transferFromRow row =
     \<lparr>t_TransferID = ct_TransferID row, t_Nameplate = ct_Nameplate row,
      t_SenderTokenHash = ct_SenderTokenHash row,
      t_ReceiverTokenHash = (case ct_ReceiverTokenHash row of Some s \<Rightarrow> s | None \<Rightarrow> []),
      t_Offer = ct_Offer row, t_AnswerShare = ct_AnswerShare row,
      t_AnswerConfirmation = ct_AnswerConfirmation row, t_Delivery = ct_Delivery row,
      t_CloseReason = (case ct_CloseReason row of Some s \<Rightarrow> s | None \<Rightarrow> []),
      t_CreatedAt = ct_CreatedAt row, t_ExpiresAt = ct_ExpiresAt row, t_ClosedAt = ct_ClosedAt row\<rparr>"

definition transferPrimaryKey :: string where
  "transferPrimaryKey = ''code_transfers_pkey''"

text \<open>The row the insert statement makes.\<close>

definition transferParams :: "Transfer \<Rightarrow> int \<Rightarrow> CodeTransfer" where
  "transferParams t nameplate =
     \<lparr>ct_TransferID = t_TransferID t, ct_Nameplate = nameplate,
      ct_SenderTokenHash = t_SenderTokenHash t, ct_ReceiverTokenHash = None, ct_Offer = t_Offer t,
      ct_AnswerShare = None, ct_AnswerConfirmation = None, ct_Delivery = None,
      ct_CloseReason = None, ct_CreatedAt = t_CreatedAt t, ct_ExpiresAt = t_ExpiresAt t,
      ct_ClosedAt = None\<rparr>"

text \<open>The value is the transfer with the nameplate the call wrote into it.\<close>

definition repo_CreateTransfer :: "fates \<Rightarrow> Transfer \<Rightarrow> int \<Rightarrow> time \<Rightarrow> db \<Rightarrow> (err + Transfer) \<times> db" where
  "repo_CreateTransfer flt t maxNameplate now db =
     (if bad flt QBegin \<or> bad flt QLockTransferNameplates \<or> bad flt QCloseExpiredActiveTransfers \<or>
         bad flt QNextFreeNameplate
      then (Inl DbErr, db)
      else
        (let db1 = q_CloseExpiredActiveTransfers now db
         in (case q_NextFreeNameplate (int32 maxNameplate) db1 of
               None \<Rightarrow> (Inl ErrConflict, db)
             | Some nameplate \<Rightarrow>
                 (case q_CreateTransfer (transferParams t nameplate) db1 of
                    Inl e \<Rightarrow> (if bad flt QCreateTransfer then (Inl DbErr, db)
                              else if e = UniqueViolation transferPrimaryKey then (Inl ErrDuplicate, db)
                              else (Inl DbErr, db))
                  | Inr db2 \<Rightarrow>
                      (if bad flt QCreateTransfer then (Inl DbErr, db)
                       else commit flt (t\<lparr>t_Nameplate := nameplate\<rparr>) db db2)))))"

definition repo_ClaimTransfer :: "fates \<Rightarrow> int \<Rightarrow> string \<Rightarrow> time \<Rightarrow> db \<Rightarrow> (err + Transfer) \<times> db" where
  "repo_ClaimTransfer flt nameplate receiverTokenHash now db =
     (let (row, db1) = q_ClaimTransfer receiverTokenHash (int32 nameplate) now db
      in (case autocommit flt QClaimTransfer row db db1 of
            (Inl e, db') \<Rightarrow> (Inl e, db')
          | (Inr (Some t), db') \<Rightarrow> (Inr (transferFromRow t), db')
          | (Inr None, db') \<Rightarrow>
              (if bad flt QClaimedTransferExists then (Inl DbErr, db')
               else if q_ClaimedTransferExists (int32 nameplate) now db' then (Inl ErrConflict, db')
               else (Inl ErrNotFound, db'))))"

definition repo_GetTransfer :: "fates \<Rightarrow> string \<Rightarrow> db \<Rightarrow> err + Transfer" where
  "repo_GetTransfer flt transferID db =
     (if bad flt QGetTransfer then Inl DbErr
      else (case q_GetTransfer transferID db of
              None \<Rightarrow> Inl ErrNotFound
            | Some row \<Rightarrow> Inr (transferFromRow row)))"

definition repo_AnswerTransfer ::
    "fates \<Rightarrow> string \<Rightarrow> bytes \<Rightarrow> bytes \<Rightarrow> time \<Rightarrow> db \<Rightarrow> (err + bool) \<times> db" where
  "repo_AnswerTransfer flt transferID share confirmation now db =
     (let (n, db') = q_AnswerTransfer share confirmation transferID now db
      in autocommit flt QAnswerTransfer (n = 1) db db')"

definition repo_DeliverTransfer :: "fates \<Rightarrow> string \<Rightarrow> bytes \<Rightarrow> time \<Rightarrow> db \<Rightarrow> (err + bool) \<times> db" where
  "repo_DeliverTransfer flt transferID delivery now db =
     (let (n, db') = q_DeliverTransfer delivery now transferID db
      in autocommit flt QDeliverTransfer (n = 1) db db')"

definition repo_CloseTransfer :: "fates \<Rightarrow> string \<Rightarrow> string \<Rightarrow> time \<Rightarrow> db \<Rightarrow> (err + unit) \<times> db" where
  "repo_CloseTransfer flt transferID reason now db =
     (let (n, db') = q_CloseTransfer reason now transferID db
      in (case autocommit flt QCloseTransfer n db db' of
            (Inl e, db2) \<Rightarrow> (Inl e, db2)
          | (Inr n, db2) \<Rightarrow> (if n = 0 then (Inl ErrNotFound, db2) else (Inr (), db2))))"

definition repo_DeleteEndedTransfers :: "fates \<Rightarrow> time \<Rightarrow> db \<Rightarrow> (err + nat) \<times> db" where
  "repo_DeleteEndedTransfers flt endedBefore db =
     (let (n, db') = q_DeleteEndedTransfers endedBefore db
      in autocommit flt QDeleteEndedTransfers n db db')"

section \<open>The invariant of the mailboxes\<close>

abbreviation transfer_of :: "db \<Rightarrow> string \<Rightarrow> CodeTransfer option" where
  "transfer_of db tid \<equiv> lookup_by ct_TransferID tid (code_transfers db)"

text \<open>The check constraints of the table and the order of the protocol.\<close>

definition transfer_shape :: "CodeTransfer \<Rightarrow> bool" where
  "transfer_shape t \<longleftrightarrow>
     (ct_AnswerShare t = None \<longleftrightarrow> ct_AnswerConfirmation t = None) \<and>
     (ct_CloseReason t = None \<longleftrightarrow> ct_ClosedAt t = None) \<and>
     (ct_AnswerShare t \<noteq> None \<longrightarrow> ct_ReceiverTokenHash t \<noteq> None) \<and>
     (ct_Delivery t \<noteq> None \<longrightarrow> ct_AnswerShare t \<noteq> None \<and> ct_CloseReason t = Some TransferCloseDone)"

definition transfers_inv :: "db \<Rightarrow> bool" where
  "transfers_inv db \<longleftrightarrow>
     distinct (map ct_TransferID (code_transfers db)) \<and>
     distinct (map ct_Nameplate (filter transfer_open (code_transfers db))) \<and>
     (\<forall>t \<in> set (code_transfers db). transfer_shape t)"

lemma transfers_inv_ids: "transfers_inv db \<Longrightarrow> distinct (map ct_TransferID (code_transfers db))"
  by (simp add: transfers_inv_def)

text \<open>Every mailbox that differs in \<open>db'\<close> has been notified since \<open>db\<close>.\<close>

definition tells :: "db \<Rightarrow> db \<Rightarrow> bool" where
  "tells db db' \<longleftrightarrow>
     (\<exists>new. notified db' = notified db @ new \<and>
        (\<forall>k t t'. transfer_of db k = Some t \<and> transfer_of db' k = Some t' \<and> t' \<noteq> t \<longrightarrow> k \<in> set new))"

lemma tells_refl [simp]: "tells db db"
  by (simp add: tells_def)

text \<open>
  The contract of an update of a mailbox: it keeps the id and the nameplate, never opens
  a closed mailbox, and keeps the shape. Every update statement interprets it.
\<close>

locale mailbox_update =
  fixes P :: "CodeTransfer \<Rightarrow> bool" and f :: "CodeTransfer \<Rightarrow> CodeTransfer"
  assumes id_f: "ct_TransferID (f t) = ct_TransferID t"
    and nameplate_f: "ct_Nameplate (f t) = ct_Nameplate t"
    and open_f: "transfer_open (f t) \<Longrightarrow> transfer_open t"
    and shape_f: "transfer_shape t \<Longrightarrow> P t \<Longrightarrow> transfer_shape (f t)"
begin

definition upd :: "CodeTransfer \<Rightarrow> CodeTransfer" where
  "upd t = (if P t then f t else t)"

lemma upd_simps [simp]:
  "ct_TransferID (upd t) = ct_TransferID t" "ct_Nameplate (upd t) = ct_Nameplate t"
  by (simp_all add: upd_def id_f nameplate_f)

lemma upd_shape: "transfer_shape t \<Longrightarrow> transfer_shape (upd t)"
  by (simp add: upd_def shape_f)

lemma update_eq:
  "snd (update_transfers P f db) =
     db\<lparr>code_transfers := map upd (code_transfers db),
        notified := notified db @ map ct_TransferID (filter P (code_transfers db))\<rparr>"
  by (simp add: update_transfers_def upd_def [abs_def])

lemma open_nameplates:
  "distinct (map ct_Nameplate (filter transfer_open ts)) \<Longrightarrow>
     distinct (map ct_Nameplate (filter transfer_open (map upd ts))) \<and>
     ct_Nameplate ` set (filter transfer_open (map upd ts)) \<subseteq> ct_Nameplate ` set (filter transfer_open ts)"
proof (induction ts)
  case (Cons t ts)
  have "transfer_open (upd t) \<Longrightarrow> transfer_open t" using open_f by (auto simp: upd_def split: if_splits)
  with Cons show ?case by (auto simp: image_iff split: if_splits)
qed simp

lemma inv: "transfers_inv db \<Longrightarrow> transfers_inv (snd (update_transfers P f db))"
  using open_nameplates [of "code_transfers db"]
  by (auto simp: transfers_inv_def update_eq comp_def upd_shape)

lemma transfer_of_update:
  "transfer_of (snd (update_transfers P f db)) k = map_option upd (transfer_of db k)"
proof -
  have "lookup_by ct_TransferID k (map upd ts) = map_option upd (lookup_by ct_TransferID k ts)" for ts
    by (induction ts) auto
  then show ?thesis by (simp add: update_eq)
qed

lemma tells: "tells db (snd (update_transfers P f db))"
proof -
  have "k \<in> ct_TransferID ` set (filter P (code_transfers db))"
    if "transfer_of db k = Some t" "upd t \<noteq> t" for k t
    using that by (auto simp: upd_def dest!: lookup_by_SomeD split: if_splits)
  then show ?thesis
    by (intro tells_def [THEN iffD2] exI [of _ "map ct_TransferID (filter P (code_transfers db))"])
       (auto simp: transfer_of_update, auto simp: update_eq)
qed

end

interpretation claim: mailbox_update "claimable_transfer nameplate now"
    "\<lambda>t. t\<lparr>ct_ReceiverTokenHash := Some h\<rparr>" for nameplate now h
  by unfold_locales (auto simp: transfer_open_def transfer_shape_def)

interpretation answer: mailbox_update "answerable tid now"
    "\<lambda>t. t\<lparr>ct_AnswerShare := Some share, ct_AnswerConfirmation := Some conf\<rparr>" for tid now share conf
  by unfold_locales (auto simp: transfer_open_def transfer_shape_def answerable_def)

interpretation deliver: mailbox_update "deliverable tid now"
    "\<lambda>t. close_row TransferCloseDone now (t\<lparr>ct_Delivery := Some delivery\<rparr>)" for tid now delivery
  by unfold_locales (auto simp: transfer_open_def transfer_shape_def deliverable_def close_row_def)

text \<open>Closing a mailbox by hand or by expiry; only an open one is closed, which holds no delivery.\<close>

interpretation close: mailbox_update "\<lambda>t. ct_TransferID t = tid \<and> ct_ClosedAt t = None"
    "close_row reason now" for tid reason now
  by unfold_locales (auto simp: transfer_open_def transfer_shape_def close_row_def)

interpretation expire: mailbox_update "\<lambda>t. ct_ClosedAt t = None \<and> ct_ExpiresAt t \<le> now"
    "close_row TransferCloseExpired now" for now
  by unfold_locales (auto simp: transfer_open_def transfer_shape_def close_row_def)

section \<open>How a mailbox can change\<close>

text \<open>
  A value is written once and stays; the identity of the mailbox never changes.
\<close>

definition once :: "'a option \<Rightarrow> 'a option \<Rightarrow> bool" where
  "once a b \<longleftrightarrow> a = None \<or> b = a"

definition mailbox_le :: "CodeTransfer \<Rightarrow> CodeTransfer \<Rightarrow> bool" where
  "mailbox_le t t' \<longleftrightarrow>
     ct_TransferID t' = ct_TransferID t \<and> ct_Nameplate t' = ct_Nameplate t \<and>
     ct_SenderTokenHash t' = ct_SenderTokenHash t \<and> ct_Offer t' = ct_Offer t \<and>
     ct_CreatedAt t' = ct_CreatedAt t \<and> ct_ExpiresAt t' = ct_ExpiresAt t \<and>
     once (ct_ReceiverTokenHash t) (ct_ReceiverTokenHash t') \<and>
     once (ct_AnswerShare t) (ct_AnswerShare t') \<and>
     once (ct_AnswerConfirmation t) (ct_AnswerConfirmation t') \<and>
     once (ct_Delivery t) (ct_Delivery t') \<and>
     once (ct_CloseReason t) (ct_CloseReason t') \<and> once (ct_ClosedAt t) (ct_ClosedAt t') \<and>
     (ct_ClosedAt t \<noteq> None \<longrightarrow> t' = t)"

definition transfer_le :: "CodeTransfer option \<Rightarrow> CodeTransfer option \<Rightarrow> bool" where
  "transfer_le x y \<longleftrightarrow> y = None \<or> (\<exists>t t'. x = Some t \<and> y = Some t' \<and> mailbox_le t t')"

lemma once_refl [simp]: "once a a" "once None b"
  by (simp_all add: once_def)

lemma once_trans: "once a b \<Longrightarrow> once b c \<Longrightarrow> once a c"
  by (auto simp: once_def)

lemma mailbox_le_refl [simp]: "mailbox_le t t"
  by (simp add: mailbox_le_def)

lemma mailbox_le_trans: "mailbox_le a b \<Longrightarrow> mailbox_le b c \<Longrightarrow> mailbox_le a c"
  unfolding mailbox_le_def by (metis once_trans)

lemma transfer_le_refl [simp]: "transfer_le x x" "transfer_le x None"
  by (cases x) (auto simp: transfer_le_def)

lemma transfer_le_trans: "transfer_le x y \<Longrightarrow> transfer_le y z \<Longrightarrow> transfer_le x z"
  by (auto simp: transfer_le_def intro: mailbox_le_trans)



lemma upd_le:
  "transfer_shape t \<Longrightarrow> mailbox_le t (claim.upd nameplate now h t)"
  "transfer_shape t \<Longrightarrow> mailbox_le t (close.upd tid reason now t)"
  "transfer_shape t \<Longrightarrow> mailbox_le t (expire.upd now t)"
  "transfer_shape t \<Longrightarrow> mailbox_le t (answer.upd tid now share conf t)"
  "transfer_shape t \<Longrightarrow> mailbox_le t (deliver.upd tid now delivery t)"
  unfolding claim.upd_def close.upd_def expire.upd_def answer.upd_def deliver.upd_def
  by (simp_all add: mailbox_le_def claimable_transfer_def transfer_active_def answerable_def
      deliverable_def close_row_def transfer_shape_def once_def) auto

section \<open>Every method keeps the invariant and only lets mailboxes move on\<close>

definition mailboxes_ok :: "db \<Rightarrow> db \<Rightarrow> bool" where
  "mailboxes_ok db db' \<longleftrightarrow>
     transfers_inv db' \<and>
     (\<forall>k t. transfer_of db k = Some t \<longrightarrow> (\<exists>t'. transfer_of db' k = Some t' \<and> mailbox_le t t'))"

lemma mailboxes_ok_inv: "mailboxes_ok db db' \<Longrightarrow> transfers_inv db'"
  by (simp add: mailboxes_ok_def)

lemma mailboxes_ok_refl: "transfers_inv db \<Longrightarrow> mailboxes_ok db db"
  by (simp add: mailboxes_ok_def)

lemma mailboxes_ok_commit:
  "transfers_inv db \<Longrightarrow> mailboxes_ok db db' \<Longrightarrow> mailboxes_ok db (snd (commit flt x db db'))"
  "transfers_inv db \<Longrightarrow> mailboxes_ok db db' \<Longrightarrow> mailboxes_ok db (snd (autocommit flt q x db db'))"
  by (auto simp: commit_def autocommit_def mailboxes_ok_refl split: fate.split)

lemma ok_update:
  assumes inv: "transfers_inv db" and inv': "transfers_inv db'"
    and lookup: "\<And>k. transfer_of db' k = map_option g (transfer_of db k)"
    and le: "\<And>t. transfer_shape t \<Longrightarrow> mailbox_le t (g t)"
  shows "mailboxes_ok db db'"
  using inv' inv by (auto simp: mailboxes_ok_def lookup transfers_inv_def dest: lookup_by_SomeD intro!: le)

lemma ok_statements:
  assumes "transfers_inv db"
  shows "mailboxes_ok db (snd (q_ClaimTransfer h nameplate now db))"
    "mailboxes_ok db (snd (q_AnswerTransfer share conf tid now db))"
    "mailboxes_ok db (snd (q_DeliverTransfer delivery now tid db))"
    "mailboxes_ok db (snd (q_CloseTransfer reason now tid db))"
    "mailboxes_ok db (q_CloseExpiredActiveTransfers now db)"
  unfolding q_ClaimTransfer_def q_AnswerTransfer_def q_DeliverTransfer_def q_CloseTransfer_def
    q_CloseExpiredActiveTransfers_def snd_conv
  by (rule ok_update [OF assms claim.inv [OF assms] claim.transfer_of_update upd_le(1)]; assumption)
     (rule ok_update [OF assms answer.inv [OF assms] answer.transfer_of_update upd_le(4)]
       ok_update [OF assms deliver.inv [OF assms] deliver.transfer_of_update upd_le(5)]
       ok_update [OF assms close.inv [OF assms] close.transfer_of_update upd_le(2)]
       ok_update [OF assms expire.inv [OF assms] expire.transfer_of_update upd_le(3)]; assumption)+

lemma q_CreateTransfer_ok:
  assumes inv: "transfers_inv db" and q: "q_CreateTransfer (transferParams t n) db = Inr db'"
  shows "mailboxes_ok db db'" "transfer_of db' (t_TransferID t) = Some (transferParams t n)"
    "transfer_of db (t_TransferID t) = None"
proof -
  have row: "(transferParams t n)\<lparr>ct_ReceiverTokenHash := None, ct_AnswerShare := None,
      ct_AnswerConfirmation := None, ct_Delivery := None, ct_CloseReason := None, ct_ClosedAt := None\<rparr> =
      transferParams t n" by (simp add: transferParams_def)
  from q have db': "db' = db\<lparr>code_transfers := code_transfers db @ [transferParams t n]\<rparr>"
    and new: "t_TransferID t \<notin> ct_TransferID ` set (code_transfers db)"
      "n \<notin> ct_Nameplate ` set (filter transfer_open (code_transfers db))"
    by (auto simp: q_CreateTransfer_def row split: if_splits) (auto simp: transferParams_def)
  show none: "transfer_of db (t_TransferID t) = None" using new by (simp add: lookup_by_None)
  then show "transfer_of db' (t_TransferID t) = Some (transferParams t n)"
    by (simp add: db' lookup_by_append transferParams_def)
  have "transfer_shape (transferParams t n)" by (simp add: transfer_shape_def transferParams_def)
  with inv new show "mailboxes_ok db db'"
    by (auto simp: mailboxes_ok_def transfers_inv_def db' lookup_by_append transferParams_def split: option.split)
qed

lemma mailboxes_ok_trans: "mailboxes_ok a b \<Longrightarrow> mailboxes_ok b c \<Longrightarrow> mailboxes_ok a c"
  unfolding mailboxes_ok_def by (meson mailbox_le_trans)

lemma repo_CreateTransfer_ok:
  "transfers_inv db \<Longrightarrow> mailboxes_ok db (snd (repo_CreateTransfer flt t m now db))"
proof -
  assume inv: "transfers_inv db"
  note closed = ok_statements(5) [OF inv, of now]
  have "mailboxes_ok db db2"
    if "q_CreateTransfer (transferParams t n) (q_CloseExpiredActiveTransfers now db) = Inr db2" for n db2
    using closed q_CreateTransfer_ok(1) [OF _ that] by (blast intro: mailboxes_ok_trans [OF closed] dest: mailboxes_ok_inv)
  with inv show ?thesis
    by (auto simp: repo_CreateTransfer_def Let_def mailboxes_ok_refl split: option.split sum.split
        intro!: mailboxes_ok_commit)
qed

lemma repo_ClaimTransfer_ok:
  "transfers_inv db \<Longrightarrow> mailboxes_ok db (snd (repo_ClaimTransfer flt n h now db))"
  using ok_statements(1) [of db h "int32 n" now] mailboxes_ok_refl [of db]
  by (auto simp: repo_ClaimTransfer_def Let_def autocommit_def split: prod.splits fate.splits option.splits)

lemma repo_Answer_Deliver_ok:
  "transfers_inv db \<Longrightarrow> mailboxes_ok db (snd (repo_AnswerTransfer flt tid share conf now db))"
  "transfers_inv db \<Longrightarrow> mailboxes_ok db (snd (repo_DeliverTransfer flt tid delivery now db))"
  using ok_statements(2) [of db share conf tid now] ok_statements(3) [of db delivery now tid]
  by (auto simp: repo_AnswerTransfer_def repo_DeliverTransfer_def split: prod.splits intro!: mailboxes_ok_commit)

lemma repo_CloseTransfer_ok:
  "transfers_inv db \<Longrightarrow> mailboxes_ok db (snd (repo_CloseTransfer flt tid reason now db))"
  using ok_statements(4) [of db reason now tid] mailboxes_ok_refl [of db]
  by (auto simp: repo_CloseTransfer_def autocommit_def split: prod.splits fate.splits)

lemma repo_DeleteEnded_transfers:
  assumes inv: "transfers_inv db"
  shows "transfers_inv (snd (repo_DeleteEndedTransfers flt before db))"
    "transfer_le (transfer_of db k) (transfer_of (snd (repo_DeleteEndedTransfers flt before db)) k)"
proof -
  have "filter transfer_open (filter (\<lambda>t. \<not> ended_before before t) ts) =
      filter (\<lambda>t. \<not> ended_before before t) (filter transfer_open ts)" for ts
    by (simp add: filter_filter conj_commute)
  then have "transfers_inv (db\<lparr>code_transfers := filter (\<lambda>t. \<not> ended_before before t) (code_transfers db)\<rparr>)"
    using inv by (simp add: transfers_inv_def distinct_map_filter_key del: filter_filter)
  then show "transfers_inv (snd (repo_DeleteEndedTransfers flt before db))"
    using inv by (simp add: repo_DeleteEndedTransfers_def q_DeleteEndedTransfers_def autocommit_def split: fate.split)
  show "transfer_le (transfer_of db k) (transfer_of (snd (repo_DeleteEndedTransfers flt before db)) k)"
    using lookup_by_filter [OF transfers_inv_ids [OF inv], of k "\<lambda>t. \<not> ended_before before t"]
    by (auto simp: repo_DeleteEndedTransfers_def q_DeleteEndedTransfers_def autocommit_def
        split: fate.split option.split)
qed

section \<open>Runs\<close>

datatype transfer_op =
    TCreate fates Transfer int time
  | TClaim fates int string time
  | TAnswer fates string bytes bytes time
  | TDeliver fates string bytes time
  | TClose fates string string time
  | TDeleteEnded fates time

text \<open>One call: the id of the mailbox a successful claim returned, and the database it leaves.\<close>

fun transfer_step :: "transfer_op \<Rightarrow> db \<Rightarrow> string option \<times> db" where
  "transfer_step (TCreate flt t m now) db = (None, snd (repo_CreateTransfer flt t m now db))"
| "transfer_step (TClaim flt n h now) db =
     (let (r, db') = repo_ClaimTransfer flt n h now db
      in (case r of Inl _ \<Rightarrow> None | Inr t \<Rightarrow> Some (t_TransferID t), db'))"
| "transfer_step (TAnswer flt tid share conf now) db = (None, snd (repo_AnswerTransfer flt tid share conf now db))"
| "transfer_step (TDeliver flt tid delivery now) db = (None, snd (repo_DeliverTransfer flt tid delivery now db))"
| "transfer_step (TClose flt tid reason now) db = (None, snd (repo_CloseTransfer flt tid reason now db))"
| "transfer_step (TDeleteEnded flt before) db = (None, snd (repo_DeleteEndedTransfers flt before db))"

fun transfer_run :: "transfer_op list \<Rightarrow> db \<Rightarrow> db" where
  "transfer_run [] db = db"
| "transfer_run (x # xs) db = transfer_run xs (snd (transfer_step x db))"

fun opens_mailbox :: "string \<Rightarrow> transfer_op \<Rightarrow> bool" where
  "opens_mailbox tid (TCreate flt t m now) = (t_TransferID t = tid)"
| "opens_mailbox tid _ = False"

text \<open>How many claims of the run got the mailbox \<open>tid\<close>.\<close>

fun claims :: "string \<Rightarrow> transfer_op list \<Rightarrow> db \<Rightarrow> nat" where
  "claims tid [] db = 0"
| "claims tid (x # xs) db =
     (if fst (transfer_step x db) = Some tid then 1 else 0) + claims tid xs (snd (transfer_step x db))"

lemma ok_le: "mailboxes_ok db db' \<Longrightarrow> transfer_of db k \<noteq> None \<Longrightarrow> transfer_le (transfer_of db k) (transfer_of db' k)"
  by (auto simp: mailboxes_ok_def transfer_le_def)

lemma create_other_mailbox:
  "transfer_of db k = None \<Longrightarrow> t_TransferID t \<noteq> k \<Longrightarrow> transfer_of (snd (repo_CreateTransfer flt t m now db)) k = None"
  by (auto simp: repo_CreateTransfer_def q_CreateTransfer_def q_CloseExpiredActiveTransfers_def
      expire.transfer_of_update commit_def Let_def lookup_by_append transferParams_def
      split: option.split fate.split)

lemma q_none [simp]:
  "transfer_of (snd (q_ClaimTransfer h n now db)) k = None \<longleftrightarrow> transfer_of db k = None"
  "transfer_of (snd (q_AnswerTransfer share conf tid now db)) k = None \<longleftrightarrow> transfer_of db k = None"
  "transfer_of (snd (q_DeliverTransfer delivery now tid db)) k = None \<longleftrightarrow> transfer_of db k = None"
  "transfer_of (snd (q_CloseTransfer reason now tid db)) k = None \<longleftrightarrow> transfer_of db k = None"
  by (simp_all add: q_ClaimTransfer_def claim.transfer_of_update q_AnswerTransfer_def
      answer.transfer_of_update q_DeliverTransfer_def deliver.transfer_of_update
      q_CloseTransfer_def close.transfer_of_update)

text \<open>Each call leaves the database as it was or as its statement makes it.\<close>

lemma repo_transfer_db:
  "snd (repo_ClaimTransfer flt n h now db) \<in> {db, snd (q_ClaimTransfer h (int32 n) now db)}"
  "snd (repo_AnswerTransfer flt tid share conf now db) \<in> {db, snd (q_AnswerTransfer share conf tid now db)}"
  "snd (repo_DeliverTransfer flt tid delivery now db) \<in> {db, snd (q_DeliverTransfer delivery now tid db)}"
  "snd (repo_CloseTransfer flt tid reason now db) \<in> {db, snd (q_CloseTransfer reason now tid db)}"
  by (auto simp: repo_ClaimTransfer_def repo_AnswerTransfer_def repo_DeliverTransfer_def
      repo_CloseTransfer_def autocommit_def Let_def split: prod.split fate.split option.split)

lemma transfer_step_none:
  assumes "\<not> opens_mailbox k x" and none: "transfer_of db k = None"
  shows "transfer_of (snd (transfer_step x db)) k = None"
proof (cases x)
  case (TCreate flt t m now)
  then show ?thesis using assms create_other_mailbox by simp
next
  case (TClaim flt n h now)
  then show ?thesis using none repo_transfer_db(1) [of flt n h now db] q_none(1)
    by (auto split: prod.split)
next
  case (TAnswer flt tid share conf now)
  then show ?thesis using none repo_transfer_db(2) [of flt tid share conf now db] by auto
next
  case (TDeliver flt tid delivery now)
  then show ?thesis using none repo_transfer_db(3) [of flt tid delivery now db] by auto
next
  case (TClose flt tid reason now)
  then show ?thesis using none repo_transfer_db(4) [of flt tid reason now db] by auto
next
  case (TDeleteEnded flt before)
  then show ?thesis using none
    by (auto simp: repo_DeleteEndedTransfers_def q_DeleteEndedTransfers_def autocommit_def lookup_by_None
        split: fate.split)
qed

lemma transfer_step_ok:
  assumes "transfers_inv db"
  shows "transfers_inv (snd (transfer_step x db)) \<and>
     (\<not> opens_mailbox k x \<longrightarrow> transfer_le (transfer_of db k) (transfer_of (snd (transfer_step x db)) k))"
proof -
  have "mailboxes_ok db (snd (transfer_step x db)) \<or> (\<exists>flt before. x = TDeleteEnded flt before)"
    using assms repo_CreateTransfer_ok repo_ClaimTransfer_ok repo_Answer_Deliver_ok repo_CloseTransfer_ok
    by (cases x) (auto split: prod.split, (metis snd_conv)+)
  then show ?thesis
  proof
    assume "mailboxes_ok db (snd (transfer_step x db))"
    then show ?thesis using ok_le [of db "snd (transfer_step x db)" k] transfer_step_none [of k x db]
      by (cases "transfer_of db k") (auto dest: mailboxes_ok_inv)
  qed (use repo_DeleteEnded_transfers [OF assms] in auto)
qed

lemma transfer_run_ok:
  "transfers_inv db \<Longrightarrow> transfers_inv (transfer_run xs db) \<and>
     ((\<forall>x \<in> set xs. \<not> opens_mailbox k x) \<longrightarrow> transfer_le (transfer_of db k) (transfer_of (transfer_run xs db) k))"
proof (induction xs arbitrary: db)
  case (Cons x xs)
  note step = transfer_step_ok [OF Cons.prems, of x k]
  then show ?case using Cons.IH [of "snd (transfer_step x db)"] by (auto intro: transfer_le_trans)
qed simp


text \<open>
  Property C21. Two open mailboxes never share a nameplate, and every mailbox keeps the order of
  the protocol: a delivery only after an answer, an answer only after a claim, and a delivered
  mailbox is closed as done; whatever runs and whatever fails.
\<close>

theorem mailboxes_keep_protocol_order:
  assumes "transfers_inv db"
  shows "(\<forall>t u. t \<in> set (code_transfers (transfer_run xs db)) \<and> u \<in> set (code_transfers (transfer_run xs db)) \<and>
            ct_ClosedAt t = None \<and> ct_ClosedAt u = None \<and> ct_Nameplate t = ct_Nameplate u \<longrightarrow> t = u) \<and>
     (\<forall>t. t \<in> set (code_transfers (transfer_run xs db)) \<longrightarrow>
        (Answered (transferFromRow t) \<longrightarrow> ct_ReceiverTokenHash t \<noteq> None) \<and>
        (Delivered (transferFromRow t) \<longrightarrow>
           Answered (transferFromRow t) \<and> t_CloseReason (transferFromRow t) = TransferCloseDone \<and>
           ct_ClosedAt t \<noteq> None))"
proof -
  have inv: "transfers_inv (transfer_run xs db)" using transfer_run_ok [OF assms] by simp
  have "t = u" if "t \<in> set (code_transfers (transfer_run xs db))" "u \<in> set (code_transfers (transfer_run xs db))"
    "ct_ClosedAt t = None" "ct_ClosedAt u = None" "ct_Nameplate t = ct_Nameplate u" for t u
  proof -
    have "distinct (map ct_Nameplate (filter transfer_open (code_transfers (transfer_run xs db))))"
      using inv by (simp add: transfers_inv_def)
    with that show ?thesis by (auto simp: distinct_map inj_on_def transfer_open_def)
  qed
  moreover have "transfer_shape t" if "t \<in> set (code_transfers (transfer_run xs db))" for t
    using inv that by (simp add: transfers_inv_def)
  ultimately show ?thesis
    by (fastforce simp: transfer_shape_def Answered_def Delivered_def transferFromRow_def)
qed

section \<open>One receiver\<close>

lemma claim_gets:
  assumes inv: "transfers_inv db" and x: "fst (transfer_step x db) = Some tid"
  shows "\<exists>t h. transfer_of db tid = Some t \<and> ct_ReceiverTokenHash t = None \<and>
     (\<exists>t'. transfer_of (snd (transfer_step x db)) tid = Some t' \<and> ct_ReceiverTokenHash t' = Some h)"
proof (cases x)
  case (TClaim flt n h now)
  let ?P = "claimable_transfer (int32 n) now"
  obtain t where t: "find ?P (code_transfers db) = Some t" "ct_TransferID t = tid"
    and db': "snd (repo_ClaimTransfer flt n h now db) = snd (q_ClaimTransfer h (int32 n) now db)"
    using x TClaim
    by (auto simp: repo_ClaimTransfer_def q_ClaimTransfer_def autocommit_def Let_def transferFromRow_def
        split: prod.splits fate.splits option.splits sum.splits if_splits)
  have mem: "t \<in> set (code_transfers db)" "?P t" using t(1) by (auto simp: find_Some_iff)
  then have "transfer_of db tid = Some t"
    using lookup_by_in [OF transfers_inv_ids [OF inv], of t] t(2) by simp
  moreover have "transfer_of (snd (transfer_step x db)) tid = Some (t\<lparr>ct_ReceiverTokenHash := Some h\<rparr>)"
    using TClaim db' calculation mem(2)
    by (auto simp: q_ClaimTransfer_def claim.transfer_of_update claim.upd_def split: prod.split)
  ultimately show ?thesis using mem(2) by (simp add: claimable_transfer_def)
qed (use x in simp_all)

definition claimed_mailbox :: "CodeTransfer option \<Rightarrow> bool" where
  "claimed_mailbox x \<longleftrightarrow> (case x of None \<Rightarrow> True | Some t \<Rightarrow> ct_ReceiverTokenHash t \<noteq> None)"

lemma claimed_le: "transfer_le x y \<Longrightarrow> claimed_mailbox x \<Longrightarrow> claimed_mailbox y"
  by (auto simp: transfer_le_def claimed_mailbox_def mailbox_le_def once_def split: option.splits)

lemma claimed_run:
  "transfers_inv db \<Longrightarrow> claimed_mailbox (transfer_of db tid) \<Longrightarrow> \<forall>x \<in> set xs. \<not> opens_mailbox tid x \<Longrightarrow>
     claims tid xs db = 0"
proof (induction xs arbitrary: db)
  case (Cons x xs)
  have "fst (transfer_step x db) \<noteq> Some tid"
    using claim_gets [OF Cons.prems(1), of x tid] Cons.prems(2) by (auto simp: claimed_mailbox_def)
  moreover have "claims tid xs (snd (transfer_step x db)) = 0"
    using transfer_step_ok [OF Cons.prems(1), of x tid] Cons.prems claimed_le by (intro Cons.IH) auto
  ultimately show ?case by simp
qed simp

text \<open>
  Property C23. At most one receiver gets a mailbox: of all the claims of a run, however they
  interleave with other calls and failures, at most one returns the mailbox.
\<close>

theorem one_receiver_claims:
  assumes "transfers_inv db" and "\<forall>x \<in> set xs. \<not> opens_mailbox tid x"
  shows "claims tid xs db \<le> 1"
  using assms
proof (induction xs arbitrary: db)
  case (Cons x xs)
  have rest: "claims tid xs (snd (transfer_step x db)) \<le> 1"
    using transfer_step_ok [OF Cons.prems(1), of x tid] Cons.prems by (intro Cons.IH) auto
  show ?case
  proof (cases "fst (transfer_step x db) = Some tid")
    case True
    then have "claimed_mailbox (transfer_of (snd (transfer_step x db)) tid)"
      using claim_gets [OF Cons.prems(1)] by (fastforce simp: claimed_mailbox_def)
    then have "claims tid xs (snd (transfer_step x db)) = 0"
      using transfer_step_ok [OF Cons.prems(1), of x tid] Cons.prems by (intro claimed_run) auto
    then show ?thesis by simp
  qed (use rest in simp)
qed simp

section \<open>Nameplates\<close>

lemma find_upto:
  assumes "find P [a..b] = Some n"
  shows "P n \<and> a \<le> n \<and> n \<le> b \<and> (\<forall>i. a \<le> i \<and> i < n \<longrightarrow> \<not> P i)"
proof -
  obtain k where k: "k < length [a..b]" "P ([a..b] ! k)" "n = [a..b] ! k" "\<And>j. j < k \<Longrightarrow> \<not> P ([a..b] ! j)"
    using assms by (auto simp: find_Some_iff)
  have nth: "[a..b] ! j = a + int j" if "j \<le> k" for j
    using k(1) that by (intro nth_upto) simp
  have "\<not> P i" if "a \<le> i" "i < n" for i
    using k(4) [of "nat (i - a)"] nth [of "nat (i - a)"] nth [of k] that k(3) by simp
  moreover have "n \<in> set [a..b]" using k by (metis nth_mem)
  ultimately show ?thesis using k(2,3) by auto
qed

lemma open_after_expiry:
  "ct_Nameplate ` {t \<in> set (code_transfers (q_CloseExpiredActiveTransfers now db)). transfer_open t} =
     ct_Nameplate ` {t \<in> set (code_transfers db). transfer_active now t}"
proof -
  have "transfer_open (expire.upd now t) \<longleftrightarrow> transfer_active now t" for t
    by (auto simp: expire.upd_def close_row_def transfer_open_def transfer_active_def)
  then show ?thesis
    by (force simp: q_CloseExpiredActiveTransfers_def expire.update_eq image_iff)
qed

text \<open>
  Property C24. The code a sender reads out starts with the smallest free number: a created
  mailbox gets a nameplate between 1 and the maximum that no active mailbox holds, every
  smaller number is held by an active one, and the nameplate of a mailbox that ran out is free
  again. The creation is refused for want of a number only when all of them are held.
\<close>

theorem create_takes_smallest_free_nameplate:
  assumes inv: "transfers_inv db" and r: "repo_CreateTransfer flt t maxNameplate now db = (r, db')"
  shows "(\<forall>t'. r = Inr t' \<longrightarrow>
       t' = t\<lparr>t_Nameplate := t_Nameplate t'\<rparr> \<and> 1 \<le> t_Nameplate t' \<and> t_Nameplate t' \<le> int32 maxNameplate \<and>
       transfer_of db' (t_TransferID t) = Some (transferParams t (t_Nameplate t')) \<and>
       (\<forall>u. u \<in> set (code_transfers db) \<and> transfer_active now u \<longrightarrow> ct_Nameplate u \<noteq> t_Nameplate t') \<and>
       (\<forall>n. 1 \<le> n \<and> n < t_Nameplate t' \<longrightarrow>
          (\<exists>u. u \<in> set (code_transfers db) \<and> transfer_active now u \<and> ct_Nameplate u = n))) \<and>
     (r = Inl ErrConflict \<longrightarrow>
       (\<forall>n. 1 \<le> n \<and> n \<le> int32 maxNameplate \<longrightarrow>
          (\<exists>u. u \<in> set (code_transfers db) \<and> transfer_active now u \<and> ct_Nameplate u = n)))"
proof (intro conjI allI impI)
  let ?db = "q_CloseExpiredActiveTransfers now db"
  let ?held = "ct_Nameplate ` {t \<in> set (code_transfers db). transfer_active now t}"
  have free: "q_NextFreeNameplate m ?db = find (\<lambda>n. n \<notin> ?held) [1..m]" for m
    using open_after_expiry [of now db] by (simp add: q_NextFreeNameplate_def)
  have held: "n \<in> ?held \<longleftrightarrow> (\<exists>u. u \<in> set (code_transfers db) \<and> transfer_active now u \<and> ct_Nameplate u = n)" for n
    by auto
  note inv1 = mailboxes_ok_inv [OF ok_statements(5) [OF inv, of now]]
  {
    fix t' assume "r = Inr t'"
    with r obtain n where n: "q_NextFreeNameplate (int32 maxNameplate) ?db = Some n" "t' = t\<lparr>t_Nameplate := n\<rparr>"
      and ins: "q_CreateTransfer (transferParams t n) ?db = Inr db'"
      by (auto simp: repo_CreateTransfer_def Let_def commit_def
          split: if_splits option.splits sum.splits fate.splits)
    note f = find_upto [OF n(1) [unfolded free]]
    show "t' = t\<lparr>t_Nameplate := t_Nameplate t'\<rparr>" using n by simp
    show "1 \<le> t_Nameplate t'" "t_Nameplate t' \<le> int32 maxNameplate" using n f by auto
    show "transfer_of db' (t_TransferID t) = Some (transferParams t (t_Nameplate t'))"
      using q_CreateTransfer_ok(2) [OF inv1 ins] n by simp
    show "ct_Nameplate u \<noteq> t_Nameplate t'" if "u \<in> set (code_transfers db) \<and> transfer_active now u" for u
      using n f that by auto
    show "\<exists>u. u \<in> set (code_transfers db) \<and> transfer_active now u \<and> ct_Nameplate u = k"
      if "1 \<le> k \<and> k < t_Nameplate t'" for k
      using n f that held by auto
  }
  fix k assume "r = Inl ErrConflict" and k: "1 \<le> k \<and> k \<le> int32 maxNameplate"
  with r have "q_NextFreeNameplate (int32 maxNameplate) ?db = None"
    by (auto simp: repo_CreateTransfer_def Let_def commit_def
        split: if_splits option.splits sum.splits fate.splits)
  with k show "\<exists>u. u \<in> set (code_transfers db) \<and> transfer_active now u \<and> ct_Nameplate u = k"
    by (auto simp: free find_None_iff held)
qed

section \<open>Notifications\<close>

lemma tells_statements:
  "tells db (snd (q_ClaimTransfer h n now db))" "tells db (snd (q_AnswerTransfer share conf tid now db))"
  "tells db (snd (q_DeliverTransfer delivery now tid db))" "tells db (snd (q_CloseTransfer reason now tid db))"
  "tells db (q_CloseExpiredActiveTransfers now db)"
  using claim.tells answer.tells deliver.tells close.tells expire.tells
  by (simp_all add: q_ClaimTransfer_def q_AnswerTransfer_def q_DeliverTransfer_def
      q_CloseTransfer_def q_CloseExpiredActiveTransfers_def)

lemma tells_create:
  assumes "q_CreateTransfer (transferParams t n) (q_CloseExpiredActiveTransfers now db) = Inr db'"
  shows "tells db db'"
proof -
  let ?db = "q_CloseExpiredActiveTransfers now db"
  have "notified db' = notified ?db"
    and same: "transfer_of ?db k \<noteq> None \<Longrightarrow> transfer_of db' k = transfer_of ?db k" for k
    using assms by (auto simp: q_CreateTransfer_def lookup_by_append split: if_splits option.splits)
  moreover have "transfer_of ?db k \<noteq> None" if "transfer_of db k = Some t" for k t
    using that by (simp add: q_CloseExpiredActiveTransfers_def expire.transfer_of_update)
  ultimately show ?thesis
    using tells_statements(5) [of db now] unfolding tells_def by (metis option.distinct(1))
qed

text \<open>
  Whenever a call changes a mailbox, claim, answer, delivery or end, even one whose answer was lost or that expires other
  mailboxes on the way, the trigger notifies the id of that mailbox.
\<close>

lemma transfer_step_tells:
  assumes inv: "transfers_inv db"
  shows "tells db (snd (transfer_step x db))"
proof (cases x)
  case (TCreate flt s m now)
  then show ?thesis using tells_create
    by (auto simp: repo_CreateTransfer_def Let_def commit_def split: option.split sum.split fate.split)
next
  case (TClaim flt n h now)
  then show ?thesis using repo_transfer_db(1) [of flt n h now db] tells_statements(1)
    by (auto split: prod.split)
next
  case (TAnswer flt tid share conf now)
  then show ?thesis using repo_transfer_db(2) [of flt tid share conf now db] tells_statements(2) by auto
next
  case (TDeliver flt tid delivery now)
  then show ?thesis using repo_transfer_db(3) [of flt tid delivery now db] tells_statements(3) by auto
next
  case (TClose flt tid reason now)
  then show ?thesis using repo_transfer_db(4) [of flt tid reason now db] tells_statements(4) by auto
next
  case (TDeleteEnded flt before)
  have "t' = t" if "lookup_by ct_TransferID k (filter P (code_transfers db)) = Some t'"
    "transfer_of db k = Some t" for k P t t'
    using that lookup_by_filter [OF transfers_inv_ids [OF inv], of k P] by (simp split: if_splits)
  then have "tells db (db\<lparr>code_transfers := filter P (code_transfers db)\<rparr>)" for P
    unfolding tells_def by auto
  then show ?thesis using TDeleteEnded
    by (simp add: repo_DeleteEndedTransfers_def q_DeleteEndedTransfers_def autocommit_def split: fate.split)
qed

theorem every_change_is_notified:
  assumes "transfers_inv db" and "transfer_of db tid = Some t"
    and "transfer_of (snd (transfer_step x db)) tid = Some t'" and "t' \<noteq> t"
  shows "\<exists>new. notified (snd (transfer_step x db)) = notified db @ new \<and> tid \<in> set new"
  using transfer_step_tells [OF assms(1), of x] assms(2-4) by (auto simp: tells_def)

section \<open>Witnesses\<close>

definition demo_mailbox :: CodeTransfer where
  "demo_mailbox = \<lparr>ct_TransferID = ''i'', ct_Nameplate = 1, ct_SenderTokenHash = ''s'',
     ct_ReceiverTokenHash = None, ct_Offer = ''o'', ct_AnswerShare = None, ct_AnswerConfirmation = None,
     ct_Delivery = None, ct_CloseReason = None, ct_CreatedAt = 0, ct_ExpiresAt = 100, ct_ClosedAt = None\<rparr>"

definition demo_relay :: db where
  "demo_relay = empty_db\<lparr>code_transfers := [demo_mailbox]\<rparr>"

lemma demo_relay_inv: "transfers_inv demo_relay" "transfer_of demo_relay ''i'' = Some demo_mailbox"
  by (simp_all add: transfers_inv_def demo_relay_def empty_db_def demo_mailbox_def transfer_shape_def)

lemma demo_claim:
  "transfer_step (TClaim no_faults 1 ''r'' 10) demo_relay =
     (Some ''i'', demo_relay\<lparr>code_transfers := [demo_mailbox\<lparr>ct_ReceiverTokenHash := Some ''r''\<rparr>],
                             notified := [''i'']\<rparr>)"
  by (simp add: repo_ClaimTransfer_def q_ClaimTransfer_def update_transfers_def claimable_transfer_def
      transfer_active_def demo_relay_def empty_db_def demo_mailbox_def int32_def transferFromRow_def)


definition demo_answered :: CodeTransfer where
  "demo_answered = demo_mailbox\<lparr>ct_ReceiverTokenHash := Some ''r'', ct_AnswerShare := Some ''a'',
     ct_AnswerConfirmation := Some ''c''\<rparr>"

theorem mailboxes_keep_protocol_order_witness:
  "\<exists>t. t \<in> set (code_transfers (transfer_run [TClaim no_faults 1 ''q'' 10] (empty_db\<lparr>code_transfers := [demo_answered]\<rparr>))) \<and>
     Answered (transferFromRow t) \<and> ct_ReceiverTokenHash t \<noteq> None"
proof -
  let ?db = "empty_db\<lparr>code_transfers := [demo_answered]\<rparr>"
  have inv: "transfers_inv ?db"
    by (simp add: transfers_inv_def empty_db_def demo_answered_def demo_mailbox_def transfer_shape_def)
  have "code_transfers (transfer_run [TClaim no_faults 1 ''q'' 10] ?db) = [demo_answered]"
    by (simp add: repo_ClaimTransfer_def q_ClaimTransfer_def update_transfers_def claimable_transfer_def
        q_ClaimedTransferExists_def empty_db_def demo_answered_def demo_mailbox_def int32_def)
  moreover have "Answered (transferFromRow demo_answered)"
    by (simp add: Answered_def transferFromRow_def demo_answered_def)
  ultimately show ?thesis
    using mailboxes_keep_protocol_order [OF inv, of "[TClaim no_faults 1 ''q'' 10]"] by simp
qed

theorem one_receiver_claims_witness:
  "claims ''i'' [TClaim no_faults 1 ''r'' 10, TClaim no_faults 1 ''q'' 11] demo_relay \<le> 1"
  by (rule one_receiver_claims) (simp_all add: demo_relay_inv)

theorem create_takes_smallest_free_nameplate_witness:
  "\<exists>t' db'. repo_CreateTransfer no_faults
      \<lparr>t_TransferID = ''j'', t_Nameplate = 0, t_SenderTokenHash = ''s'', t_ReceiverTokenHash = '''',
       t_Offer = ''o'', t_AnswerShare = None, t_AnswerConfirmation = None, t_Delivery = None,
       t_CloseReason = '''', t_CreatedAt = 5, t_ExpiresAt = 50, t_ClosedAt = None\<rparr> 3 5 demo_relay = (Inr t', db') \<and>
     t_Nameplate t' = 2 \<and> t_Nameplate t' \<noteq> ct_Nameplate demo_mailbox"
proof -
  let ?t = "\<lparr>t_TransferID = ''j'', t_Nameplate = 0, t_SenderTokenHash = ''s'', t_ReceiverTokenHash = '''',
       t_Offer = ''o'', t_AnswerShare = None, t_AnswerConfirmation = None, t_Delivery = None,
       t_CloseReason = '''', t_CreatedAt = 5, t_ExpiresAt = 50, t_ClosedAt = None\<rparr>"
  have "\<exists>db'. repo_CreateTransfer no_faults ?t 3 5 demo_relay = (Inr (?t\<lparr>t_Nameplate := 2\<rparr>), db')"
    by (simp add: repo_CreateTransfer_def q_CloseExpiredActiveTransfers_def update_transfers_def
        demo_relay_def empty_db_def demo_mailbox_def q_NextFreeNameplate_def int32_def upto.simps
        transfer_open_def q_CreateTransfer_def transferParams_def Let_def del: set_map set_filter)
  then obtain db' where r: "repo_CreateTransfer no_faults ?t 3 5 demo_relay = (Inr (?t\<lparr>t_Nameplate := 2\<rparr>), db')"
    by blast
  have "demo_mailbox \<in> set (code_transfers demo_relay) \<and> transfer_active 5 demo_mailbox"
    by (simp add: demo_relay_def demo_mailbox_def transfer_active_def)
  with create_takes_smallest_free_nameplate [OF demo_relay_inv(1) r]
  have "ct_Nameplate demo_mailbox \<noteq> 2" by auto
  with r show ?thesis by auto
qed

theorem every_change_is_notified_witness:
  "\<exists>new. [''i''] = notified demo_relay @ new \<and> ''i'' \<in> set new"
  using every_change_is_notified [OF demo_relay_inv, of "TClaim no_faults 1 ''r'' 10"
      "demo_mailbox\<lparr>ct_ReceiverTokenHash := Some ''r''\<rparr>"]
  by (simp add: demo_claim demo_mailbox_def del: transfer_step.simps)

end
