(* ===== verification/Secret_Runs.thy ===== *)
theory Secret_Runs
  imports Secret_Trace Upload_Life Transfer_Repo
begin

text \<open>
  Runs of everything the server does to its database: the calls on secrets, on upload sessions
  (a completed upload inserts a secret) and on transfers, in any order and with any statement
  failing. Over such runs, what ended the life of a secret is read off the table of secrets,
  and the tombstones are shown to say exactly that; and the row of a secret is shown never to
  be overwritten.
\<close>

section \<open>Runs of the whole server\<close>

datatype 's server_op =
    OnSecrets "'s secret_op"
  | OnUploads "'s upload_op"
  | OnTransfers transfer_op

fun server_step :: "'s server_op \<Rightarrow> 's \<times> db \<Rightarrow> 's \<times> db" where
  "server_step (OnSecrets x) w = snd (secret_step x w)"
| "server_step (OnUploads x) w = upload_step x w"
| "server_step (OnTransfers x) w = (fst w, snd (transfer_step x (snd w)))"

fun server_run :: "'s server_op list \<Rightarrow> 's \<times> db \<Rightarrow> 's \<times> db" where
  "server_run [] w = w"
| "server_run (x # xs) w = server_run xs (server_step x w)"

text \<open>A cleanup of tombstones, if the call is one, runs while those kept until \<open>T\<close> are kept.\<close>

fun server_remembers :: "time \<Rightarrow> 's server_op \<Rightarrow> bool" where
  "server_remembers T (OnSecrets x) = remembers_until T x"
| "server_remembers T _ = True"

lemma server_remembers_mono: "server_remembers T x \<Longrightarrow> T \<le> T' \<Longrightarrow> server_remembers T' x"
  by (cases "(T, x)" rule: server_remembers.cases) (auto intro: remembers_until_mono)

section \<open>What uploads and transfers do to the tables of secrets\<close>

text \<open>The tables are left alone, except that a secret may be added under a free id.\<close>

definition adds_secret :: "db \<Rightarrow> db \<Rightarrow> bool" where
  "adds_secret db db' \<longleftrightarrow>
     (secrets db' = secrets db \<or>
      (\<exists>s. secrets db' = secrets db @ [s] \<and> s_PublicID s \<notin> set (secret_ids db))) \<and>
     secret_tombstones db' = secret_tombstones db \<and> retrieval_sessions db' = retrieval_sessions db"

lemma adds_secret_refl [simp]: "adds_secret db db"
  by (simp add: adds_secret_def)

lemma adds_secret_same:
  "secrets db' = secrets db \<Longrightarrow> secret_tombstones db' = secret_tombstones db \<Longrightarrow>
     retrieval_sessions db' = retrieval_sessions db \<Longrightarrow> adds_secret db db'"
  by (simp add: adds_secret_def)

lemma adds_secret_inv: "adds_secret db db' \<Longrightarrow> secrets_inv db \<Longrightarrow> secrets_inv db'"
  by (auto simp: adds_secret_def secrets_inv_def id_defs)

lemma adds_secret_stored: "adds_secret db db' \<Longrightarrow> secret_of db k \<noteq> None \<Longrightarrow> secret_of db' k = secret_of db k"
  by (auto simp: adds_secret_def lookup_by_append split: option.splits)

lemma adds_secret_tombstone: "adds_secret db db' \<Longrightarrow> tombstone_of db' k = tombstone_of db k"
  by (simp add: adds_secret_def)

lemma adds_secret_commit:
  "adds_secret db db' \<Longrightarrow> adds_secret db (snd (commit flt x db db'))"
  "adds_secret db db' \<Longrightarrow> adds_secret db (snd (autocommit flt q x db db'))"
  by (auto simp: commit_def autocommit_def split: fate.split)

lemma q_CreateSecret_adds: "q_CreateSecret s db = Inr db' \<Longrightarrow> adds_secret db db'"
  by (auto simp: q_CreateSecret_def adds_secret_def secret_ids_def split: if_splits)

lemma repo_Create_adds: "adds_secret db (snd (repo_Create flt s now db))"
  by (auto simp: repo_Create_def split: sum.split intro: adds_secret_commit q_CreateSecret_adds)

lemma completed_db_adds:
  "secret_of db (us_PublicID u) = None \<Longrightarrow> adds_secret db (completed_db u now db)"
  by (simp add: adds_secret_def completed_db_def secret_ids_def lookup_by_None
      q_DeleteUploadPartsBySession_def q_MarkUploadSessionCompleted_def update_sessions_def)

lemma repo_CompleteUploadSession_adds:
  "adds_secret (snd w) (snd (snd (repo_CompleteUploadSession flt sid now fin w)))"
  using repo_CompleteUploadSession_db [of flt sid now fin w]
proof (elim disjE exE conjE)
  fix u
  let ?f = "finish_CompleteUploadSession flt (uploadSessionFromRow u) sid now (snd w)"
  assume u: "session_of (snd w) sid = Some u"
    and w': "repo_CompleteUploadSession flt sid now fin w =
      (fst ?f, fst (snd (repo_CompleteUploadSession flt sid now fin w)), snd ?f)"
  have "adds_secret (snd w) (snd ?f)"
    using finish_CompleteUploadSession_cases [of u sid flt now "snd w"] session_of_key [OF u]
    by (auto simp: completed_db_adds)
  with w' show ?thesis by (metis snd_conv)
qed simp

lemma repo_AbortExpired_adds:
  "adds_secret (snd w) (snd (snd (repo_AbortExpiredUploadSessions flt locked cb now limit w)))"
proof -
  have "adds_secret db (snd (finish_AbortExpired flt now n sids db))" for n sids db
    by (auto simp: finish_AbortExpired_def Let_def split: prod.split intro!: adds_secret_commit)
       (simp add: adds_secret_def q_MarkUploadSessionsAborted_def update_sessions_def)
  then show ?thesis using repo_AbortExpired_db [of flt locked cb now limit w] by (metis adds_secret_refl)
qed

lemma upload_step_adds: "adds_secret (snd w) (snd (upload_step x w))"
proof (cases "(x, w)" rule: upload_step.cases)
  case (1 flt s st db)
  then show ?thesis
    by (auto simp: insert_UploadSession_def q_CreateUploadSession_def Let_def split: sum.split
        intro!: adds_secret_commit adds_secret_same)
next
  case (2 flt p st db)
  then show ?thesis
    by (auto simp: insert_UploadPart_def q_CreateUploadPart_def Let_def split: sum.split
        intro!: adds_secret_commit adds_secret_same)
next
  case (4 flt sid now st db)
  have "adds_secret db (snd (q_MarkUploadSessionAborted now sid db))"
    by (simp add: adds_secret_def q_MarkUploadSessionAborted_def update_sessions_def)
  with 4 show ?thesis by (auto simp: repo_AbortUploadSession_def autocommit_def split: fate.split)
next
  case (5 flt sid st db)
  have "adds_secret db (q_DeleteUploadPartsBySession sid db)"
    by (simp add: adds_secret_def q_DeleteUploadPartsBySession_def)
  with 5 show ?thesis by (simp add: repo_ClearUploadParts_def adds_secret_commit)
next
  case (7 flt before st db)
  have "adds_secret db (snd (q_DeleteFinishedUploadSessions before db))"
    by (simp add: adds_secret_def q_DeleteFinishedUploadSessions_def Let_def)
  with 7 show ?thesis
    by (auto simp: repo_DeleteFinishedUploadSessions_def split: prod.split intro: adds_secret_commit)
qed (simp_all add: repo_CompleteUploadSession_adds repo_AbortExpired_adds)

text \<open>Transfers do not touch the tables of secrets at all.\<close>

definition same_secrets :: "db \<Rightarrow> db \<Rightarrow> bool" where
  "same_secrets db db' \<longleftrightarrow>
     secrets db' = secrets db \<and> secret_tombstones db' = secret_tombstones db \<and>
     retrieval_sessions db' = retrieval_sessions db"

lemma same_secrets_adds: "same_secrets db db' \<Longrightarrow> adds_secret db db'"
  by (simp add: same_secrets_def adds_secret_def)

lemma same_secrets_commit:
  "same_secrets db db' \<Longrightarrow> same_secrets db (snd (commit flt x db db'))"
  "same_secrets db db' \<Longrightarrow> same_secrets db (snd (autocommit flt q x db db'))"
  by (auto simp: same_secrets_def commit_def autocommit_def split: fate.split)

lemma transfer_statements_same_secrets:
  "same_secrets db (snd (update_transfers P f db))"
  "same_secrets db (snd (q_ClaimTransfer h n now db))"
  "same_secrets db (snd (q_AnswerTransfer share conf tid now db))"
  "same_secrets db (snd (q_DeliverTransfer delivery now tid db))"
  "same_secrets db (snd (q_CloseTransfer reason now tid db))"
  "same_secrets db (q_CloseExpiredActiveTransfers now db)"
  "same_secrets db (snd (q_DeleteEndedTransfers before db))"
  by (simp_all add: same_secrets_def update_transfers_def q_ClaimTransfer_def q_AnswerTransfer_def
      q_DeliverTransfer_def q_CloseTransfer_def q_CloseExpiredActiveTransfers_def
      q_DeleteEndedTransfers_def)

lemma repo_CreateTransfer_same_secrets: "same_secrets db (snd (repo_CreateTransfer flt t m now db))"
proof -
  have "same_secrets db db2"
    if "q_CreateTransfer row (q_CloseExpiredActiveTransfers now db) = Inr db2" for row db2
    using that transfer_statements_same_secrets(6) [of db now]
    by (auto simp: q_CreateTransfer_def same_secrets_def split: if_splits)
  moreover have "same_secrets db db" by (simp add: same_secrets_def)
  ultimately show ?thesis
    by (auto simp: repo_CreateTransfer_def Let_def split: option.split sum.split intro!: same_secrets_commit)
qed

lemma transfer_step_same_secrets: "same_secrets db (snd (transfer_step x db))"
proof (cases x)
  case (TClaim flt n h now)
  then show ?thesis
    using repo_transfer_db(1) [of flt n h now db] transfer_statements_same_secrets(2) [of db h "int32 n" now]
    by (auto simp: same_secrets_def split: prod.split)
next
  case (TAnswer flt tid share conf now)
  then show ?thesis
    using repo_transfer_db(2) [of flt tid share conf now db] transfer_statements_same_secrets(3) [of db share conf tid now]
    by (auto simp: same_secrets_def)
next
  case (TDeliver flt tid delivery now)
  then show ?thesis
    using repo_transfer_db(3) [of flt tid delivery now db] transfer_statements_same_secrets(4) [of db delivery now tid]
    by (auto simp: same_secrets_def)
next
  case (TClose flt tid reason now)
  then show ?thesis
    using repo_transfer_db(4) [of flt tid reason now db] transfer_statements_same_secrets(5) [of db reason now tid]
    by (auto simp: same_secrets_def)
next
  case (TDeleteEnded flt before)
  then show ?thesis using transfer_statements_same_secrets(7) [of db before]
    by (auto simp: repo_DeleteEndedTransfers_def split: prod.split intro: same_secrets_commit)
qed (simp add: repo_CreateTransfer_same_secrets)

section \<open>What any step does to a stored secret\<close>

lemma secret_step_stored_le:
  assumes "secret_of (snd w) k \<noteq> None"
  shows "secret_le (secret_of (snd w) k) (secret_of (snd (snd (secret_step x w))) k)"
proof (cases "creates k x")
  case True
  then show ?thesis using assms
    by (cases "(x, w)" rule: secret_step.cases) (auto simp: repo_Create_stored)
qed (rule secret_step_le)

lemma server_step_adds: "(\<And>y. x \<noteq> OnSecrets y) \<Longrightarrow> adds_secret (snd w) (snd (server_step x w))"
  by (cases x) (auto simp: upload_step_adds same_secrets_adds [OF transfer_step_same_secrets])

lemma server_step_inv:
  assumes "secrets_inv (snd w)"
  shows "secrets_inv (snd (server_step x w))"
proof (cases "\<exists>y. x = OnSecrets y")
  case False
  then show ?thesis using adds_secret_inv [OF server_step_adds assms] by blast
qed (use assms in \<open>auto simp: secret_step_inv\<close>)

lemma server_run_inv: "secrets_inv (snd w) \<Longrightarrow> secrets_inv (snd (server_run xs w))"
  by (induction xs arbitrary: w) (auto simp: server_step_inv)

text \<open>Whatever the server does, a stored secret stays as it is, is marked opened, or goes.\<close>

lemma server_step_stored_le:
  assumes "secret_of (snd w) k \<noteq> None"
  shows "secret_le (secret_of (snd w) k) (secret_of (snd (server_step x w)) k)"
proof (cases "\<exists>y. x = OnSecrets y")
  case False
  then have "secret_of (snd (server_step x w)) k = secret_of (snd w) k"
    using adds_secret_stored [OF server_step_adds assms] by blast
  then show ?thesis by simp
next
  case True
  then show ?thesis using secret_step_stored_le [OF assms] by auto
qed

lemma server_step_tombstone:
  assumes "secrets_inv (snd w)" and "tombstone_of (snd w) k = Some t" and "server_remembers (tb_KeepUntil t) x"
  shows "tombstone_of (snd (server_step x w)) k = Some t"
proof (cases "\<exists>y. x = OnSecrets y")
  case False
  then have "tombstone_of (snd (server_step x w)) k = tombstone_of (snd w) k"
    using adds_secret_tombstone [OF server_step_adds] by blast
  with assms show ?thesis by simp
next
  case True
  then show ?thesis using secret_step_tombstone [OF assms(1,2)] assms(3) by auto
qed

lemma secret_le_fields:
  assumes "secret_le (Some s) (Some s')"
  shows "s_BurnAfterRead s' = s_BurnAfterRead s" "s_ExpiresAt s' = s_ExpiresAt s"
    "s_MetadataTokenHash s' = s_MetadataTokenHash s" "s_DeletionTokenHash s' = s_DeletionTokenHash s"
    "s_PublicID s' = s_PublicID s"
proof -
  from assms have s': "s' = s\<lparr>s_RetrievedAt := s_RetrievedAt s'\<rparr>" by (auto simp: secret_le_def)
  show "s_BurnAfterRead s' = s_BurnAfterRead s" "s_ExpiresAt s' = s_ExpiresAt s"
    "s_MetadataTokenHash s' = s_MetadataTokenHash s" "s_DeletionTokenHash s' = s_DeletionTokenHash s"
    "s_PublicID s' = s_PublicID s" by (subst s', simp)+
qed

section \<open>A stored secret is immutable\<close>

text \<open>In the run, the id is given to a new secret while none is stored under it.\<close>

fun reused :: "string \<Rightarrow> 's server_op list \<Rightarrow> 's \<times> db \<Rightarrow> bool" where
  "reused pid [] w = False"
| "reused pid (x # xs) w =
     (secret_of (snd w) pid = None \<and> secret_of (snd (server_step x w)) pid \<noteq> None \<or>
      reused pid xs (server_step x w))"

lemma server_run_le:
  "\<not> reused pid xs w \<Longrightarrow> secret_le (secret_of (snd w) pid) (secret_of (snd (server_run xs w)) pid)"
proof (induction xs arbitrary: w)
  case (Cons x xs)
  have "secret_le (secret_of (snd w) pid) (secret_of (snd (server_step x w)) pid)"
    using server_step_stored_le [of pid w x] Cons.prems by (cases "secret_of (snd w) pid") auto
  moreover have "\<not> reused pid xs (server_step x w)" using Cons.prems by simp
  ultimately show ?case using secret_le_trans [OF _ Cons.IH] by simp
qed simp

text \<open>
  Property C10. The row of a secret is never overwritten. Whatever the server runs, creations
  and completed uploads under the same id included, and whatever fails: unless the id was freed
  and given to a new secret, the row stored under it is the one of the start, with the hashes,
  metadata, size, expiry, storage key and one-time flag it had; only its retrieval time is set,
  once.
\<close>

theorem secret_is_immutable:
  assumes "\<not> reused pid xs w" and "secret_of (snd (server_run xs w)) pid = Some s'"
  shows "\<exists>s. secret_of (snd w) pid = Some s \<and> s' = s\<lparr>s_RetrievedAt := s_RetrievedAt s'\<rparr> \<and>
           (s_RetrievedAt s = None \<or> s_RetrievedAt s' = s_RetrievedAt s)"
  using server_run_le [OF assms(1)] assms(2) by (auto simp: secret_le_def split: option.splits)

section \<open>What ended the life of a secret\<close>

text \<open>
  The end of a secret as the table of secrets shows it, at one step of the server: a one-time
  secret that had not been opened now has a retrieval time; or the row is gone, by a deletion
  or else by the cleanup. \<open>end_FirstOpened\<close> is when a recipient first opened it.
\<close>

record ending =
  end_Outcome :: TombstoneOutcome
  end_At :: time
  end_ByOwner :: bool
  end_FirstOpened :: "time option"

fun opened_with :: "Secret \<Rightarrow> 's server_op \<Rightarrow> bool" where
  "opened_with s (OnSecrets (OpStart flt p bh dh sh e now)) = (dh \<noteq> [] \<and> dh = s_DeletionTokenHash s)"
| "opened_with s _ = False"

fun deletion_time :: "'s server_op \<Rightarrow> time option" where
  "deletion_time (OnSecrets (OpDelete flt p now)) = Some now"
| "deletion_time _ = None"

definition ended :: "string \<Rightarrow> 's server_op \<Rightarrow> db \<Rightarrow> db \<Rightarrow> ending option" where
  "ended pid x db db' =
     (case (secret_of db pid, secret_of db' pid) of
        (None, _) \<Rightarrow> None
      | (Some s, Some s') \<Rightarrow>
          (case s_RetrievedAt s' of
             Some t \<Rightarrow>
               (if s_BurnAfterRead s \<and> s_RetrievedAt s = None
                then Some \<lparr>end_Outcome = TombstoneOpened, end_At = t, end_ByOwner = opened_with s x,
                           end_FirstOpened = (if opened_with s x then None else Some t)\<rparr>
                else None)
           | None \<Rightarrow> None)
      | (Some s, None) \<Rightarrow>
          (let first = (if s_BurnAfterRead s then None else s_RetrievedAt s)
           in (case deletion_time x of
                 Some now \<Rightarrow> Some \<lparr>end_Outcome = TombstoneDeleted, end_At = now, end_ByOwner = False,
                                   end_FirstOpened = first\<rparr>
               | None \<Rightarrow> Some \<lparr>end_Outcome = TombstoneExpired, end_At = s_ExpiresAt s, end_ByOwner = False,
                              end_FirstOpened = first\<rparr>)))"

text \<open>The first end in a run.\<close>

fun end_of_life :: "string \<Rightarrow> 's server_op list \<Rightarrow> 's \<times> db \<Rightarrow> ending option" where
  "end_of_life pid [] w = None"
| "end_of_life pid (x # xs) w =
     (case ended pid x (snd w) (snd (server_step x w)) of
        Some e \<Rightarrow> Some e
      | None \<Rightarrow> end_of_life pid xs (server_step x w))"

text \<open>After its end a secret is gone or a one-time secret that was opened, unless its id is reused.\<close>

lemma spent_run_server:
  "spent (secret_of (snd w) pid) \<Longrightarrow> \<not> reused pid xs w \<Longrightarrow> spent (secret_of (snd (server_run xs w)) pid)"
  using server_run_le spent_le by blast

lemma ended_spent: "ended pid x db db' = Some e \<Longrightarrow> secret_le (secret_of db pid) (secret_of db' pid) \<Longrightarrow>
    spent (secret_of db' pid)"
  by (auto simp: ended_def spent_def secret_le_fields split: option.splits if_splits)

lemma end_of_life_spent:
  "end_of_life pid xs w = Some e \<Longrightarrow> \<not> reused pid xs w \<Longrightarrow> spent (secret_of (snd (server_run xs w)) pid)"
proof (induction xs arbitrary: w)
  case (Cons x xs)
  show ?case
  proof (cases "ended pid x (snd w) (snd (server_step x w))")
    case None
    with Cons show ?thesis by simp
  next
    case (Some e)
    then have "secret_of (snd w) pid \<noteq> None" by (auto simp: ended_def split: option.splits)
    then have "spent (secret_of (snd (server_step x w)) pid)"
      using ended_spent [OF Some server_step_stored_le] by blast
    with Cons.prems(2) show ?thesis by (simp add: spent_run_server)
  qed
qed simp

text \<open>A tombstone that says so, for the links of the secret \<open>s\<close>.\<close>

definition tells_end :: "Secret \<Rightarrow> ending \<Rightarrow> SecretTombstone \<Rightarrow> bool" where
  "tells_end s e t \<longleftrightarrow>
     tb_Outcome t = end_Outcome e \<and> tb_EndedAt t = end_At e \<and> tb_OpenedByOwner t = end_ByOwner e \<and>
     tb_FirstOpenedAt t = end_FirstOpened e \<and> tb_BurnAfterRead t = s_BurnAfterRead s \<and>
     tb_MetadataTokenHash t = s_MetadataTokenHash s \<and> tb_DeletionTokenHash t = s_DeletionTokenHash s \<and>
     s_ExpiresAt s + TombstoneRetention \<le> tb_KeepUntil t"

text \<open>
  The invariant: a secret that has not ended is stored, not used up and has no tombstone; one
  that has ended has the tombstone that tells how.
\<close>

definition end_recorded :: "string \<Rightarrow> Secret \<Rightarrow> ending option \<Rightarrow> db \<Rightarrow> bool" where
  "end_recorded pid s e db \<longleftrightarrow>
     (case e of
        None \<Rightarrow> tombstone_of db pid = None \<and>
                (\<exists>s'. secret_of db pid = Some s' \<and> secret_le (Some s) (Some s') \<and>
                      (s_BurnAfterRead s \<longrightarrow> s_RetrievedAt s' = None))
      | Some e \<Rightarrow> \<exists>t. tombstone_of db pid = Some t \<and> tells_end s e t)"

text \<open>The step from a live secret: when nothing ends it, it lives on.\<close>

lemma end_recorded_idle:
  "end_recorded pid s None db \<Longrightarrow> secret_of db' pid = secret_of db pid \<Longrightarrow>
     tombstone_of db' pid = tombstone_of db pid \<Longrightarrow> end_recorded pid s (ended pid x db db') db'"
  by (auto simp: end_recorded_def ended_def secret_le_fields split: option.split)

lemma end_recorded_Start:
  assumes inv: "secrets_inv db" and live: "end_recorded pid s None db"
    and db': "db' = snd (repo_StartRetrievalSession flt p bh dh sh ex now db)"
  shows "end_recorded pid s (ended pid (OnSecrets (OpStart flt p bh dh sh ex now)) db db') db'"
proof (cases "p = pid \<and> db' \<noteq> db")
  case False
  then have "secret_of db' pid = secret_of db pid \<and> tombstone_of db' pid = tombstone_of db pid"
    using repo_StartRetrievalSession_other [of pid p flt bh dh sh ex now db] db' by (cases "p = pid") simp_all
  then show ?thesis using live by (intro end_recorded_idle) simp_all
next
  case True
  then obtain s1 where ok: "repo_StartRetrievalSession (sure_commit flt) pid bh dh sh ex now db = (Inr s1, db')"
    using repo_StartRetrievalSession_db [of flt pid bh dh sh ex now db] db' by auto
  from live obtain s0 where s0: "secret_of db pid = Some s0" "secret_le (Some s) (Some s0)"
      "s_BurnAfterRead s \<longrightarrow> s_RetrievedAt s0 = None" and none: "tombstone_of db pid = None"
    by (auto simp: end_recorded_def)
  obtain s2 where s2: "secret_of db pid = Some s2" "s1 = opened_secret (by_owner dh s2) now s2"
      "secret_of db' pid = Some s1"
    and t2: "tombstone_of db' pid =
      (if s_BurnAfterRead s2
       then (case tombstone_of db pid of Some t \<Rightarrow> Some t
             | None \<Rightarrow> Some (tombstoneParams s2 TombstoneOpened now (by_owner dh s2)))
       else tombstone_of db pid)"
    by (rule repo_StartRetrievalSession_InrD [OF inv ok]) (rule that; assumption)
  then have s1: "s1 = opened_secret (by_owner dh s0) now s0" "secret_of db' pid = Some s1"
    and t: "tombstone_of db' pid =
      (if s_BurnAfterRead s0 then Some (tombstoneParams s0 TombstoneOpened now (by_owner dh s0)) else None)"
    using s0(1) none by simp_all
  show ?thesis
  proof (cases "s_BurnAfterRead s0")
    case True
    have "tells_end s \<lparr>end_Outcome = TombstoneOpened, end_At = now, end_ByOwner = by_owner dh s0,
        end_FirstOpened = (if by_owner dh s0 then None else Some now)\<rparr>
        (tombstoneParams s0 TombstoneOpened now (by_owner dh s0))"
      using True s0(2) keep_until_params [of s0 TombstoneOpened now "by_owner dh s0"]
      by (simp add: tells_end_def secret_le_fields)
         (simp add: tombstoneParams_def recipientOpenedAt_def secret_le_fields)
    moreover have "s_RetrievedAt s0 = None" using True s0 by (simp add: secret_le_fields)
    ultimately show ?thesis using True s0(1) s1 t
      by (simp add: end_recorded_def ended_def opened_secret_def by_owner_def)
  next
    case False
    then have "secret_le (Some s) (Some s1)" "\<not> s_BurnAfterRead s"
      using s0 secret_le_trans [OF s0(2), of "Some s1"] s1(1) secret_le_retrieve [of s0 now]
      by (auto simp: opened_secret_def secret_le_fields split: if_splits)
    then show ?thesis using False s0 s1 t
      by (auto simp: end_recorded_def ended_def split: option.split)
  qed
qed

lemma end_recorded_Delete:
  assumes live: "end_recorded pid s None db" and db': "db' = snd (repo_Delete flt p now db)"
  shows "end_recorded pid s (ended pid (OnSecrets (OpDelete flt p now)) db db') db'"
  using repo_Delete_db [of flt p now db]
proof (elim disjE exE conjE)
  fix s1
  assume s1: "secret_of db p = Some s1" and new: "snd (repo_Delete flt p now db) =
      q_CreateTombstone (tombstoneParams s1 TombstoneDeleted now False) (delete_secrets (\<lambda>q. q = p) db)"
  from live obtain s0 where s0: "secret_of db pid = Some s0" "secret_le (Some s) (Some s0)"
      "s_BurnAfterRead s \<longrightarrow> s_RetrievedAt s0 = None" and none: "tombstone_of db pid = None"
    by (auto simp: end_recorded_def)
  show ?thesis
  proof (cases "p = pid")
    case True
    have "tells_end s \<lparr>end_Outcome = TombstoneDeleted, end_At = now, end_ByOwner = False,
        end_FirstOpened = (if s_BurnAfterRead s0 then None else s_RetrievedAt s0)\<rparr>
        (tombstoneParams s0 TombstoneDeleted now False)"
      using s0(2) keep_until_params [of s0 TombstoneDeleted now False]
      by (simp add: tells_end_def secret_le_fields)
         (simp add: tombstoneParams_def recipientOpenedAt_def secret_le_fields)
    moreover have "s1 = s0" using True s0 s1 by simp
    ultimately show ?thesis using True s0(1) none secret_of_key [OF s1]
      unfolding db' new by (simp add: end_recorded_def ended_def table_simps)
  next
    case False
    then show ?thesis using live secret_of_key [OF s1] unfolding db' new
      by (intro end_recorded_idle) (simp_all add: table_simps split: option.split)
  qed
qed (use live db' in \<open>simp add: end_recorded_idle\<close>)

lemma end_recorded_DeleteExpired:
  assumes inv: "secrets_inv (snd w)" and live: "end_recorded pid s None (snd w)"
    and db': "db' = snd (snd (repo_DeleteExpired flt locked cb now limit w))"
  shows "end_recorded pid s (ended pid (OnSecrets (OpDeleteExpired flt locked cb now limit)) (snd w) db') db'"
  using repo_DeleteExpired_cases [OF refl, of flt locked cb now limit w]
proof (elim disjE exE conjE)
  fix ids xs
  assume ids: "ids \<subseteq> s_PublicID ` set (q_SelectSecretsForCleanup locked now (int32 limit) (snd w))" "ids = set xs"
    and new: "snd (snd (repo_DeleteExpired flt locked cb now limit w)) = delete_secrets (\<lambda>p. p \<in> ids)
        (q_CreateTombstonesForExpiredSecrets (now + TombstoneRetention) xs now (snd w))"
  from live obtain s0 where s0: "secret_of (snd w) pid = Some s0" "secret_le (Some s) (Some s0)"
      "s_BurnAfterRead s \<longrightarrow> s_RetrievedAt s0 = None" and none: "tombstone_of (snd w) pid = None"
    by (auto simp: end_recorded_def)
  show ?thesis
  proof (cases "pid \<in> ids")
    case True
    with ids(1) obtain s' where s': "s' \<in> set (q_SelectSecretsForCleanup locked now (int32 limit) (snd w))"
      "s_PublicID s' = pid" by auto
    with selected_due [OF s'(1)] s0(1) have "s' = s0"
      using lookup_by_in [OF secrets_invD(1) [OF inv], of s'] by simp
    with selected_due [OF s'(1)] s0 have due: "s_ExpiresAt s0 < now"
      by (auto simp: secret_due_def secret_le_fields)
    then have "tells_end s \<lparr>end_Outcome = TombstoneExpired, end_At = s_ExpiresAt s0, end_ByOwner = False,
        end_FirstOpened = (if s_BurnAfterRead s0 then None else s_RetrievedAt s0)\<rparr>
        (expired_tombstone (now + TombstoneRetention) s0)"
      using s0(2) by (simp add: tells_end_def expired_tombstone_def secret_le_fields)
    then show ?thesis using True due s0(1) none ids(2) inv
      unfolding db' new by (simp add: end_recorded_def ended_def table_simps)
  next
    case False
    then show ?thesis using live inv none ids(2) unfolding db' new
      by (intro end_recorded_idle) (simp_all add: table_simps split: option.split)
  qed
qed (use live db' in \<open>simp add: end_recorded_idle\<close>)

text \<open>One step from a live secret, and one after its end.\<close>

lemma end_recorded_live_step:
  assumes inv: "secrets_inv (snd w)" and live: "end_recorded pid s None (snd w)"
  shows "end_recorded pid s (ended pid x (snd w) (snd (server_step x w))) (snd (server_step x w))"
proof -
  have stored: "secret_of (snd w) pid \<noteq> None" and none: "tombstone_of (snd w) pid = None"
    using live by (auto simp: end_recorded_def)
  show ?thesis
  proof (cases "\<exists>y. x = OnSecrets y")
    case False
    then have "adds_secret (snd w) (snd (server_step x w))" by (intro server_step_adds) blast
    then show ?thesis using live stored
      by (intro end_recorded_idle) (simp_all add: adds_secret_stored adds_secret_tombstone)
  next
    case True
    then obtain y where x: "x = OnSecrets y" by blast
    show ?thesis
    proof (cases "(y, w)" rule: secret_step.cases)
      case (1 flt new now st db)
      then have "secret_of (snd (server_step x w)) pid = secret_of (snd w) pid"
        using x stored by (simp add: repo_Create_stored)
      with 1 x live show ?thesis by (intro end_recorded_idle) simp_all
    next
      case (2 flt p bh dh sh ex now st db)
      then have "snd (server_step x w) = snd (repo_StartRetrievalSession flt p bh dh sh ex now db)"
        using x by (simp split: prod.split)
      with end_recorded_Start [of db pid s] 2 x inv live show ?thesis by simp
    next
      case (3 flt p now st db)
      with x live show ?thesis by (simp add: end_recorded_Delete)
    next
      case (4 flt locked cb now limit w')
      with x inv live show ?thesis by (simp add: end_recorded_DeleteExpired)
    next
      case (5 flt now st db)
      with x live show ?thesis by (intro end_recorded_idle) (simp_all add: repo_cleanup_le)
    next
      case (6 flt now st db)
      then have "tombstone_of (snd (repo_DeleteExpiredTombstones flt now db)) pid = None"
        using inv none tombstone_of_DeleteExpired [of db pid flt now] by simp
      with 6 x live none show ?thesis by (intro end_recorded_idle) (simp_all add: repo_cleanup_le)
    qed
  qed
qed

lemma server_run_tombstone:
  "secrets_inv (snd w) \<Longrightarrow> tombstone_of (snd w) k = Some t \<Longrightarrow>
     \<forall>x \<in> set xs. server_remembers (tb_KeepUntil t) x \<Longrightarrow> tombstone_of (snd (server_run xs w)) k = Some t"
  by (induction xs arbitrary: w) (simp_all add: server_step_tombstone server_step_inv)

lemma end_recorded_run:
  "secrets_inv (snd w) \<Longrightarrow> end_recorded pid s None (snd w) \<Longrightarrow>
     \<forall>x \<in> set xs. server_remembers (s_ExpiresAt s + TombstoneRetention) x \<Longrightarrow>
     end_recorded pid s (end_of_life pid xs w) (snd (server_run xs w))"
proof (induction xs arbitrary: w)
  case (Cons x xs)
  let ?w = "server_step x w"
  have inv: "secrets_inv (snd ?w)" using Cons.prems(1) by (rule server_step_inv)
  have step: "end_recorded pid s (ended pid x (snd w) (snd ?w)) (snd ?w)"
    using Cons.prems(1,2) by (rule end_recorded_live_step)
  show ?case
  proof (cases "ended pid x (snd w) (snd ?w)")
    case None
    with Cons inv step show ?thesis by simp
  next
    case (Some e)
    with step obtain t where t: "tombstone_of (snd ?w) pid = Some t" "tells_end s e t"
      by (auto simp: end_recorded_def)
    have "\<forall>y \<in> set xs. server_remembers (tb_KeepUntil t) y"
      using Cons.prems(3) t(2) by (auto simp: tells_end_def intro: server_remembers_mono)
    from server_run_tombstone [OF inv t(1) this] Some t(2) show ?thesis by (simp add: end_recorded_def)
  qed
qed simp

lemma end_recorded_start:
  "secret_of db pid = Some s \<Longrightarrow> tombstone_of db pid = None \<Longrightarrow>
     (s_BurnAfterRead s \<longrightarrow> s_RetrievedAt s = None) \<Longrightarrow> end_recorded pid s None db"
  by (simp add: end_recorded_def)

text \<open>What the two lookups of the server make of it: \<open>GetByPublicID\<close> first, then \<open>GetTombstone\<close>.\<close>

lemma live_answer:
  assumes inv: "secrets_inv db" and live: "end_recorded pid s None db"
  shows "now < s_ExpiresAt s \<Longrightarrow> \<exists>s'. repo_GetByPublicID no_faults pid now db = Inr s' \<and>
           s' = s\<lparr>s_RetrievedAt := s_RetrievedAt s'\<rparr> \<and> (s_BurnAfterRead s \<longrightarrow> s_RetrievedAt s' = None)"
    and "s_ExpiresAt s \<le> now \<Longrightarrow> repo_GetByPublicID no_faults pid now db = Inl ErrNotFound"
    and "s_ExpiresAt s \<le> now \<Longrightarrow> \<exists>s' t. secret_of db pid = Some s' \<and>
           repo_GetTombstone no_faults pid now db = Inr t \<and>
           tells_end s \<lparr>end_Outcome = TombstoneExpired, end_At = s_ExpiresAt s, end_ByOwner = False,
             end_FirstOpened = (if s_BurnAfterRead s then None else s_RetrievedAt s')\<rparr> t"
proof -
  from live obtain s' where s': "secret_of db pid = Some s'" "secret_le (Some s) (Some s')"
      "s_BurnAfterRead s \<longrightarrow> s_RetrievedAt s' = None" and none: "tombstone_of db pid = None"
    by (auto simp: end_recorded_def)
  show "\<exists>s'. repo_GetByPublicID no_faults pid now db = Inr s' \<and>
      s' = s\<lparr>s_RetrievedAt := s_RetrievedAt s'\<rparr> \<and> (s_BurnAfterRead s \<longrightarrow> s_RetrievedAt s' = None)"
    if "now < s_ExpiresAt s"
    using that s' by (auto simp: repo_GetByPublicID_def secret_lookups inv secret_le_def)
  show "repo_GetByPublicID no_faults pid now db = Inl ErrNotFound" if "s_ExpiresAt s \<le> now"
    using that s' by (simp add: repo_GetByPublicID_def secret_lookups inv secret_le_fields)
  show "\<exists>s' t. secret_of db pid = Some s' \<and> repo_GetTombstone no_faults pid now db = Inr t \<and>
      tells_end s \<lparr>end_Outcome = TombstoneExpired, end_At = s_ExpiresAt s, end_ByOwner = False,
        end_FirstOpened = (if s_BurnAfterRead s then None else s_RetrievedAt s')\<rparr> t"
    if "s_ExpiresAt s \<le> now"
    using that s' none
    by (simp add: repo_GetTombstone_def secret_lookups inv secret_le_fields tells_end_def
        recipientOpenedAt_def TombstoneKeepUntil_def)
qed

lemma ended_answer:
  "secrets_inv db \<Longrightarrow> end_recorded pid s (Some e) db \<Longrightarrow> now < s_ExpiresAt s + TombstoneRetention \<Longrightarrow>
     \<exists>t. repo_GetTombstone no_faults pid now db = Inr t \<and> tells_end s e t"
  by (auto simp: end_recorded_def tells_end_def intro!: GetTombstone_row)

section \<open>No secret disappears without a trace\<close>

text \<open>
  Property C4. No secret disappears without a trace, and the trace tells the truth. From a stored
  secret that is not used up and whose id has no earlier tombstone, whatever the server runs
  (calls on secrets, creations, uploads, transfers, cleanups) and whatever fails, and until the
  retention of a week after its expiry: if nothing ended its life (\<open>end_of_life\<close>), the lookup
  finds it until it expires, with nothing changed but the time it was opened, and after that
  \<open>GetTombstone\<close> says it expired then. If it was used up, deleted or cleaned up, \<open>GetTombstone\<close>
  says which of these came first, when, whether the owner opened it and when a recipient first
  did; and it carries the hashes its links are checked against.
\<close>

theorem no_silent_end:
  assumes "secrets_inv (snd w)" and "secret_of (snd w) pid = Some s" and "tombstone_of (snd w) pid = None"
    and "s_BurnAfterRead s \<longrightarrow> s_RetrievedAt s = None"
    and "\<forall>x \<in> set xs. server_remembers (s_ExpiresAt s + TombstoneRetention) x"
    and "now < s_ExpiresAt s + TombstoneRetention" and "db = snd (server_run xs w)"
  shows "case end_of_life pid xs w of
      None \<Rightarrow>
        if now < s_ExpiresAt s
        then \<exists>s'. repo_GetByPublicID no_faults pid now db = Inr s' \<and>
               s' = s\<lparr>s_RetrievedAt := s_RetrievedAt s'\<rparr> \<and> (s_BurnAfterRead s \<longrightarrow> s_RetrievedAt s' = None)
        else \<exists>t. repo_GetTombstone no_faults pid now db = Inr t \<and>
               tb_Outcome t = TombstoneExpired \<and> tb_EndedAt t = s_ExpiresAt s \<and> \<not> tb_OpenedByOwner t \<and>
               tb_BurnAfterRead t = s_BurnAfterRead s \<and>
               tb_MetadataTokenHash t = s_MetadataTokenHash s \<and> tb_DeletionTokenHash t = s_DeletionTokenHash s
    | Some e \<Rightarrow>
        \<exists>t. repo_GetTombstone no_faults pid now db = Inr t \<and>
            tb_Outcome t = end_Outcome e \<and> tb_EndedAt t = end_At e \<and>
            tb_OpenedByOwner t = end_ByOwner e \<and> tb_FirstOpenedAt t = end_FirstOpened e \<and>
            tb_BurnAfterRead t = s_BurnAfterRead s \<and>
            tb_MetadataTokenHash t = s_MetadataTokenHash s \<and> tb_DeletionTokenHash t = s_DeletionTokenHash s"
proof -
  have inv: "secrets_inv db" using assms(1,7) server_run_inv by simp
  have rec: "end_recorded pid s (end_of_life pid xs w) db"
    unfolding assms(7) using assms(1-5) by (intro end_recorded_run end_recorded_start)
  show ?thesis
  proof (cases "end_of_life pid xs w")
    case None
    with rec have "end_recorded pid s None db" by simp
    from live_answer(1,3) [OF inv this, of now] None show ?thesis by (auto simp: tells_end_def)
  next
    case (Some e)
    with rec have "end_recorded pid s (Some e) db" by simp
    from ended_answer [OF inv this assms(6)] Some show ?thesis by (auto simp: tells_end_def)
  qed
qed

text \<open>A recipient opens the one-time secret at 10; the owner deletes what is left of it at 20.\<close>

theorem no_silent_end_witness:
  "\<exists>t. repo_GetTombstone no_faults ''p'' 200
     (snd (server_run [OnSecrets (OpStart no_faults ''p'' ''b'' '''' ''x'' 50 10),
        OnSecrets (OpDelete no_faults ''p'' 20)] ((), demo_db))) = Inr t \<and>
     tb_Outcome t = TombstoneOpened \<and> tb_EndedAt t = 10 \<and> tb_FirstOpenedAt t = Some 10"
proof -
  let ?xs = "[OnSecrets (OpStart no_faults ''p'' ''b'' '''' ''x'' 50 10), OnSecrets (OpDelete no_faults ''p'' 20)]"
  have e: "end_of_life ''p'' ?xs ((), demo_db) =
      Some \<lparr>end_Outcome = TombstoneOpened, end_At = 10, end_ByOwner = False, end_FirstOpened = Some 10\<rparr>"
    by (simp add: ended_def demo_open demo_inv) (simp add: demo_secret_def)
  have "tombstone_of demo_db ''p'' = None" by (simp add: demo_db_def empty_db_def)
  moreover have "s_RetrievedAt demo_secret = None" "s_ExpiresAt demo_secret = 100" by (simp_all add: demo_secret_def)
  moreover have "(200 :: int) < 100 + TombstoneRetention" by (simp add: TombstoneRetention_def duration_defs)
  ultimately have "case end_of_life ''p'' ?xs ((), demo_db) of None \<Rightarrow> True
      | Some e \<Rightarrow> \<exists>t. repo_GetTombstone no_faults ''p'' 200 (snd (server_run ?xs ((), demo_db))) = Inr t \<and>
          tb_Outcome t = end_Outcome e \<and> tb_EndedAt t = end_At e \<and> tb_FirstOpenedAt t = end_FirstOpened e"
    using no_silent_end [of "((), demo_db)" "''p''" demo_secret ?xs 200, OF _ _ _ _ _ _ refl] demo_inv
    by (simp del: end_of_life.simps server_run.simps split: option.splits) blast
  then show ?thesis unfolding e by (simp del: server_run.simps)
qed

text \<open>
  The same secret, and a pending upload that claims its id: neither a creation nor the
  completed upload overwrites the row.
\<close>

theorem secret_is_immutable_witness:
  "\<exists>s0 s'. secret_of (demo_db\<lparr>upload_sessions := [uploadSessionParams (demo_session\<lparr>u_PublicID := ''p''\<rparr>)]\<rparr>) ''p'' = Some s0 \<and>
     secret_of (snd (server_run
       [OnSecrets (OpCreate no_faults (demo_secret\<lparr>s_BlobTokenHash := ''z''\<rparr>) 5),
        OnUploads (UComplete no_faults ''s'' 6 (\<lambda>_ _ st. (None, st)))]
       ((), demo_db\<lparr>upload_sessions := [uploadSessionParams (demo_session\<lparr>u_PublicID := ''p''\<rparr>)]\<rparr>))) ''p'' = Some s' \<and>
     s_BlobTokenHash s' = s_BlobTokenHash s0"
proof -
  let ?db = "demo_db\<lparr>upload_sessions := [uploadSessionParams (demo_session\<lparr>u_PublicID := ''p''\<rparr>)]\<rparr>"
  let ?xs = "[OnSecrets (OpCreate no_faults (demo_secret\<lparr>s_BlobTokenHash := ''z''\<rparr>) 5),
    OnUploads (UComplete no_faults ''s'' 6 (\<lambda>_ _ st. (None, st)))]"
  have p: "s_PublicID demo_secret = ''p''" by (simp add: demo_secret_def)
  have c: "repo_Create no_faults (demo_secret\<lparr>s_BlobTokenHash := ''z''\<rparr>) 5 ?db = (Inl ErrDuplicate, ?db)"
    by (simp add: repo_Create_def q_CreateSecret_def isDuplicateKeyError_def demo_db_def p)
  have u: "repo_CompleteUploadSession no_faults ''s'' 6 (\<lambda>_ _ st. (None, st)) ((), ?db) = (Inl ErrDuplicate, (), ?db)"
    by (simp add: repo_CompleteUploadSession_def finish_CompleteUploadSession_def uploadSessionParams_def
        demo_session_def q_CreateSecret_def isDuplicateKeyError_def demo_db_def p)
  have s: "secret_of ?db ''p'' = Some demo_secret" by (simp add: demo_db_def p)
  then have "\<not> reused ''p'' ?xs ((), ?db)" by (simp add: c u)
  moreover have stored: "secret_of (snd (server_run ?xs ((), ?db))) ''p'' = Some demo_secret"
    using s by (simp add: c u)
  ultimately obtain s0 where s0: "demo_secret = s0\<lparr>s_RetrievedAt := s_RetrievedAt demo_secret\<rparr>"
    and "secret_of ?db ''p'' = Some s0"
    using secret_is_immutable [of "''p''" ?xs "((), ?db)" demo_secret] by auto
  have "s_BlobTokenHash demo_secret = s_BlobTokenHash s0" using arg_cong [OF s0, of s_BlobTokenHash] by simp
  with stored \<open>secret_of ?db ''p'' = Some s0\<close> show ?thesis by blast
qed

end
