(* ===== verification/Transfer_Events.thy ===== *)
theory Transfer_Events
  imports Transfer_Repo "HOL-Library.AList"
begin

text \<open>
  \<open>internal/adapter/postgres/transfer_events.go\<close>: who waits for which transfer, and the goroutine that listens for the
  notifications of the database and signals the waiters. A channel is a number; its buffer of one signal is \<open>ev_Pending\<close>.
  Every method holds the mutex from start to end, so it is one step.
\<close>

section \<open>Waiters\<close>

record events =
  ev_Waiters :: "(string \<times> nat list) list"
  ev_Pending :: "nat \<Rightarrow> bool"
  ev_Next :: nat

definition NewTransferEvents :: events where
  "NewTransferEvents = \<lparr>ev_Waiters = [], ev_Pending = (\<lambda>_. False), ev_Next = 0\<rparr>"

definition waiting_for :: "string \<Rightarrow> events \<Rightarrow> nat list" where
  "waiting_for transferID e = (case map_of (ev_Waiters e) transferID of Some chs \<Rightarrow> chs | None \<Rightarrow> [])"

definition Subscribe :: "string \<Rightarrow> events \<Rightarrow> nat \<times> events" where
  "Subscribe transferID e =
     (let signal = ev_Next e
      in (signal, e\<lparr>ev_Waiters := AList.update transferID (signal # waiting_for transferID e) (ev_Waiters e),
                    ev_Pending := (ev_Pending e)(signal := False), ev_Next := signal + 1\<rparr>))"

text \<open>The function \<open>Subscribe\<close> returns.\<close>

definition unsubscribe :: "string \<Rightarrow> nat \<Rightarrow> events \<Rightarrow> events" where
  "unsubscribe transferID signal e =
     (let rest = filter (\<lambda>ch. ch \<noteq> signal) (waiting_for transferID e)
      in e\<lparr>ev_Waiters := (if rest = [] then AList.delete transferID (ev_Waiters e)
                          else AList.update transferID rest (ev_Waiters e))\<rparr>)"

definition notify :: "nat \<Rightarrow> events \<Rightarrow> events" where
  "notify signal e = (if ev_Pending e signal then e else e\<lparr>ev_Pending := (ev_Pending e)(signal := True)\<rparr>)"

definition wake :: "string \<Rightarrow> events \<Rightarrow> events" where
  "wake transferID e = fold notify (waiting_for transferID e) e"

definition wakeAll :: "events \<Rightarrow> events" where
  "wakeAll e = fold (\<lambda>(_, chs). fold notify chs) (ev_Waiters e) e"

section \<open>What the methods do to the waiters\<close>

abbreviation subscribed :: "events \<Rightarrow> string \<Rightarrow> nat \<Rightarrow> bool" where
  "subscribed e tid ch \<equiv> ch \<in> set (waiting_for tid e)"

lemma notify_simps [simp]:
  "ev_Waiters (notify ch e) = ev_Waiters e" "ev_Next (notify ch e) = ev_Next e"
  "ev_Pending (notify ch e) c \<longleftrightarrow> c = ch \<or> ev_Pending e c"
  by (auto simp: notify_def)

lemma fold_notify [simp]:
  "ev_Waiters (fold notify chs e) = ev_Waiters e" "ev_Next (fold notify chs e) = ev_Next e"
  "ev_Pending (fold notify chs e) c \<longleftrightarrow> c \<in> set chs \<or> ev_Pending e c"
  by (induction chs arbitrary: e) auto

lemma fold_notify_all:
  "ev_Waiters (fold (\<lambda>(_, chs). fold notify chs) ws e) = ev_Waiters e"
  "ev_Next (fold (\<lambda>(_, chs). fold notify chs) ws e) = ev_Next e"
  "ev_Pending (fold (\<lambda>(_, chs). fold notify chs) ws e) c \<longleftrightarrow> (\<exists>(tid, chs) \<in> set ws. c \<in> set chs) \<or> ev_Pending e c"
  by (induction ws arbitrary: e) auto

lemma wake_simps [simp]:
  "ev_Waiters (wake tid e) = ev_Waiters e" "ev_Next (wake tid e) = ev_Next e"
  "ev_Pending (wake tid e) c \<longleftrightarrow> subscribed e tid c \<or> ev_Pending e c"
  "waiting_for tid' (wake tid e) = waiting_for tid' e"
  by (simp_all add: wake_def waiting_for_def)

lemma wakeAll_simps [simp]:
  "ev_Waiters (wakeAll e) = ev_Waiters e" "ev_Next (wakeAll e) = ev_Next e"
  "waiting_for tid (wakeAll e) = waiting_for tid e"
  by (simp_all add: wakeAll_def fold_notify_all waiting_for_def)

lemma subscribed_entry: "subscribed e tid ch \<longleftrightarrow> (\<exists>chs. map_of (ev_Waiters e) tid = Some chs \<and> ch \<in> set chs)"
  by (cases "map_of (ev_Waiters e) tid") (simp_all add: waiting_for_def)

lemma wakeAll_pending: "subscribed e tid c \<Longrightarrow> ev_Pending (wakeAll e) c" "ev_Pending e c \<Longrightarrow> ev_Pending (wakeAll e) c"
  by (auto simp: wakeAll_def fold_notify_all subscribed_entry dest!: map_of_SomeD)

lemma Subscribe_simps [simp]:
  "fst (Subscribe tid e) = ev_Next e" "ev_Next (snd (Subscribe tid e)) = Suc (ev_Next e)"
  "ev_Pending (snd (Subscribe tid e)) = (ev_Pending e)(ev_Next e := False)"
  "waiting_for tid' (snd (Subscribe tid e)) = (if tid' = tid then ev_Next e # waiting_for tid e else waiting_for tid' e)"
  by (simp_all add: Subscribe_def Let_def waiting_for_def update_conv')

lemma unsubscribe_simps [simp]:
  "ev_Pending (unsubscribe tid ch e) = ev_Pending e" "ev_Next (unsubscribe tid ch e) = ev_Next e"
  "waiting_for tid' (unsubscribe tid ch e) =
     (if tid' = tid then filter (\<lambda>c. c \<noteq> ch) (waiting_for tid e) else waiting_for tid' e)"
  by (simp_all add: unsubscribe_def Let_def waiting_for_def update_conv' delete_conv' restrict_map_def)

text \<open>A transfer nobody waits for has no entry, and no channel waits twice.\<close>

definition events_inv :: "events \<Rightarrow> bool" where
  "events_inv e \<longleftrightarrow>
     distinct (map fst (ev_Waiters e)) \<and> (\<forall>(tid, chs) \<in> set (ev_Waiters e). chs \<noteq> []) \<and>
     (\<forall>tid. distinct (waiting_for tid e)) \<and> (\<forall>tid ch. subscribed e tid ch \<longrightarrow> ch < ev_Next e) \<and>
     (\<forall>tid tid' ch. subscribed e tid ch \<and> subscribed e tid' ch \<longrightarrow> tid = tid')"

lemma entries_of_update: "x \<in> set (AList.update k v ws) \<Longrightarrow> x = (k, v) \<or> x \<in> set ws"
  by (induction ws) (auto split: if_splits)

lemma events_invD:
  assumes "events_inv e"
  shows "distinct (map fst (ev_Waiters e))" "(tid, chs) \<in> set (ev_Waiters e) \<Longrightarrow> chs \<noteq> []" "distinct (waiting_for tid e)"
    "subscribed e tid ch \<Longrightarrow> ch < ev_Next e" "subscribed e tid ch \<Longrightarrow> subscribed e tid' ch \<Longrightarrow> tid = tid'"
  using assms unfolding events_inv_def by blast+

lemma Subscribe_inv:
  assumes "events_inv e"
  shows "events_inv (snd (Subscribe tid e))"
  unfolding events_inv_def
proof (intro conjI allI impI)
  note inv = events_invD [OF assms]
  have ws: "ev_Waiters (snd (Subscribe tid e)) = AList.update tid (ev_Next e # waiting_for tid e) (ev_Waiters e)"
    by (simp add: Subscribe_def Let_def)
  show "distinct (map fst (ev_Waiters (snd (Subscribe tid e))))" unfolding ws using inv(1) by (rule distinct_update)
  show "\<forall>(tid, chs) \<in> set (ev_Waiters (snd (Subscribe tid e))). chs \<noteq> []"
    unfolding ws using inv(2) by (auto dest!: entries_of_update)
  have new: "\<not> subscribed e t (ev_Next e)" for t using inv(4) by blast
  show "distinct (waiting_for t (snd (Subscribe tid e)))" for t using inv(3) new by simp
  show "ch < ev_Next (snd (Subscribe tid e))" if "subscribed (snd (Subscribe tid e)) t ch" for t ch
    using that inv(4) by (auto split: if_splits intro: less_SucI)
  show "t = t'" if "subscribed (snd (Subscribe tid e)) t ch \<and> subscribed (snd (Subscribe tid e)) t' ch" for t t' ch
    using that inv(5) new by (auto split: if_splits)
qed

lemma unsubscribe_inv:
  assumes "events_inv e"
  shows "events_inv (unsubscribe tid ch e)"
  unfolding events_inv_def
proof (intro conjI allI impI)
  note inv = events_invD [OF assms]
  let ?rest = "filter (\<lambda>c. c \<noteq> ch) (waiting_for tid e)"
  have ws: "ev_Waiters (unsubscribe tid ch e) =
      (if ?rest = [] then AList.delete tid (ev_Waiters e) else AList.update tid ?rest (ev_Waiters e))"
    by (simp add: unsubscribe_def Let_def)
  show "distinct (map fst (ev_Waiters (unsubscribe tid ch e)))"
    unfolding ws using inv(1) by (simp add: distinct_update distinct_delete)
  have "set (AList.delete tid (ev_Waiters e)) \<subseteq> set (ev_Waiters e)" by (auto simp: AList.delete_eq)
  then show "\<forall>(tid, chs) \<in> set (ev_Waiters (unsubscribe tid ch e)). chs \<noteq> []"
    unfolding ws using inv(2) by (cases "?rest = []") (auto dest!: entries_of_update)
  show "distinct (waiting_for t (unsubscribe tid ch e))" for t using inv(3) by simp
  show "c < ev_Next (unsubscribe tid ch e)" if "subscribed (unsubscribe tid ch e) t c" for t c
    using that inv(4) by (auto split: if_splits)
  show "t = t'" if "subscribed (unsubscribe tid ch e) t c \<and> subscribed (unsubscribe tid ch e) t' c" for t t' c
    using that inv(5) by (auto split: if_splits)
qed

lemma wake_inv: "events_inv e \<Longrightarrow> events_inv (wake tid e)" "events_inv e \<Longrightarrow> events_inv (wakeAll e)"
  by (simp_all add: events_inv_def)

text \<open>A subscription that ends leaves nothing behind.\<close>

lemma subscription_leaves_nothing:
  assumes inv: "events_inv e" and sub: "Subscribe tid e = (ch, e')"
  shows "map_of (ev_Waiters (unsubscribe tid ch e')) = map_of (ev_Waiters e)"
proof -
  have ch: "ch = ev_Next e" and e': "ev_Waiters e' = AList.update tid (ev_Next e # waiting_for tid e) (ev_Waiters e)"
    using sub by (auto simp: Subscribe_def Let_def)
  have waits: "waiting_for tid e' = ev_Next e # waiting_for tid e" using e' by (simp add: waiting_for_def update_conv')
  have "filter (\<lambda>c. c \<noteq> ev_Next e) (waiting_for tid e) = waiting_for tid e"
    using inv by (auto simp: events_inv_def filter_id_conv)
  then have rest: "filter (\<lambda>c. c \<noteq> ch) (waiting_for tid e') = waiting_for tid e" using waits ch by simp
  show ?thesis
  proof (cases "map_of (ev_Waiters e) tid")
    case None
    then have "waiting_for tid e = []" by (simp add: waiting_for_def)
    then show ?thesis using rest None e' by (auto simp: unsubscribe_def Let_def delete_conv' update_conv' fun_eq_iff)
  next
    case (Some chs)
    then have "waiting_for tid e = chs" "chs \<noteq> []" using inv by (auto simp: waiting_for_def events_inv_def dest!: map_of_SomeD)
    then show ?thesis using rest Some e' by (auto simp: unsubscribe_def Let_def update_conv' fun_eq_iff)
  qed
qed

section \<open>The listener\<close>

definition listenRetryMin :: duration where "listenRetryMin = 500 * time_Millisecond"
definition listenRetryMax :: duration where "listenRetryMax = 5 * time_Second"

text \<open>
  Where \<open>Run\<close> is: in \<open>listen\<close> before the \<open>LISTEN\<close>, behind it with the notifications that came in since, in its loop with
  those still to be taken, or waiting for the timer, knowing whether it had listened.
\<close>

datatype phase = Connecting | Listening "string list" | InLoop "string list" | Backoff bool | Stopped

text \<open>The delay before the timer starts, and the one after it has run.\<close>

definition retry_delay :: "bool \<Rightarrow> duration \<Rightarrow> duration" where
  "retry_delay listened retry = (if listened then listenRetryMin else retry)"

definition next_retry :: "bool \<Rightarrow> duration \<Rightarrow> duration" where
  "next_retry listened retry = (if \<not> listened then min (2 * retry) listenRetryMax else retry)"

text \<open>A session that listens is sent the notifications of every transaction that commits.\<close>

fun hear :: "string list \<Rightarrow> phase \<Rightarrow> phase" where
  "hear new (Listening q) = Listening (q @ new)"
| "hear new (InLoop q) = InLoop (q @ new)"
| "hear new ph = ph"

text \<open>
  The process, its replicas and the database. \<open>ls_Missed\<close> is no state of the program: it holds the channels whose transfer has
  changed since they were made or last gave their signal.
\<close>

record listening =
  ls_DB :: db
  ls_Events :: events
  ls_Phase :: phase
  ls_Retry :: duration
  ls_Missed :: "nat set"

definition changed_for :: "db \<Rightarrow> db \<Rightarrow> events \<Rightarrow> nat set" where
  "changed_for db db' e =
     {ch. \<exists>tid t t'. subscribed e tid ch \<and> transfer_of db tid = Some t \<and> transfer_of db' tid = Some t' \<and> t' \<noteq> t}"

definition new_notifications :: "db \<Rightarrow> db \<Rightarrow> string list" where
  "new_notifications db db' = drop (length (notified db)) (notified db')"

inductive listener_step :: "listening \<Rightarrow> listening \<Rightarrow> bool" where
  Call: "db' = snd (transfer_step x (ls_DB s)) \<Longrightarrow>
     listener_step s (s\<lparr>ls_DB := db', ls_Phase := hear (new_notifications (ls_DB s) db') (ls_Phase s),
                        ls_Missed := ls_Missed s \<union> changed_for (ls_DB s) db' (ls_Events s)\<rparr>)"
| Join: "listener_step s (s\<lparr>ls_Events := snd (Subscribe tid (ls_Events s))\<rparr>)"
| Leave: "listener_step s (s\<lparr>ls_Events := unsubscribe tid ch (ls_Events s)\<rparr>)"
| Take: "ev_Pending (ls_Events s) ch \<Longrightarrow>
     listener_step s (s\<lparr>ls_Events := (ls_Events s)\<lparr>ev_Pending := (ev_Pending (ls_Events s))(ch := False)\<rparr>,
                        ls_Missed := ls_Missed s - {ch}\<rparr>)"
| Listen: "ls_Phase s = Connecting \<Longrightarrow> listener_step s (s\<lparr>ls_Phase := Listening []\<rparr>)"
| ListenFails: "ls_Phase s = Connecting \<Longrightarrow>
     listener_step s (s\<lparr>ls_Phase := Backoff False, ls_Retry := retry_delay False (ls_Retry s)\<rparr>)"
| WakeAll: "ls_Phase s = Listening q \<Longrightarrow> listener_step s (s\<lparr>ls_Phase := InLoop q, ls_Events := wakeAll (ls_Events s)\<rparr>)"
| Notification: "ls_Phase s = InLoop (tid # q) \<Longrightarrow>
     listener_step s (s\<lparr>ls_Phase := InLoop q, ls_Events := wake tid (ls_Events s)\<rparr>)"
| ConnectionLost: "ls_Phase s = InLoop q \<Longrightarrow>
     listener_step s (s\<lparr>ls_Phase := Backoff True, ls_Retry := retry_delay True (ls_Retry s)\<rparr>)"
| TimerFires: "ls_Phase s = Backoff listened \<Longrightarrow>
     listener_step s (s\<lparr>ls_Phase := Connecting, ls_Retry := next_retry listened (ls_Retry s)\<rparr>)"
| Cancelled: "listener_step s (s\<lparr>ls_Phase := Stopped\<rparr>)"

inductive_cases listener_stepE: "listener_step s s'"

definition listener_start :: "db \<Rightarrow> listening" where
  "listener_start db = \<lparr>ls_DB = db, ls_Events = NewTransferEvents, ls_Phase = Connecting, ls_Retry = listenRetryMin, ls_Missed = {}\<rparr>"

abbreviation listener_reaches :: "listening \<Rightarrow> listening \<Rightarrow> bool" where
  "listener_reaches \<equiv> listener_step\<^sup>*\<^sup>*"

section \<open>Nothing goes unnoticed\<close>

lemma transfer_step_inv: "transfers_inv db \<Longrightarrow> transfers_inv (snd (transfer_step x db))"
  using transfer_run_ok [of db "[x]"] by simp

definition notices :: "events \<Rightarrow> nat set \<Rightarrow> string list \<Rightarrow> bool" where
  "notices e missed q \<longleftrightarrow> (\<forall>tid ch. subscribed e tid ch \<and> ch \<in> missed \<longrightarrow> ev_Pending e ch \<or> tid \<in> set q)"

definition listening_inv :: "listening \<Rightarrow> bool" where
  "listening_inv s \<longleftrightarrow>
     transfers_inv (ls_DB s) \<and> events_inv (ls_Events s) \<and> (\<forall>ch \<in> ls_Missed s. ch < ev_Next (ls_Events s)) \<and>
     listenRetryMin \<le> ls_Retry s \<and> ls_Retry s \<le> listenRetryMax \<and>
     (\<forall>q. ls_Phase s = InLoop q \<longrightarrow> notices (ls_Events s) (ls_Missed s) q)"

lemma retry_bounds:
  assumes "listenRetryMin \<le> r" and "r \<le> listenRetryMax"
  shows "listenRetryMin \<le> retry_delay l r" "retry_delay l r \<le> listenRetryMax"
    "listenRetryMin \<le> next_retry l r" "next_retry l r \<le> listenRetryMax"
  using assms by (auto simp: retry_delay_def next_retry_def listenRetryMin_def listenRetryMax_def duration_defs)

lemma changed_for_noticed:
  assumes "transfers_inv db" and "ch \<in> changed_for db (snd (transfer_step x db)) e" and "subscribed e tid ch" and "events_inv e"
  shows "tid \<in> set (new_notifications db (snd (transfer_step x db)))"
proof -
  obtain tid' t t' where c: "subscribed e tid' ch" "transfer_of db tid' = Some t" "transfer_of (snd (transfer_step x db)) tid' = Some t'" "t' \<noteq> t"
    using assms(2) by (auto simp: changed_for_def)
  have "tid' = tid" using events_invD(5) [OF assms(4)] c(1) assms(3) by blast
  then show ?thesis using transfer_step_tells [OF assms(1), of x] c by (auto simp: tells_def new_notifications_def)
qed

lemma changed_for_known: "ch \<in> changed_for db db' e \<Longrightarrow> events_inv e \<Longrightarrow> ch < ev_Next e"
  using events_invD(4) by (auto simp: changed_for_def)

lemma hear_InLoop: "hear new ph = InLoop q \<longleftrightarrow> (\<exists>q0. ph = InLoop q0 \<and> q = q0 @ new)"
  by (cases ph) auto

lemma listener_step_inv:
  assumes "listener_step s s'" and "listening_inv s"
  shows "listening_inv s'"
  using assms(1)
proof cases
  note inv = assms(2) [unfolded listening_inv_def]
  case (Call db' x)
  have "transfers_inv (ls_DB s')" using Call inv transfer_step_inv by simp
  moreover have "\<forall>ch \<in> ls_Missed s'. ch < ev_Next (ls_Events s')" using Call inv changed_for_known by auto
  moreover have "notices (ls_Events s') (ls_Missed s') q" if loop: "ls_Phase s' = InLoop q" for q
  proof -
    obtain q0 where q: "ls_Phase s = InLoop q0" "q = q0 @ new_notifications (ls_DB s) db'"
      using loop Call by (auto simp: hear_InLoop)
    then have "notices (ls_Events s) (ls_Missed s) q0" using inv by blast
    then show ?thesis using Call q inv changed_for_noticed [of "ls_DB s" _ x "ls_Events s"] by (auto simp: notices_def)
  qed
  ultimately show ?thesis using Call inv by (simp add: listening_inv_def)
next
  note inv = assms(2) [unfolded listening_inv_def]
  case (Join tid)
  then show ?thesis using inv Subscribe_inv [of "ls_Events s" tid] 
    by (auto simp: listening_inv_def notices_def intro: less_SucI)
next
  note inv = assms(2) [unfolded listening_inv_def]
  case (Leave tid ch)
  then show ?thesis using inv unsubscribe_inv [of "ls_Events s" tid ch]
    by (auto simp: listening_inv_def notices_def split: if_splits)
next
  note inv = assms(2) [unfolded listening_inv_def]
  case (Take ch)
  then show ?thesis using inv
    by (auto simp: listening_inv_def notices_def events_inv_def waiting_for_def)
next
  note inv = assms(2) [unfolded listening_inv_def]
  case (WakeAll q)
  then show ?thesis using inv wake_inv(2) [of "ls_Events s"] wakeAll_pending(1)
    by (auto simp: listening_inv_def notices_def)
next
  note inv = assms(2) [unfolded listening_inv_def]
  case (Notification tid q)
  then show ?thesis using inv wake_inv(1) [of "ls_Events s" tid] by (auto simp: listening_inv_def notices_def)
qed (use assms(2) retry_bounds [of "ls_Retry s"] in \<open>auto simp: listening_inv_def\<close>)

lemma listener_start_inv: "transfers_inv db \<Longrightarrow> listening_inv (listener_start db)"
  by (simp add: listening_inv_def listener_start_def NewTransferEvents_def events_inv_def waiting_for_def listenRetryMin_def
      listenRetryMax_def duration_defs)

lemma listener_reaches_inv:
  assumes "listener_reaches s s'" and "listening_inv s"
  shows "listening_inv s'"
  using assms by (induction rule: rtranclp_induct) (auto intro: listener_step_inv)

text \<open>Taking the notifications that are there wakes everyone they are for.\<close>

lemma notifications_taken:
  assumes "ls_Phase s = InLoop q"
  shows "\<exists>s'. listener_reaches s s' \<and> ls_Phase s' = InLoop [] \<and> ls_DB s' = ls_DB s \<and> ls_Missed s' = ls_Missed s \<and>
    ev_Waiters (ls_Events s') = ev_Waiters (ls_Events s) \<and>
    (\<forall>ch. ev_Pending (ls_Events s') ch \<longleftrightarrow> ev_Pending (ls_Events s) ch \<or> (\<exists>tid \<in> set q. subscribed (ls_Events s) tid ch))"
  using assms
proof (induction q arbitrary: s)
  case (Cons tid q)
  let ?s1 = "s\<lparr>ls_Phase := InLoop q, ls_Events := wake tid (ls_Events s)\<rparr>"
  have first: "listener_step s ?s1" using Cons.prems by (rule Notification)
  have same: "waiting_for t (ls_Events ?s1) = waiting_for t (ls_Events s)" for t by simp
  obtain s' where s': "listener_reaches ?s1 s'" "ls_Phase s' = InLoop []" "ls_DB s' = ls_DB ?s1" "ls_Missed s' = ls_Missed ?s1"
      "ev_Waiters (ls_Events s') = ev_Waiters (ls_Events ?s1)"
    and pend: "\<forall>ch. ev_Pending (ls_Events s') ch \<longleftrightarrow> ev_Pending (ls_Events ?s1) ch \<or> (\<exists>tid \<in> set q. subscribed (ls_Events ?s1) tid ch)"
    using Cons.IH [of ?s1] by auto
  have "listener_reaches s s'" using first s'(1) by (rule converse_rtranclp_into_rtranclp)
  moreover have "\<forall>ch. ev_Pending (ls_Events s') ch \<longleftrightarrow> ev_Pending (ls_Events s) ch \<or> (\<exists>t \<in> set (tid # q). subscribed (ls_Events s) t ch)"
    using pend by (auto simp: same)
  ultimately show ?case using s' by auto
qed auto

text \<open>
  Property C25. No long-poll sleeps through a change while its process listens. In every state the process can reach,
  whatever calls the replicas make, whoever subscribes, leaves or takes a signal, however often the connection is lost: once
  the listener is in its loop, a waiter whose transfer has changed since it subscribed or last took its signal has a signal
  pending, or the notification is among those the connection still holds, and after these are taken it has one. Until then the
  delay before the next attempt stays between half a second and five seconds.
\<close>

theorem no_change_goes_unnoticed:
  assumes "transfers_inv db" and "listener_reaches (listener_start db) s"
  shows "(\<forall>q. ls_Phase s = InLoop q \<longrightarrow>
      (\<exists>s'. listener_reaches s s' \<and> ls_DB s' = ls_DB s \<and>
         (\<forall>tid ch. subscribed (ls_Events s) tid ch \<and> ch \<in> ls_Missed s \<longrightarrow>
            (ev_Pending (ls_Events s) ch \<or> tid \<in> set q) \<and> ev_Pending (ls_Events s') ch))) \<and>
    listenRetryMin \<le> ls_Retry s \<and> ls_Retry s \<le> listenRetryMax"
proof -
  have inv: "listening_inv s" using listener_reaches_inv [OF assms(2) listener_start_inv [OF assms(1)]] .
  have "\<exists>s'. listener_reaches s s' \<and> ls_DB s' = ls_DB s \<and>
      (\<forall>tid ch. subscribed (ls_Events s) tid ch \<and> ch \<in> ls_Missed s \<longrightarrow>
         (ev_Pending (ls_Events s) ch \<or> tid \<in> set q) \<and> ev_Pending (ls_Events s') ch)"
    if loop: "ls_Phase s = InLoop q" for q
  proof -
    have "notices (ls_Events s) (ls_Missed s) q" using inv loop by (simp add: listening_inv_def)
    then show ?thesis using notifications_taken [OF loop] unfolding notices_def by blast
  qed
  then show ?thesis using inv by (simp add: listening_inv_def)
qed

definition demo_waits :: listening where
  "demo_waits = \<lparr>ls_DB = demo_relay\<lparr>code_transfers := [demo_mailbox\<lparr>ct_ReceiverTokenHash := Some ''r''\<rparr>], notified := [''i'']\<rparr>,
     ls_Events = \<lparr>ev_Waiters = [(''i'', [0])], ev_Pending = (\<lambda>_. False), ev_Next = 1\<rparr>, ls_Phase = InLoop [''i''],
     ls_Retry = listenRetryMin, ls_Missed = {0}\<rparr>"

lemma demo_waits_reached: "listener_reaches (listener_start demo_relay) demo_waits"
proof -
  let ?s0 = "listener_start demo_relay"
  let ?s1 = "?s0\<lparr>ls_Phase := Listening []\<rparr>"
  let ?s2 = "?s1\<lparr>ls_Phase := InLoop [], ls_Events := wakeAll (ls_Events ?s1)\<rparr>"
  let ?s3 = "?s2\<lparr>ls_Events := snd (Subscribe ''i'' (ls_Events ?s2))\<rparr>"
  have "listener_step ?s0 ?s1" by (rule Listen) (simp add: listener_start_def)
  moreover have "listener_step ?s1 ?s2" by (rule WakeAll) simp
  moreover have "listener_step ?s2 ?s3" by (rule Join)
  moreover have "listener_step ?s3 demo_waits"
  proof -
    have db: "ls_DB ?s3 = demo_relay" by (simp add: listener_start_def)
    have ev: "ls_Events ?s3 = \<lparr>ev_Waiters = [(''i'', [0])], ev_Pending = (\<lambda>_. False), ev_Next = 1\<rparr>"
      by (simp add: listener_start_def NewTransferEvents_def wakeAll_def Subscribe_def Let_def waiting_for_def fun_eq_iff)
    let ?db' = "snd (transfer_step (TClaim no_faults 1 ''r'' 10) demo_relay)"
    have db': "?db' = ls_DB demo_waits" using demo_claim by (simp add: demo_waits_def del: transfer_step.simps)
    have "changed_for demo_relay ?db' (ls_Events ?s3) = {0}"
      unfolding db' ev by (auto simp: changed_for_def waiting_for_def demo_waits_def demo_relay_def empty_db_def demo_mailbox_def split: if_splits)
    moreover have "new_notifications demo_relay ?db' = [''i'']"
      unfolding db' by (simp add: new_notifications_def demo_waits_def demo_relay_def empty_db_def)
    moreover have "ls_Phase ?s3 = InLoop []" "ls_Missed ?s3 = {}" "ls_Retry ?s3 = listenRetryMin"
      by (simp_all add: listener_start_def)
    ultimately have "?s3\<lparr>ls_DB := ?db', ls_Phase := hear (new_notifications (ls_DB ?s3) ?db') (ls_Phase ?s3),
        ls_Missed := ls_Missed ?s3 \<union> changed_for (ls_DB ?s3) ?db' (ls_Events ?s3)\<rparr> = demo_waits"
      unfolding db using ev db' by (intro listening.equality) (simp_all only: listening.simps, simp_all add: demo_waits_def)
    then show ?thesis using Call [OF refl, where s = ?s3 and x = "TClaim no_faults 1 ''r'' 10"] unfolding db by (simp only:)
  qed
  ultimately show ?thesis by (intro rtranclp.rtrancl_into_rtrancl [OF rtranclp.rtrancl_into_rtrancl [OF rtranclp.rtrancl_into_rtrancl [OF r_into_rtranclp]]])
qed

lemma demo_waits_fields:
  "ls_Phase demo_waits = InLoop [''i'']" "\<not> ev_Pending (ls_Events demo_waits) 0" "subscribed (ls_Events demo_waits) ''i'' 0"
  "0 \<in> ls_Missed demo_waits"
  by (simp_all add: demo_waits_def waiting_for_def)

theorem no_change_goes_unnoticed_witness:
  "\<exists>s'. listener_reaches demo_waits s' \<and> \<not> ev_Pending (ls_Events demo_waits) 0 \<and> ev_Pending (ls_Events s') 0"
  using conjunct1 [OF no_change_goes_unnoticed [OF demo_relay_inv(1) demo_waits_reached], THEN spec, THEN mp, OF demo_waits_fields(1)]
    demo_waits_fields(2-4) by blast

end
