(* ===== verification/Strconv.thy ===== *)
theory Strconv
  imports Prelude
begin

text \<open>
  Decimal integers: \<open>strconv.FormatInt\<close> (and \<open>fmt\<close> with percent-d) and \<open>strconv.ParseInt\<close> with base 10 and
  64 bits, which \<open>strconv.Atoi\<close> equals on a 64-bit machine.
\<close>

fun nat_digits :: "nat \<Rightarrow> string" where
  "nat_digits n = (if n < 10 then [chr (48 + n)] else nat_digits (n div 10) @ [chr (48 + n mod 10)])"

declare nat_digits.simps [simp del]

definition FormatInt :: "int \<Rightarrow> string" where
  "FormatInt i = (if i < 0 then CHR ''-'' # nat_digits (nat (- i)) else nat_digits (nat i))"

definition is_digit :: "char \<Rightarrow> bool" where
  "is_digit c \<longleftrightarrow> 48 \<le> ord c \<and> ord c \<le> 57"

definition digits_value :: "string \<Rightarrow> nat" where
  "digits_value s = foldl (\<lambda>v c. 10 * v + (ord c - 48)) 0 s"

definition ParseDigits :: "string \<Rightarrow> nat option" where
  "ParseDigits s = (if s \<noteq> [] \<and> list_all is_digit s then Some (digits_value s) else None)"

text \<open>An optional sign, at least one digit, and the range of an \<open>int64\<close>.\<close>

definition ParseInt :: "string \<Rightarrow> int option" where
  "ParseInt s =
     (let (neg, digits) =
        (case s of c # cs \<Rightarrow> (if c = CHR ''+'' then (False, cs)
                             else if c = CHR ''-'' then (True, cs) else (False, s))
         | [] \<Rightarrow> (False, []))
      in (case ParseDigits digits of
            None \<Rightarrow> None
          | Some n \<Rightarrow>
              (if neg then (if n \<le> 9223372036854775808 then Some (- int n) else None)
               else (if n \<le> 9223372036854775807 then Some (int n) else None))))"

section \<open>Facts\<close>

lemma ord_digit: "d < 10 \<Longrightarrow> ord (chr (48 + d)) = 48 + d"
  by (simp add: of_char_of)

lemma digits_value_snoc: "digits_value (s @ [c]) = 10 * digits_value s + (ord c - 48)"
  by (simp add: digits_value_def)

lemma nat_digits_value: "digits_value (nat_digits n) = n \<and> nat_digits n \<noteq> [] \<and> list_all is_digit (nat_digits n)"
proof (induction n rule: nat_digits.induct)
  case (1 n)
  show ?case
  proof (cases "n < 10")
    case True
    then show ?thesis
      by (simp add: nat_digits.simps [of n] digits_value_def is_digit_def ord_digit)
  next
    case False
    have "n mod 10 < 10" by simp
    then have "ord (chr (48 + n mod 10)) = 48 + n mod 10" by (rule ord_digit)
    with 1 False show ?thesis
      by (simp add: nat_digits.simps [of n] digits_value_snoc is_digit_def)
  qed
qed

lemma ParseDigits_nat_digits [simp]: "ParseDigits (nat_digits n) = Some n"
  using nat_digits_value [of n] by (simp add: ParseDigits_def)

lemma nat_digits_hd: "nat_digits n = c # cs \<Longrightarrow> c \<noteq> CHR ''+'' \<and> c \<noteq> CHR ''-''"
  using nat_digits_value [of n] by (auto simp: is_digit_def)

lemma ParseInt_range: "ParseInt s = Some i \<Longrightarrow> - 9223372036854775808 \<le> i \<and> i \<le> 9223372036854775807"
  by (auto simp: ParseInt_def split: option.splits if_splits prod.splits)

lemma ParseInt_FormatInt:
  assumes "- 9223372036854775808 \<le> i" and "i \<le> 9223372036854775807"
  shows "ParseInt (FormatInt i) = Some i"
proof (cases "i < 0")
  case True
  then show ?thesis using assms by (simp add: FormatInt_def ParseInt_def)
next
  case False
  obtain c cs where "nat_digits (nat i) = c # cs" using nat_digits_value [of "nat i"] by (cases "nat_digits (nat i)") auto
  with False assms nat_digits_hd [OF this] ParseDigits_nat_digits [of "nat i"] show ?thesis
    by (simp add: FormatInt_def ParseInt_def)
qed

lemma FormatInt_no_sep: "c \<in> set (FormatInt i) \<Longrightarrow> c = CHR ''-'' \<or> is_digit c"
  using nat_digits_value [of "nat i"] nat_digits_value [of "nat (- i)"]
  by (auto simp: FormatInt_def list_all_iff split: if_splits)

lemma FormatInt_nonneg_digits: "0 \<le> i \<Longrightarrow> c \<in> set (FormatInt i) \<Longrightarrow> is_digit c"
  using nat_digits_value [of "nat i"] by (auto simp: FormatInt_def list_all_iff)

lemma FormatInt_not_Nil [simp]: "FormatInt i \<noteq> []"
  using nat_digits_value [of "nat i"] by (simp add: FormatInt_def)

end
