(* ===== verification/Server.thy ===== *)
theory Server
  imports Upload_Repo Transfer_Repo Strconv
begin

text \<open>
  What the HTTP handlers share: requests, the state of the running server, and the object
  storage of \<open>internal/adapter/s3/client.go\<close>.

  The S3 service is not code of the repository: it is the parameter \<open>s3api\<close>, one function per
  SDK call over an abstract state \<open>'s\<close>. An error of a call is its API error code, empty when it
  has none. What the server relies on is stated as \<open>s3_keeps_objects\<close>.

  A handler is a function of what it reads from outside: the request, the clock, random bytes,
  the fates of its statements, and what other requests do in between. These come in an \<open>env\<close>,
  indexed by the place in the handler (0, 1, 2 and so on in the order of the code).
\<close>

section \<open>The S3 SDK and its client\<close>

record 's s3api =
  GetObject :: "string \<Rightarrow> string \<Rightarrow> 's \<Rightarrow> (string + bytes) \<times> 's"
  DeleteObject :: "string \<Rightarrow> 's \<Rightarrow> string option \<times> 's"
  CreateMultipart :: "string \<Rightarrow> 's \<Rightarrow> (string + string option) \<times> 's"
  PutPart :: "string \<Rightarrow> string \<Rightarrow> int \<Rightarrow> bytes \<Rightarrow> 's \<Rightarrow> (string + string option) \<times> 's"
  CompleteMultipart :: "string \<Rightarrow> string \<Rightarrow> CompletedPart list \<Rightarrow> 's \<Rightarrow> string option \<times> 's"
  AbortMultipart :: "string \<Rightarrow> string \<Rightarrow> 's \<Rightarrow> string option \<times> 's"

definition s3_GetRange :: "'s s3api \<Rightarrow> string \<Rightarrow> int \<Rightarrow> int \<Rightarrow> 's \<Rightarrow> (err + bytes) \<times> 's" where
  "s3_GetRange s3 key start stop st =
     (if start < 0 \<or> stop < start
      then (Inl (PlainErr (''invalid object range '' @ FormatInt start @ ''-'' @ FormatInt stop)), st)
      else (case GetObject s3 key (''bytes='' @ FormatInt start @ ''-'' @ FormatInt stop) st of
              (Inl code, st') \<Rightarrow> (Inl StorageErr, st')
            | (Inr obj, st') \<Rightarrow> (Inr obj, st')))"

definition s3_Delete :: "'s s3api \<Rightarrow> string \<Rightarrow> 's \<Rightarrow> err option \<times> 's" where
  "s3_Delete s3 key st =
     (case DeleteObject s3 key st of
        (Some code, st') \<Rightarrow> (Some StorageErr, st')
      | (None, st') \<Rightarrow> (None, st'))"

definition s3_CreateMultipartUpload :: "'s s3api \<Rightarrow> string \<Rightarrow> 's \<Rightarrow> (err + string) \<times> 's" where
  "s3_CreateMultipartUpload s3 key st =
     (case CreateMultipart s3 key st of
        (Inl code, st') \<Rightarrow> (Inl StorageErr, st')
      | (Inr None, st') \<Rightarrow> (Inl (PlainErr ''missing upload id''), st')
      | (Inr (Some uploadID), st') \<Rightarrow>
          (if uploadID = [] then (Inl (PlainErr ''missing upload id''), st') else (Inr uploadID, st')))"

definition s3_UploadPart ::
    "'s s3api \<Rightarrow> string \<Rightarrow> string \<Rightarrow> int \<Rightarrow> bytes \<Rightarrow> 's \<Rightarrow> (err + string) \<times> 's" where
  "s3_UploadPart s3 key uploadID partNumber content st =
     (case PutPart s3 key uploadID (int32 partNumber) content st of
        (Inl code, st') \<Rightarrow> (Inl StorageErr, st')
      | (Inr None, st') \<Rightarrow> (Inl (PlainErr ''missing etag''), st')
      | (Inr (Some etag), st') \<Rightarrow>
          (if etag = [] then (Inl (PlainErr ''missing etag''), st') else (Inr etag, st')))"

definition s3_CompleteMultipartUpload ::
    "'s s3api \<Rightarrow> string \<Rightarrow> string \<Rightarrow> CompletedPart list \<Rightarrow> 's \<Rightarrow> err option \<times> 's" where
  "s3_CompleteMultipartUpload s3 key uploadID parts st =
     (case CompleteMultipart s3 key uploadID
             (map (\<lambda>part. part\<lparr>cp_PartNumber := int32 (cp_PartNumber part)\<rparr>) parts) st of
        (None, st') \<Rightarrow> (None, st')
      | (Some code, st') \<Rightarrow>
          (if code = ''InvalidPart'' \<or> code = ''InvalidPartOrder'' \<or> code = ''EntityTooSmall''
           then (Some ErrInvalidParts, st')
           else if code = ''NoSuchUpload'' then (Some ErrUploadNotFound, st')
           else (Some StorageErr, st')))"

definition s3_AbortMultipartUpload :: "'s s3api \<Rightarrow> string \<Rightarrow> string \<Rightarrow> 's \<Rightarrow> err option \<times> 's" where
  "s3_AbortMultipartUpload s3 key uploadID st =
     (case AbortMultipart s3 key uploadID st of
        (None, st') \<Rightarrow> (None, st')
      | (Some code, st') \<Rightarrow>
          (if code = ''NoSuchUpload'' then (None, st') else (Some StorageErr, st')))"

text \<open>
  What S3 documents and the server relies on; \<open>has st key\<close> says that an object is stored under
  the key. A completion that succeeds stores the object, a delete touches no other key, and
  nothing else takes an object away. A call that fails may have had its effect.
\<close>

definition s3_keeps_objects :: "'s s3api \<Rightarrow> ('s \<Rightarrow> string \<Rightarrow> bool) \<Rightarrow> bool" where
  "s3_keeps_objects s3 has \<longleftrightarrow>
     (\<forall>key rng st k. has st k \<longrightarrow> has (snd (GetObject s3 key rng st)) k) \<and>
     (\<forall>key st k. k \<noteq> key \<and> has st k \<longrightarrow> has (snd (DeleteObject s3 key st)) k) \<and>
     (\<forall>key st k. has st k \<longrightarrow> has (snd (CreateMultipart s3 key st)) k) \<and>
     (\<forall>key uid n content st k. has st k \<longrightarrow> has (snd (PutPart s3 key uid n content st)) k) \<and>
     (\<forall>key uid parts st k. has st k \<longrightarrow> has (snd (CompleteMultipart s3 key uid parts st)) k) \<and>
     (\<forall>key uid parts st. fst (CompleteMultipart s3 key uid parts st) = None \<longrightarrow>
        has (snd (CompleteMultipart s3 key uid parts st)) key) \<and>
     (\<forall>key uid st k. has st k \<longrightarrow> has (snd (AbortMultipart s3 key uid st)) k)"

lemma s3_client_state:
  "snd (s3_GetRange s3 key start stop st) =
     (if start < 0 \<or> stop < start then st
      else snd (GetObject s3 key (''bytes='' @ FormatInt start @ ''-'' @ FormatInt stop) st))"
  "snd (s3_Delete s3 key st) = snd (DeleteObject s3 key st)"
  "snd (s3_CreateMultipartUpload s3 key st) = snd (CreateMultipart s3 key st)"
  "snd (s3_UploadPart s3 key uid n content st) = snd (PutPart s3 key uid (int32 n) content st)"
  "snd (s3_CompleteMultipartUpload s3 key uid parts st) =
     snd (CompleteMultipart s3 key uid (map (\<lambda>part. part\<lparr>cp_PartNumber := int32 (cp_PartNumber part)\<rparr>) parts) st)"
  "snd (s3_AbortMultipartUpload s3 key uid st) = snd (AbortMultipart s3 key uid st)"
  by (simp_all add: s3_GetRange_def s3_Delete_def s3_CreateMultipartUpload_def s3_UploadPart_def
      s3_CompleteMultipartUpload_def s3_AbortMultipartUpload_def split: prod.split sum.split option.split)

lemma s3_client_keeps:
  assumes "s3_keeps_objects s3 has" and "has st k"
  shows "has (snd (s3_GetRange s3 key start stop st)) k"
    "k \<noteq> key \<Longrightarrow> has (snd (s3_Delete s3 key st)) k"
    "has (snd (s3_CreateMultipartUpload s3 key st)) k"
    "has (snd (s3_UploadPart s3 key uid n content st)) k"
    "has (snd (s3_CompleteMultipartUpload s3 key uid parts st)) k"
    "has (snd (s3_AbortMultipartUpload s3 key uid st)) k"
  using assms by (simp_all add: s3_keeps_objects_def s3_client_state)

lemma s3_complete_stores:
  assumes "s3_keeps_objects s3 has" and "fst (s3_CompleteMultipartUpload s3 key uid parts st) = None"
  shows "has (snd (s3_CompleteMultipartUpload s3 key uid parts st)) key"
proof -
  have "fst (CompleteMultipart s3 key uid (map (\<lambda>part. part\<lparr>cp_PartNumber := int32 (cp_PartNumber part)\<rparr>) parts) st) = None"
    using assms(2) by (auto simp: s3_CompleteMultipartUpload_def split: prod.splits option.splits if_splits)
  then show ?thesis using assms(1) by (simp add: s3_keeps_objects_def s3_client_state)
qed

section \<open>Requests, metrics and the running server\<close>

text \<open>
  \<open>header\<close> is \<open>Header.Get\<close>: empty when the header is missing. \<open>content\<close> is what the body
  yields when it is read, and whether the read ends in an error.
\<close>

record request =
  param :: "string \<Rightarrow> string"
  header :: "string \<Rightarrow> string"
  query :: "string \<Rightarrow> string"
  ContentLength :: int
  content :: bytes
  content_fails :: bool

record metrics =
  SecretsCreated :: nat
  SecretsDeleted_api :: nat
  SecretsDeleted_cleanup :: nat
  CleanupErrors :: nat

record 's world =
  store :: 's
  database :: db
  counters :: metrics

text \<open>
  \<open>rely i\<close> is what other requests do before step \<open>i\<close> of the handler, and \<open>between i\<close> what they commit
  between the two statements of a repository method that holds no lock; \<open>random i\<close> is \<open>None\<close>
  when the system has no randomness to give.
\<close>

record 's env =
  s3 :: "'s s3api"
  flt :: "nat \<Rightarrow> fates"
  clock :: "nat \<Rightarrow> time"
  random :: "nat \<Rightarrow> bytes option"
  rely :: "nat \<Rightarrow> 's world \<Rightarrow> 's world"
  between :: "nat \<Rightarrow> db \<Rightarrow> db"

definition alone :: "'s env \<Rightarrow> bool" where
  "alone ctx \<longleftrightarrow> (\<forall>i. rely ctx i = (\<lambda>w. w)) \<and> (\<forall>i. between ctx i = (\<lambda>db. db))"

lemma aloneD [simp]: "alone ctx \<Longrightarrow> rely ctx i w = w" "alone ctx \<Longrightarrow> between ctx i db = db"
  by (simp_all add: alone_def)

text \<open>Running a repository method or a storage call on the state of the server.\<close>

definition on_db :: "(db \<Rightarrow> 'a \<times> db) \<Rightarrow> 's world \<Rightarrow> 'a \<times> 's world" where
  "on_db f w = (let (x, db') = f (database w) in (x, w\<lparr>database := db'\<rparr>))"

definition on_store :: "('s \<Rightarrow> 'a \<times> 's) \<Rightarrow> 's world \<Rightarrow> 'a \<times> 's world" where
  "on_store f w = (let (x, st') = f (store w) in (x, w\<lparr>store := st'\<rparr>))"

definition on_both :: "('s \<times> db \<Rightarrow> 'a \<times> 's \<times> db) \<Rightarrow> 's world \<Rightarrow> 'a \<times> 's world" where
  "on_both f w =
     (let (x, st', db') = f (store w, database w) in (x, w\<lparr>store := st', database := db'\<rparr>))"

definition count :: "(metrics \<Rightarrow> metrics) \<Rightarrow> 's world \<Rightarrow> 's world" where
  "count f w = w\<lparr>counters := f (counters w)\<rparr>"

lemma on_simps [simp]:
  "fst (on_db f w) = fst (f (database w))"
  "snd (on_db f w) = w\<lparr>database := snd (f (database w))\<rparr>"
  "fst (on_store g w) = fst (g (store w))"
  "snd (on_store g w) = w\<lparr>store := snd (g (store w))\<rparr>"
  "fst (on_both h w) = fst (h (store w, database w))"
  by (simp_all add: on_db_def on_store_def on_both_def split: prod.split)

lemma count_simps [simp]: "database (count f w) = database w" "store (count f w) = store w"
  by (simp_all add: count_def)

text \<open>\<open>newRetrievalSessionToken\<close>: 32 random bytes.\<close>

definition newRetrievalSessionToken :: "'s env \<Rightarrow> nat \<Rightarrow> err + string" where
  "newRetrievalSessionToken ctx i =
     (case random ctx i of
        None \<Rightarrow> Inl (PlainErr ''random'')
      | Some token \<Rightarrow> Inr (EncodeToString (take 32 token)))"

text \<open>\<open>bearerToken\<close>\<close>

definition bearerToken :: "string \<Rightarrow> err + string" where
  "bearerToken hdr =
     (if hdr = [] then Inl (PlainErr ''missing Authorization header'')
      else (let (prefix, token, ok) = strings_Cut hdr (CHR '' '')
            in if \<not> ok \<or> prefix \<noteq> ''Bearer'' \<or> token = [] \<or> CHR '' '' \<in> set token
               then Inl (PlainErr ''malformed Authorization header'')
               else Inr token))"

text \<open>The text of an error made by \<open>errors.New\<close>.\<close>

definition err_text :: "err \<Rightarrow> string" where
  "err_text e = (case e of PlainErr m \<Rightarrow> m | _ \<Rightarrow> [])"

lemma bearerToken_iff:
  "bearerToken hdr = Inr token \<longleftrightarrow>
     hdr = ''Bearer '' @ token \<and> token \<noteq> [] \<and> CHR '' '' \<notin> set token"
proof
  assume "bearerToken hdr = Inr token"
  then have "strings_Cut hdr (CHR '' '') = (''Bearer'', token, True)" "token \<noteq> []" "CHR '' '' \<notin> set token"
    by (auto simp: bearerToken_def split: prod.splits if_splits)
  then show "hdr = ''Bearer '' @ token \<and> token \<noteq> [] \<and> CHR '' '' \<notin> set token"
    by (auto dest: strings_Cut_SomeD)
next
  assume "hdr = ''Bearer '' @ token \<and> token \<noteq> [] \<and> CHR '' '' \<notin> set token"
  then show "bearerToken hdr = Inr token"
    using strings_Cut_append [of "CHR '' ''" "''Bearer''" token] by (simp add: bearerToken_def)
qed

section \<open>An object store in memory\<close>

text \<open>
  A concrete store with the documented behaviour, for the witnesses: objects by key, and the
  parts of the open multipart uploads, whose id is their key.
\<close>

record memory =
  objects :: "(string \<times> bytes) list"
  uploads :: "(string \<times> (int \<times> bytes) list) list"

definition memory_range :: "string \<Rightarrow> bytes \<Rightarrow> bytes" where
  "memory_range rng obj =
     (let (a, b, ok) = strings_Cut (drop 6 rng) (CHR ''-'')
      in (case (ParseInt a, ParseInt b) of
            (Some i, Some j) \<Rightarrow> take (nat (j - i + 1)) (drop (nat i) obj)
          | _ \<Rightarrow> obj))"

definition memory_put :: "string \<Rightarrow> string \<Rightarrow> int \<Rightarrow> bytes \<Rightarrow> memory \<Rightarrow> (string + string option) \<times> memory" where
  "memory_put key uid n bs m =
     (case map_of (uploads m) uid of
        None \<Rightarrow> (Inl ''NoSuchUpload'', m)
      | Some parts \<Rightarrow> (Inr (Some (''etag'' @ FormatInt n)), m\<lparr>uploads := (uid, (n, bs) # parts) # uploads m\<rparr>))"

definition memory_complete :: "string \<Rightarrow> string \<Rightarrow> CompletedPart list \<Rightarrow> memory \<Rightarrow> string option \<times> memory" where
  "memory_complete key uid parts m =
     (case map_of (uploads m) uid of
        None \<Rightarrow> (Some ''NoSuchUpload'', m)
      | Some stored \<Rightarrow>
          (if \<forall>p \<in> set parts. map_of stored (cp_PartNumber p) \<noteq> None
           then (None, \<lparr>objects = (key, concat (map (\<lambda>p. the (map_of stored (cp_PartNumber p))) parts)) # objects m,
                        uploads = filter (\<lambda>(u, _). u \<noteq> uid) (uploads m)\<rparr>)
           else (Some ''InvalidPart'', m)))"

definition memory_s3 :: "memory s3api" where
  "memory_s3 =
     \<lparr>GetObject = (\<lambda>key rng m. (case map_of (objects m) key of
                                 None \<Rightarrow> (Inl ''NoSuchKey'', m)
                               | Some obj \<Rightarrow> (Inr (memory_range rng obj), m))),
      DeleteObject = (\<lambda>key m. (None, m\<lparr>objects := filter (\<lambda>(k, _). k \<noteq> key) (objects m)\<rparr>)),
      CreateMultipart = (\<lambda>key m. (Inr (Some key), m\<lparr>uploads := (key, []) # uploads m\<rparr>)),
      PutPart = memory_put,
      CompleteMultipart = memory_complete,
      AbortMultipart = (\<lambda>key uid m.
        (if map_of (uploads m) uid = None then (Some ''NoSuchUpload'', m)
         else (None, m\<lparr>uploads := filter (\<lambda>(u, _). u \<noteq> uid) (uploads m)\<rparr>)))\<rparr>"

definition memory_has :: "memory \<Rightarrow> string \<Rightarrow> bool" where
  "memory_has m k \<longleftrightarrow> k \<in> fst ` set (objects m)"

lemma memory_keeps_objects: "s3_keeps_objects memory_s3 memory_has"
  unfolding s3_keeps_objects_def memory_s3_def memory_has_def
  by (auto simp: memory_put_def memory_complete_def image_iff split: option.splits if_splits)

definition empty_memory :: memory where
  "empty_memory = \<lparr>objects = [], uploads = []\<rparr>"

definition no_metrics :: metrics where
  "no_metrics = \<lparr>SecretsCreated = 0, SecretsDeleted_api = 0, SecretsDeleted_cleanup = 0, CleanupErrors = 0\<rparr>"

text \<open>The environment of a witness: nothing fails, nobody interferes, the clock stands at \<open>t\<close>.\<close>

definition quiet :: "time \<Rightarrow> memory env" where
  "quiet t = \<lparr>s3 = memory_s3, flt = (\<lambda>_. no_faults), clock = (\<lambda>_. t),
     random = (\<lambda>i. Some (replicate 32 (chr (65 + i)))), rely = (\<lambda>_ w. w), between = (\<lambda>_ db. db)\<rparr>"

lemma quiet_simps [simp]:
  "alone (quiet t)" "s3 (quiet t) = memory_s3" "flt (quiet t) i = no_faults" "clock (quiet t) i = t"
  "random (quiet t) i = Some (replicate 32 (chr (65 + i)))" "rely (quiet t) i w = w"
  "between (quiet t) i db = db"
  by (simp_all add: quiet_def alone_def)

definition a_token :: "char \<Rightarrow> string" where "a_token c = replicate 43 c"
definition an_id :: "char \<Rightarrow> string" where "an_id c = replicate 22 c"

lemma a_token_valid: "b64_val c \<noteq> None \<Longrightarrow> ValidToken (a_token c) \<and> a_token c \<noteq> [] \<and> ValidPublicID (an_id c) \<and> an_id c \<noteq> []"
  by (simp add: a_token_def an_id_def ValidToken_def ValidPublicID_def TokenLength_def PublicIDLength_def
      isUnpaddedBase64URL_iff)

end
