(* ===== verification/Secret_Handler.thy ===== *)
theory Secret_Handler
  imports Server Secret_Runs
begin

text \<open>
  \<open>internal/adapter/httpserver/secret_handler.go\<close>: retrieval sessions, range reads, metadata and
  deletion of an existing secret.
\<close>

section \<open>Constants and small functions\<close>

definition HeaderMetadataToken :: string where "HeaderMetadataToken = ''X-Metadata-Token''"
definition HeaderBlobToken :: string where "HeaderBlobToken = ''X-Blob-Token''"
definition HeaderDeletionToken :: string where "HeaderDeletionToken = ''X-Deletion-Token''"
definition retrievalSessionTTL :: duration where "retrievalSessionTTL = 15 * time_Minute"
definition maxRangeBytes :: int where "maxRangeBytes = 128 * 1024 * 1024"

definition expirationDurations :: "(string \<times> duration) list" where
  "expirationDurations =
     [(''5m'', 5 * time_Minute), (''10m'', 10 * time_Minute), (''15m'', 15 * time_Minute),
      (''1h'', 1 * time_Hour), (''4h'', 4 * time_Hour), (''12h'', 12 * time_Hour),
      (''1d'', 24 * time_Hour), (''3d'', 72 * time_Hour), (''7d'', 168 * time_Hour)]"

definition parseExpiration :: "string \<Rightarrow> err + duration" where
  "parseExpiration s =
     (case map_of expirationDurations s of
        None \<Rightarrow> Inl (PlainErr ''invalid expiration: must be one of 5m, 10m, 15m, 1h, 4h, 12h, 1d, 3d, 7d'')
      | Some d \<Rightarrow> Inr d)"

definition errRangeOutOfBounds :: err where
  "errRangeOutOfBounds = PlainErr ''range out of bounds''"

definition parseBoundedRange :: "string \<Rightarrow> int \<Rightarrow> err + (int \<times> int)" where
  "parseBoundedRange hdr blobSize =
     (if hdr = [] then Inl (PlainErr ''missing Range header'')
      else
        (let (unit, span, ok) = strings_Cut hdr (CHR ''='')
         in if \<not> ok \<or> unit \<noteq> ''bytes'' \<or> CHR '','' \<in> set span
            then Inl (PlainErr ''malformed Range header'')
            else
              (let (startText, endText, ok) = strings_Cut span (CHR ''-'')
               in if \<not> ok \<or> startText = [] \<or> endText = [] then Inl (PlainErr ''malformed Range header'')
                  else
                    (case ParseInt startText of
                       None \<Rightarrow> Inl (PlainErr ''malformed Range header'')
                     | Some start \<Rightarrow>
                         (if start < 0 then Inl (PlainErr ''malformed Range header'')
                          else
                            (case ParseInt endText of
                               None \<Rightarrow> Inl (PlainErr ''malformed Range header'')
                             | Some stop \<Rightarrow>
                                 (if stop < start then Inl (PlainErr ''malformed Range header'')
                                  else if blobSize \<le> 0 \<or> start \<ge> blobSize \<or> stop \<ge> blobSize
                                  then Inl errRangeOutOfBounds
                                  else if int64 (stop - start + 1) > maxRangeBytes
                                  then Inl errRangeOutOfBounds
                                  else Inr (start, stop))))))))"

definition tombstoneDetails :: "SecretTombstone \<Rightarrow> (string \<times> json) list" where
  "tombstoneDetails tomb =
     [(''outcome'', JStr (outcome_string (tb_Outcome tomb))),
      (''burn_after_read'', JBool (tb_BurnAfterRead tomb)),
      (''ended_at'', JTime (tb_EndedAt tomb)),
      (''opened_by_owner'', JBool (tb_OpenedByOwner tomb))] @
     (case tb_FirstOpenedAt tomb of
        Some t \<Rightarrow> [(''first_opened_at'', JTime t)]
      | None \<Rightarrow> [])"

text \<open>\<open>SecretMetadataResponse\<close>; \<open>opened_at\<close> is left out when it is nil.\<close>

definition SecretMetadataResponse :: "Secret \<Rightarrow> json" where
  "SecretMetadataResponse secret =
     JObj ([(''encrypted_meta'', JStr (s_EncryptedMeta secret)),
            (''blob_size'', JInt (s_BlobSize secret)),
            (''burn_after_read'', JBool (s_BurnAfterRead secret)),
            (''expires_at'', JTime (s_ExpiresAt secret)),
            (''created_at'', JTime (s_CreatedAt secret))] @
           (case s_RetrievedAt secret of Some t \<Rightarrow> [(''opened_at'', JTime t)] | None \<Rightarrow> []))"

section \<open>Handlers\<close>

definition handle_StartRetrievalSession :: "'s env \<Rightarrow> request \<Rightarrow> 's world \<Rightarrow> answer \<times> 's world" where
  "handle_StartRetrievalSession ctx req w =
     (let publicID = param req ''publicID''; token = header req HeaderBlobToken;
          deletionToken = header req HeaderDeletionToken
      in if publicID = [] then (Inl (BadRequestError ''missing public_id''), w)
         else if \<not> ValidPublicID publicID then (Inl (BadRequestError ''malformed public_id''), w)
         else if token = [] then (Inl (BadRequestError (''missing '' @ HeaderBlobToken @ '' header'')), w)
         else if \<not> ValidToken token then (Inl (BadRequestError (''malformed '' @ HeaderBlobToken @ '' header'')), w)
         else if deletionToken \<noteq> [] \<and> \<not> ValidToken deletionToken
         then (Inl (BadRequestError (''malformed '' @ HeaderDeletionToken @ '' header'')), w)
         else
           (let deletionTokenHash = (if deletionToken \<noteq> [] then TokenHash deletionToken else [])
            in (case newRetrievalSessionToken ctx 0 of
                  Inl e \<Rightarrow> (Inl (InternalError ''failed to create retrieval session'' e), w)
                | Inr sessionToken \<Rightarrow>
                    (let now = clock ctx 0; sessionExpiresAt = now + retrievalSessionTTL;
                         (r, w1) = on_db (repo_StartRetrievalSession (flt ctx 0) publicID (TokenHash token)
                                     deletionTokenHash (TokenHash sessionToken) sessionExpiresAt now)
                                     (rely ctx 0 w)
                     in (case r of
                           Inl e \<Rightarrow>
                             (if errors_Is e ErrNotFound then (Inl (NotFoundError ''secret not found''), w1)
                              else if errors_Is e ErrForbidden then (Inl (ForbiddenError ''invalid blob token''), w1)
                              else (Inl (InternalError ''failed to start retrieval session'' e), w1))
                         | Inr secret \<Rightarrow>
                             (Inr (JSON 201 (JObj
                                [(''session_token'', JStr sessionToken),
                                 (''blob_size'', JInt (s_BlobSize secret)),
                                 (''expires_at'', JTime sessionExpiresAt),
                                 (''burn_after_read'', JBool (s_BurnAfterRead secret))])), w1))))))"

definition handle_RetrieveSecretRange :: "'s env \<Rightarrow> request \<Rightarrow> 's world \<Rightarrow> answer \<times> 's world" where
  "handle_RetrieveSecretRange ctx req w =
     (let publicID = param req ''publicID''
      in if publicID = [] then (Inl (BadRequestError ''missing public_id''), w)
         else if \<not> ValidPublicID publicID then (Inl (BadRequestError ''malformed public_id''), w)
         else
           (case bearerToken (header req ''Authorization'') of
              Inl e \<Rightarrow> (Inl (BadRequestError (err_text e)), w)
            | Inr sessionToken \<Rightarrow>
                (if \<not> ValidToken sessionToken
                 then (Inl (BadRequestError ''malformed Authorization header''), w)
                 else
                   (let w0 = rely ctx 0 w
                    in (case repo_GetByRetrievalSession (flt ctx 0) publicID (TokenHash sessionToken)
                               (clock ctx 0) (database w0) of
                          Inl e \<Rightarrow>
                            (if errors_Is e ErrForbidden then (Inl (ForbiddenError ''invalid retrieval session''), w0)
                             else (Inl (InternalError ''failed to validate retrieval session'' e), w0))
                        | Inr secret \<Rightarrow>
                            (case parseBoundedRange (header req ''Range'') (s_BlobSize secret) of
                               Inl e \<Rightarrow>
                                 (if e = errRangeOutOfBounds
                                  then (Inr ((NoContent 416)\<lparr>headers :=
                                          [(''Content-Range'', ''bytes */'' @ FormatInt (s_BlobSize secret))]\<rparr>), w0)
                                  else (Inl (BadRequestError (err_text e)), w0))
                             | Inr (start, stop) \<Rightarrow>
                                 (let (obj, w1) = on_store (s3_GetRange (s3 ctx) (s_StorageKey secret) start stop)
                                                    (rely ctx 1 w0)
                                  in (case obj of
                                        Inl e \<Rightarrow> (Inl (InternalError ''failed to get blob range from S3'' e), w1)
                                      | Inr bs \<Rightarrow>
                                          (Inr \<lparr>status = 206,
                                             headers =
                                               [(''Accept-Ranges'', ''bytes''),
                                                (''Content-Type'', ''application/octet-stream''),
                                                (''Content-Length'', FormatInt (int64 (stop - start + 1))),
                                                (''Content-Range'', ''bytes '' @ FormatInt start @ ''-'' @
                                                   FormatInt stop @ ''/'' @ FormatInt (s_BlobSize secret))],
                                             body = None, blob = bs\<rparr>, w1)))))))))"

text \<open>\<open>secretGone\<close> reads at the time \<open>now\<close> of the caller; \<open>i\<close> is its place in the handler.\<close>

definition secretGone :: "'s env \<Rightarrow> nat \<Rightarrow> string \<Rightarrow> string \<Rightarrow> time \<Rightarrow> db \<Rightarrow> err" where
  "secretGone ctx i publicID metadataTokenHash now db =
     (case repo_GetTombstone (flt ctx i) publicID now db of
        Inl e \<Rightarrow>
          (if errors_Is e ErrNotFound then NotFoundError ''secret not found''
           else InternalError ''failed to look up secret'' e)
      | Inr tomb \<Rightarrow>
          (if \<not> TokensEqual metadataTokenHash (tb_MetadataTokenHash tomb)
           then NotFoundError ''secret not found''
           else GoneError ''secret is gone'' (tombstoneDetails tomb)))"

definition authenticateMetadata :: "'s env \<Rightarrow> request \<Rightarrow> 's world \<Rightarrow> (err + Secret) \<times> 's world" where
  "authenticateMetadata ctx req w =
     (let publicID = param req ''publicID''; token = header req HeaderMetadataToken
      in if publicID = [] then (Inl (BadRequestError ''missing public_id''), w)
         else if \<not> ValidPublicID publicID then (Inl (BadRequestError ''malformed public_id''), w)
         else if token = [] then (Inl (BadRequestError (''missing '' @ HeaderMetadataToken @ '' header'')), w)
         else if \<not> ValidToken token
         then (Inl (BadRequestError (''malformed '' @ HeaderMetadataToken @ '' header'')), w)
         else
           (let tokenHash = TokenHash token; now = clock ctx 0; w0 = rely ctx 0 w; w1 = rely ctx 1 w0
            in (case repo_GetByPublicID (flt ctx 0) publicID now (database w0) of
                  Inl e \<Rightarrow>
                    (if errors_Is e ErrNotFound
                     then (Inl (secretGone ctx 1 publicID tokenHash now (database w1)), w1)
                     else (Inl (InternalError ''failed to get secret'' e), w0))
                | Inr secret \<Rightarrow>
                    (if \<not> TokensEqual tokenHash (s_MetadataTokenHash secret)
                     then (Inl (ForbiddenError ''invalid token''), w0)
                     else if s_BurnAfterRead secret \<and> s_RetrievedAt secret \<noteq> None
                     then (Inl (secretGone ctx 1 publicID tokenHash now (database w1)), w1)
                     else (Inr secret, w0)))))"

definition handle_SecretMetadata :: "'s env \<Rightarrow> request \<Rightarrow> 's world \<Rightarrow> answer \<times> 's world" where
  "handle_SecretMetadata ctx req w =
     (case authenticateMetadata ctx req w of
        (Inl e, w1) \<Rightarrow> (Inl e, w1)
      | (Inr secret, w1) \<Rightarrow> (Inr (JSON 200 (SecretMetadataResponse secret)), w1))"

definition handle_DeleteSecret :: "'s env \<Rightarrow> request \<Rightarrow> 's world \<Rightarrow> answer \<times> 's world" where
  "handle_DeleteSecret ctx req w =
     (case authenticateMetadata ctx req w of
        (Inl e, w1) \<Rightarrow> (Inl e, w1)
      | (Inr secret, w1) \<Rightarrow>
          (let deletionToken = header req HeaderDeletionToken
           in if deletionToken = []
              then (Inl (BadRequestError (''missing '' @ HeaderDeletionToken @ '' header'')), w1)
              else if \<not> ValidToken deletionToken
              then (Inl (BadRequestError (''malformed '' @ HeaderDeletionToken @ '' header'')), w1)
              else if \<not> TokensEqual (TokenHash deletionToken) (s_DeletionTokenHash secret)
              then (Inl (ForbiddenError ''invalid deletion token''), w1)
              else
                (case on_store (s3_Delete (s3 ctx) (s_StorageKey secret)) (rely ctx 2 w1) of
                   (Some e, w2) \<Rightarrow> (Inl (InternalError ''failed to delete blob from S3'' e), w2)
                 | (None, w2) \<Rightarrow>
                     (let (r, w3) = on_db (repo_Delete (flt ctx 2) (s_PublicID secret) (clock ctx 1)) (rely ctx 3 w2);
                          done = (Inr (NoContent 204),
                                  count (\<lambda>m. m\<lparr>SecretsDeleted_api := SecretsDeleted_api m + 1\<rparr>) w3)
                      in (case r of
                            Inl e \<Rightarrow>
                              (if \<not> errors_Is e ErrNotFound
                               then (Inl (InternalError ''failed to delete secret'' e), w3)
                               else done)
                          | Inr _ \<Rightarrow> done)))))"

section \<open>Range headers\<close>

lemma parseBoundedRange_InrD:
  assumes "parseBoundedRange hdr blobSize = Inr (a, b)" and "blobSize \<le> max_int64"
  shows "0 \<le> a \<and> a \<le> b \<and> b < blobSize \<and> b - a + 1 \<le> maxRangeBytes"
proof -
  from assms(1) have r: "0 \<le> a" "a \<le> b" "b < blobSize" "int64 (b - a + 1) \<le> maxRangeBytes"
    by (auto simp: parseBoundedRange_def Let_def split: if_splits prod.splits option.splits)
  then have "int64 (b - a + 1) = b - a + 1" using assms(2) by (intro int64_id) (auto simp: max_int64_def)
  with r show ?thesis by simp
qed

text \<open>
  What \<open>parseBoundedRange\<close> lets through is a range inside the blob, of at most 128
  MiB: the subtraction does not overflow, whatever numbers the header holds.
\<close>

theorem accepted_range_is_bounded:
  assumes "parseBoundedRange hdr blobSize = Inr (a, b)" and "blobSize \<le> max_int64"
  shows "0 \<le> a \<and> a \<le> b \<and> b < blobSize \<and> b - a + 1 \<le> maxRangeBytes"
  using assms by (rule parseBoundedRange_InrD)

lemma not_in_FormatInt:
  "0 \<le> i \<Longrightarrow> CHR ''-'' \<notin> set (FormatInt i)" "CHR '','' \<notin> set (FormatInt i)" "CHR ''='' \<notin> set (FormatInt i)"
  by (auto dest: FormatInt_nonneg_digits FormatInt_no_sep simp: is_digit_def)

lemma parseBoundedRange_format:
  assumes "0 \<le> a" and "a \<le> b" and "b < blobSize" and "blobSize \<le> max_int64" and "b - a + 1 \<le> maxRangeBytes"
  shows "parseBoundedRange (''bytes='' @ FormatInt a @ ''-'' @ FormatInt b) blobSize = Inr (a, b)"
proof -
  have cut: "strings_Cut (''bytes='' @ FormatInt a @ ''-'' @ FormatInt b) (CHR ''='') =
      (''bytes'', FormatInt a @ ''-'' @ FormatInt b, True)"
    using strings_Cut_append [of "CHR ''=''" "''bytes''" "FormatInt a @ ''-'' @ FormatInt b"] by simp
  have cut2: "strings_Cut (FormatInt a @ ''-'' @ FormatInt b) (CHR ''-'') = (FormatInt a, FormatInt b, True)"
    using strings_Cut_append [of "CHR ''-''" "FormatInt a" "FormatInt b"] not_in_FormatInt(1) [OF assms(1)] by simp
  have "ParseInt (FormatInt a) = Some a" "ParseInt (FormatInt b) = Some b" "int64 (b - a + 1) = b - a + 1"
    using assms by (auto intro!: ParseInt_FormatInt int64_id simp: max_int64_def)
  with cut cut2 assms show ?thesis
    by (simp add: parseBoundedRange_def not_in_FormatInt(2))
qed

theorem accepted_range_is_bounded_witness:
  "parseBoundedRange (''bytes='' @ FormatInt 10 @ ''-'' @ FormatInt 99) 100 = Inr (10, 99) \<and> (99 :: int) < 100"
proof -
  have p: "parseBoundedRange (''bytes='' @ FormatInt 10 @ ''-'' @ FormatInt 99) 100 = Inr (10, 99)"
    by (rule parseBoundedRange_format) (simp_all add: max_int64_def maxRangeBytes_def)
  from accepted_range_is_bounded [OF p] p show ?thesis by (simp add: max_int64_def)
qed

section \<open>Who may do what\<close>

lemma authenticateMetadata_alone: "alone ctx \<Longrightarrow> snd (authenticateMetadata ctx req w) = w"
  by (simp add: authenticateMetadata_def Let_def split: sum.split)

lemma authenticateMetadata_InrD:
  assumes "authenticateMetadata ctx req w = (Inr s, w1)"
  shows "w1 = rely ctx 0 w" "ValidPublicID (param req ''publicID'')"
    "TokenHash (header req HeaderMetadataToken) = s_MetadataTokenHash s"
    "s_BurnAfterRead s \<longrightarrow> s_RetrievedAt s = None"
    "q_GetSecretByPublicID (param req ''publicID'') (clock ctx 0) (database w1) = Some s"
  using assms
  by (auto simp: authenticateMetadata_def repo_GetByPublicID_def Let_def split: if_splits sum.splits option.splits)

text \<open>
  Property C13. Nobody deletes a secret without both tokens of the owner link: a request that
  changes anything, in the database or in storage, carries the metadata token and the deletion
  token of a secret that is live, and not used up, under the id of the request.
\<close>

theorem delete_needs_both_tokens:
  assumes "alone ctx" and "secrets_inv (database w)" and "snd (handle_DeleteSecret ctx req w) \<noteq> w"
  shows "\<exists>s. secret_of (database w) (param req ''publicID'') = Some s \<and> clock ctx 0 < s_ExpiresAt s \<and>
     TokenHash (header req HeaderMetadataToken) = s_MetadataTokenHash s \<and>
     TokenHash (header req HeaderDeletionToken) = s_DeletionTokenHash s \<and>
     (s_BurnAfterRead s \<longrightarrow> s_RetrievedAt s = None)"
proof -
  obtain r w1 where auth: "authenticateMetadata ctx req w = (r, w1)" by fastforce
  then have w1: "w1 = w" using authenticateMetadata_alone [OF assms(1), of req w] by simp
  with auth assms(3) obtain s where r: "r = Inr s" by (cases r) (auto simp: handle_DeleteSecret_def)
  with auth assms(3) w1 have "TokenHash (header req HeaderDeletionToken) = s_DeletionTokenHash s"
    by (auto simp: handle_DeleteSecret_def Let_def split: if_splits)
  moreover note authenticateMetadata_InrD [OF auth [unfolded r]]
  ultimately show ?thesis
    using q_GetSecretByPublicID_iff [OF assms(2), of "param req ''publicID''" "clock ctx 0"] w1
    by (auto split: option.splits if_splits)
qed

text \<open>A live reusable secret of ten bytes with the tokens of its owner link.\<close>

definition demo_live :: Secret where
  "demo_live = \<lparr>s_PublicID = an_id (CHR ''p''), s_MetadataTokenHash = TokenHash (a_token (CHR ''m'')),
     s_BlobTokenHash = TokenHash (a_token (CHR ''b'')), s_DeletionTokenHash = TokenHash (a_token (CHR ''d'')),
     s_EncryptedMeta = ''e'', s_BlobSize = 10, s_BurnAfterRead = False, s_ExpiresAt = 10000000000000,
     s_CreatedAt = 0, s_RetrievedAt = None, s_StorageKey = ''blobs/k''\<rparr>"

definition demo_world :: "memory world" where
  "demo_world = \<lparr>store = empty_memory\<lparr>objects := [(''blobs/k'', ''0123456789'')]\<rparr>,
     database = empty_db\<lparr>secrets := [demo_live]\<rparr>, counters = no_metrics\<rparr>"

definition owner_request :: request where
  "owner_request = \<lparr>param = (\<lambda>_. an_id (CHR ''p'')),
     header = (\<lambda>h. if h = HeaderMetadataToken then a_token (CHR ''m'')
                   else if h = HeaderDeletionToken then a_token (CHR ''d'')
                   else if h = HeaderBlobToken then a_token (CHR ''b'') else []),
     query = (\<lambda>_. []), ContentLength = 0, content = [], content_fails = False\<rparr>"

lemma demo_world_simps:
  "secrets_inv (database demo_world)" "secret_of (database demo_world) (an_id (CHR ''p'')) = Some demo_live"
  "secret_tombstones (database demo_world) = []" "retrieval_sessions (database demo_world) = []"
  by (simp_all add: demo_world_def empty_db_def secrets_inv_def id_defs demo_live_def)

lemma demo_tokens:
  "ValidToken (a_token (CHR ''m''))" "ValidToken (a_token (CHR ''d''))" "ValidToken (a_token (CHR ''b''))"
  "ValidPublicID (an_id (CHR ''p''))" "an_id (CHR ''p'') \<noteq> []" "a_token (CHR ''m'') \<noteq> []"
  "a_token (CHR ''d'') \<noteq> []" "a_token (CHR ''b'') \<noteq> []"
  by (simp_all add: a_token_valid b64_val_def)

lemma header_names: "HeaderDeletionToken \<noteq> HeaderMetadataToken" "HeaderBlobToken \<noteq> HeaderMetadataToken"
    "HeaderBlobToken \<noteq> HeaderDeletionToken"
  by (simp_all add: HeaderDeletionToken_def HeaderMetadataToken_def HeaderBlobToken_def)

lemma owner_header [simp]:
  "header owner_request HeaderMetadataToken = a_token (CHR ''m'')"
  "header owner_request HeaderDeletionToken = a_token (CHR ''d'')"
  "header owner_request HeaderBlobToken = a_token (CHR ''b'')"
  "param owner_request x = an_id (CHR ''p'')"
  by (simp_all add: owner_request_def header_names)

lemma demo_live_simps [simp]:
  "s_MetadataTokenHash demo_live = TokenHash (a_token (CHR ''m''))"
  "s_BlobTokenHash demo_live = TokenHash (a_token (CHR ''b''))"
  "s_DeletionTokenHash demo_live = TokenHash (a_token (CHR ''d''))"
  "s_PublicID demo_live = an_id (CHR ''p'')" "s_BurnAfterRead demo_live = False"
  "s_ExpiresAt demo_live = 10000000000000" "s_RetrievedAt demo_live = None"
  "s_StorageKey demo_live = ''blobs/k''" "s_BlobSize demo_live = 10"
  by (simp_all add: demo_live_def)

lemma demo_delete: "fst (handle_DeleteSecret (quiet 5) owner_request demo_world) = Inr (NoContent 204) \<and>
    counters (snd (handle_DeleteSecret (quiet 5) owner_request demo_world)) \<noteq> no_metrics"
proof -
  have auth: "authenticateMetadata (quiet 5) owner_request demo_world = (Inr demo_live, demo_world)"
    using demo_world_simps
    by (simp add: authenticateMetadata_def demo_tokens repo_GetByPublicID_def q_GetSecretByPublicID_iff)
  obtain w2 where del: "on_store (s3_Delete memory_s3 ''blobs/k'') demo_world = (None, w2)"
    and w2: "database w2 = database demo_world" "counters w2 = no_metrics"
    by (simp add: on_store_def s3_Delete_def memory_s3_def demo_world_def)
  obtain w3 where repo: "on_db (repo_Delete no_faults (an_id (CHR ''p'')) 5) w2 = (Inr (), w3)"
    and w3: "counters w3 = no_metrics"
    using w2 by (simp add: on_db_def repo_Delete_def q_DeleteSecret_def demo_world_def empty_db_def)
  show ?thesis
    by (simp add: handle_DeleteSecret_def auth demo_tokens del repo count_def w3) (simp add: no_metrics_def)
qed

theorem delete_needs_both_tokens_witness:
  "\<exists>s. secret_of (database demo_world) (param owner_request ''publicID'') = Some s \<and>
     TokenHash (header owner_request HeaderDeletionToken) = s_DeletionTokenHash s"
proof -
  have "snd (handle_DeleteSecret (quiet 5) owner_request demo_world) \<noteq> demo_world"
    using demo_delete by (auto simp: demo_world_def)
  from delete_needs_both_tokens [OF _ demo_world_simps(1) this] show ?thesis by auto
qed

section \<open>What a link holder is told, and what others are not\<close>

text \<open>A metadata request that passes the format checks.\<close>

definition metadata_request :: "request \<Rightarrow> string \<Rightarrow> string \<Rightarrow> bool" where
  "metadata_request req pid token \<longleftrightarrow>
     param req ''publicID'' = pid \<and> ValidPublicID pid \<and>
     header req HeaderMetadataToken = token \<and> ValidToken token"

lemma Valid_not_Nil: "ValidPublicID pid \<Longrightarrow> pid \<noteq> []" "ValidToken t \<Longrightarrow> t \<noteq> []"
  by (auto simp del: TokensEqual_iff)

text \<open>The first answer of the metadata endpoint, when nothing fails and nobody interferes.\<close>

lemma metadata_told:
  assumes "secrets_inv (database w)" and "alone ctx" "flt ctx = (\<lambda>_. no_faults)"
    and "metadata_request req pid token"
  shows "secret_of (database w) pid = Some s \<Longrightarrow> clock ctx 0 < s_ExpiresAt s \<Longrightarrow>
           TokenHash token = s_MetadataTokenHash s \<Longrightarrow> \<not> (s_BurnAfterRead s \<and> s_RetrievedAt s \<noteq> None) \<Longrightarrow>
           handle_SecretMetadata ctx req w = (Inr (JSON 200 (SecretMetadataResponse s)), w)"
    and "spent (secret_of (database w) pid) \<or> s_ExpiresAt (the (secret_of (database w) pid)) \<le> clock ctx 0 \<Longrightarrow>
           (\<And>s'. secret_of (database w) pid = Some s' \<Longrightarrow> TokenHash token = s_MetadataTokenHash s') \<Longrightarrow>
           repo_GetTombstone no_faults pid (clock ctx 0) (database w) = Inr t \<Longrightarrow>
           TokenHash token = tb_MetadataTokenHash t \<Longrightarrow>
           handle_SecretMetadata ctx req w = (Inl (GoneError ''secret is gone'' (tombstoneDetails t)), w)"
proof -
  have nil: "pid \<noteq> []" "token \<noteq> []" using assms(4) Valid_not_Nil by (auto simp: metadata_request_def)
  note defs = handle_SecretMetadata_def authenticateMetadata_def metadata_request_def repo_GetByPublicID_def
    q_GetSecretByPublicID_iff [OF assms(1)] secretGone_def
  show "secret_of (database w) pid = Some s \<Longrightarrow> clock ctx 0 < s_ExpiresAt s \<Longrightarrow>
      TokenHash token = s_MetadataTokenHash s \<Longrightarrow> \<not> (s_BurnAfterRead s \<and> s_RetrievedAt s \<noteq> None) \<Longrightarrow>
      handle_SecretMetadata ctx req w = (Inr (JSON 200 (SecretMetadataResponse s)), w)"
    using assms nil by (auto simp: defs)
  show "spent (secret_of (database w) pid) \<or> s_ExpiresAt (the (secret_of (database w) pid)) \<le> clock ctx 0 \<Longrightarrow>
      (\<And>s'. secret_of (database w) pid = Some s' \<Longrightarrow> TokenHash token = s_MetadataTokenHash s') \<Longrightarrow>
      repo_GetTombstone no_faults pid (clock ctx 0) (database w) = Inr t \<Longrightarrow>
      TokenHash token = tb_MetadataTokenHash t \<Longrightarrow>
      handle_SecretMetadata ctx req w = (Inl (GoneError ''secret is gone'' (tombstoneDetails t)), w)"
    using assms nil
    by (cases "secret_of (database w) pid"; cases "s_ExpiresAt (the (secret_of (database w) pid)) \<le> clock ctx 0")
       (auto simp: defs spent_def)
qed

text \<open>
  Property C16. For a week after its expiry the links of a secret keep a true answer. Whatever
  the server ran and whatever failed since the secret was stored, unless its id was freed and
  given to another secret: a metadata request with the token of its links gets, while nothing
  ended the secret and it has not expired, 200 and its metadata, with the time it was first
  opened; and otherwise 410 and, in the details, which of opened, deleted and expired came
  first, when, whether the owner opened it, whether it was a one-time secret, and when a
  recipient first opened it. The id had no tombstone before.
\<close>

theorem link_holder_is_told:
  assumes inv: "secrets_inv (snd w)" and s: "secret_of (snd w) pid = Some s"
    and fresh: "tombstone_of (snd w) pid = None" "s_BurnAfterRead s \<longrightarrow> s_RetrievedAt s = None"
    and xs: "\<forall>x \<in> set xs. server_remembers (s_ExpiresAt s + TombstoneRetention) x" "\<not> reused pid xs w"
    and quiet: "alone ctx" "flt ctx = (\<lambda>_. no_faults)" "clock ctx 0 < s_ExpiresAt s + TombstoneRetention"
    and req: "metadata_request req pid token" "TokenHash token = s_MetadataTokenHash s"
    and world: "database world = snd (server_run xs w)"
  shows "case end_of_life pid xs w of
      None \<Rightarrow>
        \<exists>opened. map_option s_RetrievedAt (secret_of (database world) pid) = Some opened \<and>
        (if clock ctx 0 < s_ExpiresAt s
         then handle_SecretMetadata ctx req world =
           (Inr (JSON 200 (JObj ([(''encrypted_meta'', JStr (s_EncryptedMeta s)), (''blob_size'', JInt (s_BlobSize s)),
              (''burn_after_read'', JBool (s_BurnAfterRead s)), (''expires_at'', JTime (s_ExpiresAt s)),
              (''created_at'', JTime (s_CreatedAt s))] @
              (case opened of Some t \<Rightarrow> [(''opened_at'', JTime t)] | None \<Rightarrow> [])))), world)
         else handle_SecretMetadata ctx req world =
           (Inl (GoneError ''secret is gone''
              ([(''outcome'', JStr ''expired''), (''burn_after_read'', JBool (s_BurnAfterRead s)),
                (''ended_at'', JTime (s_ExpiresAt s)), (''opened_by_owner'', JBool False)] @
               (case opened of Some t \<Rightarrow> [(''first_opened_at'', JTime t)] | None \<Rightarrow> []))), world))
    | Some e \<Rightarrow>
        handle_SecretMetadata ctx req world =
          (Inl (GoneError ''secret is gone''
             ([(''outcome'', JStr (case end_Outcome e of TombstoneOpened \<Rightarrow> ''opened''
                                   | TombstoneExpired \<Rightarrow> ''expired'' | TombstoneDeleted \<Rightarrow> ''deleted'')),
               (''burn_after_read'', JBool (s_BurnAfterRead s)), (''ended_at'', JTime (end_At e)),
               (''opened_by_owner'', JBool (end_ByOwner e))] @
              (case end_FirstOpened e of Some t \<Rightarrow> [(''first_opened_at'', JTime t)] | None \<Rightarrow> []))), world)"
proof -
  have inv': "secrets_inv (database world)" unfolding world using inv by (rule server_run_inv)
  have rec: "end_recorded pid s (end_of_life pid xs w) (database world)"
    unfolding world using inv s fresh xs(1) by (intro end_recorded_run end_recorded_start)
  have le: "secret_le (Some s) (secret_of (database world) pid)"
    unfolding world using server_run_le [OF xs(2)] s by simp
  then have hash: "TokenHash token = s_MetadataTokenHash s'" if "secret_of (database world) pid = Some s'" for s'
    using that req(2) by (simp add: secret_le_fields)
  note told = metadata_told [OF inv' quiet(1,2) req(1)]
  show ?thesis
  proof (cases "end_of_life pid xs w")
    case None
    with rec have live: "end_recorded pid s None (database world)" by simp
    then obtain s' where s': "secret_of (database world) pid = Some s'"
      "s_BurnAfterRead s \<longrightarrow> s_RetrievedAt s' = None" by (auto simp: end_recorded_def)
    have same: "s' = s\<lparr>s_RetrievedAt := s_RetrievedAt s'\<rparr>" using le s'(1) by (auto simp: secret_le_def)
    show ?thesis
    proof (cases "clock ctx 0 < s_ExpiresAt s")
      case True
      have "SecretMetadataResponse (s\<lparr>s_RetrievedAt := r\<rparr>) = JObj ([(''encrypted_meta'', JStr (s_EncryptedMeta s)),
          (''blob_size'', JInt (s_BlobSize s)), (''burn_after_read'', JBool (s_BurnAfterRead s)),
          (''expires_at'', JTime (s_ExpiresAt s)), (''created_at'', JTime (s_CreatedAt s))] @
          (case r of Some t \<Rightarrow> [(''opened_at'', JTime t)] | None \<Rightarrow> []))" for r
        by (simp add: SecretMetadataResponse_def)
      from this [of "s_RetrievedAt s'", folded same]
      have "handle_SecretMetadata ctx req world = (Inr (JSON 200 (JObj ([(''encrypted_meta'', JStr (s_EncryptedMeta s)),
          (''blob_size'', JInt (s_BlobSize s)), (''burn_after_read'', JBool (s_BurnAfterRead s)),
          (''expires_at'', JTime (s_ExpiresAt s)), (''created_at'', JTime (s_CreatedAt s))] @
          (case s_RetrievedAt s' of Some t \<Rightarrow> [(''opened_at'', JTime t)] | None \<Rightarrow> [])))), world)"
        using told(1) [OF s'(1) _ hash [OF s'(1)]] True s' le by (simp add: secret_le_fields)
      with None True s'(1) show ?thesis by simp
    next
      case False
      then obtain t where t: "repo_GetTombstone no_faults pid (clock ctx 0) (database world) = Inr t"
        "tells_end s \<lparr>end_Outcome = TombstoneExpired, end_At = s_ExpiresAt s, end_ByOwner = False,
           end_FirstOpened = (if s_BurnAfterRead s then None else s_RetrievedAt s')\<rparr> t"
        using live_answer(3) [OF inv' live, of "clock ctx 0"] s'(1) by auto
      then have "handle_SecretMetadata ctx req world =
          (Inl (GoneError ''secret is gone'' (tombstoneDetails t)), world)"
        using False s'(1) le hash req(2) by (intro told(2)) (auto simp: secret_le_fields tells_end_def)
      moreover have "end_FirstOpened \<lparr>end_Outcome = TombstoneExpired, end_At = s_ExpiresAt s, end_ByOwner = False,
           end_FirstOpened = (if s_BurnAfterRead s then None else s_RetrievedAt s')\<rparr> = s_RetrievedAt s'"
        using s'(2) by simp
      ultimately show ?thesis using None False s'(1) t(2)
        by (simp add: tombstoneDetails_def tells_end_def)
    qed
  next
    case (Some e)
    with rec have ended: "end_recorded pid s (Some e) (database world)" by simp
    from ended_answer [OF inv' ended quiet(3)] obtain t where
      t: "repo_GetTombstone no_faults pid (clock ctx 0) (database world) = Inr t" "tells_end s e t" by blast
    have "spent (secret_of (database world) pid)" unfolding world using Some xs(2) by (rule end_of_life_spent)
    then have "handle_SecretMetadata ctx req world =
        (Inl (GoneError ''secret is gone'' (tombstoneDetails t)), world)"
      using t hash req(2) by (intro told(2)) (auto simp: tells_end_def)
    with Some t(2) show ?thesis
      by (cases "end_Outcome e") (simp_all add: tombstoneDetails_def tells_end_def)
  qed
qed

text \<open>A secret that its owner deletes at 10, asked for long after.\<close>

theorem link_holder_is_told_witness:
  "fst (handle_SecretMetadata (quiet 20000000000000) owner_request (demo_world\<lparr>database := snd (server_run
     [OnSecrets (OpDelete no_faults (an_id (CHR ''p'')) 10)] ((), database demo_world))\<rparr>)) =
   Inl (GoneError ''secret is gone'' [(''outcome'', JStr ''deleted''), (''burn_after_read'', JBool False),
     (''ended_at'', JTime 10), (''opened_by_owner'', JBool False)])"
proof -
  let ?xs = "[OnSecrets (OpDelete no_faults (an_id (CHR ''p'')) 10)]"
  let ?w = "((), database demo_world)"
  let ?world = "demo_world\<lparr>database := snd (server_run ?xs ?w)\<rparr>"
  have del: "secret_of (snd (repo_Delete no_faults (an_id (CHR ''p'')) 10 (database demo_world))) (an_id (CHR ''p'')) = None"
    by (simp add: repo_Delete_def q_DeleteSecret_def demo_world_def empty_db_def table_simps)
  then have e: "end_of_life (an_id (CHR ''p'')) ?xs ?w =
      Some \<lparr>end_Outcome = TombstoneDeleted, end_At = 10, end_ByOwner = False, end_FirstOpened = None\<rparr>"
    by (simp add: ended_def demo_world_simps)
  have "\<not> reused (an_id (CHR ''p'')) ?xs ?w" using del by simp
  with demo_world_simps have "case end_of_life (an_id (CHR ''p'')) ?xs ?w of None \<Rightarrow> True | Some e \<Rightarrow>
        handle_SecretMetadata (quiet 20000000000000) owner_request ?world =
          (Inl (GoneError ''secret is gone''
             ([(''outcome'', JStr (case end_Outcome e of TombstoneOpened \<Rightarrow> ''opened''
                                   | TombstoneExpired \<Rightarrow> ''expired'' | TombstoneDeleted \<Rightarrow> ''deleted'')),
               (''burn_after_read'', JBool (s_BurnAfterRead demo_live)), (''ended_at'', JTime (end_At e)),
               (''opened_by_owner'', JBool (end_ByOwner e))] @
              (case end_FirstOpened e of Some t \<Rightarrow> [(''first_opened_at'', JTime t)] | None \<Rightarrow> []))), ?world)"
    using link_holder_is_told [of ?w "an_id (CHR ''p'')" demo_live ?xs "quiet 20000000000000" owner_request
        "a_token (CHR ''m'')" ?world]
    by (simp add: e metadata_request_def demo_tokens TombstoneRetention_def duration_defs fun_eq_iff
        del: end_of_life.simps server_run.simps)
  then show ?thesis unfolding e by (simp del: server_run.simps)
qed

text \<open>
  Property C14. Without the metadata token of its links, a request learns one bit of a secret:
  whether an unexpired row is on file under the id. If so, it is refused with 403, the same
  whether the secret can still be opened or is a one-time secret that was and stays on file for
  its download. If not, the answer is the plain not found of an id that never existed, whether
  the secret expired, was deleted or was cleaned up, and whatever its tombstone says. Both the
  metadata and the delete endpoint answer so, and nothing changes.
\<close>

theorem wrong_token_learns_nothing:
  assumes inv: "secrets_inv (database w)" and quiet: "alone ctx" "flt ctx = (\<lambda>_. no_faults)"
    and req: "metadata_request req pid token"
    and wrong: "\<forall>s. secret_of (database w) pid = Some s \<longrightarrow> TokenHash token \<noteq> s_MetadataTokenHash s"
      "\<forall>t. tombstone_of (database w) pid = Some t \<longrightarrow> TokenHash token \<noteq> tb_MetadataTokenHash t"
    and told: "told = (if \<exists>s. secret_of (database w) pid = Some s \<and> clock ctx 0 < s_ExpiresAt s
                       then ForbiddenError ''invalid token'' else NotFoundError ''secret not found'')"
  shows "handle_SecretMetadata ctx req w = (Inl told, w) \<and> handle_DeleteSecret ctx req w = (Inl told, w)"
proof -
  have nil: "pid \<noteq> []" "token \<noteq> []" using req Valid_not_Nil by (auto simp: metadata_request_def)
  have "authenticateMetadata ctx req w = (Inl told, w)"
  proof (cases "\<exists>s. secret_of (database w) pid = Some s \<and> clock ctx 0 < s_ExpiresAt s")
    case True
    then show ?thesis using req nil quiet wrong(1) q_GetSecretByPublicID_iff [OF inv, of pid "clock ctx 0"]
      by (auto simp: authenticateMetadata_def metadata_request_def repo_GetByPublicID_def told)
  next
    case False
    then have none: "q_GetSecretByPublicID pid (clock ctx 0) (database w) = None"
      using q_GetSecretByPublicID_iff [OF inv, of pid "clock ctx 0"] by (auto split: option.split)
    have "secretGone ctx 1 pid (TokenHash token) (clock ctx 0) (database w) = NotFoundError ''secret not found''"
      using False wrong quiet
      by (auto simp: secretGone_def repo_GetTombstone_def secret_lookups inv split: option.split)
    then show ?thesis using False req nil quiet none
      by (auto simp: authenticateMetadata_def metadata_request_def repo_GetByPublicID_def told)
  qed
  then show ?thesis by (simp add: handle_SecretMetadata_def handle_DeleteSecret_def)
qed

text \<open>A one-time secret that was opened: with a wrong token, while it is on file and after its expiry.\<close>

theorem wrong_token_learns_nothing_witness:
  "\<exists>w req. (\<exists>s. secret_of (database w) (an_id (CHR ''p'')) = Some s \<and> s_BurnAfterRead s \<and> s_RetrievedAt s \<noteq> None) \<and>
     fst (handle_SecretMetadata (quiet 5) req w) = Inl (ForbiddenError ''invalid token'') \<and>
     fst (handle_SecretMetadata (quiet 10000000000000) req w) = Inl (NotFoundError ''secret not found'')"
proof -
  let ?req = "owner_request\<lparr>header := \<lambda>_. a_token (CHR ''x'')\<rparr>"
  let ?s = "demo_live\<lparr>s_MetadataTokenHash := ''m'', s_BurnAfterRead := True, s_RetrievedAt := Some 3\<rparr>"
  let ?w = "demo_world\<lparr>database := empty_db\<lparr>secrets := [?s]\<rparr>\<rparr>"
  have req: "metadata_request ?req (an_id (CHR ''p'')) (a_token (CHR ''x''))"
    by (simp add: metadata_request_def a_token_valid b64_val_def)
  have db: "secrets_inv (database ?w)" "secret_of (database ?w) (an_id (CHR ''p'')) = Some ?s"
    "tombstone_of (database ?w) k = None" for k
    by (simp_all add: empty_db_def secrets_inv_def id_defs)
  have "TokenHash (a_token (CHR ''x'')) \<noteq> ''m''"
    using length_TokenHash [of "a_token (CHR ''x'')"] by (auto simp del: length_TokenHash)
  then have "\<And>now. fst (handle_SecretMetadata (quiet now) ?req ?w) =
      Inl (if now < 10000000000000 then ForbiddenError ''invalid token'' else NotFoundError ''secret not found'')"
    using wrong_token_learns_nothing [OF db(1) _ _ req _ _ refl] db by (simp add: fun_eq_iff)
  then show ?thesis using db(2) by (intro exI [of _ ?w] exI [of _ ?req]) auto
qed

section \<open>From opening to download\<close>

lemma handle_Start_InrD:
  assumes "alone ctx" and "random ctx 0 = Some bs"
    and "handle_StartRetrievalSession ctx req w = (Inr r, w1)"
  shows "\<exists>dh s. repo_StartRetrievalSession (flt ctx 0) (param req ''publicID'')
      (TokenHash (header req HeaderBlobToken)) dh (TokenHash (EncodeToString (take 32 bs)))
      (clock ctx 0 + retrievalSessionTTL) (clock ctx 0) (database w) = (Inr s, database w1) \<and>
      store w1 = store w \<and> ValidPublicID (param req ''publicID'')"
  using assms
  by (auto simp: handle_StartRetrievalSession_def newRetrievalSessionToken_def on_db_def Let_def
      split: if_splits sum.splits prod.splits) blast+

text \<open>A request for a range with the token of a session that can read its secret.\<close>

lemma session_range_answered:
  assumes inv: "secrets_inv (database w)" and read: "readable r s (database w)"
    and now: "clock ctx 0 < rs_ExpiresAt r" "clock ctx 0 < s_ExpiresAt s"
    and quiet: "alone ctx" "flt ctx = (\<lambda>_. no_faults)"
    and token: "rs_SessionTokenHash r = TokenHash token" "ValidToken token" and pid: "rs_PublicID r = pid" "ValidPublicID pid"
    and req: "param req ''publicID'' = pid" "header req ''Authorization'' = ''Bearer '' @ token"
      "header req ''Range'' = ''bytes='' @ FormatInt a @ ''-'' @ FormatInt b"
    and range: "0 \<le> a" "a \<le> b" "b < s_BlobSize s" "s_BlobSize s \<le> max_int64" "b - a + 1 \<le> maxRangeBytes"
    and obj: "s3_GetRange (s3 ctx) (s_StorageKey s) a b (store w) = (Inr object, st')"
  shows "\<exists>resp. handle_RetrieveSecretRange ctx req w = (Inr resp, w\<lparr>store := st'\<rparr>) \<and>
           status resp = 206 \<and> body resp = None \<and> blob resp = object"
proof -
  obtain s' where get: "repo_GetByRetrievalSession no_faults pid (TokenHash token) (clock ctx 0) (database w) = Inr s'"
    and le: "secret_le (Some s) (Some s')"
    using readable_get [OF inv read now] pid(1) token(1) by auto
  have s': "s_BlobSize s' = s_BlobSize s" "s_StorageKey s' = s_StorageKey s"
    using le by (auto simp: secret_le_def dest: arg_cong [where f = s_BlobSize] arg_cong [where f = s_StorageKey])
  have "bearerToken (header req ''Authorization'') = Inr token"
    unfolding req(2) bearerToken_iff using token(2)
    by (auto simp: ValidToken_def isUnpaddedBase64URL_iff b64_val_def)
  moreover have "parseBoundedRange (header req ''Range'') (s_BlobSize s) = Inr (a, b)"
    unfolding req(3) using range by (intro parseBoundedRange_format) auto
  ultimately show ?thesis
    using pid token(2) get s' obj quiet req(1) Valid_not_Nil(1) [OF pid(2)]
    by (simp add: handle_RetrieveSecretRange_def on_store_def Let_def)
qed

text \<open>
  Property C12. Who opened a secret can download it: after a successful StartRetrievalSession, and
  whatever calls and cleanups run in the meantime short of a deletion by the owner, a range
  request with the session token it returned is answered with 206 and the bytes storage holds
  under the secret's own key, until the session's 15 minutes or the secret are over.
\<close>

theorem opened_secret_downloads:
  assumes inv: "secrets_inv (database w)" and s: "secret_of (database w) pid = Some s"
    and size: "s_BlobSize s \<le> max_int64"
    and started: "alone ctx" "random ctx 0 = Some bs" "length bs = 32" "param req ''publicID'' = pid"
      "handle_StartRetrievalSession ctx req w = (Inr r, w1)"
    and run: "\<forall>x \<in> set xs. undisturbed pid (min (clock ctx 0 + retrievalSessionTTL) (s_ExpiresAt s)) x"
      "database w2 = snd (secret_run xs (st, database w1))"
    and later: "alone ctx'" "flt ctx' = (\<lambda>_. no_faults)"
      "clock ctx' 0 < min (clock ctx 0 + retrievalSessionTTL) (s_ExpiresAt s)"
    and req': "param req' ''publicID'' = pid" "header req' ''Authorization'' = ''Bearer '' @ EncodeToString bs"
      "header req' ''Range'' = ''bytes='' @ FormatInt a @ ''-'' @ FormatInt b"
    and range: "0 \<le> a" "a \<le> b" "b < s_BlobSize s" "b - a + 1 \<le> maxRangeBytes"
    and obj: "s3_GetRange (s3 ctx') (s_StorageKey s) a b (store w2) = (Inr object, st')"
  shows "\<exists>resp. handle_RetrieveSecretRange ctx' req' w2 = (Inr resp, w2\<lparr>store := st'\<rparr>) \<and>
           status resp = 206 \<and> blob resp = object"
proof -
  let ?token = "EncodeToString bs"
  obtain dh s0 where start: "repo_StartRetrievalSession (flt ctx 0) pid (TokenHash (header req HeaderBlobToken)) dh
      (TokenHash ?token) (clock ctx 0 + retrievalSessionTTL) (clock ctx 0) (database w) = (Inr s0, database w1)"
    and pid: "ValidPublicID pid"
    using handle_Start_InrD [OF started(1,2,5)] started(3,4) by auto
  let ?r = "\<lparr>rs_PublicID = pid, rs_SessionTokenHash = TokenHash ?token,
      rs_ExpiresAt = clock ctx 0 + retrievalSessionTTL, rs_CreatedAt = clock ctx 0\<rparr>"
  have inv1: "secrets_inv (database w1)"
    using repo_StartRetrievalSession_inv [OF inv] start by (metis snd_conv)
  have "\<exists>s1. secret_of (database w1) pid = Some s1 \<and> secret_le (Some s) (Some s1)"
    using repo_StartRetrievalSession_le [of pid "database w"] repo_StartRetrievalSession_InrD [OF inv start] s start
    by (metis snd_conv)
  then have "readable ?r s (database w1)"
    using repo_StartRetrievalSession_InrD [OF inv start] by (auto simp: readable_def)
  then have "readable ?r s (database w2)"
    using run inv1 secret_run_readable [of "(st, database w1)" ?r s "min (clock ctx 0 + retrievalSessionTTL) (s_ExpiresAt s)" xs]
    by simp
  moreover have "secrets_inv (database w2)" using run(2) inv1 secret_run_inv [of "(st, database w1)"] by simp
  ultimately show ?thesis
    using session_range_answered [of w2 ?r s ctx' ?token pid req' a b object st'] later req' range obj size pid started(3)
    by (auto simp: ValidToken_encode)
qed

lemma memory_range_format:
  assumes "0 \<le> a" and "a \<le> b" and "b \<le> max_int64"
  shows "memory_range (''bytes='' @ FormatInt a @ ''-'' @ FormatInt b) obj = take (nat (b - a + 1)) (drop (nat a) obj)"
proof -
  have "strings_Cut (FormatInt a @ ''-'' @ FormatInt b) (CHR ''-'') = (FormatInt a, FormatInt b, True)"
    using strings_Cut_append [of "CHR ''-''" "FormatInt a" "FormatInt b"] not_in_FormatInt(1) [OF assms(1)] by simp
  moreover have "ParseInt (FormatInt a) = Some a" "ParseInt (FormatInt b) = Some b"
    using assms by (auto intro!: ParseInt_FormatInt simp: max_int64_def)
  ultimately show ?thesis by (simp add: memory_range_def)
qed

definition download_request :: request where
  "download_request = \<lparr>param = (\<lambda>_. an_id (CHR ''p'')),
     header = (\<lambda>h. if h = ''Authorization'' then ''Bearer '' @ EncodeToString (replicate 32 (chr 65))
                   else if h = ''Range'' then ''bytes='' @ FormatInt 2 @ ''-'' @ FormatInt 4 else []),
     query = (\<lambda>_. []), ContentLength = 0, content = [], content_fails = False\<rparr>"

lemma demo_start: "\<exists>r db'. handle_StartRetrievalSession (quiet 5) owner_request demo_world =
    (Inr r, demo_world\<lparr>database := db'\<rparr>)"
  by (simp add: handle_StartRetrievalSession_def newRetrievalSessionToken_def demo_tokens on_db_def
      repo_StartRetrievalSession_def demo_world_def empty_db_def q_GetSecretByPublicIDForUpdate_def
      open_secret_def q_CreateRetrievalSession_def Let_def)

theorem opened_secret_downloads_witness:
  "\<exists>w2 resp. fst (handle_RetrieveSecretRange (quiet 6) download_request w2) = Inr resp \<and>
     store w2 = store demo_world \<and> status resp = 206 \<and> blob resp = ''234''"
proof -
  obtain r db' where start: "handle_StartRetrievalSession (quiet 5) owner_request demo_world =
      (Inr r, demo_world\<lparr>database := db'\<rparr>)" (is "_ = (_, ?w1)") using demo_start by blast
  have "s3_GetRange memory_s3 ''blobs/k'' 2 4 (store demo_world) = (Inr ''234'', store demo_world)"
    by (simp add: s3_GetRange_def memory_s3_def demo_world_def)
       (simp add: memory_range_format [where a = 2 and b = 4, simplified] max_int64_def)
  then have "\<exists>resp. handle_RetrieveSecretRange (quiet 6) download_request ?w1 =
      (Inr resp, ?w1\<lparr>store := store demo_world\<rparr>) \<and> status resp = 206 \<and> blob resp = ''234''"
    by (intro opened_secret_downloads [where w = demo_world and ctx = "quiet 5" and req = owner_request and
          ?w1.0 = ?w1 and s = demo_live and pid = "an_id (CHR ''p'')" and xs = "[]" and st = "()" and
          bs = "replicate 32 (chr 65)" and a = 2 and b = 4, OF _ _ _ _ _ _ _ start])
       (simp_all add: demo_world_simps download_request_def max_int64_def maxRangeBytes_def
         retrievalSessionTTL_def duration_defs fun_eq_iff)
  then show ?thesis by (metis fst_conv world.select_convs(1) world.surjective world.update_convs(2))
qed

end
