(* ===== verification/Upload_Handler.thy ===== *)
theory Upload_Handler
  imports Secret_Handler Upload_Life "HOL-Library.Signed_Division"
begin

text \<open>
  \<open>internal/adapter/httpserver/upload_handler.go\<close> and \<open>validate.go\<close>: the multipart upload that
  creates a secret.

  Three things are parameters: \<open>bind\<close>, what echo's \<open>Bind\<close> makes of the body; \<open>vld\<close>, the field
  errors the validator package reports for the struct tags; \<open>disk\<close>, how the temporary file of a
  part fares. What the code relies on of the validator is \<open>validator_reports\<close>.
\<close>

section \<open>Constants\<close>

definition HeaderPartOffset :: string where "HeaderPartOffset = ''X-Part-Offset''"
definition HeaderPartSize :: string where "HeaderPartSize = ''X-Part-Size''"
definition HeaderPartSHA256 :: string where "HeaderPartSHA256 = ''X-Part-SHA256''"

definition uploadSessionTTL :: duration where "uploadSessionTTL = 24 * time_Hour"
definition multipartUploadPartSize :: int where "multipartUploadPartSize = 32 * 1024 * 1024"
definition maxMultipartUploadPart :: int where "maxMultipartUploadPart = multipartUploadPartSize + 1024 * 1024"
definition s3MinimumPartSize :: int where "s3MinimumPartSize = 5 * 1024 * 1024"
definition maxMultipartPartNumber :: int where "maxMultipartPartNumber = 10000"

lemmas part_sizes =
  multipartUploadPartSize_def maxMultipartUploadPart_def s3MinimumPartSize_def maxMultipartPartNumber_def

section \<open>Validation of the create request\<close>

record createUploadSessionRequest =
  PublicID :: string
  MetadataToken :: string
  BlobToken :: string
  DeletionToken :: string
  EncryptedMeta :: string
  Expiration :: string
  BurnAfterRead :: bool
  BlobSize :: int

text \<open>A field error of the validator: the name of the field, the tag that failed, its parameter.\<close>

record FieldError =
  fe_Field :: string
  fe_Tag :: string
  fe_Param :: string

text \<open>The checks \<open>newValidator\<close> registers, by tag.\<close>

definition newValidator :: "string \<Rightarrow> string \<Rightarrow> bool" where
  "newValidator tag field =
     (if tag = ''expiration'' then map_of expirationDurations field \<noteq> None
      else if tag = ''public_id'' then ValidPublicID field
      else if tag = ''secret_token'' then ValidToken field
      else if tag = ''encrypted_meta'' then ValidEncryptedMeta field
      else False)"

text \<open>The struct tags of the request: each string field with the check behind \<open>required\<close>.\<close>

definition request_tags :: "createUploadSessionRequest \<Rightarrow> (string \<times> string) list" where
  "request_tags req =
     [(PublicID req, ''public_id''), (MetadataToken req, ''secret_token''),
      (BlobToken req, ''secret_token''), (DeletionToken req, ''secret_token''),
      (EncryptedMeta req, ''encrypted_meta''), (Expiration req, ''expiration'')]"

text \<open>The documented behaviour of the validator: no error exactly when every field passes its tags.\<close>

definition validator_reports :: "(createUploadSessionRequest \<Rightarrow> FieldError list) \<Rightarrow> bool" where
  "validator_reports vld \<longleftrightarrow>
     (\<forall>req. vld req = [] \<longleftrightarrow> (\<forall>(field, tag) \<in> set (request_tags req). field \<noteq> [] \<and> newValidator tag field))"

definition fieldErrorMessage :: "FieldError \<Rightarrow> string" where
  "fieldErrorMessage fe =
     (let field = fe_Field fe
      in if fe_Tag fe = ''required'' then field @ '' is required''
         else if fe_Tag fe = ''max'' then field @ '' exceeds maximum length of '' @ fe_Param fe
         else if fe_Tag fe = ''expiration''
         then field @ '' must be a valid duration (5m, 10m, 15m, 1h, 4h, 12h, 1d, 3d, 7d)''
         else if fe_Tag fe = ''public_id''
         then field @ '' must be exactly '' @ FormatInt (int PublicIDLength) @ '' unpadded base64url characters''
         else if fe_Tag fe = ''secret_token''
         then field @ '' must be exactly '' @ FormatInt (int TokenLength) @ '' unpadded base64url characters''
         else if fe_Tag fe = ''encrypted_meta'' then field @ '' must be a valid encrypted metadata envelope''
         else field @ '' is invalid'')"

definition validateRequest ::
    "(createUploadSessionRequest \<Rightarrow> FieldError list) \<Rightarrow> createUploadSessionRequest \<Rightarrow> string list" where
  "validateRequest vld req = map fieldErrorMessage (vld req)"

definition validationError :: "string list \<Rightarrow> err" where
  "validationError details =
     AppError BadRequest ''validation failed'' None [(''details'', JList (map JStr details))]"

section \<open>Parts\<close>

definition isSHA256Hex :: "string \<Rightarrow> bool" where
  "isSHA256Hex value \<longleftrightarrow>
     length value = 64 \<and>
     list_all (\<lambda>r. (48 \<le> ord r \<and> ord r \<le> 57) \<or> (97 \<le> ord r \<and> ord r \<le> 102)) value"

definition parsePartNumber :: "string \<Rightarrow> err + int" where
  "parsePartNumber value =
     (case ParseInt value of
        None \<Rightarrow> Inl (PlainErr ''invalid part number'')
      | Some partNumber \<Rightarrow>
          (if partNumber \<le> 0 \<or> partNumber > maxMultipartPartNumber
           then Inl (PlainErr ''invalid part number'') else Inr partNumber))"

definition parseInt64Header :: "request \<Rightarrow> string \<Rightarrow> err + int" where
  "parseInt64Header r name =
     (let value = header r name
      in if value = [] then Inl (PlainErr (''missing '' @ name @ '' header''))
         else (case ParseInt value of
                 None \<Rightarrow> Inl (PlainErr (''invalid '' @ name @ '' header''))
               | Some parsed \<Rightarrow>
                   (if parsed < 0 then Inl (PlainErr (''invalid '' @ name @ '' header'')) else Inr parsed)))"

text \<open>All arithmetic in \<open>int64\<close>; the division truncates toward zero.\<close>

definition validatePartPlacement :: "int \<Rightarrow> int \<Rightarrow> int \<Rightarrow> int \<Rightarrow> err option" where
  "validatePartPlacement blobSize partNumber offset sz =
     (let q = int64 (blobSize + s3MinimumPartSize - 1) sdiv s3MinimumPartSize;
          maxParts = (if q < 1 then 1 else q)
      in if partNumber > maxParts
         then Some (PlainErr ''part number exceeds the number of parts for the declared blob size'')
         else if offset < int64 ((partNumber - 1) * s3MinimumPartSize)
         then Some (PlainErr (''invalid '' @ HeaderPartOffset @ '' header''))
         else if int64 (offset + sz) > blobSize
         then Some (PlainErr ''part exceeds the declared blob size'')
         else if int64 (offset + sz) < blobSize \<and> sz < s3MinimumPartSize
         then Some (PlainErr ''non-final part is below the minimum part size'')
         else None)"

text \<open>The loop of \<open>validateUploadParts\<close> from index \<open>i\<close> on, over the sorted parts that are left.\<close>

fun check_parts :: "int \<Rightarrow> int \<Rightarrow> int \<Rightarrow> UploadPart list \<Rightarrow> err + (CompletedPart list \<times> int)" where
  "check_parts blobSize i expectedOffset [] = Inr ([], expectedOffset)"
| "check_parts blobSize i expectedOffset (part # parts) =
     (if p_PartNumber part \<noteq> i + 1
      then Inl (PlainErr (''missing upload part '' @ FormatInt (i + 1)))
      else if p_Offset part \<noteq> expectedOffset
      then Inl (PlainErr (''upload part '' @ FormatInt (p_PartNumber part) @ '' has invalid offset''))
      else if parts \<noteq> [] \<and> p_Size part < s3MinimumPartSize
      then Inl (PlainErr (''upload part '' @ FormatInt (p_PartNumber part) @ '' is below minimum size''))
      else if int64 (expectedOffset + p_Size part) > blobSize
      then Inl (PlainErr ''uploaded parts exceed expected size'')
      else (case check_parts blobSize (i + 1) (int64 (expectedOffset + p_Size part)) parts of
              Inl e \<Rightarrow> Inl e
            | Inr (completed, stop) \<Rightarrow>
                Inr (\<lparr>cp_PartNumber = p_PartNumber part, cp_ETag = p_ETag part\<rparr> # completed, stop)))"

definition validateUploadParts :: "UploadSession \<Rightarrow> UploadPart list \<Rightarrow> err + CompletedPart list" where
  "validateUploadParts session parts =
     (if parts = [] then Inl (PlainErr ''upload session has no parts'')
      else (case check_parts (u_BlobSize session) 0 0 (sort_key p_PartNumber parts) of
              Inl e \<Rightarrow> Inl e
            | Inr (completed, expectedOffset) \<Rightarrow>
                (if expectedOffset \<noteq> u_BlobSize session
                 then Inl (PlainErr ''upload is missing parts'') else Inr completed)))"

text \<open>
  \<open>spoolValidatedPart\<close>: the body into a temporary file. \<open>MaxBytesReader\<close> yields at most one byte
  more than expected and then an error of its own.
\<close>

datatype spool_fate = SpoolOk | CreateTempFails | WriteFails | SeekFails

definition spoolValidatedPart :: "spool_fate \<Rightarrow> request \<Rightarrow> int \<Rightarrow> string \<Rightarrow> err + bytes" where
  "spoolValidatedPart disk req expectedSize expectedSHA256 =
     (if disk = CreateTempFails
      then Inl (InternalError ''failed to create temporary upload part'' (PlainErr ''create''))
      else
        (let written = int (length (content req))
         in if disk = WriteFails then Inl (BadRequestError ''failed to read part body'')
            else if written > expectedSize + 1 then Inl (BadRequestError ''part exceeds declared size'')
            else if content_fails req then Inl (BadRequestError ''failed to read part body'')
            else if written > expectedSize then Inl (BadRequestError ''part exceeds declared size'')
            else if written \<noteq> expectedSize
            then Inl (BadRequestError (''request body size does not match '' @ HeaderPartSize))
            else if hex_EncodeToString (Sum256 (content req)) \<noteq> expectedSHA256
            then Inl (BadRequestError ''part SHA-256 mismatch'')
            else if disk = SeekFails
            then Inl (InternalError ''failed to prepare upload part'' (PlainErr ''seek''))
            else Inr (content req)))"

section \<open>Answers\<close>

fun state_string :: "UploadSessionState \<Rightarrow> string" where
  "state_string UploadSessionStatePending = ''pending''"
| "state_string UploadSessionStateCompleted = ''completed''"
| "state_string UploadSessionStateAborted = ''aborted''"

definition uploadSessionResponse :: "UploadSession \<Rightarrow> string \<Rightarrow> json" where
  "uploadSessionResponse session uploadToken =
     JObj [(''session_id'', JStr (u_SessionID session)), (''public_id'', JStr (u_PublicID session)),
           (''part_size'', JInt multipartUploadPartSize), (''blob_size'', JInt (u_BlobSize session)),
           (''expires_at'', JTime (u_SecretExpiresAt session)),
           (''upload_expires_at'', JTime (u_UploadExpiresAt session)),
           (''state'', JStr (state_string (u_State session))), (''upload_token'', JStr uploadToken)]"

definition uploadPartResponse :: "UploadPart \<Rightarrow> json" where
  "uploadPartResponse part =
     JObj [(''part_number'', JInt (p_PartNumber part)), (''offset'', JInt (p_Offset part)),
           (''size'', JInt (p_Size part)), (''sha256'', JStr (p_SHA256 part)), (''etag'', JStr (p_ETag part))]"

section \<open>Handlers\<close>

text \<open>The session a create request asks for.\<close>

definition requestedSession ::
    "createUploadSessionRequest \<Rightarrow> string \<Rightarrow> string \<Rightarrow> string \<Rightarrow> duration \<Rightarrow> time \<Rightarrow> UploadSession" where
  "requestedSession req sessionID uploadToken uploadID dur now =
     \<lparr>u_SessionID = sessionID, u_UploadTokenHash = TokenHash uploadToken, u_PublicID = PublicID req,
      u_StorageKey = UploadStorageKey sessionID, u_S3UploadID = uploadID, u_BlobSize = BlobSize req,
      u_MetadataTokenHash = TokenHash (MetadataToken req), u_BlobTokenHash = TokenHash (BlobToken req),
      u_DeletionTokenHash = TokenHash (DeletionToken req), u_EncryptedMeta = EncryptedMeta req,
      u_BurnAfterRead = BurnAfterRead req, u_SecretExpiresAt = now + dur,
      u_UploadExpiresAt = now + uploadSessionTTL, u_State = UploadSessionStatePending,
      u_CreatedAt = now, u_CompletedAt = None, u_AbortedAt = None\<rparr>"

definition handle_CreateUploadSession ::
    "(request \<Rightarrow> createUploadSessionRequest option) \<Rightarrow> (createUploadSessionRequest \<Rightarrow> FieldError list) \<Rightarrow>
       int \<Rightarrow> 's env \<Rightarrow> request \<Rightarrow> 's world \<Rightarrow> answer \<times> 's world" where
  "handle_CreateUploadSession bind vld maxFileSize ctx r w =
     (case bind r of
        None \<Rightarrow> (Inl (BadRequestError ''invalid request body''), w)
      | Some req \<Rightarrow>
          (if validateRequest vld req \<noteq> [] then (Inl (validationError (validateRequest vld req)), w)
           else if BlobSize req \<le> 0 then (Inl (BadRequestError ''blob_size must be positive''), w)
           else if BlobSize req > maxFileSize
           then (Inl (BadRequestError ''file exceeds maximum size limit''), w)
           else
             (case parseExpiration (Expiration req) of
                Inl e \<Rightarrow> (Inl (BadRequestError (err_text e)), w)
              | Inr dur \<Rightarrow>
                  (case newRetrievalSessionToken ctx 0 of
                     Inl e \<Rightarrow> (Inl (InternalError ''failed to create upload session'' e), w)
                   | Inr sessionID \<Rightarrow>
                       (case newRetrievalSessionToken ctx 1 of
                          Inl e \<Rightarrow> (Inl (InternalError ''failed to create upload session'' e), w)
                        | Inr uploadToken \<Rightarrow>
                            (let storageKey = UploadStorageKey sessionID
                             in (case on_store (s3_CreateMultipartUpload (s3 ctx) storageKey) (rely ctx 0 w) of
                                   (Inl e, w1) \<Rightarrow>
                                     (Inl (InternalError ''failed to create multipart upload'' e), w1)
                                 | (Inr uploadID, w1) \<Rightarrow>
                                     (let session = requestedSession req sessionID uploadToken uploadID dur (clock ctx 0)
                                      in (case on_db (repo_CreateUploadSession (flt ctx 0) (between ctx 0) session)
                                                (rely ctx 1 w1) of
                                            (Inl e, w2) \<Rightarrow>
                                              (let w3 = snd (on_store (s3_AbortMultipartUpload (s3 ctx) storageKey uploadID)
                                                               (rely ctx 2 w2))
                                               in if errors_Is e ErrDuplicate
                                                  then (Inl (ConflictError ''secret with this public_id already exists''), w3)
                                                  else (Inl (InternalError ''failed to create upload session'' e), w3))
                                          | (Inr _, w2) \<Rightarrow>
                                              (Inr (JSON 201 (uploadSessionResponse session uploadToken)), w2))))))))))"

text \<open>Two reads of the database, steps 0 and 1.\<close>

definition authenticateUploadSession ::
    "'s env \<Rightarrow> request \<Rightarrow> 's world \<Rightarrow> (err + (UploadSession \<times> UploadPart list)) \<times> 's world" where
  "authenticateUploadSession ctx req w =
     (let sessionID = param req ''sessionID''
      in if sessionID = [] then (Inl (BadRequestError ''missing session_id''), w)
         else if \<not> ValidToken sessionID then (Inl (BadRequestError ''malformed session_id''), w)
         else
           (case bearerToken (header req ''Authorization'') of
              Inl e \<Rightarrow> (Inl (BadRequestError (err_text e)), w)
            | Inr uploadToken \<Rightarrow>
                (if \<not> ValidToken uploadToken then (Inl (BadRequestError ''malformed Authorization header''), w)
                 else
                   (let w0 = rely ctx 0 w; w1 = rely ctx 1 w0
                    in (case repo_GetUploadSession (flt ctx 0) sessionID (database w0) (database w1) of
                          Inl e \<Rightarrow>
                            (if errors_Is e ErrNotFound
                             then (Inl (NotFoundError ''upload session not found''), w1)
                             else (Inl (InternalError ''failed to get upload session'' e), w1))
                        | Inr (session, parts) \<Rightarrow>
                            (if \<not> TokensEqual (TokenHash uploadToken) (u_UploadTokenHash session)
                             then (Inl (ForbiddenError ''invalid upload token''), w1)
                             else (Inr (session, parts), w1)))))))"

definition validatePendingUploadSession :: "UploadSession \<Rightarrow> time \<Rightarrow> err option" where
  "validatePendingUploadSession session now =
     (if u_State session \<noteq> UploadSessionStatePending
      then Some (ConflictError ''upload session is not pending'')
      else if now > u_UploadExpiresAt session
      then Some (ConflictError ''upload session has expired'')
      else None)"

text \<open>What the headers of a part announce, checked against the session.\<close>

definition announcedPart ::
    "int \<Rightarrow> request \<Rightarrow> UploadSession \<Rightarrow> time \<Rightarrow> err + (int \<times> int \<times> int \<times> string)" where
  "announcedPart maxFileSize req session now =
     (case validatePendingUploadSession session now of
        Some e \<Rightarrow> Inl e
      | None \<Rightarrow>
          (case parsePartNumber (param req ''partNumber'') of
             Inl e \<Rightarrow> Inl (BadRequestError (err_text e))
           | Inr partNumber \<Rightarrow>
               (case parseInt64Header req HeaderPartOffset of
                  Inl e \<Rightarrow> Inl (BadRequestError (err_text e))
                | Inr offset \<Rightarrow>
                    (case parseInt64Header req HeaderPartSize of
                       Inl e \<Rightarrow> Inl (BadRequestError (err_text e))
                     | Inr sz \<Rightarrow>
                         (if sz \<le> 0 \<or> sz > maxMultipartUploadPart \<or> sz > maxFileSize
                          then Inl (BadRequestError (''invalid '' @ HeaderPartSize @ '' header''))
                          else
                            (case validatePartPlacement (u_BlobSize session) partNumber offset sz of
                               Some e \<Rightarrow> Inl (BadRequestError (err_text e))
                             | None \<Rightarrow>
                                 (if ContentLength req \<ge> 0 \<and> ContentLength req \<noteq> sz
                                  then Inl (BadRequestError
                                              (''request body size does not match '' @ HeaderPartSize))
                                  else if \<not> isSHA256Hex (header req HeaderPartSHA256)
                                  then Inl (BadRequestError (''invalid '' @ HeaderPartSHA256 @ '' header''))
                                  else Inr (partNumber, offset, sz, header req HeaderPartSHA256))))))))"

text \<open>
  \<open>disk\<close> is the fate of the temporary file; steps 2 and 3 are the storage call and the record of
  the part. The parts the session already has are those of the read in step 1.
\<close>

definition handle_UploadPart ::
    "int \<Rightarrow> spool_fate \<Rightarrow> 's env \<Rightarrow> request \<Rightarrow> 's world \<Rightarrow> answer \<times> 's world" where
  "handle_UploadPart maxFileSize disk ctx req w =
     (case authenticateUploadSession ctx req w of
        (Inl e, w1) \<Rightarrow> (Inl e, w1)
      | (Inr (session, parts), w1) \<Rightarrow>
          (case announcedPart maxFileSize req session (clock ctx 0) of
             Inl e \<Rightarrow> (Inl e, w1)
           | Inr (partNumber, offset, sz, partSHA256) \<Rightarrow>
               (case find (\<lambda>existing. p_PartNumber existing = partNumber) parts of
                  Some existing \<Rightarrow>
                    (if p_Offset existing = offset \<and> p_Size existing = sz \<and> p_SHA256 existing = partSHA256
                     then (Inr (JSON 200 (uploadPartResponse existing)), w1)
                     else (Inl (ConflictError ''part already uploaded with different content''), w1))
                | None \<Rightarrow>
                    (case spoolValidatedPart disk req sz partSHA256 of
                       Inl e \<Rightarrow> (Inl e, w1)
                     | Inr partFile \<Rightarrow>
                         (case on_store (s3_UploadPart (s3 ctx) (u_StorageKey session) (u_S3UploadID session)
                                  partNumber partFile) (rely ctx 2 w1) of
                            (Inl e, w2) \<Rightarrow> (Inl (InternalError ''failed to upload part to S3'' e), w2)
                          | (Inr etag, w2) \<Rightarrow>
                              (case on_db (repo_RecordUploadPart (flt ctx 1) (between ctx 1)
                                       \<lparr>p_SessionID = u_SessionID session, p_PartNumber = partNumber,
                                        p_Offset = offset, p_Size = sz, p_SHA256 = partSHA256,
                                        p_ETag = etag, p_CreatedAt = clock ctx 1\<rparr>) (rely ctx 3 w2) of
                                 (Inl e, w3) \<Rightarrow>
                                   (if errors_Is e ErrConflict
                                    then (Inl (ConflictError ''part already uploaded with different content''), w3)
                                    else (Inl (InternalError ''failed to record uploaded part'' e), w3))
                               | (Inr recorded, w3) \<Rightarrow> (Inr (JSON 200 (uploadPartResponse recorded)), w3)))))))"

text \<open>
  The callback of \<open>CompleteUploadSession\<close>, on the object store and the flag \<open>stored\<close>; it reads the
  clock on its own.
\<close>

definition finalizeUpload ::
    "'s s3api \<Rightarrow> time \<Rightarrow> UploadSession \<Rightarrow> UploadPart list \<Rightarrow> 's \<times> bool \<Rightarrow> err option \<times> 's \<times> bool" where
  "finalizeUpload api now locked parts st =
     (if now > u_UploadExpiresAt locked then (Some (ConflictError ''upload session has expired''), st)
      else (case validateUploadParts locked parts of
              Inl e \<Rightarrow> (Some (BadRequestError (err_text e)), st)
            | Inr completedParts \<Rightarrow>
                (case s3_CompleteMultipartUpload api (u_StorageKey locked) (u_S3UploadID locked)
                         completedParts (fst st) of
                   (Some e, st') \<Rightarrow> (Some e, st', snd st)
                 | (None, st') \<Rightarrow> (None, st', True))))"

definition discardUpload :: "'s env \<Rightarrow> UploadSession \<Rightarrow> 's world \<Rightarrow> 's world" where
  "discardUpload ctx session w =
     (case on_db (repo_AbortUploadSession (flt ctx 2) (u_SessionID session) (clock ctx 3)) (rely ctx 3 w) of
        (Inl e, w1) \<Rightarrow> w1
      | (Inr _, w1) \<Rightarrow> snd (on_store (s3_Delete (s3 ctx) (u_StorageKey session)) (rely ctx 4 w1)))"

definition completeUploadFailed ::
    "'s env \<Rightarrow> UploadSession \<Rightarrow> bool \<Rightarrow> err \<Rightarrow> 's world \<Rightarrow> answer \<times> 's world" where
  "completeUploadFailed ctx session stored err w =
     (if stored
      then (let w1 = discardUpload ctx session w
            in if errors_Is err ErrDuplicate then (Inl (ConflictError ''upload session cannot be completed''), w1)
               else (Inl (InternalError ''failed to create secret'' err), w1))
      else if errors_Is err ErrNotFound then (Inl (NotFoundError ''upload session not found''), w)
      else if errors_Is err ErrConflict then (Inl (ConflictError ''upload session is not pending''), w)
      else if errors_Is err ErrInvalidParts
      then (case on_db (repo_ClearUploadParts (flt ctx 2) (u_SessionID session)) (rely ctx 3 w) of
              (Inl clearErr, w1) \<Rightarrow> (Inl (InternalError ''failed to reset upload parts'' clearErr), w1)
            | (Inr _, w1) \<Rightarrow>
                (Inl (ConflictError ''uploaded parts were rejected by storage; upload the parts again''), w1))
      else if errors_Is err ErrUploadNotFound
      then (Inl (ConflictError ''upload session is no longer valid; start a new upload''),
            discardUpload ctx session w)
      else if isAppError err then (Inl err, w)
      else (Inl (InternalError ''failed to complete multipart upload'' err), w))"

definition handle_CompleteUploadSession :: "'s env \<Rightarrow> request \<Rightarrow> 's world \<Rightarrow> answer \<times> 's world" where
  "handle_CompleteUploadSession ctx req w =
     (case authenticateUploadSession ctx req w of
        (Inl e, w1) \<Rightarrow> (Inl e, w1)
      | (Inr (session, _), w1) \<Rightarrow>
          (let w2 = rely ctx 2 w1;
               (completed, (st, stored), db) =
                  repo_CompleteUploadSession (flt ctx 1) (u_SessionID session) (clock ctx 1)
                    (finalizeUpload (s3 ctx) (clock ctx 2)) ((store w2, False), database w2);
               w3 = w2\<lparr>store := st, database := db\<rparr>
           in (case completed of
                 Inl e \<Rightarrow> completeUploadFailed ctx session stored e w3
               | Inr c \<Rightarrow>
                   (Inr (JSON 201 (JObj [(''expires_at'', JTime (u_SecretExpiresAt c))])),
                    if stored then count (\<lambda>m. m\<lparr>SecretsCreated := SecretsCreated m + 1\<rparr>) w3 else w3))))"

definition handle_AbortUploadSession :: "'s env \<Rightarrow> request \<Rightarrow> 's world \<Rightarrow> answer \<times> 's world" where
  "handle_AbortUploadSession ctx req w =
     (case authenticateUploadSession ctx req w of
        (Inl e, w1) \<Rightarrow> (Inl e, w1)
      | (Inr (session, _), w1) \<Rightarrow>
          (case u_State session of
             UploadSessionStateCompleted \<Rightarrow> (Inl (ConflictError ''upload session already completed''), w1)
           | UploadSessionStateAborted \<Rightarrow> (Inr (NoContent 204), w1)
           | UploadSessionStatePending \<Rightarrow>
               (case on_store (s3_AbortMultipartUpload (s3 ctx) (u_StorageKey session) (u_S3UploadID session))
                        (rely ctx 2 w1) of
                  (Some e, w2) \<Rightarrow> (Inl (InternalError ''failed to abort multipart upload'' e), w2)
                | (None, w2) \<Rightarrow>
                    (case on_db (repo_AbortUploadSession (flt ctx 1) (u_SessionID session) (clock ctx 0))
                             (rely ctx 3 w2) of
                       (Inl e, w3) \<Rightarrow>
                         (if errors_Is e ErrConflict
                          then (Inl (ConflictError ''upload session is not pending''), w3)
                          else (Inl (InternalError ''failed to abort upload session'' e), w3))
                     | (Inr _, w3) \<Rightarrow> (Inr (NoContent 204), w3)))))"

section \<open>Parts that make a blob\<close>

text \<open>
  What a finished upload must look like, independent of how it is checked: parts numbered from 1,
  each beginning where the one before ends, none but the last below the minimum of S3, and
  together exactly the declared size.
\<close>

definition tiles :: "int \<Rightarrow> UploadPart list \<Rightarrow> bool" where
  "tiles blobSize ps \<longleftrightarrow>
     ps \<noteq> [] \<and>
     (\<forall>i < length ps. p_PartNumber (ps ! i) = int i + 1 \<and>
        p_Offset (ps ! i) = sum_list (map p_Size (take i ps)) \<and>
        (i + 1 < length ps \<longrightarrow> s3MinimumPartSize \<le> p_Size (ps ! i))) \<and>
     sum_list (map p_Size ps) = blobSize"

definition completed_part :: "UploadPart \<Rightarrow> CompletedPart" where
  "completed_part p = \<lparr>cp_PartNumber = p_PartNumber p, cp_ETag = p_ETag p\<rparr>"

text \<open>Sizes as \<open>UploadPart\<close> lets them in.\<close>

definition part_sized :: "UploadPart \<Rightarrow> bool" where
  "part_sized p \<longleftrightarrow> 0 < p_Size p \<and> p_Size p \<le> maxMultipartUploadPart"

lemma sum_sizes_nonneg: "\<forall>p \<in> set ps. part_sized p \<Longrightarrow> 0 \<le> sum_list (map p_Size ps)"
  by (induction ps) (auto simp: part_sized_def)

lemma sum_sizes_ge: "\<forall>p \<in> set ps. m \<le> p_Size p \<Longrightarrow> int (length ps) * m \<le> sum_list (map p_Size ps)"
  by (induction ps) (auto simp: algebra_simps)

lemma check_parts_iff:
  assumes "\<forall>p \<in> set ps. part_sized p" and "0 \<le> off" and "off \<le> blobSize"
    and "blobSize \<le> max_int64 - maxMultipartUploadPart"
  shows "check_parts blobSize i off ps = Inr (c, stop) \<longleftrightarrow>
     (\<forall>j < length ps. p_PartNumber (ps ! j) = i + 1 + int j \<and>
        p_Offset (ps ! j) = off + sum_list (map p_Size (take j ps)) \<and>
        (j + 1 < length ps \<longrightarrow> s3MinimumPartSize \<le> p_Size (ps ! j))) \<and>
     off + sum_list (map p_Size ps) \<le> blobSize \<and> stop = off + sum_list (map p_Size ps) \<and>
     c = map completed_part ps"
  using assms
proof (induction ps arbitrary: i off c)
  case Nil
  then show ?case by auto
next
  case (Cons p ps)
  let ?off = "off + p_Size p"
  have sized: "part_sized p" "\<forall>p \<in> set ps. part_sized p" using Cons.prems by auto
  then have int: "int64 ?off = ?off"
    using Cons.prems by (intro int64_id) (auto simp: part_sized_def max_int64_def)
  have sums: "0 \<le> sum_list (map p_Size ps)" using sized by (simp add: sum_sizes_nonneg)
  show ?case
  proof (cases "?off \<le> blobSize")
    case True
    have IH: "check_parts blobSize (i + 1) ?off ps = Inr (c', stop) \<longleftrightarrow>
        (\<forall>j < length ps. p_PartNumber (ps ! j) = i + 1 + 1 + int j \<and>
           p_Offset (ps ! j) = ?off + sum_list (map p_Size (take j ps)) \<and>
           (j + 1 < length ps \<longrightarrow> s3MinimumPartSize \<le> p_Size (ps ! j))) \<and>
        ?off + sum_list (map p_Size ps) \<le> blobSize \<and> stop = ?off + sum_list (map p_Size ps) \<and>
        c' = map completed_part ps" for c'
      using Cons.IH [OF sized(2), of ?off "i + 1" c'] True Cons.prems sized by (simp add: part_sized_def)
    have "check_parts blobSize i off (p # ps) = Inr (c, stop) \<longleftrightarrow>
        p_PartNumber p = i + 1 \<and> p_Offset p = off \<and> (ps \<noteq> [] \<longrightarrow> s3MinimumPartSize \<le> p_Size p) \<and>
        (\<exists>c'. check_parts blobSize (i + 1) ?off ps = Inr (c', stop) \<and> c = completed_part p # c')"
      using True by (auto simp: int completed_part_def split: sum.split)
    then show ?thesis unfolding IH by (simp add: All_less_Suc2 algebra_simps)
  next
    case False
    then show ?thesis using sums by (auto simp: int)
  qed
qed

lemma validateUploadParts_iff:
  assumes "\<forall>p \<in> set parts. part_sized p" and "0 < u_BlobSize session"
    and "u_BlobSize session \<le> max_int64 - maxMultipartUploadPart"
  shows "validateUploadParts session parts = Inr c \<longleftrightarrow>
     tiles (u_BlobSize session) (sort_key p_PartNumber parts) \<and>
     c = map completed_part (sort_key p_PartNumber parts)"
proof -
  let ?ps = "sort_key p_PartNumber parts"
  have nil: "parts = [] \<longleftrightarrow> ?ps = []" by (metis length_0_conv length_sort)
  have "validateUploadParts session parts = Inr c \<longleftrightarrow>
      parts \<noteq> [] \<and> check_parts (u_BlobSize session) 0 0 ?ps = Inr (c, u_BlobSize session)"
    by (auto simp: validateUploadParts_def split: sum.splits prod.splits)
  also have "\<dots> \<longleftrightarrow> tiles (u_BlobSize session) ?ps \<and> c = map completed_part ?ps"
    using check_parts_iff [of ?ps 0 "u_BlobSize session" 0 c "u_BlobSize session"] assms
    unfolding nil tiles_def by (auto simp: algebra_simps)
  finally show ?thesis .
qed

text \<open>
  Property C18. \<open>validateUploadParts\<close> accepts the recorded parts exactly when, put in the order of
  their numbers, they are a valid layout of the declared blob: no gap, no overlap, no part
  missing at the end and none too many. What it passes to storage is the list of their numbers
  and tags in that order.
\<close>

theorem accepted_parts_tile_the_blob:
  assumes "\<forall>p \<in> set parts. part_sized p" and "0 < u_BlobSize session"
    and "u_BlobSize session \<le> max_int64 - maxMultipartUploadPart"
  shows "validateUploadParts session parts = Inr c \<longleftrightarrow>
     tiles (u_BlobSize session) (sort_key p_PartNumber parts) \<and>
     c = map completed_part (sort_key p_PartNumber parts)"
  using assms by (rule validateUploadParts_iff)

theorem accepted_parts_tile_the_blob_witness:
  "tiles (u_BlobSize demo_session) (sort_key p_PartNumber [demo_part]) \<and>
   validateUploadParts demo_session [demo_part] = Inr [completed_part demo_part]"
proof -
  have t: "tiles (u_BlobSize demo_session) (sort_key p_PartNumber [demo_part])"
    by (simp add: tiles_def demo_session_def demo_part_def)
  have "validateUploadParts demo_session [demo_part] = Inr (map completed_part (sort_key p_PartNumber [demo_part]))"
    by (subst accepted_parts_tile_the_blob)
       (use t in \<open>simp_all add: part_sized_def demo_session_def demo_part_def part_sizes max_int64_def\<close>)
  with t show ?thesis by simp
qed

section \<open>Where a part may lie\<close>

lemma placement_iff:
  assumes "0 < blobSize" and "blobSize \<le> max_int64 - s3MinimumPartSize"
    and "0 < n" and "n \<le> maxMultipartPartNumber"
    and "0 \<le> off" and "0 < sz" and "off + sz \<le> max_int64"
  shows "validatePartPlacement blobSize n off sz = None \<longleftrightarrow>
     (n - 1) * s3MinimumPartSize \<le> off \<and> off + sz \<le> blobSize \<and>
     (off + sz = blobSize \<or> s3MinimumPartSize \<le> sz)"
proof -
  have q: "int64 (blobSize + s3MinimumPartSize - 1) sdiv s3MinimumPartSize =
      (blobSize + s3MinimumPartSize - 1) div s3MinimumPartSize"
  proof -
    have "int64 (blobSize + s3MinimumPartSize - 1) = blobSize + s3MinimumPartSize - 1"
      using assms by (intro int64_id) (auto simp: part_sizes max_int64_def)
    then show ?thesis using assms by (simp add: signed_divide_int_def part_sizes)
  qed
  have i1: "int64 ((n - 1) * s3MinimumPartSize) = (n - 1) * s3MinimumPartSize"
    using assms by (intro int64_id) (auto simp: part_sizes)
  have i2: "int64 (off + sz) = off + sz"
    using assms by (intro int64_id) (auto simp: max_int64_def)
  have pos: "\<not> (blobSize + s3MinimumPartSize - 1) div s3MinimumPartSize < 1"
    using assms by (simp add: part_sizes)
  have ceil: "n \<le> (blobSize + s3MinimumPartSize - 1) div s3MinimumPartSize \<longleftrightarrow> (n - 1) * s3MinimumPartSize < blobSize"
    by (auto simp: part_sizes)
  show ?thesis
    unfolding validatePartPlacement_def q i1 i2 Let_def using pos ceil assms(6) by auto
qed

text \<open>
  As long as offset and size do not overflow together, a part passes
  \<open>validatePartPlacement\<close> exactly when it ends inside the blob, leaves room for the smallest parts
  that may precede it, and is no smaller than S3 allows unless it ends the blob. In particular a
  session never takes more parts than its declared size needs.
\<close>

theorem placement_is_exact:
  assumes "0 < blobSize" and "blobSize \<le> max_int64 - s3MinimumPartSize"
    and "0 < n" and "n \<le> maxMultipartPartNumber"
    and "0 \<le> off" and "0 < sz" and "off + sz \<le> max_int64"
  shows "validatePartPlacement blobSize n off sz = None \<longleftrightarrow>
     (n - 1) * s3MinimumPartSize \<le> off \<and> off + sz \<le> blobSize \<and>
     (off + sz = blobSize \<or> s3MinimumPartSize \<le> sz)"
  using assms by (rule placement_iff)

theorem placement_is_exact_witness:
  "validatePartPlacement 10 1 0 10 = None \<and> validatePartPlacement 10 2 5 5 \<noteq> None"
  using placement_is_exact [of 10 1 0 10] placement_is_exact [of 10 2 5 5]
  by (simp add: part_sizes max_int64_def)

lemma layout_placement:
  assumes "tiles blobSize ps" and "\<forall>p \<in> set ps. part_sized p"
    and "int (length ps) \<le> maxMultipartPartNumber" and "blobSize \<le> max_int64 - s3MinimumPartSize"
    and "p \<in> set ps"
  shows "validatePartPlacement blobSize (p_PartNumber p) (p_Offset p) (p_Size p) = None"
proof -
  from assms(5) obtain i where i: "i < length ps" "p = ps ! i" by (auto simp: in_set_conv_nth)
  have split: "ps = take i ps @ p # drop (Suc i) ps" using i by (simp add: id_take_nth_drop)
  have parts: "\<forall>q \<in> set (take i ps) \<union> set (drop (Suc i) ps). part_sized q"
    using assms(2) by (auto dest: in_set_takeD in_set_dropD)
  have num: "p_PartNumber p = int i + 1" "p_Offset p = sum_list (map p_Size (take i ps))"
    using assms(1) i by (simp_all add: tiles_def)
  have sum: "p_Offset p + p_Size p + sum_list (map p_Size (drop (Suc i) ps)) = blobSize"
    using assms(1) arg_cong [OF split, of "\<lambda>l. sum_list (map p_Size l)"] num by (simp add: tiles_def)
  have low: "int i * s3MinimumPartSize \<le> p_Offset p"
  proof -
    have "\<forall>q \<in> set (take i ps). s3MinimumPartSize \<le> p_Size q"
      using assms(1) i by (auto simp: tiles_def in_set_conv_nth)
    then have "int (length (take i ps)) * s3MinimumPartSize \<le> sum_list (map p_Size (take i ps))"
      by (rule sum_sizes_ge)
    then show ?thesis using num i by simp
  qed
  have rest: "0 \<le> sum_list (map p_Size (drop (Suc i) ps))" and off: "0 \<le> p_Offset p"
    using parts by (auto simp: num sum_sizes_nonneg)
  have last: "p_Offset p + p_Size p = blobSize \<or> s3MinimumPartSize \<le> p_Size p"
    using assms(1) i sum by (cases "i + 1 < length ps") (auto simp: tiles_def)
  have sized: "0 < p_Size p" using assms(2,5) by (simp add: part_sized_def)
  show ?thesis
    using num low rest off last sized sum assms(3,4) i
    by (subst placement_iff) (auto simp: part_sizes max_int64_def)
qed

text \<open>
  No part of a valid layout is turned away: whatever sizes between the minimum of S3
  and the server's maximum a client cuts its blob into, each part passes \<open>validatePartPlacement\<close>.
\<close>

theorem valid_layout_passes_placement:
  assumes "tiles blobSize ps" and "\<forall>p \<in> set ps. part_sized p"
    and "int (length ps) \<le> maxMultipartPartNumber" and "blobSize \<le> max_int64 - s3MinimumPartSize"
    and "p \<in> set ps"
  shows "validatePartPlacement blobSize (p_PartNumber p) (p_Offset p) (p_Size p) = None"
  using assms by (rule layout_placement)

theorem valid_layout_passes_placement_witness:
  "validatePartPlacement (u_BlobSize demo_session) (p_PartNumber demo_part) (p_Offset demo_part)
     (p_Size demo_part) = None"
  by (rule valid_layout_passes_placement [where ps = "[demo_part]"])
     (simp_all add: tiles_def part_sized_def demo_session_def demo_part_def part_sizes max_int64_def)

text \<open>
  The hypothesis on the sum is needed: \<open>offset + size\<close> wraps around. A header that
  announces five MiB at the largest \<open>int64\<close> offset passes \<open>validatePartPlacement\<close> for a blob of one
  byte, although the part begins far behind the end of the blob.
\<close>

theorem placement_overflow_is_accepted:
  "validatePartPlacement 1 1 9223372036854775807 s3MinimumPartSize = None"
  by code_simp

section \<open>What a part upload changes\<close>

lemma authenticateUploadSession_alone: "alone ctx \<Longrightarrow> snd (authenticateUploadSession ctx req w) = w"
  by (simp add: authenticateUploadSession_def Let_def split: sum.split prod.split)

lemma authenticateUploadSession_InrD:
  assumes "authenticateUploadSession ctx req w = (Inr (session, parts), w1)"
  shows "\<exists>row token. session_of (database (rely ctx 0 w)) (param req ''sessionID'') = Some row \<and>
     session = uploadSessionFromRow row \<and>
     parts = q_ListUploadPartsBySession (param req ''sessionID'') (database (rely ctx 1 (rely ctx 0 w))) \<and>
     bearerToken (header req ''Authorization'') = Inr token \<and> TokenHash token = us_UploadTokenHash row \<and>
     w1 = rely ctx 1 (rely ctx 0 w)"
  using assms
  by (auto simp: authenticateUploadSession_def repo_GetUploadSession_def Let_def uploadSessionFromRow_def
      split: if_splits sum.splits option.splits)

lemma announcedPart_InrD:
  assumes "announcedPart maxFileSize req session now = Inr (n, off, sz, sha)"
  shows "u_State session = UploadSessionStatePending" "now \<le> u_UploadExpiresAt session"
    "1 \<le> n" "n \<le> maxMultipartPartNumber" "0 \<le> off" "0 < sz" "sz \<le> maxMultipartUploadPart" "sz \<le> maxFileSize"
    "validatePartPlacement (u_BlobSize session) n off sz = None"
    "sha = header req HeaderPartSHA256" "isSHA256Hex sha"
  using assms
  by (auto simp: announcedPart_def validatePendingUploadSession_def parsePartNumber_def
      parseInt64Header_def Let_def split: option.splits sum.splits if_splits)

lemma spool_InrD:
  assumes "spoolValidatedPart disk req sz sha = Inr bs"
  shows "bs = content req" "int (length (content req)) = sz" "hex_EncodeToString (Sum256 (content req)) = sha"
    "\<not> content_fails req"
  using assms by (auto simp: spoolValidatedPart_def Let_def split: if_splits)

lemma insert_UploadPart_new:
  "p \<in> set (upload_parts (snd (insert_UploadPart fl part db))) \<Longrightarrow> p \<notin> set (upload_parts db) \<Longrightarrow>
     p = part\<lparr>p_PartNumber := int32 (p_PartNumber part)\<rparr>"
  by (auto simp: insert_UploadPart_def q_CreateUploadPart_def commit_def Let_def
      split: sum.splits if_splits fate.splits)

text \<open>
  Property C17. A part the server records is the part it received: whatever fails on the way, a new
  row belongs to the pending, unexpired session whose upload token the request carried, states the
  true length and SHA-256 of the bytes that were read, keeps the limits, and storage was given
  exactly these bytes under the session's own key and part number.
\<close>

theorem recorded_part_is_what_was_sent:
  assumes "alone ctx"
    and new: "p \<in> set (upload_parts (database (snd (handle_UploadPart maxFileSize disk ctx req w))))"
      "p \<notin> set (upload_parts (database w))"
  shows "\<exists>row token. session_of (database w) (param req ''sessionID'') = Some row \<and> is_pending row \<and>
     clock ctx 0 \<le> us_UploadExpiresAt row \<and>
     bearerToken (header req ''Authorization'') = Inr token \<and> TokenHash token = us_UploadTokenHash row \<and>
     p_SessionID p = us_SessionID row \<and> part_sized p \<and>
     p_Size p = int (length (content req)) \<and> p_SHA256 p = hex_EncodeToString (Sum256 (content req)) \<and>
     store (snd (handle_UploadPart maxFileSize disk ctx req w)) =
       snd (PutPart (s3 ctx) (us_StorageKey row) (us_S3UploadID row) (p_PartNumber p) (content req) (store w))"
proof -
  let ?w' = "snd (handle_UploadPart maxFileSize disk ctx req w)"
  obtain a w1 where auth: "authenticateUploadSession ctx req w = (a, w1)" by fastforce
  then have w1: "w1 = w" using authenticateUploadSession_alone [OF assms(1), of req w] by simp
  from new auth w1 obtain session parts where a: "a = Inr (session, parts)"
    by (cases a) (auto simp: handle_UploadPart_def)
  from new auth w1 a obtain n off sz sha where ann: "announcedPart maxFileSize req session (clock ctx 0) = Inr (n, off, sz, sha)"
    by (cases "announcedPart maxFileSize req session (clock ctx 0)") (auto simp: handle_UploadPart_def)
  from new auth w1 a ann obtain bs where fnd: "find (\<lambda>existing. p_PartNumber existing = n) parts = None"
    and sp: "spoolValidatedPart disk req sz sha = Inr bs"
    by (auto simp: handle_UploadPart_def split: option.splits if_splits sum.splits)
  note annD = announcedPart_InrD [OF ann] and spD = spool_InrD [OF sp]
  obtain r st where put: "s3_UploadPart (s3 ctx) (u_StorageKey session) (u_S3UploadID session) n bs (store w) = (r, st)"
    by fastforce
  from new auth w1 a ann fnd sp put assms(1) obtain etag where r: "r = Inr etag"
    by (cases r) (auto simp: handle_UploadPart_def on_store_def)
  let ?part = "\<lparr>p_SessionID = u_SessionID session, p_PartNumber = n, p_Offset = off, p_Size = sz,
      p_SHA256 = sha, p_ETag = etag, p_CreatedAt = clock ctx 1\<rparr>"
  have w': "?w' = w\<lparr>store := st, database := snd (repo_RecordUploadPart (flt ctx 1) (\<lambda>db. db) ?part (database w))\<rparr>"
    using auth w1 a ann fnd sp put r assms(1)
    by (simp add: handle_UploadPart_def on_store_def on_db_def alone_def split: prod.split sum.split)
  then have "p = ?part\<lparr>p_PartNumber := int32 n\<rparr>"
    using new repo_RecordUploadPart_db [of "flt ctx 1" "\<lambda>db. db" ?part "database w"]
      insert_UploadPart_new [of p "flt ctx 1" ?part "database w"] by auto
  moreover have "int32 n = n" using annD(3,4) by (intro int32_id) (auto simp: part_sizes)
  moreover have "st = snd (PutPart (s3 ctx) (u_StorageKey session) (u_S3UploadID session) (int32 n) bs (store w))"
    using put by (metis s3_client_state(4) snd_conv)
  moreover note authenticateUploadSession_InrD [OF auth [unfolded a]]
  ultimately show ?thesis
    using annD spD w' assms(1) by (auto simp: part_sized_def is_pending_def uploadSessionFromRow_def)
qed

lemma isSHA256Hex_hex: "isSHA256Hex (hex_EncodeToString (Sum256 bs))"
  using hex_digits [of _ "Sum256 bs"]
  by (auto simp: isSHA256Hex_def length_hex length_Sum256 list_all_iff is_hex_digit_def)

lemma header_names2:
  "HeaderPartOffset \<noteq> HeaderPartSize" "HeaderPartOffset \<noteq> HeaderPartSHA256" "HeaderPartSize \<noteq> HeaderPartSHA256"
  "HeaderPartOffset \<noteq> ''Authorization''" "HeaderPartSize \<noteq> ''Authorization''" "HeaderPartSHA256 \<noteq> ''Authorization''"
  by (simp_all add: HeaderPartOffset_def HeaderPartSize_def HeaderPartSHA256_def)

text \<open>A pending session of seven bytes and the request that uploads them as its only part.\<close>

definition demo_row :: UploadSessionRow where
  "demo_row = (uploadSessionParams demo_session)\<lparr>us_SessionID := a_token (CHR ''s''),
     us_UploadTokenHash := TokenHash (a_token (CHR ''t''))\<rparr>"

definition upload_world :: "memory world" where
  "upload_world = \<lparr>store = empty_memory\<lparr>uploads := [(''u'', [])]\<rparr>,
     database = empty_db\<lparr>upload_sessions := [demo_row]\<rparr>, counters = no_metrics\<rparr>"

definition part_request :: request where
  "part_request = \<lparr>param = (\<lambda>x. if x = ''sessionID'' then a_token (CHR ''s'') else FormatInt 1),
     header = (\<lambda>h. if h = ''Authorization'' then ''Bearer '' @ a_token (CHR ''t'')
                   else if h = HeaderPartOffset then FormatInt 0
                   else if h = HeaderPartSize then FormatInt 7
                   else if h = HeaderPartSHA256 then hex_EncodeToString (Sum256 ''hello!!'') else []),
     query = (\<lambda>_. []), ContentLength = 7, content = ''hello!!'', content_fails = False\<rparr>"

lemma part_request_simps [simp]:
  "param part_request ''sessionID'' = a_token (CHR ''s'')" "param part_request ''partNumber'' = FormatInt 1"
  "header part_request ''Authorization'' = ''Bearer '' @ a_token (CHR ''t'')"
  "header part_request HeaderPartOffset = FormatInt 0" "header part_request HeaderPartSize = FormatInt 7"
  "header part_request HeaderPartSHA256 = hex_EncodeToString (Sum256 ''hello!!'')"
  "ContentLength part_request = 7" "content part_request = ''hello!!''" "content_fails part_request = False"
  by (simp_all add: part_request_def header_names2 header_names2 [symmetric])

lemma demo_row_simps [simp]:
  "us_SessionID demo_row = a_token (CHR ''s'')" "us_UploadTokenHash demo_row = TokenHash (a_token (CHR ''t''))"
  "us_State demo_row = UploadSessionStatePending" "us_BlobSize demo_row = 7" "us_UploadExpiresAt demo_row = 50"
  "us_StorageKey demo_row = ''blobs/s''" "us_S3UploadID demo_row = ''u''"
  by (simp_all add: demo_row_def uploadSessionParams_def demo_session_def)

lemma bearer_a_token: "b64_val c \<noteq> None \<Longrightarrow> bearerToken (''Bearer '' @ a_token c) = Inr (a_token c)"
  unfolding bearerToken_iff by (auto simp: a_token_def b64_val_def)

lemma quiet_between: "between (quiet t) i = (\<lambda>db. db)"
  by (simp add: fun_eq_iff)

lemma demo_row_session [simp]:
  "u_S3UploadID (uploadSessionFromRow demo_row) = ''u''" "u_BlobSize (uploadSessionFromRow demo_row) = 7"
  "u_UploadTokenHash (uploadSessionFromRow demo_row) = TokenHash (a_token (CHR ''t''))"
  "u_UploadExpiresAt (uploadSessionFromRow demo_row) = 50"
  by (simp_all add: uploadSessionFromRow_def)

lemma upload_auth:
  "authenticateUploadSession (quiet 5) part_request upload_world =
     (Inr (uploadSessionFromRow demo_row, []), upload_world)"
  using a_token_valid [of "CHR ''s''"] a_token_valid [of "CHR ''t''"] bearer_a_token [of "CHR ''t''"]
  by (simp add: authenticateUploadSession_def repo_GetUploadSession_def upload_world_def empty_db_def
      b64_val_def uploadSessionFromRow_def q_ListUploadPartsBySession_def)

lemma upload_announced:
  "announcedPart 1000 part_request (uploadSessionFromRow demo_row) 5 =
     Inr (1, 0, 7, hex_EncodeToString (Sum256 ''hello!!''))"
proof -
  have "validatePartPlacement 7 1 0 7 = None"
    by (subst placement_iff) (simp_all add: part_sizes max_int64_def)
  moreover have "parsePartNumber (FormatInt 1) = Inr 1" "FormatInt 0 \<noteq> []" "FormatInt 7 \<noteq> []"
    "ParseInt (FormatInt 0) = Some 0" "ParseInt (FormatInt 7) = Some 7"
    using FormatInt_not_Nil by (simp_all add: parsePartNumber_def ParseInt_FormatInt part_sizes)
  ultimately show ?thesis
    by (simp add: announcedPart_def validatePendingUploadSession_def parseInt64Header_def isSHA256Hex_hex
        uploadSessionFromRow_def part_sizes)
qed

lemma upload_done:
  "upload_parts (database (snd (handle_UploadPart 1000 SpoolOk (quiet 5) part_request upload_world))) =
     [\<lparr>p_SessionID = a_token (CHR ''s''), p_PartNumber = 1, p_Offset = 0, p_Size = 7,
       p_SHA256 = hex_EncodeToString (Sum256 ''hello!!''), p_ETag = ''etag'' @ FormatInt 1, p_CreatedAt = 5\<rparr>]"
proof -
  have "spoolValidatedPart SpoolOk part_request 7 (hex_EncodeToString (Sum256 ''hello!!'')) = Inr ''hello!!''"
    by (simp add: spoolValidatedPart_def)
  moreover have "s3_UploadPart memory_s3 ''blobs/s'' ''u'' 1 ''hello!!'' (store upload_world) =
      (Inr (''etag'' @ FormatInt 1), empty_memory\<lparr>uploads := [(''u'', [(1, ''hello!!'')]), (''u'', [])]\<rparr>)"
    by (simp add: s3_UploadPart_def memory_s3_def memory_put_def upload_world_def int32_id)
  moreover have "repo_RecordUploadPart no_faults (\<lambda>db. db) part (database upload_world) =
      (Inr part, (database upload_world)\<lparr>upload_parts := [part]\<rparr>)"
    if "p_PartNumber part = 1" "p_SessionID part = a_token (CHR ''s'')" for part
    using that by (cases part)
      (simp add: upload_world_def empty_db_def repo_RecordUploadPart_def insert_UploadPart_def
          q_GetUploadPartForUpdate_def q_CreateUploadPart_def int32_id Let_def)
  ultimately show ?thesis
    using upload_auth upload_announced
    by (simp add: handle_UploadPart_def on_store_def on_db_def quiet_between)
qed

theorem recorded_part_is_what_was_sent_witness:
  "\<exists>p. p \<in> set (upload_parts (database (snd (handle_UploadPart 1000 SpoolOk (quiet 5) part_request upload_world)))) \<and>
     p_Size p = int (length ''hello!!'') \<and> part_sized p"
proof -
  obtain p where p: "p \<in> set (upload_parts (database (snd (handle_UploadPart 1000 SpoolOk (quiet 5) part_request upload_world))))"
    using upload_done by fastforce
  moreover have "p \<notin> set (upload_parts (database upload_world))" by (simp add: upload_world_def empty_db_def)
  ultimately show ?thesis using recorded_part_is_what_was_sent [of "quiet 5" p 1000 SpoolOk part_request upload_world] by auto
qed

section \<open>Completion\<close>

lemma finalizeUpload_NoneD:
  assumes "finalizeUpload api now locked parts st = (None, st')"
  shows "now \<le> u_UploadExpiresAt locked" "snd st'"
    "\<exists>c. validateUploadParts locked parts = Inr c \<and>
       s3_CompleteMultipartUpload api (u_StorageKey locked) (u_S3UploadID locked) c (fst st) = (None, fst st')"
  using assms by (auto simp: finalizeUpload_def split: if_splits sum.splits prod.splits option.splits)

lemma completeUploadFailed_Inl: "\<exists>e. fst (completeUploadFailed ctx session stored err w) = Inl e"
  by (auto simp: completeUploadFailed_def Let_def split: sum.split prod.split)

lemma sorted_parts: "sort_key p_PartNumber (q_ListUploadPartsBySession sid db) = q_ListUploadPartsBySession sid db"
  by (simp add: q_ListUploadPartsBySession_def sort_key_id_if_sorted)

text \<open>What was checked and assembled when the storage part of a completion went well.\<close>

lemma finalized_layout:
  assumes fin: "finalizeUpload api t (uploadSessionFromRow row) (q_ListUploadPartsBySession sid db) (s0, False) = (None, st, stored)"
    and row: "row \<in> set (upload_sessions db)" and parts: "\<forall>p \<in> set (upload_parts db). part_sized p"
    and blobs: "\<forall>u \<in> set (upload_sessions db). 0 < us_BlobSize u \<and> us_BlobSize u \<le> max_int64 - maxMultipartUploadPart"
  shows "t \<le> us_UploadExpiresAt row" "stored" "tiles (us_BlobSize row) (q_ListUploadPartsBySession sid db)"
    "s3_CompleteMultipartUpload api (us_StorageKey row) (us_S3UploadID row) (map completed_part (q_ListUploadPartsBySession sid db)) s0 =
       (None, st)"
proof -
  let ?ps = "q_ListUploadPartsBySession sid db"
  note d = finalizeUpload_NoneD [OF fin]
  then obtain cs where v: "validateUploadParts (uploadSessionFromRow row) ?ps = Inr cs"
    and s3: "s3_CompleteMultipartUpload api (us_StorageKey row) (us_S3UploadID row) cs s0 = (None, st)"
    by (auto simp: uploadSessionFromRow_def)
  have "\<forall>p \<in> set ?ps. part_sized p" using parts by (simp add: q_ListUploadPartsBySession_def)
  with v blobs row have "tiles (us_BlobSize row) ?ps \<and> cs = map completed_part ?ps"
    by (subst (asm) validateUploadParts_iff) (auto simp: sorted_parts uploadSessionFromRow_def)
  then show "t \<le> us_UploadExpiresAt row" "stored" "tiles (us_BlobSize row) ?ps"
    "s3_CompleteMultipartUpload api (us_StorageKey row) (us_S3UploadID row) (map completed_part ?ps) s0 = (None, st)"
    using d(1,2) s3 by (auto simp: uploadSessionFromRow_def)
qed

text \<open>
  Property C11. From the upload to the secret: when \<open>CompleteUploadSession\<close> answers 201 to a client
  that showed the upload token, either the upload had been completed before and nothing
  changes, or the session was pending and unexpired, its parts tile the declared blob, storage
  assembled exactly these parts under the session's key, and the id was free. It now carries the
  secret that was announced: the session's three token hashes, encrypted metadata, size, one-time
  flag, expiry and storage key, created now and unopened; and one more created secret is
  counted. The answer gives the expiry that was announced.
\<close>

theorem completed_upload_is_a_secret:
  assumes "alone ctx" and inv: "uploads_inv (database w)"
    and sizes: "\<forall>p \<in> set (upload_parts (database w)). part_sized p"
      "\<forall>u \<in> set (upload_sessions (database w)). 0 < us_BlobSize u \<and> us_BlobSize u \<le> max_int64 - maxMultipartUploadPart"
    and ok: "handle_CompleteUploadSession ctx req w = (Inr resp, w')"
  shows "\<exists>row token. session_of (database w) (param req ''sessionID'') = Some row \<and>
     bearerToken (header req ''Authorization'') = Inr token \<and> TokenHash token = us_UploadTokenHash row \<and>
     resp = JSON 201 (JObj [(''expires_at'', JTime (us_SecretExpiresAt row))]) \<and>
     (us_State row = UploadSessionStateCompleted \<and> w' = w \<or>
      is_pending row \<and> clock ctx 2 \<le> us_UploadExpiresAt row \<and>
      tiles (us_BlobSize row) (q_ListUploadPartsBySession (us_SessionID row) (database w)) \<and>
      s3_CompleteMultipartUpload (s3 ctx) (us_StorageKey row) (us_S3UploadID row)
        (map completed_part (q_ListUploadPartsBySession (us_SessionID row) (database w))) (store w) = (None, store w') \<and>
      secret_of (database w) (us_PublicID row) = None \<and>
      (\<exists>s. secret_of (database w') (us_PublicID row) = Some s \<and> s_PublicID s = us_PublicID row \<and>
         us_MetadataTokenHash row = Some (s_MetadataTokenHash s) \<and> us_BlobTokenHash row = Some (s_BlobTokenHash s) \<and>
         us_DeletionTokenHash row = Some (s_DeletionTokenHash s) \<and> us_EncryptedMeta row = Some (s_EncryptedMeta s) \<and>
         s_BlobSize s = us_BlobSize row \<and> s_BurnAfterRead s = us_BurnAfterRead row \<and>
         s_ExpiresAt s = us_SecretExpiresAt row \<and> s_StorageKey s = us_StorageKey row \<and>
         s_CreatedAt s = clock ctx 1 \<and> s_RetrievedAt s = None) \<and>
      SecretsCreated (counters w') = SecretsCreated (counters w) + 1)"
proof -
  obtain a w1 where auth: "authenticateUploadSession ctx req w = (a, w1)" by fastforce
  then have w1: "w1 = w" using authenticateUploadSession_alone [OF assms(1), of req w] by simp
  from ok auth w1 obtain session parts where a: "a = Inr (session, parts)"
    by (cases a) (auto simp: handle_CompleteUploadSession_def)
  from authenticateUploadSession_InrD [OF auth [unfolded a]] assms(1) obtain row token
    where row: "session_of (database w) (param req ''sessionID'') = Some row"
      and session: "session = uploadSessionFromRow row"
      and tok: "bearerToken (header req ''Authorization'') = Inr token" "TokenHash token = us_UploadTokenHash row"
    by auto
  have sid: "us_SessionID row = param req ''sessionID''" "row \<in> set (upload_sessions (database w))"
    using session_of_key [OF row] by auto
  let ?fin = "finalizeUpload (s3 ctx) (clock ctx 2)"
  obtain r st stored db where repo: "repo_CompleteUploadSession (flt ctx 1) (us_SessionID row) (clock ctx 1) ?fin
      ((store w, False), database w) = (r, (st, stored), db)" by (metis prod.exhaust)
  let ?w = "w\<lparr>store := st, database := db\<rparr>"
  have "(case r of Inl e \<Rightarrow> completeUploadFailed ctx session stored e ?w
      | Inr c \<Rightarrow> (Inr (JSON 201 (JObj [(''expires_at'', JTime (u_SecretExpiresAt c))])),
          if stored then count (\<lambda>m. m\<lparr>SecretsCreated := SecretsCreated m + 1\<rparr>) ?w else ?w)) = (Inr resp, w')"
    using ok auth w1 a session repo assms(1)
    by (cases r; cases stored) (simp_all add: handle_CompleteUploadSession_def Let_def)
  then obtain c where r: "r = Inr c"
    and w': "w' = (if stored then count (\<lambda>m. m\<lparr>SecretsCreated := SecretsCreated m + 1\<rparr>) ?w else ?w)"
    and resp: "resp = JSON 201 (JObj [(''expires_at'', JTime (u_SecretExpiresAt c))])"
    using completeUploadFailed_Inl [of ctx session stored _ ?w]
    by (cases r) (simp_all, metis fst_conv sum.distinct(1))
  have "uploads_inv (snd ((store w, False), database w))" using inv by simp
  from complete_InrD [OF this repo [unfolded r]] row sid
  consider (before) "us_State row = UploadSessionStateCompleted" "st = store w" "\<not> stored" "db = database w"
      "c = uploadSessionFromRow row"
    | (now) "is_pending row" "db = completed_db row (clock ctx 1) (database w)"
      "secret_of (database w) (us_PublicID row) = None"
      "?fin (uploadSessionFromRow row) (q_ListUploadPartsBySession (us_SessionID row) (database w)) (store w, False) =
        (None, st, stored)" "c = uploadSessionFromRow (mark_completed (clock ctx 1) row)"
    by auto
  then show ?thesis
  proof cases
    case before
    then show ?thesis using row tok w' resp by (auto simp: uploadSessionFromRow_def)
  next
    case now
    note fin = finalized_layout [OF now(4) sid(2) sizes]
    have w'': "SecretsCreated (counters w') = SecretsCreated (counters w) + 1" "store w' = st" "database w' = db"
      using w' fin(2) by (simp_all add: count_def)
    have "session_shape row" using inv sid(2) by (simp add: uploads_inv_def)
    note secret = completedSecret_row [OF this now(1) refl, of "clock ctx 1"] completed_db_facts(3) [OF row now(3)]
    have "resp = JSON 201 (JObj [(''expires_at'', JTime (us_SecretExpiresAt row))])"
      using resp now(5) by (simp add: uploadSessionFromRow_def mark_completed_row)
    with row tok now fin w'' secret show ?thesis
      by (intro exI [of _ row] exI [of _ token] conjI disjI2
            exI [of _ "completedSecret (uploadSessionFromRow row) (clock ctx 1)"]) auto
  qed
qed

definition sent_part :: UploadPart where
  "sent_part = \<lparr>p_SessionID = a_token (CHR ''s''), p_PartNumber = 1, p_Offset = 0, p_Size = 7,
     p_SHA256 = hex_EncodeToString (Sum256 ''hello!!''), p_ETag = ''e'', p_CreatedAt = 5\<rparr>"

definition sent_world :: "memory world" where
  "sent_world = upload_world\<lparr>store := empty_memory\<lparr>uploads := [(''u'', [(1, ''hello!!'')])]\<rparr>,
     database := (database upload_world)\<lparr>upload_parts := [sent_part]\<rparr>\<rparr>"

lemma sent_world_facts:
  "uploads_inv (database sent_world)" "session_of (database sent_world) (a_token (CHR ''s'')) = Some demo_row"
  "q_ListUploadPartsBySession (a_token (CHR ''s'')) (database sent_world) = [sent_part]"
  "upload_sessions (database sent_world) = [demo_row]" "upload_parts (database sent_world) = [sent_part]"
  "secrets (database sent_world) = []" "is_pending demo_row" "part_sized sent_part"
  "store sent_world = empty_memory\<lparr>uploads := [(''u'', [(1, ''hello!!'')])]\<rparr>"
  by (simp_all add: sent_world_def upload_world_def empty_db_def uploads_inv_def part_key_def sent_part_def
      is_pending_def session_shape_def q_ListUploadPartsBySession_def part_sized_def part_sizes)
     (simp_all add: demo_row_def uploadSessionParams_def demo_session_def)

lemma sent_validates: "validateUploadParts (uploadSessionFromRow demo_row) [sent_part] = Inr [completed_part sent_part]"
  by (subst validateUploadParts_iff)
     (simp_all add: sent_world_facts part_sizes max_int64_def tiles_def, simp_all add: sent_part_def)

lemma sent_completes:
  "\<exists>resp w'. handle_CompleteUploadSession (quiet 5) part_request sent_world = (Inr resp, w')"
proof -
  have auth: "authenticateUploadSession (quiet 5) part_request sent_world =
      (Inr (uploadSessionFromRow demo_row, [sent_part]), sent_world)"
    using a_token_valid [of "CHR ''s''"] a_token_valid [of "CHR ''t''"] bearer_a_token [of "CHR ''t''"]
    by (simp add: authenticateUploadSession_def repo_GetUploadSession_def sent_world_facts b64_val_def)
  have "\<exists>st. s3_CompleteMultipartUpload memory_s3 ''blobs/s'' ''u'' [completed_part sent_part] (store sent_world) = (None, st)"
    by (simp add: s3_CompleteMultipartUpload_def memory_s3_def memory_complete_def sent_world_facts
        completed_part_def sent_part_def int32_id)
  then have "\<exists>st. finalizeUpload memory_s3 5 (uploadSessionFromRow demo_row) [sent_part] (store sent_world, False) =
      (None, st, True)"
    using sent_validates by (auto simp: finalizeUpload_def)
  moreover have "\<exists>x. finish_CompleteUploadSession no_faults (uploadSessionFromRow demo_row) (a_token (CHR ''s'')) 5
      (database sent_world) = (Inr (fst x), snd x)"
    by (auto simp: finish_CompleteUploadSession_def q_CreateSecret_def sent_world_facts)
  ultimately show ?thesis
    using auth sent_world_facts
    by (auto simp: handle_CompleteUploadSession_def repo_CompleteUploadSession_def Let_def)
qed

theorem completed_upload_is_a_secret_witness:
  "\<exists>resp w'. handle_CompleteUploadSession (quiet 5) part_request sent_world = (Inr resp, w') \<and>
     SecretsCreated (counters w') = SecretsCreated (counters sent_world) + 1"
proof -
  obtain resp w' where h: "handle_CompleteUploadSession (quiet 5) part_request sent_world = (Inr resp, w')"
    using sent_completes by auto
  have "session_of (database sent_world) (param part_request ''sessionID'') = Some demo_row"
    using sent_world_facts by simp
  with completed_upload_is_a_secret [OF quiet_simps(1) sent_world_facts(1) _ _ h] h show ?thesis
    using sent_world_facts by (auto simp: part_sizes max_int64_def)
qed

section \<open>Creation\<close>

lemma repo_CreateUploadSession_InrD:
  assumes "repo_CreateUploadSession fl en session db = (Inr x, db')"
  shows "secret_of db (u_PublicID session) = None"
    "q_CreateUploadSession (uploadSessionParams session) (en db) = Inr db'"
  using assms
  by (auto simp: repo_CreateUploadSession_def q_SecretExistsByPublicID_def insert_UploadSession_def
      autocommit_def lookup_by_None split: if_splits sum.splits fate.splits)

lemma parseExpiration_InrD: "parseExpiration s = Inr d \<Longrightarrow> (s, d) \<in> set expirationDurations"
  by (auto simp: parseExpiration_def dest: map_of_SomeD split: option.splits)

text \<open>
  Property C27. What \<open>CreateUploadSession\<close> lets in, keeps and answers: behind an answer 201 stands
  a request with well-formed id, tokens and envelope, a size within the limit and one of the
  nine offered expirations; the id belongs to no secret, and the session id is new. One row is
  added and no secret: it is pending and expires 24 hours from now; it holds the
  hashes of the three tokens of the links and of the upload token, not the tokens; its storage
  key is made of its own session id, and storage opened the upload under that key. The answer
  names the session, the two expiries and the upload token.
\<close>

theorem created_session_is_as_requested:
  assumes "alone ctx" and "validator_reports vld"
    and ok: "handle_CreateUploadSession bind vld maxFileSize ctx r w = (Inr resp, w')"
  shows "\<exists>req sid tok uid minutes. bind r = Some req \<and>
     ValidPublicID (PublicID req) \<and> ValidToken (MetadataToken req) \<and> ValidToken (BlobToken req) \<and>
     ValidToken (DeletionToken req) \<and> ValidEncryptedMeta (EncryptedMeta req) \<and>
     0 < BlobSize req \<and> BlobSize req \<le> maxFileSize \<and>
     (Expiration req, minutes) \<in> {(''5m'', 5), (''10m'', 10), (''15m'', 15), (''1h'', 60), (''4h'', 4 * 60),
       (''12h'', 12 * 60), (''1d'', 24 * 60), (''3d'', 3 * 24 * 60), (''7d'', 7 * 24 * 60)} \<and>
     newRetrievalSessionToken ctx 0 = Inr sid \<and> newRetrievalSessionToken ctx 1 = Inr tok \<and>
     s3_CreateMultipartUpload (s3 ctx) (''blobs/'' @ sid) (store w) = (Inr uid, store w') \<and>
     secret_of (database w) (PublicID req) = None \<and>
     session_of (database w) sid = None \<and>
     upload_sessions (database w') = upload_sessions (database w) @
       [\<lparr>us_SessionID = sid, us_PublicID = PublicID req, us_UploadTokenHash = TokenHash tok,
         us_MetadataTokenHash = Some (TokenHash (MetadataToken req)),
         us_BlobTokenHash = Some (TokenHash (BlobToken req)),
         us_DeletionTokenHash = Some (TokenHash (DeletionToken req)),
         us_S3UploadID = uid, us_BlobSize = BlobSize req, us_EncryptedMeta = Some (EncryptedMeta req),
         us_BurnAfterRead = BurnAfterRead req, us_SecretExpiresAt = clock ctx 0 + minutes * time_Minute,
         us_UploadExpiresAt = clock ctx 0 + 24 * time_Hour, us_State = UploadSessionStatePending,
         us_CreatedAt = clock ctx 0, us_CompletedAt = None, us_AbortedAt = None,
         us_StorageKey = ''blobs/'' @ sid\<rparr>] \<and>
     secrets (database w') = secrets (database w) \<and>
     resp = JSON 201 (JObj [(''session_id'', JStr sid), (''public_id'', JStr (PublicID req)),
       (''part_size'', JInt (32 * 1024 * 1024)), (''blob_size'', JInt (BlobSize req)),
       (''expires_at'', JTime (clock ctx 0 + minutes * time_Minute)),
       (''upload_expires_at'', JTime (clock ctx 0 + 24 * time_Hour)), (''state'', JStr ''pending''),
       (''upload_token'', JStr tok)])"
proof -
  from ok obtain req where req: "bind r = Some req" "vld req = []" "0 < BlobSize req" "BlobSize req \<le> maxFileSize"
    by (auto simp: handle_CreateUploadSession_def validateRequest_def split: option.splits if_splits)
  from ok req obtain d sid tok where p: "parseExpiration (Expiration req) = Inr d"
    "newRetrievalSessionToken ctx 0 = Inr sid" "newRetrievalSessionToken ctx 1 = Inr tok"
    by (auto simp: handle_CreateUploadSession_def validateRequest_def split: sum.splits)
  obtain s1 st where s1: "s3_CreateMultipartUpload (s3 ctx) (UploadStorageKey sid) (store w) = (s1, st)" by fastforce
  from ok req p s1 assms(1) obtain uid where uid: "s1 = Inr uid"
    by (cases s1) (auto simp: handle_CreateUploadSession_def validateRequest_def on_store_def Let_def)
  let ?s = "requestedSession req sid tok uid d (clock ctx 0)"
  obtain r2 db where r2: "repo_CreateUploadSession (flt ctx 0) (between ctx 0) ?s (database w) = (r2, db)" by fastforce
  from ok req p s1 uid r2 assms(1) have fin: "r2 = Inr ()" "database w' = db" "store w' = st"
      "resp = JSON 201 (uploadSessionResponse ?s tok)"
    by (cases r2; auto simp: handle_CreateUploadSession_def validateRequest_def on_store_def on_db_def Let_def
        split: if_splits)+
  from repo_CreateUploadSession_InrD [OF r2 [unfolded fin]] assms(1)
  have db: "secret_of (database w) (PublicID req) = None"
    "q_CreateUploadSession (uploadSessionParams ?s) (database w) = Inr db"
    by (simp_all add: requestedSession_def)
  have fields: "\<forall>(field, tag) \<in> set (request_tags req). newValidator tag field"
    using assms(2) req(2) by (auto simp: validator_reports_def)
  from parseExpiration_InrD [OF p(1)] obtain minutes where d: "d = minutes * time_Minute"
    "(Expiration req, minutes) \<in> {(''5m'', 5), (''10m'', 10), (''15m'', 15), (''1h'', 60), (''4h'', 4 * 60),
       (''12h'', 12 * 60), (''1d'', 24 * 60), (''3d'', 3 * 24 * 60), (''7d'', 7 * 24 * 60)}"
    by (auto simp: expirationDurations_def duration_defs)
  from db(2) have "session_of (database w) sid = None"
    "upload_sessions db = upload_sessions (database w) @ [uploadSessionParams ?s]" "secrets db = secrets (database w)"
    by (auto simp: q_CreateUploadSession_def lookup_by_None uploadSessionParams_def requestedSession_def Let_def split: if_splits)
  moreover have "uploadSessionParams ?s = \<lparr>us_SessionID = sid, us_PublicID = PublicID req, us_UploadTokenHash = TokenHash tok,
         us_MetadataTokenHash = Some (TokenHash (MetadataToken req)),
         us_BlobTokenHash = Some (TokenHash (BlobToken req)),
         us_DeletionTokenHash = Some (TokenHash (DeletionToken req)),
         us_S3UploadID = uid, us_BlobSize = BlobSize req, us_EncryptedMeta = Some (EncryptedMeta req),
         us_BurnAfterRead = BurnAfterRead req, us_SecretExpiresAt = clock ctx 0 + minutes * time_Minute,
         us_UploadExpiresAt = clock ctx 0 + 24 * time_Hour, us_State = UploadSessionStatePending,
         us_CreatedAt = clock ctx 0, us_CompletedAt = None, us_AbortedAt = None,
         us_StorageKey = ''blobs/'' @ sid\<rparr>"
    by (simp add: uploadSessionParams_def requestedSession_def d(1) UploadStorageKey_def uploadSessionTTL_def)
  moreover have "uploadSessionResponse ?s tok = JObj [(''session_id'', JStr sid), (''public_id'', JStr (PublicID req)),
       (''part_size'', JInt (32 * 1024 * 1024)), (''blob_size'', JInt (BlobSize req)),
       (''expires_at'', JTime (clock ctx 0 + minutes * time_Minute)),
       (''upload_expires_at'', JTime (clock ctx 0 + 24 * time_Hour)), (''state'', JStr ''pending''),
       (''upload_token'', JStr tok)]"
    by (simp add: uploadSessionResponse_def requestedSession_def d(1) uploadSessionTTL_def multipartUploadPartSize_def)
  moreover have "s3_CreateMultipartUpload (s3 ctx) (''blobs/'' @ sid) (store w) = (Inr uid, store w')"
    using s1 uid fin(3) by (simp add: UploadStorageKey_def)
  ultimately show ?thesis using req p(2,3) d(2) db(1) fin(2,4) fields
    by (intro exI [of _ req] exI [of _ sid] exI [of _ tok] exI [of _ uid] exI [of _ minutes])
       (simp add: request_tags_def newValidator_def)
qed

text \<open>A validator with the documented behaviour, and a request it passes.\<close>

definition demo_validator :: "createUploadSessionRequest \<Rightarrow> FieldError list" where
  "demo_validator req =
     concat (map (\<lambda>(field, tag).
       if field = [] then [\<lparr>fe_Field = tag, fe_Tag = ''required'', fe_Param = []\<rparr>]
       else if newValidator tag field then []
       else [\<lparr>fe_Field = tag, fe_Tag = tag, fe_Param = []\<rparr>]) (request_tags req))"

lemma demo_validator_reports: "validator_reports demo_validator"
  by (simp add: validator_reports_def demo_validator_def request_tags_def)

definition demo_create :: createUploadSessionRequest where
  "demo_create = \<lparr>PublicID = an_id (CHR ''p''), MetadataToken = a_token (CHR ''m''),
     BlobToken = a_token (CHR ''b''), DeletionToken = a_token (CHR ''d''),
     EncryptedMeta = ''v2$'' @ replicate 32 (CHR ''n'') @ ''$cccc'', Expiration = ''7d'',
     BurnAfterRead = True, BlobSize = 7\<rparr>"

lemma demo_create_valid: "demo_validator demo_create = []"
proof -
  have "ValidEncryptedMeta (EncryptedMeta demo_create)" by code_simp
  moreover have "EncryptedMeta demo_create \<noteq> []" by (simp add: demo_create_def)
  moreover have "newValidator ''expiration'' (Expiration demo_create)" "Expiration demo_create = ''7d''"
    by (simp_all add: demo_create_def newValidator_def expirationDurations_def)
  ultimately show ?thesis
    using a_token_valid [of "CHR ''m''"] a_token_valid [of "CHR ''b''"] a_token_valid [of "CHR ''d''"]
      a_token_valid [of "CHR ''p''"]
    by (simp add: demo_validator_def request_tags_def newValidator_def) (simp add: demo_create_def b64_val_def)
qed

theorem created_session_is_as_requested_witness:
  "\<exists>row. upload_sessions (database (snd (handle_CreateUploadSession (\<lambda>_. Some demo_create) demo_validator 1000
     (quiet 5) part_request \<lparr>store = empty_memory, database = empty_db, counters = no_metrics\<rparr>))) = [row] \<and>
   us_BlobSize row = 7 \<and> us_BlobTokenHash row = Some (TokenHash (a_token (CHR ''b''))) \<and>
   us_SecretExpiresAt row = 5 + 7 * 24 * 60 * time_Minute"
proof -
  let ?w = "\<lparr>store = empty_memory, database = empty_db, counters = no_metrics\<rparr>"
  have "\<exists>resp w'. handle_CreateUploadSession (\<lambda>_. Some demo_create) demo_validator 1000 (quiet 5) part_request ?w =
      (Inr resp, w')"
    by (simp add: handle_CreateUploadSession_def validateRequest_def demo_create_valid parseExpiration_def)
       (simp add: demo_create_def expirationDurations_def newRetrievalSessionToken_def on_store_def on_db_def
          s3_CreateMultipartUpload_def memory_s3_def UploadStorageKey_def repo_CreateUploadSession_def
          q_SecretExistsByPublicID_def empty_db_def insert_UploadSession_def q_CreateUploadSession_def Let_def
          requestedSession_def)
  then obtain resp w' where h: "handle_CreateUploadSession (\<lambda>_. Some demo_create) demo_validator 1000 (quiet 5)
      part_request ?w = (Inr resp, w')" by blast
  from created_session_is_as_requested [OF _ demo_validator_reports h] h show ?thesis
    by (auto simp: empty_db_def requestedSession_def uploadSessionParams_def demo_create_def)
qed

end
