(* ===== verification/Sha256_Vectors.thy ===== *)
theory Sha256_Vectors
  imports Domain
begin

text \<open>
  The first byte of the digests of two tokens as the model computes it, which is what other
  implementations of SHA-256 give. The witnesses use them where two tokens must have different
  hashes.
\<close>

lemma Sum256_s: "hd (Sum256 (replicate 43 (CHR ''s''))) = char_of (214 :: nat)"
  by code_simp

lemma Sum256_m: "hd (Sum256 (replicate 43 (CHR ''m''))) = char_of (105 :: nat)"
  by code_simp

lemma hd_TokenHash: "hd (TokenHash t) = hex_digit (ord (hd (Sum256 t)) div 16)"
proof -
  obtain b bs where "Sum256 t = b # bs" using length_Sum256 [of t] by (cases "Sum256 t") auto
  then show ?thesis by (simp add: TokenHash_def hex_EncodeToString_def)
qed

lemma TokenHash_differ: "TokenHash (replicate 43 (CHR ''m'')) \<noteq> TokenHash (replicate 43 (CHR ''s''))"
proof -
  have "hd (TokenHash (replicate 43 (CHR ''m''))) \<noteq> hd (TokenHash (replicate 43 (CHR ''s'')))"
    unfolding hd_TokenHash Sum256_s Sum256_m by (simp add: hex_digit_def)
  then show ?thesis by metis
qed

end
