(* ===== verification/Transfer_Handler.thy ===== *)
theory Transfer_Handler
  imports Server Secret_Handler Sha256_Vectors
begin

text \<open>
  \<open>internal/adapter/httpserver/transfer_handler.go\<close>: the relay of short-code transfers, three legs
  each written once with POST and waited for with a long-poll.

  The bodies come through parameters \<open>bind\<close>, what echo's \<open>Bind\<close> makes of the request. What wakes a
  long-poll is the parameter \<open>wake\<close>: the end of the request, a notification or its timer.
\<close>

section \<open>Constants, requests and values\<close>

definition transferTTL :: duration where "transferTTL = 10 * time_Minute"
definition maxTransferNameplate :: int where "maxTransferNameplate = 999"
definition transferPollWait :: duration where "transferPollWait = 25 * time_Second"
definition transferRecheckInterval :: duration where "transferRecheckInterval = 5 * time_Second"

record createTransferRequest =
  cr_TransferID :: string
  cr_Offer :: string

record claimTransferRequest =
  cl_Nameplate :: int

record transferAnswerRequest =
  ar_Share :: string
  ar_Confirmation :: string

record transferDeliveryRequest =
  dr_Sealed :: string

definition decodeTransferValue :: "string \<Rightarrow> nat \<Rightarrow> err + bytes" where
  "decodeTransferValue val n =
     (case DecodeString val of
        None \<Rightarrow> Inl (PlainErr ''illegal base64 data'')
      | Some decoded \<Rightarrow>
          (if length decoded \<noteq> n then Inl (PlainErr ''wrong size'') else Inr decoded))"

definition encodeTransferValue :: "bytes \<Rightarrow> string" where
  "encodeTransferValue val = EncodeToString val"

text \<open>A nil slice reads as the empty one.\<close>

definition slice :: "bytes option \<Rightarrow> bytes" where
  "slice b = (case b of Some bs \<Rightarrow> bs | None \<Rightarrow> [])"

definition transferGone :: "Transfer \<Rightarrow> err" where
  "transferGone t =
     (let reason = (if t_ClosedAt t = None \<or> t_CloseReason t = [] then TransferCloseExpired else t_CloseReason t)
      in GoneError ''transfer has ended'' [(''reason'', JStr reason)])"

section \<open>Creating, claiming, authenticating\<close>

definition handle_CreateTransfer ::
    "(request \<Rightarrow> createTransferRequest option) \<Rightarrow> 's env \<Rightarrow> request \<Rightarrow> 's world \<Rightarrow> answer \<times> 's world" where
  "handle_CreateTransfer bind ctx r w =
     (case bind r of
        None \<Rightarrow> (Inl (BadRequestError ''invalid request body''), w)
      | Some req \<Rightarrow>
          (if \<not> ValidToken (cr_TransferID req)
           then (Inl (BadRequestError ''transfer_id must be 32 bytes of unpadded base64url''), w)
           else
             (case decodeTransferValue (cr_Offer req) TransferShareBytes of
                Inl e \<Rightarrow> (Inl (BadRequestError ''offer must be 32 bytes of unpadded base64url''), w)
              | Inr offer \<Rightarrow>
                  (case newRetrievalSessionToken ctx 0 of
                     Inl e \<Rightarrow> (Inl (InternalError ''failed to create transfer'' e), w)
                   | Inr senderToken \<Rightarrow>
                       (let now = clock ctx 0;
                            transfer = \<lparr>t_TransferID = cr_TransferID req, t_Nameplate = 0,
                              t_SenderTokenHash = TokenHash senderToken, t_ReceiverTokenHash = [],
                              t_Offer = offer, t_AnswerShare = None, t_AnswerConfirmation = None,
                              t_Delivery = None, t_CloseReason = [], t_CreatedAt = now,
                              t_ExpiresAt = now + transferTTL, t_ClosedAt = None\<rparr>
                        in (case on_db (repo_CreateTransfer (flt ctx 0) transfer maxTransferNameplate now)
                                   (rely ctx 0 w) of
                              (Inl e, w1) \<Rightarrow>
                                (if errors_Is e ErrConflict
                                 then (Inl (UnavailableError ''too many active transfers, try again shortly''), w1)
                                 else if errors_Is e ErrDuplicate
                                 then (Inl (ConflictError ''transfer_id already used''), w1)
                                 else (Inl (InternalError ''failed to create transfer'' e), w1))
                            | (Inr t, w1) \<Rightarrow>
                                (Inr (JSON 201 (JObj
                                   [(''nameplate'', JInt (t_Nameplate t)),
                                    (''sender_token'', JStr senderToken),
                                    (''expires_at'', JTime (t_ExpiresAt t))])), w1)))))))"

definition handle_ClaimTransfer ::
    "(request \<Rightarrow> claimTransferRequest option) \<Rightarrow> 's env \<Rightarrow> request \<Rightarrow> 's world \<Rightarrow> answer \<times> 's world" where
  "handle_ClaimTransfer bind ctx r w =
     (case bind r of
        None \<Rightarrow> (Inl (BadRequestError ''invalid request body''), w)
      | Some req \<Rightarrow>
          (if cl_Nameplate req < 1 \<or> cl_Nameplate req > maxTransferNameplate
           then (Inl (BadRequestError ''invalid nameplate''), w)
           else
             (case newRetrievalSessionToken ctx 0 of
                Inl e \<Rightarrow> (Inl (InternalError ''failed to claim transfer'' e), w)
              | Inr receiverToken \<Rightarrow>
                  (case on_db (repo_ClaimTransfer (flt ctx 0) (cl_Nameplate req) (TokenHash receiverToken)
                             (clock ctx 0)) (rely ctx 0 w) of
                     (Inl e, w1) \<Rightarrow>
                       (if errors_Is e ErrNotFound
                        then (Inl (NotFoundError ''no active transfer with this nameplate''), w1)
                        else if errors_Is e ErrConflict
                        then (Inl (ConflictError ''transfer already claimed''), w1)
                        else (Inl (InternalError ''failed to claim transfer'' e), w1))
                   | (Inr t, w1) \<Rightarrow>
                       (Inr (JSON 200 (JObj
                          [(''transfer_id'', JStr (t_TransferID t)), (''receiver_token'', JStr receiverToken),
                           (''offer'', JStr (encodeTransferValue (t_Offer t))),
                           (''expires_at'', JTime (t_ExpiresAt t))])), w1)))))"

text \<open>\<open>authenticate\<close>, step 0: an empty side accepts either.\<close>

definition authenticateTransfer ::
    "'s env \<Rightarrow> request \<Rightarrow> string \<Rightarrow> 's world \<Rightarrow> (err + Transfer) \<times> 's world" where
  "authenticateTransfer ctx req side w =
     (let transferID = param req ''transferID''
      in if \<not> ValidToken transferID then (Inl (BadRequestError ''malformed transfer_id''), w)
         else
           (case bearerToken (header req ''Authorization'') of
              Inl e \<Rightarrow> (Inl (BadRequestError (err_text e)), w)
            | Inr token \<Rightarrow>
                (if \<not> ValidToken token then (Inl (BadRequestError ''malformed Authorization header''), w)
                 else
                   (let w0 = rely ctx 0 w
                    in (case repo_GetTransfer (flt ctx 0) transferID (database w0) of
                          Inl e \<Rightarrow>
                            (if errors_Is e ErrNotFound then (Inl (NotFoundError ''transfer not found''), w0)
                             else (Inl (InternalError ''failed to read transfer'' e), w0))
                        | Inr transfer \<Rightarrow>
                            (let hash = TokenHash token;
                                 tokenSide =
                                   (if TokensEqual hash (t_SenderTokenHash transfer) then Some TransferSideSender
                                    else if Claimed transfer \<and> TokensEqual hash (t_ReceiverTokenHash transfer)
                                    then Some TransferSideReceiver else None)
                             in (case tokenSide of
                                   None \<Rightarrow> (Inl (ForbiddenError ''invalid transfer token''), w0)
                                 | Some s \<Rightarrow>
                                     (if side \<noteq> [] \<and> side \<noteq> s
                                      then (Inl (ForbiddenError (''only the '' @ side @ '' does this'')), w0)
                                      else (Inr transfer, w0)))))))))"

section \<open>Writing a leg\<close>

text \<open>
  The loop of \<open>writeOnce\<close> from an attempt on. \<open>written t\<close> says whether the leg exists and whether it
  is this request's value; \<open>put\<close> writes it. An attempt reads the clock and writes in step
  \<open>2 * attempt + 1\<close> and reads again in the step after.
\<close>

function writeOnce_from ::
    "nat \<Rightarrow> 's env \<Rightarrow> string \<Rightarrow> (Transfer \<Rightarrow> bool \<times> bool) \<Rightarrow> (fates \<Rightarrow> time \<Rightarrow> db \<Rightarrow> (err + bool) \<times> db) \<Rightarrow>
       Transfer \<Rightarrow> 's world \<Rightarrow> answer \<times> 's world" where
  "writeOnce_from attempt ctx transferID written put transfer w =
     (if fst (written transfer)
      then (if snd (written transfer) then (Inr (NoContent 204), w)
            else (Inl (ConflictError ''already written''), w))
      else
        (let now = clock ctx (2 * attempt + 1)
         in if Ended transfer now then (Inl (transferGone transfer), w)
            else
              (case on_db (put (flt ctx (2 * attempt + 1)) now) (rely ctx (2 * attempt + 1) w) of
                 (Inl e, w1) \<Rightarrow> (Inl (InternalError ''failed to store transfer'' e), w1)
               | (Inr True, w1) \<Rightarrow> (Inr (NoContent 204), w1)
               | (Inr False, w1) \<Rightarrow>
                   (if attempt > 0
                    then (Inl (ConflictError ''the other side has not written its part yet''), w1)
                    else
                      (let w2 = rely ctx (2 * attempt + 2) w1
                       in (case repo_GetTransfer (flt ctx (2 * attempt + 2)) transferID (database w2) of
                             Inl e \<Rightarrow>
                               (if errors_Is e ErrNotFound
                                then (Inl (GoneError ''transfer has ended''
                                             [(''reason'', JStr TransferCloseExpired)]), w2)
                                else (Inl (InternalError ''failed to read transfer'' e), w2))
                           | Inr transfer' \<Rightarrow>
                               writeOnce_from (attempt + 1) ctx transferID written put transfer' w2))))))"
  by pat_completeness auto
termination by (relation "measure (\<lambda>(attempt, _). 1 - attempt)") auto

declare writeOnce_from.simps [simp del]

definition writeOnce ::
    "'s env \<Rightarrow> Transfer \<Rightarrow> (Transfer \<Rightarrow> bool \<times> bool) \<Rightarrow> (fates \<Rightarrow> time \<Rightarrow> db \<Rightarrow> (err + bool) \<times> db) \<Rightarrow>
       's world \<Rightarrow> answer \<times> 's world" where
  "writeOnce ctx transfer written put = writeOnce_from 0 ctx (t_TransferID transfer) written put transfer"

text \<open>The two legs that are written after the claim.\<close>

definition answer_written :: "bytes \<Rightarrow> bytes \<Rightarrow> Transfer \<Rightarrow> bool \<times> bool" where
  "answer_written share confirmation t =
     (Answered t, slice (t_AnswerShare t) = share \<and> slice (t_AnswerConfirmation t) = confirmation)"

definition delivery_written :: "bytes \<Rightarrow> Transfer \<Rightarrow> bool \<times> bool" where
  "delivery_written sealed t = (Delivered t, slice (t_Delivery t) = sealed)"

definition handle_PostAnswer ::
    "(request \<Rightarrow> transferAnswerRequest option) \<Rightarrow> 's env \<Rightarrow> request \<Rightarrow> 's world \<Rightarrow> answer \<times> 's world" where
  "handle_PostAnswer bind ctx r w =
     (case authenticateTransfer ctx r TransferSideReceiver w of
        (Inl e, w1) \<Rightarrow> (Inl e, w1)
      | (Inr transfer, w1) \<Rightarrow>
          (case bind r of
             None \<Rightarrow> (Inl (BadRequestError ''invalid request body''), w1)
           | Some req \<Rightarrow>
               (case decodeTransferValue (ar_Share req) TransferShareBytes of
                  Inl e \<Rightarrow> (Inl (BadRequestError ''share must be 32 bytes of unpadded base64url''), w1)
                | Inr share \<Rightarrow>
                    (case decodeTransferValue (ar_Confirmation req) TransferConfirmationBytes of
                       Inl e \<Rightarrow> (Inl (BadRequestError ''confirmation must be 32 bytes of unpadded base64url''), w1)
                     | Inr confirmation \<Rightarrow>
                         writeOnce ctx transfer (answer_written share confirmation)
                           (\<lambda>fl now. repo_AnswerTransfer fl (t_TransferID transfer) share confirmation now) w1))))"

definition handle_PostDelivery ::
    "(request \<Rightarrow> transferDeliveryRequest option) \<Rightarrow> 's env \<Rightarrow> request \<Rightarrow> 's world \<Rightarrow> answer \<times> 's world" where
  "handle_PostDelivery bind ctx r w =
     (case authenticateTransfer ctx r TransferSideSender w of
        (Inl e, w1) \<Rightarrow> (Inl e, w1)
      | (Inr transfer, w1) \<Rightarrow>
          (case bind r of
             None \<Rightarrow> (Inl (BadRequestError ''invalid request body''), w1)
           | Some req \<Rightarrow>
               (case decodeTransferValue (dr_Sealed req) TransferDeliveryBytes of
                  Inl e \<Rightarrow> (Inl (BadRequestError ''sealed must be 552 bytes of unpadded base64url''), w1)
                | Inr sealed \<Rightarrow>
                    writeOnce ctx transfer (delivery_written sealed)
                      (\<lambda>fl now. repo_DeliverTransfer fl (t_TransferID transfer) sealed now) w1)))"

section \<open>Waiting for a leg\<close>

datatype wake = CtxDone | Changed | TimerFired

text \<open>
  The loop of \<open>await\<close> from round \<open>i\<close> on. A round reads the transfer in step \<open>i + 1\<close> and the clock twice.
  \<open>None\<close> is a poll that never returns.
\<close>

partial_function (option) await_from ::
    "nat \<Rightarrow> 's env \<Rightarrow> (nat \<Rightarrow> wake) \<Rightarrow> string \<Rightarrow> (Transfer \<Rightarrow> bool) \<Rightarrow> time \<Rightarrow> 's world \<Rightarrow>
       ((err + Transfer option) \<times> 's world) option" where
  "await_from i ctx wakes transferID ready deadline w =
     (let w1 = rely ctx (i + 1) w
      in (case repo_GetTransfer (flt ctx (i + 1)) transferID (database w1) of
            Inl e \<Rightarrow>
              (if errors_Is e ErrNotFound
               then Some (Inl (GoneError ''transfer has ended'' [(''reason'', JStr TransferCloseExpired)]), w1)
               else Some (Inl (InternalError ''failed to read transfer'' e), w1))
          | Inr transfer \<Rightarrow>
              (if ready transfer then Some (Inr (Some transfer), w1)
               else if Ended transfer (clock ctx (2 * i + 1)) then Some (Inl (transferGone transfer), w1)
               else if \<not> clock ctx (2 * i + 2) < deadline then Some (Inr None, w1)
               else
                 (case wakes i of
                    CtxDone \<Rightarrow> Some (Inl CtxCanceled, w1)
                  | Changed \<Rightarrow> await_from (i + 1) ctx wakes transferID ready deadline w1
                  | TimerFired \<Rightarrow> await_from (i + 1) ctx wakes transferID ready deadline w1))))"

definition await ::
    "'s env \<Rightarrow> (nat \<Rightarrow> wake) \<Rightarrow> string \<Rightarrow> (Transfer \<Rightarrow> bool) \<Rightarrow> 's world \<Rightarrow>
       ((err + Transfer option) \<times> 's world) option" where
  "await ctx wakes transferID ready =
     await_from 0 ctx wakes transferID ready (clock ctx 0 + transferPollWait)"

text \<open>
  A poll whose client went away writes nothing, which \<open>net/http\<close> finishes as an empty 200.
\<close>

definition awaitFailed :: "err option \<Rightarrow> answer" where
  "awaitFailed e =
     (case e of
        None \<Rightarrow> Inr (NoContent 204)
      | Some err \<Rightarrow> (if errors_Is err CtxCanceled then Inr (NoContent 200) else Inl err))"

text \<open>An authenticated long-poll: \<open>found\<close> makes the answer of the leg.\<close>

definition await_leg ::
    "'s env \<Rightarrow> (nat \<Rightarrow> wake) \<Rightarrow> request \<Rightarrow> string \<Rightarrow> (Transfer \<Rightarrow> bool) \<Rightarrow> (Transfer \<Rightarrow> json) \<Rightarrow> 's world \<Rightarrow>
       (answer \<times> 's world) option" where
  "await_leg ctx wakes r side ready found w =
     (case authenticateTransfer ctx r side w of
        (Inl e, w1) \<Rightarrow> Some (Inl e, w1)
      | (Inr transfer, w1) \<Rightarrow>
          (case await ctx wakes (t_TransferID transfer) ready w1 of
             None \<Rightarrow> None
           | Some (Inl e, w2) \<Rightarrow> Some (awaitFailed (Some e), w2)
           | Some (Inr None, w2) \<Rightarrow> Some (awaitFailed None, w2)
           | Some (Inr (Some t), w2) \<Rightarrow> Some (Inr (JSON 200 (found t)), w2)))"

definition handle_AwaitAnswer ::
    "(nat \<Rightarrow> wake) \<Rightarrow> 's env \<Rightarrow> request \<Rightarrow> 's world \<Rightarrow> (answer \<times> 's world) option" where
  "handle_AwaitAnswer wakes ctx r =
     await_leg ctx wakes r TransferSideSender Answered
       (\<lambda>t. JObj [(''share'', JStr (encodeTransferValue (slice (t_AnswerShare t)))),
                  (''confirmation'', JStr (encodeTransferValue (slice (t_AnswerConfirmation t))))])"

definition handle_AwaitDelivery ::
    "(nat \<Rightarrow> wake) \<Rightarrow> 's env \<Rightarrow> request \<Rightarrow> 's world \<Rightarrow> (answer \<times> 's world) option" where
  "handle_AwaitDelivery wakes ctx r =
     await_leg ctx wakes r TransferSideReceiver Delivered
       (\<lambda>t. JObj [(''sealed'', JStr (encodeTransferValue (slice (t_Delivery t))))])"

definition handle_CloseTransfer :: "'s env \<Rightarrow> request \<Rightarrow> 's world \<Rightarrow> answer \<times> 's world" where
  "handle_CloseTransfer ctx r w =
     (case authenticateTransfer ctx r [] w of
        (Inl e, w1) \<Rightarrow> (Inl e, w1)
      | (Inr transfer, w1) \<Rightarrow>
          (let reason = (if query r ''reason'' = [] then TransferCloseCancelled else query r ''reason'')
           in if \<not> ValidTransferCloseReason reason then (Inl (BadRequestError ''invalid reason''), w1)
              else
                (case on_db (repo_CloseTransfer (flt ctx 1) (t_TransferID transfer) reason (clock ctx 0))
                         (rely ctx 1 w1) of
                   (Inl e, w2) \<Rightarrow>
                     (if \<not> errors_Is e ErrNotFound
                      then (Inl (InternalError ''failed to close transfer'' e), w2)
                      else (Inr (NoContent 204), w2))
                 | (Inr _, w2) \<Rightarrow> (Inr (NoContent 204), w2))))"

section \<open>Interference\<close>

text \<open>Other requests run repository calls of the relay, none of which reuses the id.\<close>

definition relays :: "string \<Rightarrow> 's env \<Rightarrow> bool" where
  "relays tid ctx \<longleftrightarrow>
     (\<forall>i w. \<exists>xs. database (rely ctx i w) = transfer_run xs (database w) \<and>
        (\<forall>x. x \<in> set xs \<longrightarrow> \<not> opens_mailbox tid x))"

text \<open>The mailbox \<open>tid\<close> has moved on from the row \<open>t0\<close>, or is gone.\<close>

definition leads :: "string \<Rightarrow> CodeTransfer \<Rightarrow> db \<Rightarrow> bool" where
  "leads tid t0 db \<longleftrightarrow> transfers_inv db \<and> transfer_le (Some t0) (transfer_of db tid)"

lemma leads_self: "transfers_inv db \<Longrightarrow> transfer_of db tid = Some t \<Longrightarrow> leads tid t db"
  by (simp add: leads_def)

lemma leads_run:
  "leads tid t db \<Longrightarrow> \<forall>x. x \<in> set xs \<longrightarrow> \<not> opens_mailbox tid x \<Longrightarrow> leads tid t (transfer_run xs db)"
  using transfer_run_ok [of db xs tid] by (auto simp: leads_def intro: transfer_le_trans)

lemma leads_rely: "relays tid ctx \<Longrightarrow> leads tid t (database w) \<Longrightarrow> leads tid t (database (rely ctx i w))"
  using leads_run unfolding relays_def by metis

lemma alone_relays: "alone ctx \<Longrightarrow> relays tid ctx"
  by (auto simp: relays_def intro!: exI [of _ "[]"])

lemma leads_ok:
  assumes "leads tid t db" and "mailboxes_ok db db'" and "transfer_of db tid = None \<longrightarrow> transfer_of db' tid = None"
  shows "leads tid t db'"
proof (cases "transfer_of db tid")
  case None
  then show ?thesis using assms by (simp add: leads_def mailboxes_ok_inv)
next
  case (Some t1)
  then obtain t2 where "transfer_of db' tid = Some t2" "mailbox_le t1 t2"
    using assms(2) by (auto simp: mailboxes_ok_def)
  with Some assms show ?thesis
    by (auto simp: leads_def transfer_le_def mailboxes_ok_inv intro: mailbox_le_trans)
qed

section \<open>The contract of a leg\<close>

text \<open>
  What \<open>writeOnce\<close> relies on of a leg: the write that reports success leaves the value in the mailbox,
  any write only moves mailboxes on, and what is there stays.
\<close>

locale leg =
  fixes tid :: string
    and written :: "Transfer \<Rightarrow> bool \<times> bool"
    and put :: "fates \<Rightarrow> time \<Rightarrow> db \<Rightarrow> (err + bool) \<times> db"
  assumes put_stores: "transfers_inv db \<Longrightarrow> put fl now db = (Inr True, db') \<Longrightarrow>
      \<exists>t. transfer_of db' tid = Some t \<and> written (transferFromRow t) = (True, True)"
    and put_ok: "transfers_inv db \<Longrightarrow> mailboxes_ok db (snd (put fl now db))"
    and put_none: "transfer_of db tid = None \<Longrightarrow> transfer_of (snd (put fl now db)) tid = None"
    and stays: "mailbox_le t t' \<Longrightarrow> transfer_shape t \<Longrightarrow> fst (written (transferFromRow t)) \<Longrightarrow>
      written (transferFromRow t') = written (transferFromRow t)"
begin

text \<open>The value of this request is in the mailbox, unless the mailbox was purged.\<close>

definition holds :: "db \<Rightarrow> bool" where
  "holds db \<longleftrightarrow> transfers_inv db \<and>
     (\<forall>t. transfer_of db tid = Some t \<longrightarrow> written (transferFromRow t) = (True, True))"

lemma shape: "transfers_inv db \<Longrightarrow> transfer_of db tid = Some t \<Longrightarrow> transfer_shape t"
  by (auto simp: transfers_inv_def dest: lookup_by_SomeD)

lemma holds_stays:
  "leads tid t0 db \<Longrightarrow> transfer_shape t0 \<Longrightarrow> written (transferFromRow t0) = (True, True) \<Longrightarrow> holds db"
  using stays [of t0] by (auto simp: holds_def leads_def transfer_le_def)

lemma holds_run:
  assumes "holds db" and "\<forall>x. x \<in> set xs \<longrightarrow> \<not> opens_mailbox tid x"
  shows "holds (transfer_run xs db)"
proof (cases "transfer_of db tid")
  case None
  then have "transfer_of (transfer_run xs db) tid = None"
    using transfer_run_ok [of db xs tid] assms by (auto simp: holds_def transfer_le_def)
  then show ?thesis using transfer_run_ok [of db xs tid] assms by (simp add: holds_def)
next
  case (Some t)
  then have "leads tid t (transfer_run xs db)"
    using assms by (intro leads_run leads_self) (auto simp: holds_def)
  then show ?thesis using Some assms(1) by (intro holds_stays) (auto simp: holds_def shape)
qed

lemma writeOnce_from_holds:
  assumes "relays tid ctx" and "leads tid t0 (database w)" and "transfer_shape t0" and "transfer = transferFromRow t0"
    and "writeOnce_from attempt ctx tid written put transfer w = (Inr r, w')"
  shows "holds (database w')"
  using assms
proof (induction "2 - attempt" arbitrary: attempt t0 w transfer rule: less_induct)
  case less
  let ?now = "clock ctx (2 * attempt + 1)"
  let ?w = "rely ctx (2 * attempt + 1) w"
  note run = less.prems(5) [unfolded writeOnce_from.simps [of attempt]]
  show ?case
  proof (cases "fst (written transfer)")
    case True
    then have "written (transferFromRow t0) = (True, True)" "w' = w"
      using run less.prems(4) by (auto simp: prod_eq_iff split: if_splits)
    then show ?thesis using less.prems(2,3) by (simp add: holds_stays)
  next
    case False
    have lead: "leads tid t0 (database ?w)" using less.prems(1,2) by (rule leads_rely)
    then have inv: "transfers_inv (database ?w)" by (simp add: leads_def)
    obtain a db where p: "put (flt ctx (2 * attempt + 1)) ?now (database ?w) = (a, db)" by fastforce
    from run False have "\<not> Ended transfer ?now" by (auto simp: Let_def split: if_splits)
    with run False p obtain b where a: "a = Inr b" by (cases a) (auto simp: on_db_def Let_def)
    show ?thesis
    proof (cases b)
      case True
      then have "database w' = db" using run False p a \<open>\<not> Ended transfer ?now\<close> by (auto simp: on_db_def Let_def)
      moreover obtain t where "transfer_of db tid = Some t" "written (transferFromRow t) = (True, True)"
        using put_stores [OF inv, of "flt ctx (2 * attempt + 1)" ?now db] p a True by auto
      moreover have "transfers_inv db" using put_ok [OF inv] p by (metis mailboxes_ok_inv snd_conv)
      ultimately show ?thesis by (simp add: holds_def)
    next
      case b: False
      let ?w2 = "rely ctx (2 * attempt + 2) (?w\<lparr>database := db\<rparr>)"
      have "leads tid t0 db"
        using leads_ok [OF lead] put_ok [OF inv] put_none p by (metis snd_conv)
      then have lead2: "leads tid t0 (database ?w2)" using leads_rely [OF less.prems(1)] by simp
      from run False p a b \<open>\<not> Ended transfer ?now\<close> obtain transfer' where attempt: "attempt = 0"
        and get: "repo_GetTransfer (flt ctx (2 * attempt + 2)) tid (database ?w2) = Inr transfer'"
        and again: "writeOnce_from 1 ctx tid written put transfer' ?w2 = (Inr r, w')"
        by (auto simp: on_db_def Let_def split: if_splits sum.splits)
      from get obtain t where t: "transfer_of (database ?w2) tid = Some t" "transfer' = transferFromRow t"
        by (auto simp: repo_GetTransfer_def q_GetTransfer_def lookup_by_def split: if_splits option.splits)
      have "transfers_inv (database ?w2)" using lead2 by (simp add: leads_def)
      then show ?thesis
        using less.hyps [of 1 t ?w2 transfer'] attempt again t less.prems(1) by (simp add: leads_self shape)
    qed
  qed
qed

end

text \<open>One row was updated: it is the row of the mailbox.\<close>

lemma one_row_updated:
  assumes "transfers_inv db" and "length (filter P (code_transfers db)) = 1"
    and "\<And>t. P t \<Longrightarrow> ct_TransferID t = tid"
  shows "\<exists>t. transfer_of db tid = Some t \<and> P t"
proof -
  from assms(2) obtain t where "t \<in> set (filter P (code_transfers db))"
    by (metis length_greater_0_conv list.set_sel(1) zero_less_one)
  then have "t \<in> set (code_transfers db)" "P t" "ct_TransferID t = tid" using assms(3) by auto
  then show ?thesis using assms(1) lookup_by_in [of ct_TransferID "code_transfers db" t]
    by (auto simp: transfers_inv_def)
qed

lemma mailbox_leD:
  "mailbox_le t t' \<Longrightarrow> once (ct_AnswerShare t) (ct_AnswerShare t') \<and>
     once (ct_AnswerConfirmation t) (ct_AnswerConfirmation t') \<and> once (ct_Delivery t) (ct_Delivery t') \<and>
     ct_SenderTokenHash t' = ct_SenderTokenHash t"
  by (simp add: mailbox_le_def)

interpretation answer_leg: leg tid "answer_written share confirmation"
    "\<lambda>fl now. repo_AnswerTransfer fl tid share confirmation now" for tid share confirmation
proof
  fix db fl now db'
  assume inv: "transfers_inv db" and put: "repo_AnswerTransfer fl tid share confirmation now db = (Inr True, db')"
  then have "length (filter (answerable tid now) (code_transfers db)) = 1"
    and db': "db' = snd (q_AnswerTransfer share confirmation tid now db)"
    by (auto simp: repo_AnswerTransfer_def autocommit_def q_AnswerTransfer_def update_transfers_def split: fate.splits)
  then obtain t where "transfer_of db tid = Some t" "answerable tid now t"
    using one_row_updated [OF inv, of "answerable tid now" tid] by (auto simp: answerable_def)
  then show "\<exists>t. transfer_of db' tid = Some t \<and> answer_written share confirmation (transferFromRow t) = (True, True)"
    by (simp add: db' q_AnswerTransfer_def answer.transfer_of_update answer.upd_def answer_written_def
        transferFromRow_def Answered_def slice_def)
next
  fix db fl now
  show "transfers_inv db \<Longrightarrow> mailboxes_ok db (snd (repo_AnswerTransfer fl tid share confirmation now db))"
    by (rule repo_Answer_Deliver_ok)
  show "transfer_of db tid = None \<Longrightarrow> transfer_of (snd (repo_AnswerTransfer fl tid share confirmation now db)) tid = None"
    using repo_transfer_db(2) [of fl tid share confirmation now db] by auto
next
  fix t t'
  assume "mailbox_le t t'" "transfer_shape t" "fst (answer_written share confirmation (transferFromRow t))"
  then have "ct_AnswerShare t' = ct_AnswerShare t" "ct_AnswerConfirmation t' = ct_AnswerConfirmation t"
    by (auto simp: answer_written_def transferFromRow_def Answered_def transfer_shape_def once_def
        dest!: mailbox_leD)
  then show "answer_written share confirmation (transferFromRow t') = answer_written share confirmation (transferFromRow t)"
    by (simp add: answer_written_def transferFromRow_def Answered_def)
qed

interpretation delivery_leg: leg tid "delivery_written sealed"
    "\<lambda>fl now. repo_DeliverTransfer fl tid sealed now" for tid sealed
proof
  fix db fl now db'
  assume inv: "transfers_inv db" and put: "repo_DeliverTransfer fl tid sealed now db = (Inr True, db')"
  then have "length (filter (deliverable tid now) (code_transfers db)) = 1"
    and db': "db' = snd (q_DeliverTransfer sealed now tid db)"
    by (auto simp: repo_DeliverTransfer_def autocommit_def q_DeliverTransfer_def update_transfers_def split: fate.splits)
  then obtain t where "transfer_of db tid = Some t" "deliverable tid now t"
    using one_row_updated [OF inv, of "deliverable tid now" tid] by (auto simp: deliverable_def)
  then show "\<exists>t. transfer_of db' tid = Some t \<and> delivery_written sealed (transferFromRow t) = (True, True)"
    unfolding db' q_DeliverTransfer_def deliver.transfer_of_update deliver.upd_def
    by (simp add: delivery_written_def transferFromRow_def Delivered_def slice_def close_row_def)
next
  fix db fl now
  show "transfers_inv db \<Longrightarrow> mailboxes_ok db (snd (repo_DeliverTransfer fl tid sealed now db))"
    by (rule repo_Answer_Deliver_ok)
  show "transfer_of db tid = None \<Longrightarrow> transfer_of (snd (repo_DeliverTransfer fl tid sealed now db)) tid = None"
    using repo_transfer_db(3) [of fl tid sealed now db] by auto
next
  fix t t'
  show "mailbox_le t t' \<Longrightarrow> transfer_shape t \<Longrightarrow> fst (delivery_written sealed (transferFromRow t)) \<Longrightarrow>
      delivery_written sealed (transferFromRow t') = delivery_written sealed (transferFromRow t)"
    by (auto simp: delivery_written_def transferFromRow_def Delivered_def once_def dest!: mailbox_leD)
qed

section \<open>What is posted arrives\<close>

lemma authenticateTransfer_InrD:
  assumes "authenticateTransfer ctx req side w = (Inr transfer, w1)"
  shows "w1 = rely ctx 0 w"
    "\<exists>t. transfer_of (database w1) (param req ''transferID'') = Some t \<and> transfer = transferFromRow t"
  using assms
  by (auto simp: authenticateTransfer_def repo_GetTransfer_def q_GetTransfer_def lookup_by_def Let_def
      split: if_splits sum.splits option.splits)

lemma transferFromRow_id [simp]: "t_TransferID (transferFromRow t) = ct_TransferID t"
  by (simp add: transferFromRow_def)

text \<open>A request of one side of the mailbox: the transfer id in the path and a token of that side.\<close>

definition side_request :: "request \<Rightarrow> string \<Rightarrow> string \<Rightarrow> bool" where
  "side_request req tid token \<longleftrightarrow>
     param req ''transferID'' = tid \<and> ValidToken tid \<and>
     header req ''Authorization'' = ''Bearer '' @ token \<and> ValidToken token"

lemma side_request_bearer: "side_request req tid token \<Longrightarrow> bearerToken (header req ''Authorization'') = Inr token"
  by (auto simp: side_request_def bearerToken_iff ValidToken_def isUnpaddedBase64URL_iff b64_val_def)

lemma await_leg_ready:
  assumes "alone ctx" and "flt ctx = (\<lambda>_. no_faults)" and "side_request req tid token"
    and t: "transfer_of (database w) tid = Some t" and ready: "ready (transferFromRow t)"
    and side: "side = TransferSideSender \<and> TokenHash token = ct_SenderTokenHash t \<or>
      side = TransferSideReceiver \<and> TokenHash token \<noteq> ct_SenderTokenHash t \<and>
        ct_ReceiverTokenHash t = Some (TokenHash token)"
  shows "await_leg ctx wakes req side ready found w = Some (Inr (JSON 200 (found (transferFromRow t))), w)"
proof -
  have "ct_TransferID t = tid" using t by (auto dest: lookup_by_SomeD)
  have get: "repo_GetTransfer no_faults tid (database w) = Inr (transferFromRow t)"
    using t by (simp add: repo_GetTransfer_def q_GetTransfer_def lookup_by_def)
  have "authenticateTransfer ctx req side w = (Inr (transferFromRow t), w)"
    using assms(1-3) get side side_request_bearer [OF assms(3)]
    by (auto simp: authenticateTransfer_def side_request_def Claimed_def transferFromRow_def transfer_consts)
  moreover have "await ctx wakes tid ready w = Some (Inr (Some (transferFromRow t)), w)"
    using assms(1,2) get ready by (simp add: await_def await_from.simps)
  ultimately show ?thesis using \<open>ct_TransferID t = tid\<close> by (simp add: await_leg_def)
qed

context leg begin

text \<open>A leg that was posted is what any later reader of the mailbox sees.\<close>

lemma posted:
  assumes inv: "transfers_inv (database w)" and rel: "relays tid ctx"
    and auth: "authenticateTransfer ctx req side w = (Inr transfer, w1)" "param req ''transferID'' = tid"
    and wr: "writeOnce ctx transfer written put w1 = (Inr r, w')"
    and run: "database w2 = transfer_run xs (database w')" "\<forall>x. x \<in> set xs \<longrightarrow> \<not> opens_mailbox tid x"
    and kept: "transfer_of (database w2) tid = Some t"
  shows "written (transferFromRow t) = (True, True)"
proof -
  from authenticateTransfer_InrD [OF auth(1)] auth(2) obtain t0
    where t0: "transfer_of (database w1) tid = Some t0" "transfer = transferFromRow t0" and w1: "w1 = rely ctx 0 w"
    by auto
  have id: "t_TransferID transfer = tid" using t0 by (auto dest: lookup_by_SomeD)
  have inv1: "transfers_inv (database w1)"
    using rel transfer_run_ok [OF inv] unfolding w1 relays_def by metis
  have "holds (database w')"
    using writeOnce_from_holds [OF rel leads_self [OF inv1 t0(1)]] shape [OF inv1 t0(1)] t0(2)
      wr [unfolded writeOnce_def id] by blast
  from holds_run [OF this run(2)] kept run(1) show ?thesis by (simp add: holds_def)
qed

end

lemma authenticateTransfer_id:
  assumes "authenticateTransfer ctx req side w = (Inr transfer, w1)"
  shows "t_TransferID transfer = param req ''transferID''"
  using authenticateTransfer_InrD [OF assms] by (auto dest: lookup_by_SomeD)

text \<open>
  Property C28. The answer reaches the sender: once PostAnswer has said 204, whatever other requests
  do to the relay meanwhile and afterwards, the sender's long-poll is answered at once with exactly
  the share and the confirmation that were posted, even after the transfer closed, for as long
  as its mailbox is kept.
\<close>

theorem posted_answer_reaches_sender:
  assumes inv: "transfers_inv (database w)" and rel: "relays tid ctx"
    and post: "handle_PostAnswer bind ctx req w = (Inr r, w')" "param req ''transferID'' = tid" "bind req = Some ar"
      "decodeTransferValue (ar_Share ar) TransferShareBytes = Inr share"
      "decodeTransferValue (ar_Confirmation ar) TransferConfirmationBytes = Inr confirmation"
    and run: "database w2 = transfer_run xs (database w')" "\<forall>x. x \<in> set xs \<longrightarrow> \<not> opens_mailbox tid x"
    and kept: "transfer_of (database w2) tid = Some t"
    and later: "alone ctx2" "flt ctx2 = (\<lambda>_. no_faults)" "side_request req2 tid token"
      "TokenHash token = ct_SenderTokenHash t"
  shows "handle_AwaitAnswer wakes ctx2 req2 w2 =
     Some (Inr (JSON 200 (JObj [(''share'', JStr (encodeTransferValue share)),
                                (''confirmation'', JStr (encodeTransferValue confirmation))])), w2)"
proof -
  from post obtain transfer w1 where auth: "authenticateTransfer ctx req TransferSideReceiver w = (Inr transfer, w1)"
    and wr: "writeOnce ctx transfer (answer_written share confirmation)
      (\<lambda>fl now. repo_AnswerTransfer fl (t_TransferID transfer) share confirmation now) w1 = (Inr r, w')"
    by (auto simp: handle_PostAnswer_def split: prod.splits sum.splits)
  have id: "t_TransferID transfer = tid" using authenticateTransfer_id [OF auth] post(2) by simp
  have "answer_written share confirmation (transferFromRow t) = (True, True)"
    by (rule answer_leg.posted [OF inv rel auth post(2) wr [unfolded id] run kept])
  then show ?thesis
    using later kept by (subst handle_AwaitAnswer_def, subst await_leg_ready) (auto simp: answer_written_def)
qed

text \<open>
  Property C29. The sealed link reaches the receiver: once PostDelivery has said 204, the receiver's
  long-poll is answered at once with exactly the bytes that were posted, although storing them
  closed the transfer, whatever other requests do to the relay meanwhile and afterwards.
\<close>

theorem posted_delivery_reaches_receiver:
  assumes inv: "transfers_inv (database w)" and rel: "relays tid ctx"
    and post: "handle_PostDelivery bind ctx req w = (Inr r, w')" "param req ''transferID'' = tid" "bind req = Some dr"
      "decodeTransferValue (dr_Sealed dr) TransferDeliveryBytes = Inr sealed"
    and run: "database w2 = transfer_run xs (database w')" "\<forall>x. x \<in> set xs \<longrightarrow> \<not> opens_mailbox tid x"
    and kept: "transfer_of (database w2) tid = Some t"
    and later: "alone ctx2" "flt ctx2 = (\<lambda>_. no_faults)" "side_request req2 tid token"
      "ct_ReceiverTokenHash t = Some (TokenHash token)" "TokenHash token \<noteq> ct_SenderTokenHash t"
  shows "handle_AwaitDelivery wakes ctx2 req2 w2 =
     Some (Inr (JSON 200 (JObj [(''sealed'', JStr (encodeTransferValue sealed))])), w2)"
proof -
  from post obtain transfer w1 where auth: "authenticateTransfer ctx req TransferSideSender w = (Inr transfer, w1)"
    and wr: "writeOnce ctx transfer (delivery_written sealed)
      (\<lambda>fl now. repo_DeliverTransfer fl (t_TransferID transfer) sealed now) w1 = (Inr r, w')"
    by (auto simp: handle_PostDelivery_def split: prod.splits sum.splits)
  have id: "t_TransferID transfer = tid" using authenticateTransfer_id [OF auth] post(2) by simp
  have "delivery_written sealed (transferFromRow t) = (True, True)"
    by (rule delivery_leg.posted [OF inv rel auth post(2) wr [unfolded id] run kept])
  then show ?thesis
    using later kept by (subst handle_AwaitDelivery_def, subst await_leg_ready) (auto simp: delivery_written_def)
qed

section \<open>A poll ends\<close>

lemma await_from_ends:
  assumes "deadline \<le> clock ctx (2 * n + 2)" and "i \<le> n"
  shows "\<exists>x. await_from i ctx wakes transferID ready deadline w = Some x"
  using assms(2)
proof (induction "n - i" arbitrary: i w)
  case 0
  then have "i = n" by simp
  with assms(1) show ?case
    by (subst await_from.simps) (auto simp: Let_def split: sum.split wake.split)
next
  case (Suc m)
  then have "m = n - (i + 1)" "i + 1 \<le> n" by auto
  from Suc.hyps(1) [OF this] show ?case
    by (subst await_from.simps) (auto simp: Let_def split: sum.split wake.split)
qed

text \<open>
  Property C30. No long-poll hangs: however often notifications wake it, a poll has answered by the
  first round in which the clock has reached the end of its 25 seconds, whatever the relay does
  and whatever fails.
\<close>

theorem poll_ends_with_its_window:
  assumes "clock ctx 0 + transferPollWait \<le> clock ctx (2 * n + 2)"
  shows "(\<exists>x. handle_AwaitAnswer wakes ctx req w = Some x) \<and> (\<exists>x. handle_AwaitDelivery wakes ctx req w = Some x)"
proof -
  have "\<exists>x. await ctx wakes tid ready w1 = Some x" for tid ready w1
    unfolding await_def by (rule await_from_ends [OF assms]) simp
  then have "\<exists>x. await_leg ctx wakes req side ready found w = Some x" for side ready found
    unfolding await_leg_def
    by (auto split: prod.split sum.split option.split) (metis option.distinct(1))+
  then show ?thesis by (simp add: handle_AwaitAnswer_def handle_AwaitDelivery_def)
qed

section \<open>Witnesses\<close>

definition relay_mailbox :: CodeTransfer where
  "relay_mailbox = demo_mailbox\<lparr>ct_TransferID := a_token (CHR ''i''),
     ct_SenderTokenHash := TokenHash (a_token (CHR ''s'')),
     ct_ReceiverTokenHash := Some (TokenHash (a_token (CHR ''m'')))\<rparr>"

definition answered_mailbox :: CodeTransfer where
  "answered_mailbox = relay_mailbox\<lparr>ct_AnswerShare := Some (replicate 32 (CHR ''x'')),
     ct_AnswerConfirmation := Some (replicate 32 (CHR ''y''))\<rparr>"

definition relay_world :: "CodeTransfer \<Rightarrow> memory world" where
  "relay_world t = \<lparr>store = empty_memory, database = empty_db\<lparr>code_transfers := [t]\<rparr>, counters = no_metrics\<rparr>"

definition relay_request :: "char \<Rightarrow> request" where
  "relay_request c = \<lparr>param = (\<lambda>_. a_token (CHR ''i'')),
     header = (\<lambda>_. ''Bearer '' @ a_token c), query = (\<lambda>_. []), ContentLength = 0, content = [], content_fails = False\<rparr>"

definition relay_answer :: transferAnswerRequest where
  "relay_answer = \<lparr>ar_Share = EncodeToString (replicate 32 (CHR ''x'')),
     ar_Confirmation = EncodeToString (replicate 32 (CHR ''y''))\<rparr>"

lemma relay_world_facts:
  "transfers_inv (database (relay_world relay_mailbox))" "transfers_inv (database (relay_world answered_mailbox))"
  "transfer_of (database (relay_world t)) k = (if ct_TransferID t = k then Some t else None)"
  by (simp_all add: relay_world_def empty_db_def transfers_inv_def transfer_shape_def relay_mailbox_def
      answered_mailbox_def demo_mailbox_def)

lemma relay_requests:
  "side_request (relay_request (CHR ''s'')) (a_token (CHR ''i'')) (a_token (CHR ''s''))"
  "side_request (relay_request (CHR ''m'')) (a_token (CHR ''i'')) (a_token (CHR ''m''))"
  using a_token_valid [of "CHR ''i''"] a_token_valid [of "CHR ''s''"] a_token_valid [of "CHR ''m''"]
  by (simp_all add: side_request_def relay_request_def b64_val_def)

lemma relay_tokens: "TokenHash (a_token (CHR ''m'')) \<noteq> TokenHash (a_token (CHR ''s''))"
  using TokenHash_differ by (simp add: a_token_def)

lemma relay_auth:
  assumes "side = TransferSideSender \<and> c = CHR ''s'' \<or> side = TransferSideReceiver \<and> c = CHR ''m''"
    and "ct_TransferID t = a_token (CHR ''i'')" "ct_SenderTokenHash t = TokenHash (a_token (CHR ''s''))"
      "ct_ReceiverTokenHash t = Some (TokenHash (a_token (CHR ''m'')))"
  shows "authenticateTransfer (quiet k) (relay_request c) side (relay_world t) = (Inr (transferFromRow t), relay_world t)"
proof -
  have get: "repo_GetTransfer no_faults (a_token (CHR ''i'')) (database (relay_world t)) = Inr (transferFromRow t)"
    using assms(2) relay_world_facts(3) [where t = t and k = "a_token (CHR ''i'')"]
    by (simp add: repo_GetTransfer_def q_GetTransfer_def lookup_by_def)
  have "side_request (relay_request c) (a_token (CHR ''i'')) (a_token c)" using assms(1) relay_requests by auto
  with side_request_bearer [OF this] get assms relay_tokens show ?thesis
    by (auto simp: authenticateTransfer_def side_request_def Claimed_def transferFromRow_def transfer_consts)
qed

lemma relay_rows [simp]:
  "ct_TransferID relay_mailbox = a_token (CHR ''i'')" "ct_TransferID answered_mailbox = a_token (CHR ''i'')"
  "ct_SenderTokenHash relay_mailbox = TokenHash (a_token (CHR ''s''))"
  "ct_SenderTokenHash answered_mailbox = TokenHash (a_token (CHR ''s''))"
  "ct_ReceiverTokenHash relay_mailbox = Some (TokenHash (a_token (CHR ''m'')))"
  "ct_ReceiverTokenHash answered_mailbox = Some (TokenHash (a_token (CHR ''m'')))"
  by (simp_all add: relay_mailbox_def answered_mailbox_def)

lemma relay_post_answer:
  "\<exists>r w'. handle_PostAnswer (\<lambda>_. Some relay_answer) (quiet 5) (relay_request (CHR ''m'')) (relay_world relay_mailbox) =
     (Inr r, w') \<and> transfer_of (database w') (a_token (CHR ''i'')) = Some answered_mailbox"
proof -
  have put: "repo_AnswerTransfer no_faults (a_token (CHR ''i'')) (replicate 32 (CHR ''x'')) (replicate 32 (CHR ''y'')) 5
      (database (relay_world relay_mailbox)) =
      (Inr True, (database (relay_world answered_mailbox))\<lparr>notified := [a_token (CHR ''i'')]\<rparr>)"
    by (simp add: repo_AnswerTransfer_def q_AnswerTransfer_def update_transfers_def answerable_def transfer_active_def
        relay_world_def empty_db_def answered_mailbox_def relay_mailbox_def demo_mailbox_def)
  have "\<not> Answered (transferFromRow relay_mailbox)" "\<not> Ended (transferFromRow relay_mailbox) 5"
    by (simp_all add: Answered_def Ended_def transferFromRow_def relay_mailbox_def demo_mailbox_def)
  then show ?thesis
    using relay_auth [of TransferSideReceiver "CHR ''m''" relay_mailbox 5] put relay_world_facts(3)
    by (simp add: handle_PostAnswer_def relay_answer_def decodeTransferValue_def decode_encode transfer_sizes
        writeOnce_def writeOnce_from.simps [of 0] answer_written_def on_db_def)
qed

theorem posted_answer_reaches_sender_witness:
  "\<exists>w2. handle_AwaitAnswer (\<lambda>_. TimerFired) (quiet 6) (relay_request (CHR ''s'')) w2 =
     Some (Inr (JSON 200 (JObj [(''share'', JStr (encodeTransferValue (replicate 32 (CHR ''x'')))),
                                (''confirmation'', JStr (encodeTransferValue (replicate 32 (CHR ''y''))))])), w2)"
proof -
  obtain r w' where post: "handle_PostAnswer (\<lambda>_. Some relay_answer) (quiet 5) (relay_request (CHR ''m''))
      (relay_world relay_mailbox) = (Inr r, w')" and row: "transfer_of (database w') (a_token (CHR ''i'')) = Some answered_mailbox"
    using relay_post_answer by auto
  have "decodeTransferValue (ar_Share relay_answer) TransferShareBytes = Inr (replicate 32 (CHR ''x''))"
    "decodeTransferValue (ar_Confirmation relay_answer) TransferConfirmationBytes = Inr (replicate 32 (CHR ''y''))"
    by (simp_all add: relay_answer_def decodeTransferValue_def decode_encode transfer_sizes)
  from posted_answer_reaches_sender [OF relay_world_facts(1) alone_relays post _ _ this, where xs = "[]",
      OF quiet_simps(1) _ _ _ _ row quiet_simps(1) _ relay_requests(1)]
  show ?thesis by (auto simp: relay_request_def fun_eq_iff)
qed

lemma relay_post_delivery:
  "\<exists>r w'. handle_PostDelivery (\<lambda>_. Some \<lparr>dr_Sealed = EncodeToString (replicate 552 (CHR ''z''))\<rparr>) (quiet 5)
       (relay_request (CHR ''s'')) (relay_world answered_mailbox) = (Inr r, w') \<and>
     (\<exists>t. transfer_of (database w') (a_token (CHR ''i'')) = Some t \<and>
        ct_ReceiverTokenHash t = Some (TokenHash (a_token (CHR ''m''))) \<and>
        ct_SenderTokenHash t = TokenHash (a_token (CHR ''s'')))"
proof -
  have "fst (q_DeliverTransfer sealed 5 (a_token (CHR ''i'')) (database (relay_world answered_mailbox))) = 1" for sealed
    by (simp add: q_DeliverTransfer_def update_transfers_def deliverable_def transfer_active_def
        relay_world_def empty_db_def answered_mailbox_def relay_mailbox_def demo_mailbox_def)
  then obtain db where put: "repo_DeliverTransfer no_faults (a_token (CHR ''i'')) (replicate 552 (CHR ''z'')) 5
      (database (relay_world answered_mailbox)) = (Inr True, db)"
    and db: "db = snd (q_DeliverTransfer (replicate 552 (CHR ''z'')) 5 (a_token (CHR ''i'')) (database (relay_world answered_mailbox)))"
    by (simp add: repo_DeliverTransfer_def split_beta)
  have "\<not> Delivered (transferFromRow answered_mailbox)" "\<not> Ended (transferFromRow answered_mailbox) 5"
    by (simp_all add: Delivered_def Ended_def transferFromRow_def answered_mailbox_def relay_mailbox_def demo_mailbox_def)
  moreover have "\<exists>t. transfer_of db (a_token (CHR ''i'')) = Some t \<and>
        ct_ReceiverTokenHash t = Some (TokenHash (a_token (CHR ''m''))) \<and>
        ct_SenderTokenHash t = TokenHash (a_token (CHR ''s''))"
    using relay_world_facts(3) [where t = answered_mailbox and k = "a_token (CHR ''i'')"]
    unfolding db q_DeliverTransfer_def deliver.transfer_of_update deliver.upd_def
    by (simp add: close_row_def)
  ultimately show ?thesis
    using relay_auth [of TransferSideSender "CHR ''s''" answered_mailbox 5] put
    by (simp add: handle_PostDelivery_def decodeTransferValue_def decode_encode transfer_sizes
        writeOnce_def writeOnce_from.simps [of 0] delivery_written_def on_db_def)
qed

theorem posted_delivery_reaches_receiver_witness:
  "\<exists>w2. handle_AwaitDelivery (\<lambda>_. TimerFired) (quiet 6) (relay_request (CHR ''m'')) w2 =
     Some (Inr (JSON 200 (JObj [(''sealed'', JStr (encodeTransferValue (replicate 552 (CHR ''z''))))])), w2)"
proof -
  obtain r w' t where post: "handle_PostDelivery (\<lambda>_. Some \<lparr>dr_Sealed = EncodeToString (replicate 552 (CHR ''z''))\<rparr>)
      (quiet 5) (relay_request (CHR ''s'')) (relay_world answered_mailbox) = (Inr r, w')"
    and row: "transfer_of (database w') (a_token (CHR ''i'')) = Some t"
    and t: "ct_ReceiverTokenHash t = Some (TokenHash (a_token (CHR ''m'')))"
      "ct_SenderTokenHash t = TokenHash (a_token (CHR ''s''))"
    using relay_post_delivery by auto
  have "decodeTransferValue (dr_Sealed \<lparr>dr_Sealed = EncodeToString (replicate 552 (CHR ''z''))\<rparr>) TransferDeliveryBytes =
      Inr (replicate 552 (CHR ''z''))"
    by (simp add: decodeTransferValue_def decode_encode transfer_sizes)
  from posted_delivery_reaches_receiver [OF relay_world_facts(2) alone_relays post _ _ this, where xs = "[]",
      OF quiet_simps(1) _ _ _ _ row quiet_simps(1) _ relay_requests(2) t(1)] relay_tokens
  show ?thesis by (auto simp: relay_request_def fun_eq_iff t(2))
qed

theorem poll_ends_with_its_window_witness:
  "\<exists>x. handle_AwaitAnswer (\<lambda>_. Changed) ((quiet 0)\<lparr>clock := \<lambda>i. int i * time_Second\<rparr>)
     (relay_request (CHR ''s'')) (relay_world relay_mailbox) = Some x"
  using poll_ends_with_its_window [where n = 12 and ctx = "(quiet 0)\<lparr>clock := \<lambda>i. int i * time_Second\<rparr>"]
  by (simp add: transferPollWait_def duration_defs)

text \<open>
  The base64 decoder skips line breaks, so a value that is not unpadded base64url, although the
  error messages ask for it, is accepted.
\<close>

lemma transfer_value_with_newline:
  "decodeTransferValue (CHR 0x0A # ''AAAA'') 3 = Inr [CHR 0x00, CHR 0x00, CHR 0x00] \<and>
   \<not> isUnpaddedBase64URL (CHR 0x0A # ''AAAA'')"
  by code_simp

end
