(* ===== verification/Cleanup.thy ===== *)
theory Cleanup
  imports Server Secret_Trace Upload_Life
begin

text \<open>
  \<open>internal/cleanup/worker.go\<close>: one cycle of the cleanup worker. \<open>cancelled i\<close> says whether the time
  limit of the cycle has passed before batch \<open>i\<close>, \<open>locked i\<close> which rows other transactions hold then.
\<close>

section \<open>The worker\<close>

definition finishedUploadRetention :: duration where "finishedUploadRetention = time_Hour"
definition endedTransferRetention :: duration where "endedTransferRetention = time_Minute"
definition batchSize :: int where "batchSize = 100"

text \<open>
  The loop of \<open>drainBatches\<close> from batch \<open>i\<close> on with the rows removed so far. A batch that fails reports
  an empty result. \<open>None\<close> is a loop that never ends.
\<close>

partial_function (option) drain_from ::
    "nat \<Rightarrow> (nat \<Rightarrow> bool) \<Rightarrow> (nat \<Rightarrow> 'w \<Rightarrow> (err + CleanupBatch) \<times> 'w) \<Rightarrow> nat \<Rightarrow> 'w \<Rightarrow>
       ((nat \<times> err option) \<times> 'w) option" where
  "drain_from i cancelled batch removed w =
     (if cancelled i then Some ((removed, None), w)
      else
        (case batch i w of
           (Inl e, w1) \<Rightarrow> Some ((removed, Some e), w1)
         | (Inr result, w1) \<Rightarrow>
             (if int (Found result) < batchSize \<or> Removed result = 0
              then Some ((removed + Removed result, None), w1)
              else drain_from (i + 1) cancelled batch (removed + Removed result) w1)))"

definition drainBatches ::
    "(nat \<Rightarrow> bool) \<Rightarrow> (nat \<Rightarrow> 'w \<Rightarrow> (err + CleanupBatch) \<times> 'w) \<Rightarrow> 'w \<Rightarrow> ((nat \<times> err option) \<times> 'w) option" where
  "drainBatches cancelled batch = drain_from 0 cancelled batch 0"

text \<open>The callbacks on the object store, which report whether they succeeded.\<close>

definition abortUpload :: "'s s3api \<Rightarrow> UploadSession \<Rightarrow> 's \<Rightarrow> bool \<times> 's" where
  "abortUpload api session st =
     (case s3_AbortMultipartUpload api (u_StorageKey session) (u_S3UploadID session) st of
        (Some e, st1) \<Rightarrow> (False, st1)
      | (None, st1) \<Rightarrow>
          (case s3_Delete api (u_StorageKey session) st1 of
             (Some e, st2) \<Rightarrow> (False, st2)
           | (None, st2) \<Rightarrow> (True, st2)))"

definition beforeDelete :: "'s s3api \<Rightarrow> string \<Rightarrow> 's \<Rightarrow> bool \<times> 's" where
  "beforeDelete api storageKey st =
     (case s3_Delete api storageKey st of (Some e, st1) \<Rightarrow> (False, st1) | (None, st1) \<Rightarrow> (True, st1))"

definition abort_batch ::
    "'s env \<Rightarrow> (nat \<Rightarrow> string \<Rightarrow> bool) \<Rightarrow> time \<Rightarrow> nat \<Rightarrow> 's world \<Rightarrow> (err + CleanupBatch) \<times> 's world" where
  "abort_batch ctx locked now i w =
     on_both (repo_AbortExpiredUploadSessions (flt ctx (2 * i + 4)) (locked (2 * i + 4))
                (abortUpload (s3 ctx)) now batchSize) (rely ctx (2 * i + 4) w)"

definition delete_batch ::
    "'s env \<Rightarrow> (nat \<Rightarrow> string \<Rightarrow> bool) \<Rightarrow> time \<Rightarrow> nat \<Rightarrow> 's world \<Rightarrow> (err + CleanupBatch) \<times> 's world" where
  "delete_batch ctx locked now i w =
     on_both (repo_DeleteExpired (flt ctx (2 * i + 5)) (locked (2 * i + 5))
                (beforeDelete (s3 ctx)) now batchSize) (rely ctx (2 * i + 5) w)"

text \<open>A statement of the cycle whose error is only counted.\<close>

definition counted :: "(err + 'a) \<times> 's world \<Rightarrow> 's world" where
  "counted r =
     (case r of
        (Inl e, w) \<Rightarrow> count (\<lambda>m. m\<lparr>CleanupErrors := CleanupErrors m + 1\<rparr>) w
      | (Inr _, w) \<Rightarrow> w)"

definition count_error :: "err option \<Rightarrow> 's world \<Rightarrow> 's world" where
  "count_error e w =
     (case e of None \<Rightarrow> w | Some _ \<Rightarrow> count (\<lambda>m. m\<lparr>CleanupErrors := CleanupErrors m + 1\<rparr>) w)"

definition runCycle ::
    "'s env \<Rightarrow> (nat \<Rightarrow> bool) \<Rightarrow> (nat \<Rightarrow> string \<Rightarrow> bool) \<Rightarrow> 's world \<Rightarrow> 's world option" where
  "runCycle ctx cancelled locked w =
     (let now = clock ctx 0;
          w1 = counted (on_db (repo_DeleteExpiredRetrievalSessions (flt ctx 0) now) (rely ctx 0 w))
      in (case drainBatches (\<lambda>i. cancelled (2 * i + 4)) (abort_batch ctx locked now) w1 of
            None \<Rightarrow> None
          | Some ((aborted, e), w2) \<Rightarrow>
              (let w3 = count_error e w2;
                   w4 = counted (on_db (repo_DeleteFinishedUploadSessions (flt ctx 1)
                                          (now - finishedUploadRetention)) (rely ctx 1 w3));
                   w5 = counted (on_db (repo_DeleteEndedTransfers (flt ctx 2)
                                          (now - endedTransferRetention)) (rely ctx 2 w4))
               in (case drainBatches (\<lambda>i. cancelled (2 * i + 5)) (delete_batch ctx locked now) w5 of
                     None \<Rightarrow> None
                   | Some ((deleted, e'), w6) \<Rightarrow>
                       (let w7 = (if deleted > 0
                                  then count (\<lambda>m. m\<lparr>SecretsDeleted_cleanup := SecretsDeleted_cleanup m + deleted\<rparr>) w6
                                  else w6);
                            w8 = count_error e' w7
                        in Some (counted (on_db (repo_DeleteExpiredTombstones (flt ctx 3) now)
                                            (rely ctx 3 w8))))))))"

text \<open>\<open>Run\<close>: one cycle per tick until the context is done. What a cycle meets comes with its tick.\<close>

record 's tick =
  tick_env :: "'s env"
  tick_cancelled :: "nat \<Rightarrow> bool"
  tick_locked :: "nat \<Rightarrow> string \<Rightarrow> bool"

fun worker_Run :: "'s tick list \<Rightarrow> 's world \<Rightarrow> 's world option" where
  "worker_Run [] w = Some w"
| "worker_Run (t # ticks) w =
     (case runCycle (tick_env t) (tick_cancelled t) (tick_locked t) w of None \<Rightarrow> None | Some w1 \<Rightarrow> worker_Run ticks w1)"

section \<open>Draining\<close>

text \<open>
  What \<open>drainBatches\<close> relies on: a backlog that no batch makes longer and that shrinks by every row a
  batch removes.
\<close>

locale drain =
  fixes batch :: "nat \<Rightarrow> 'w \<Rightarrow> (err + CleanupBatch) \<times> 'w"
    and backlog :: "'w \<Rightarrow> nat" and good :: "'w \<Rightarrow> bool"
  assumes batch_good: "good w \<Longrightarrow> good (snd (batch i w))"
    and batch_works: "good w \<Longrightarrow> batch i w = (Inr r, w1) \<Longrightarrow> backlog w1 + Removed r = backlog w"
    and batch_fails: "good w \<Longrightarrow> batch i w = (Inl e, w1) \<Longrightarrow> backlog w1 \<le> backlog w"
    and batch_found: "good w \<Longrightarrow> batch i w = (Inr r, w1) \<Longrightarrow> Removed r \<le> Found r"
begin

lemma ends:
  "good w \<Longrightarrow> \<exists>n e w1. drain_from i cancelled batch removed w = Some ((n, e), w1) \<and> good w1 \<and>
     removed \<le> n \<and> backlog w1 + (n - removed) \<le> backlog w \<and> (e = None \<longrightarrow> backlog w1 + (n - removed) = backlog w)"
proof (induction "backlog w" arbitrary: i removed w rule: less_induct)
  case less
  show ?case
  proof (cases "cancelled i")
    case True
    then show ?thesis using less.prems by (subst drain_from.simps) simp
  next
    case False
    obtain r w1 where b: "batch i w = (r, w1)" by fastforce
    have g: "good w1" using batch_good [OF less.prems, of i] b by simp
    show ?thesis
    proof (cases r)
      case (Inl e)
      then show ?thesis using False b g batch_fails [OF less.prems, of i e w1]
        by (subst drain_from.simps) simp
    next
      case (Inr res)
      have shrinks: "backlog w1 + Removed res = backlog w" using batch_works [OF less.prems] b Inr by simp
      show ?thesis
      proof (cases "int (Found res) < batchSize \<or> Removed res = 0")
        case True
        then show ?thesis using False b Inr g shrinks by (subst drain_from.simps) auto
      next
        case more: False
        then have "backlog w1 < backlog w" using shrinks by simp
        from less.hyps [OF this g, of "i + 1" "removed + Removed res"] obtain n e w2
          where rec: "drain_from (i + 1) cancelled batch (removed + Removed res) w1 = Some ((n, e), w2)" "good w2"
            "removed + Removed res \<le> n" "backlog w2 + (n - (removed + Removed res)) \<le> backlog w1"
            "e = None \<longrightarrow> backlog w2 + (n - (removed + Removed res)) = backlog w1" by blast
        have "drain_from i cancelled batch removed w = Some ((n, e), w2)"
          using False b Inr more rec(1) by (subst drain_from.simps) simp
        moreover have "backlog w2 + (n - removed) \<le> backlog w" using rec(3,4) shrinks by linarith
        moreover have "e = None \<longrightarrow> backlog w2 + (n - removed) = backlog w" using rec(3,5) shrinks by linarith
        ultimately show ?thesis using rec(2,3) by auto
      qed
    qed
  qed
qed

end

text \<open>When nothing stands in the way, every batch takes a full share of the backlog.\<close>

locale drain_clears = drain +
  assumes batch_full: "good w \<Longrightarrow> \<exists>r w1. batch i w = (Inr r, w1) \<and> Removed r = min 100 (backlog w) \<and>
      Found r = min 100 (backlog w)"
begin

lemma clears:
  "good w \<Longrightarrow> \<exists>w1. drain_from i (\<lambda>_. False) batch removed w = Some ((removed + backlog w, None), w1) \<and>
     good w1 \<and> backlog w1 = 0"
proof (induction "backlog w" arbitrary: i removed w rule: less_induct)
  case less
  obtain r w1 where b: "batch i w = (Inr r, w1)" "Removed r = min 100 (backlog w)" "Found r = min 100 (backlog w)"
    using batch_full [OF less.prems, of i] by blast
  have g: "good w1" using batch_good [OF less.prems, of i] b by simp
  have shrinks: "backlog w1 + Removed r = backlog w" using batch_works [OF less.prems b(1)] .
  show ?case
  proof (cases "backlog w < 100")
    case True
    then show ?thesis using b g shrinks by (subst drain_from.simps) (simp add: batchSize_def)
  next
    case False
    then have "backlog w1 < backlog w" using shrinks b(2) by simp
    from less.hyps [OF this g, of "i + 1" "removed + Removed r"] show ?thesis
      using b False shrinks by (subst drain_from.simps) (auto simp: batchSize_def add.commute add.left_commute)
  qed
qed

end

section \<open>Secrets that are due\<close>

definition due_secrets :: "time \<Rightarrow> db \<Rightarrow> Secret list" where
  "due_secrets now db = filter (secret_due now db) (secrets db)"

lemma due_after_delete:
  "due_secrets now (delete_secrets P db) = filter (\<lambda>s. \<not> P (s_PublicID s)) (due_secrets now db)"
proof -
  have "secret_due now (delete_secrets P db) s = secret_due now db s" if "\<not> P (s_PublicID s)" for s
    using that by (auto simp: secret_due_def delete_secrets_def)
  then show ?thesis by (auto simp: due_secrets_def delete_secrets_def intro: filter_cong)
qed

lemma due_tombstones [simp]:
  "due_secrets now (q_CreateTombstonesForExpiredSecrets k ids t db) = due_secrets now db"
  "secrets (q_CreateTombstonesForExpiredSecrets k ids t db) = secrets db"
  by (simp_all add: due_secrets_def secret_due_def [abs_def] q_CreateTombstonesForExpiredSecrets_def)

lemma run_callbacks_length: "run_callbacks cb rows st = (ok, st') \<Longrightarrow> length ok \<le> length rows"
  by (induction rows arbitrary: st ok st') (fastforce simp: Let_def split: prod.splits if_splits)+

lemma length_filter_ids: "distinct (map key xs) \<Longrightarrow> length (filter (\<lambda>x. key x \<in> set ids) xs) \<le> length ids"
proof -
  assume "distinct (map key xs)"
  then have "distinct (map key (filter (\<lambda>x. key x \<in> set ids) xs))" by (rule distinct_map_filter)
  then have "length (filter (\<lambda>x. key x \<in> set ids) xs) = card (set (map key (filter (\<lambda>x. key x \<in> set ids) xs)))"
    using distinct_card by fastforce
  also have "\<dots> \<le> card (set ids)" by (intro card_mono) auto
  finally show ?thesis using card_length le_trans by blast
qed

text \<open>A statement that takes rows with the keys \<open>ids\<close> out of the backlog \<open>Q\<close> of a table with distinct keys.\<close>

lemma backlog_shrinks:
  assumes "distinct (map key xs)" and "set ids \<subseteq> key ` set (filter Q xs)"
  shows "length (filter (\<lambda>x. key x \<notin> set ids) (filter Q xs)) + length (filter (\<lambda>x. key x \<in> set ids) xs) =
     length (filter Q xs)"
proof -
  have "Q x" if "x \<in> set xs" "key x \<in> set ids" for x
  proof -
    from that(2) assms(2) obtain y where "y \<in> set xs" "Q y" "key y = key x" by auto
    then show ?thesis using that(1) assms(1) by (auto simp: distinct_map inj_on_def)
  qed
  then have "filter (\<lambda>x. key x \<in> set ids) xs = filter (\<lambda>x. key x \<in> set ids) (filter Q xs)"
    by (auto intro!: filter_cong)
  then show ?thesis using sum_length_filter_compl [of "\<lambda>x. key x \<in> set ids" "filter Q xs"] by simp
qed

lemma repo_DeleteExpired_InrD:
  assumes inv: "secrets_inv (snd w)" and ok: "repo_DeleteExpired fl lk cb now limit w = (Inr r, w')"
  shows "length (due_secrets now (snd w')) + Removed r = length (due_secrets now (snd w))" "Removed r \<le> Found r"
proof -
  let ?rows = "q_SelectSecretsForCleanup lk now (int32 limit) (snd w)"
  obtain okd st where run: "run_callbacks (\<lambda>s. cb (s_StorageKey s)) ?rows (fst w) = (okd, st)" by fastforce
  let ?ids = "map s_PublicID okd"
  have sub: "set ?ids \<subseteq> s_PublicID ` set (due_secrets now (snd w))"
    using run_callbacks_subset [OF run] selected_due by (fastforce simp: due_secrets_def)
  have len: "length ?ids \<le> length ?rows" using run_callbacks_length [OF run] by simp
  note dist = secrets_invD(1) [OF inv]
  have fin: "(Inr r, snd w') = finish_DeleteExpired fl now (length ?rows) ?ids (snd w)"
    using ok run by (auto simp: repo_DeleteExpired_def Let_def split: if_splits prod.splits)
  then have cases: "(?ids = [] \<and> snd w' = snd w \<and> Removed r = 0) \<or>
      (Found r = length ?rows \<and> Removed r = length (filter (\<lambda>s. s_PublicID s \<in> set ?ids) (secrets (snd w))) \<and>
       snd w' = delete_secrets (\<lambda>p. p \<in> set ?ids)
         (q_CreateTombstonesForExpiredSecrets (now + TombstoneRetention) ?ids now (snd w)))"
    by (auto simp: finish_DeleteExpired_def q_DeleteSecretsByPublicIDs_def commit_def Let_def
        split: if_splits fate.splits)
  from cases show "length (due_secrets now (snd w')) + Removed r = length (due_secrets now (snd w))"
    using backlog_shrinks [OF dist, of ?ids "secret_due now (snd w)"] sub
    by (auto simp: due_after_delete due_secrets_def [symmetric])
  show "Removed r \<le> Found r"
    using cases length_filter_ids [OF dist, of ?ids] len by auto
qed

lemma due_backlog_le:
  "length (due_secrets now (snd (snd (repo_DeleteExpired fl lk cb now limit w)))) \<le> length (due_secrets now (snd w))"
  using repo_DeleteExpired_cases [OF refl, of fl lk cb now limit w]
  by (auto simp: due_after_delete)

section \<open>Uploads that ran out\<close>

definition stale_uploads :: "time \<Rightarrow> db \<Rightarrow> UploadSessionRow list" where
  "stale_uploads now db = filter (\<lambda>u. is_pending u \<and> us_UploadExpiresAt u < now) (upload_sessions db)"

lemma stale_after_abort:
  "length (stale_uploads now (snd (q_MarkUploadSessionsAborted t ids db))) =
     length (filter (\<lambda>u. us_SessionID u \<notin> set ids) (stale_uploads now db))"
proof -
  have "length (filter (\<lambda>u. is_pending u \<and> us_UploadExpiresAt u < now)
      (map (\<lambda>u. if us_SessionID u \<in> set ids \<and> is_pending u then mark_aborted t u else u) us)) =
    length (filter (\<lambda>u. us_SessionID u \<notin> set ids) (filter (\<lambda>u. is_pending u \<and> us_UploadExpiresAt u < now) us))" for us
    by (induction us) (auto simp: is_pending_def)
  then show ?thesis
    by (simp add: stale_uploads_def q_MarkUploadSessionsAborted_def update_sessions_def)
qed

lemma listed_stale:
  "u \<in> set (q_ListExpiredUploadSessionsForUpdate lk now n db) \<Longrightarrow> u \<in> set (stale_uploads now db) \<and> \<not> lk (us_SessionID u)"
  by (auto simp: q_ListExpiredUploadSessionsForUpdate_def stale_uploads_def dest: in_set_takeD)

lemma repo_AbortExpired_InrD:
  assumes inv: "uploads_inv (snd w)" and ok: "repo_AbortExpiredUploadSessions fl lk cb now limit w = (Inr r, w')"
  shows "length (stale_uploads now (snd w')) + Removed r = length (stale_uploads now (snd w))" "Removed r \<le> Found r"
proof -
  let ?rows = "q_ListExpiredUploadSessionsForUpdate lk now (int32 limit) (snd w)"
  obtain okd st where run: "run_callbacks cb (map uploadSessionFromRow ?rows) (fst w) = (okd, st)" by fastforce
  let ?ids = "map u_SessionID okd"
  have sub: "set ?ids \<subseteq> us_SessionID ` set (stale_uploads now (snd w))"
  proof
    fix k assume "k \<in> set ?ids"
    then obtain u where "u \<in> set ?rows" "us_SessionID u = k" using run_callbacks_subset [OF run] by auto
    then show "k \<in> us_SessionID ` set (stale_uploads now (snd w))" using listed_stale by blast
  qed
  have len: "length ?ids \<le> length ?rows" using run_callbacks_length [OF run] by simp
  note dist = uploads_inv_ids [OF inv]
  have pend: "filter (\<lambda>u. us_SessionID u \<in> set ?ids \<and> is_pending u) (upload_sessions (snd w)) =
      filter (\<lambda>u. us_SessionID u \<in> set ?ids) (upload_sessions (snd w))"
  proof (rule filter_cong [OF refl])
    fix u assume "u \<in> set (upload_sessions (snd w))"
    then show "(us_SessionID u \<in> set ?ids \<and> is_pending u) = (us_SessionID u \<in> set ?ids)"
      using sub dist by (auto simp: stale_uploads_def distinct_map inj_on_def image_iff subset_iff)
  qed
  have "(Inr r, snd w') = finish_AbortExpired fl now (length ?rows) ?ids (snd w)"
    using ok run by (auto simp: repo_AbortExpiredUploadSessions_def Let_def split: if_splits prod.splits)
  then have cases: "(?ids = [] \<and> snd w' = snd w \<and> Removed r = 0) \<or>
      (Found r = length ?rows \<and> Removed r = length (filter (\<lambda>u. us_SessionID u \<in> set ?ids) (upload_sessions (snd w))) \<and>
       snd w' = snd (q_MarkUploadSessionsAborted now ?ids (snd w)))"
    using pend
    by (auto simp: finish_AbortExpired_def q_MarkUploadSessionsAborted_def commit_def split: if_splits fate.splits)
  from cases show "length (stale_uploads now (snd w')) + Removed r = length (stale_uploads now (snd w))"
    using backlog_shrinks [OF dist, of ?ids "\<lambda>u. is_pending u \<and> us_UploadExpiresAt u < now"] sub
    by (auto simp: stale_after_abort stale_uploads_def [symmetric])
  show "Removed r \<le> Found r"
    using cases length_filter_ids [OF dist, of ?ids] len by auto
qed

lemma stale_backlog_le:
  "length (stale_uploads now (snd (snd (repo_AbortExpiredUploadSessions fl lk cb now limit w)))) \<le>
     length (stale_uploads now (snd w))"
proof -
  have "length (stale_uploads now (snd (finish_AbortExpired fl now n ids db))) \<le> length (stale_uploads now db)" for n ids db
    using stale_after_abort [of now now ids db] length_filter_le [of _ "stale_uploads now db"]
    by (auto simp: finish_AbortExpired_def commit_def split: prod.split fate.split)
  then show ?thesis using repo_AbortExpired_db [of fl lk cb now limit w] by (metis order_refl)
qed

section \<open>What each statement leaves alone\<close>

definition same_secrets :: "db \<Rightarrow> db \<Rightarrow> bool" where
  "same_secrets db db' \<longleftrightarrow>
     secrets db' = secrets db \<and> retrieval_sessions db' = retrieval_sessions db \<and>
     secret_tombstones db' = secret_tombstones db"

definition same_uploads :: "db \<Rightarrow> db \<Rightarrow> bool" where
  "same_uploads db db' \<longleftrightarrow> upload_sessions db' = upload_sessions db \<and> upload_parts db' = upload_parts db"

lemma same_refl [simp]: "same_secrets db db" "same_uploads db db"
  by (simp_all add: same_secrets_def same_uploads_def)

lemma same_secretsD:
  "same_secrets db db' \<Longrightarrow> secrets_inv db' = secrets_inv db \<and> due_secrets now db' = due_secrets now db"
  by (simp add: same_secrets_def secrets_inv_def id_defs due_secrets_def secret_due_def [abs_def])

lemma same_uploadsD:
  "same_uploads db db' \<Longrightarrow> uploads_inv db' = uploads_inv db \<and> stale_uploads now db' = stale_uploads now db"
  using uploads_inv_cong [of db' db] by (simp add: same_uploads_def stale_uploads_def)

lemma frame_commit:
  "R db db \<Longrightarrow> R db db' \<Longrightarrow> R db (snd (commit fl x db db'))"
  "R db db \<Longrightarrow> R db db' \<Longrightarrow> R db (snd (autocommit fl q x db db'))"
  by (simp_all add: commit_def autocommit_def split: fate.split)

lemma frame_singles:
  "same_uploads db (snd (repo_DeleteExpiredRetrievalSessions fl now db))"
  "same_secrets db (snd (repo_DeleteFinishedUploadSessions fl now db))"
  "same_secrets db (snd (repo_DeleteEndedTransfers fl now db))"
  "same_uploads db (snd (repo_DeleteEndedTransfers fl now db))"
  "same_uploads db (snd (repo_DeleteExpiredTombstones fl now db))"
  unfolding repo_DeleteExpiredRetrievalSessions_def repo_DeleteFinishedUploadSessions_def
    repo_DeleteEndedTransfers_def repo_DeleteExpiredTombstones_def
  by (auto simp: q_DeleteExpiredRetrievalSessions_def q_DeleteFinishedUploadSessions_def Let_def
      q_DeleteEndedTransfers_def q_DeleteExpiredTombstones_def same_uploads_def same_secrets_def autocommit_def
      split: fate.split)

lemma due_singles:
  "due_secrets now (snd (repo_DeleteExpiredRetrievalSessions fl now db)) = due_secrets now db"
  "due_secrets now (snd (repo_DeleteExpiredTombstones fl t db)) = due_secrets now db"
proof -
  have "secret_due now (db\<lparr>retrieval_sessions := filter (\<lambda>r. \<not> rs_ExpiresAt r < now) (retrieval_sessions db)\<rparr>) =
      secret_due now db"
    by (rule ext) (auto simp: secret_due_def)
  then show "due_secrets now (snd (repo_DeleteExpiredRetrievalSessions fl now db)) = due_secrets now db"
    by (simp add: repo_DeleteExpiredRetrievalSessions_def q_DeleteExpiredRetrievalSessions_def due_secrets_def
        autocommit_def split: fate.split)
  show "due_secrets now (snd (repo_DeleteExpiredTombstones fl t db)) = due_secrets now db"
    by (simp add: repo_DeleteExpiredTombstones_def q_DeleteExpiredTombstones_def due_secrets_def
        secret_due_def [abs_def] autocommit_def split: fate.split)
qed

lemma stale_finished:
  "length (stale_uploads now (snd (repo_DeleteFinishedUploadSessions fl t db))) \<le> length (stale_uploads now db)"
proof -
  have swap: "filter P (filter Q us) = filter Q (filter P us)" for P Q :: "UploadSessionRow \<Rightarrow> bool" and us
    by (simp add: conj_commute)
  show ?thesis
    by (simp add: repo_DeleteFinishedUploadSessions_def q_DeleteFinishedUploadSessions_def stale_uploads_def Let_def
        autocommit_def swap [of _ "\<lambda>u. \<not> finished_before t u"] del: filter_filter split: fate.split)
qed

lemma same_trans:
  "same_secrets a b \<Longrightarrow> same_secrets b c \<Longrightarrow> same_secrets a c"
  "same_uploads a b \<Longrightarrow> same_uploads b c \<Longrightarrow> same_uploads a c"
  by (simp_all add: same_secrets_def same_uploads_def)

lemma frame_batches:
  "same_uploads (snd w) (snd (snd (repo_DeleteExpired fl lk cb now limit w)))"
  "same_secrets (snd v) (snd (snd (repo_AbortExpiredUploadSessions fl lk ab now limit v)))"
proof -
  have "same_uploads db (delete_secrets P (q_CreateTombstonesForExpiredSecrets k ids now db))" for P k ids db
    by (simp add: same_uploads_def delete_secrets_def q_CreateTombstonesForExpiredSecrets_def)
  then show "same_uploads (snd w) (snd (snd (repo_DeleteExpired fl lk cb now limit w)))"
    using repo_DeleteExpired_cases [OF refl, of fl lk cb now limit w] by auto
  have "same_secrets db (snd (finish_AbortExpired fl now n ids db))" for n ids db
    by (auto simp: finish_AbortExpired_def q_MarkUploadSessionsAborted_def update_sessions_def same_secrets_def
        commit_def split: fate.split)
  then show "same_secrets (snd v) (snd (snd (repo_AbortExpiredUploadSessions fl lk ab now limit v)))"
    using repo_AbortExpired_db [of fl lk ab now limit v] by auto
qed

section \<open>The two batches of the worker\<close>

interpretation deletes: drain "delete_batch ctx locked now" "\<lambda>w :: 's world. length (due_secrets now (database w))"
    "\<lambda>w :: 's world. alone ctx \<and> secrets_inv (database w) \<and> same_uploads db0 (database w) \<and> counters w = m0"
    for ctx :: "'s env" and locked now db0 m0
proof
  fix w :: "'s world" and i
  let ?r = "repo_DeleteExpired (flt ctx (2 * i + 5)) (locked (2 * i + 5)) (beforeDelete (s3 ctx)) now batchSize
      (store w, database w)"
  assume good: "alone ctx \<and> secrets_inv (database w) \<and> same_uploads db0 (database w) \<and> counters w = m0"
  then have b: "delete_batch ctx locked now i w =
      (fst ?r, w\<lparr>store := fst (snd ?r), database := snd (snd ?r)\<rparr>)"
    by (simp add: delete_batch_def on_both_def split: prod.split)
  show "alone ctx \<and> secrets_inv (database (snd (delete_batch ctx locked now i w))) \<and>
      same_uploads db0 (database (snd (delete_batch ctx locked now i w))) \<and>
      counters (snd (delete_batch ctx locked now i w)) = m0"
    using good b repo_DeleteExpired_inv [of "(store w, database w)"] frame_batches(1) [of "(store w, database w)"]
    by (auto intro: same_trans)
  have inv: "secrets_inv (snd (store w, database w))" using good by simp
  show "length (due_secrets now (database w1)) + Removed r = length (due_secrets now (database w))"
    if "delete_batch ctx locked now i w = (Inr r, w1)" for r w1
    using repo_DeleteExpired_InrD(1) [OF inv, of _ _ _ now batchSize r "snd ?r"] that b by (auto simp: prod_eq_iff)
  show "Removed r \<le> Found r"
    if "delete_batch ctx locked now i w = (Inr r, w1)" for r w1
    using repo_DeleteExpired_InrD(2) [OF inv, of _ _ _ now batchSize r "snd ?r"] that b by (auto simp: prod_eq_iff)
  show "length (due_secrets now (database w1)) \<le> length (due_secrets now (database w))"
    if "delete_batch ctx locked now i w = (Inl e, w1)" for e w1
    using due_backlog_le [of now _ _ _ batchSize "(store w, database w)"] that b by auto
qed

interpretation aborts: drain "abort_batch ctx locked now" "\<lambda>w :: 's world. length (stale_uploads now (database w))"
    "\<lambda>w :: 's world. alone ctx \<and> uploads_inv (database w) \<and> same_secrets db0 (database w) \<and> counters w = m0"
    for ctx :: "'s env" and locked now db0 m0
proof
  fix w :: "'s world" and i
  let ?r = "repo_AbortExpiredUploadSessions (flt ctx (2 * i + 4)) (locked (2 * i + 4)) (abortUpload (s3 ctx)) now batchSize
      (store w, database w)"
  assume good: "alone ctx \<and> uploads_inv (database w) \<and> same_secrets db0 (database w) \<and> counters w = m0"
  then have b: "abort_batch ctx locked now i w =
      (fst ?r, w\<lparr>store := fst (snd ?r), database := snd (snd ?r)\<rparr>)"
    by (simp add: abort_batch_def on_both_def split: prod.split)
  show "alone ctx \<and> uploads_inv (database (snd (abort_batch ctx locked now i w))) \<and>
      same_secrets db0 (database (snd (abort_batch ctx locked now i w))) \<and>
      counters (snd (abort_batch ctx locked now i w)) = m0"
    using good b repo_AbortExpired_inv [of "(store w, database w)"] frame_batches(2) [of "(store w, database w)"]
    by (auto intro: same_trans)
  have inv: "uploads_inv (snd (store w, database w))" using good by simp
  show "length (stale_uploads now (database w1)) + Removed r = length (stale_uploads now (database w))"
    if "abort_batch ctx locked now i w = (Inr r, w1)" for r w1
    using repo_AbortExpired_InrD(1) [OF inv, of _ _ _ now batchSize r "snd ?r"] that b by (auto simp: prod_eq_iff)
  show "Removed r \<le> Found r"
    if "abort_batch ctx locked now i w = (Inr r, w1)" for r w1
    using repo_AbortExpired_InrD(2) [OF inv, of _ _ _ now batchSize r "snd ?r"] that b by (auto simp: prod_eq_iff)
  show "length (stale_uploads now (database w1)) \<le> length (stale_uploads now (database w))"
    if "abort_batch ctx locked now i w = (Inl e, w1)" for e w1
    using stale_backlog_le [of now _ _ _ batchSize "(store w, database w)"] that b by auto
qed

section \<open>Nothing in the way\<close>

definition calm :: "'s env \<Rightarrow> bool" where
  "calm ctx \<longleftrightarrow> alone ctx \<and> (\<forall>i. flt ctx i = no_faults) \<and>
     (\<forall>key st. fst (s3_Delete (s3 ctx) key st) = None) \<and>
     (\<forall>key uid st. fst (s3_AbortMultipartUpload (s3 ctx) key uid st) = None)"

lemma calmD:
  "calm ctx \<Longrightarrow> alone ctx" "calm ctx \<Longrightarrow> flt ctx i = no_faults"
  "calm ctx \<Longrightarrow> fst (beforeDelete (s3 ctx) key st)" "calm ctx \<Longrightarrow> fst (abortUpload (s3 ctx) session st)"
  by (auto simp: calm_def beforeDelete_def abortUpload_def split: prod.split option.split)
    (metis fst_conv option.distinct(1))+

lemma run_callbacks_all: "(\<And>r st. fst (cb r st)) \<Longrightarrow> fst (run_callbacks cb rows st) = rows"
  by (induction rows arbitrary: st) (auto simp: Let_def split: prod.split dest: arg_cong [where f = fst])

lemma length_filter_ids_eq:
  assumes "distinct (map key xs)" and "distinct ids" and "set ids \<subseteq> key ` set xs"
  shows "length (filter (\<lambda>x. key x \<in> set ids) xs) = length ids"
proof -
  have "distinct (map key (filter (\<lambda>x. key x \<in> set ids) xs))" using assms(1) by (rule distinct_map_filter)
  then have "length (filter (\<lambda>x. key x \<in> set ids) xs) = card (set (map key (filter (\<lambda>x. key x \<in> set ids) xs)))"
    using distinct_card by fastforce
  also have "set (map key (filter (\<lambda>x. key x \<in> set ids) xs)) = set ids" using assms(3) by auto
  finally show ?thesis using distinct_card [OF assms(2)] by simp
qed

lemma picked_ids:
  assumes "distinct (map key xs)"
  shows "distinct (map key (take n (sort_key g (filter Q xs))))"
    "set (map key (take n (sort_key g (filter Q xs)))) \<subseteq> key ` set xs"
proof -
  have "distinct (map key (sort_key g (filter Q xs)))"
    using assms by (auto simp: distinct_map inj_on_def)
  then show "distinct (map key (take n (sort_key g (filter Q xs))))" by (simp add: take_map [symmetric])
  show "set (map key (take n (sort_key g (filter Q xs)))) \<subseteq> key ` set xs"
    using set_take_subset [of n "sort_key g (filter Q xs)"] by auto
qed

lemma int32_batchSize [simp]: "nat (int32 batchSize) = 100"
  by (simp add: batchSize_def int32_def)

lemma repo_DeleteExpired_full:
  assumes inv: "secrets_inv db" and cb: "\<And>key st. fst (cb key st)"
  shows "\<exists>w'. repo_DeleteExpired no_faults (\<lambda>_. False) cb now batchSize (st, db) =
     (Inr \<lparr>Found = min 100 (length (due_secrets now db)), Removed = min 100 (length (due_secrets now db))\<rparr>, w')"
proof -
  let ?rows = "q_SelectSecretsForCleanup (\<lambda>_. False) now (int32 batchSize) db"
  have rows: "?rows = take 100 (sort_key s_ExpiresAt (filter (secret_due now db) (secrets db)))"
    by (simp add: q_SelectSecretsForCleanup_def)
  have len: "length ?rows = min 100 (length (due_secrets now db))" by (simp add: rows due_secrets_def)
  have ids: "length (filter (\<lambda>s. s_PublicID s \<in> set (map s_PublicID ?rows)) (secrets db)) = length ?rows"
    using length_filter_ids_eq [OF _ picked_ids] secrets_invD(1) [OF inv] unfolding rows by (metis length_map)
  have all: "fst (run_callbacks (\<lambda>s. cb (s_StorageKey s)) ?rows st) = ?rows" using cb by (rule run_callbacks_all)
  have "fst (finish_DeleteExpired no_faults now (length ?rows) (map s_PublicID ?rows) db) =
      Inr \<lparr>Found = length ?rows, Removed = length ?rows\<rparr>"
    using ids by (simp add: finish_DeleteExpired_def q_DeleteSecretsByPublicIDs_def Let_def)
  then show ?thesis using all
    by (auto simp: repo_DeleteExpired_def Let_def prod_eq_iff len split: prod.split)
qed

lemma repo_AbortExpired_full:
  assumes inv: "uploads_inv db" and cb: "\<And>u st. fst (cb u st)"
  shows "\<exists>w'. repo_AbortExpiredUploadSessions no_faults (\<lambda>_. False) cb now batchSize (st, db) =
     (Inr \<lparr>Found = min 100 (length (stale_uploads now db)), Removed = min 100 (length (stale_uploads now db))\<rparr>, w')"
proof -
  let ?rows = "q_ListExpiredUploadSessionsForUpdate (\<lambda>_. False) now (int32 batchSize) db"
  let ?out = "\<lambda>u. is_pending u \<and> us_UploadExpiresAt u < now"
  have rows: "?rows = take 100 (sort_key us_UploadExpiresAt (filter ?out (upload_sessions db)))"
    by (simp add: q_ListExpiredUploadSessionsForUpdate_def)
  have len: "length ?rows = min 100 (length (stale_uploads now db))" by (simp add: rows stale_uploads_def)
  note dist = uploads_inv_ids [OF inv]
  have pend: "u \<in> set (upload_sessions db) \<Longrightarrow> us_SessionID u \<in> set (map us_SessionID ?rows) \<Longrightarrow> is_pending u" for u
  proof -
    assume u: "u \<in> set (upload_sessions db)" "us_SessionID u \<in> set (map us_SessionID ?rows)"
    then obtain v where "v \<in> set ?rows" "us_SessionID v = us_SessionID u" by auto
    then have "v \<in> set (stale_uploads now db)" "us_SessionID v = us_SessionID u" using listed_stale by blast+
    then show "is_pending u" using u(1) dist by (auto simp: stale_uploads_def distinct_map inj_on_def)
  qed
  have "length (filter (\<lambda>u. us_SessionID u \<in> set (map us_SessionID ?rows)) (upload_sessions db)) = length ?rows"
    using length_filter_ids_eq [OF dist picked_ids [OF dist]] unfolding rows by (simp only: length_map)
  moreover have "filter (\<lambda>u. us_SessionID u \<in> set (map us_SessionID ?rows) \<and> is_pending u) (upload_sessions db) =
      filter (\<lambda>u. us_SessionID u \<in> set (map us_SessionID ?rows)) (upload_sessions db)"
    by (rule filter_cong [OF refl]) (use pend in blast)
  ultimately have ids: "length (filter (\<lambda>u. us_SessionID u \<in> set (map us_SessionID ?rows) \<and> is_pending u)
      (upload_sessions db)) = length ?rows" by simp
  have all: "fst (run_callbacks cb (map uploadSessionFromRow ?rows) st) = map uploadSessionFromRow ?rows"
    using cb by (rule run_callbacks_all)
  have names: "u_SessionID \<circ> uploadSessionFromRow = us_SessionID"
    by (simp add: fun_eq_iff uploadSessionFromRow_def)
  have "fst (finish_AbortExpired no_faults now (length ?rows) (map us_SessionID ?rows) db) =
      Inr \<lparr>Found = length ?rows, Removed = length ?rows\<rparr>"
    using ids by (simp add: finish_AbortExpired_def q_MarkUploadSessionsAborted_def Let_def)
  then show ?thesis using all
    by (simp add: repo_AbortExpiredUploadSessions_def Let_def prod_eq_iff len names case_prod_beta)
qed

interpretation deletes_all: drain_clears "delete_batch ctx (\<lambda>_ _. False) now"
    "\<lambda>w :: 's world. length (due_secrets now (database w))"
    "\<lambda>w :: 's world. calm ctx \<and> secrets_inv (database w) \<and> same_uploads db0 (database w) \<and> counters w = m0"
    for ctx :: "'s env" and now db0 m0
proof
  fix w :: "'s world" and i
  assume good: "calm ctx \<and> secrets_inv (database w) \<and> same_uploads db0 (database w) \<and> counters w = m0"
  then have base: "alone ctx \<and> secrets_inv (database w) \<and> same_uploads db0 (database w) \<and> counters w = m0"
    using calmD(1) by blast
  show "calm ctx \<and> secrets_inv (database (snd (delete_batch ctx (\<lambda>_ _. False) now i w))) \<and>
      same_uploads db0 (database (snd (delete_batch ctx (\<lambda>_ _. False) now i w))) \<and>
      counters (snd (delete_batch ctx (\<lambda>_ _. False) now i w)) = m0"
    using good deletes.batch_good [OF base] by blast
  show "length (due_secrets now (database w1)) + Removed r = length (due_secrets now (database w))"
    if "delete_batch ctx (\<lambda>_ _. False) now i w = (Inr r, w1)" for r w1
    using deletes.batch_works [OF base that] .
  show "Removed r \<le> Found r" if "delete_batch ctx (\<lambda>_ _. False) now i w = (Inr r, w1)" for r w1
    using deletes.batch_found [OF base that] .
  show "length (due_secrets now (database w1)) \<le> length (due_secrets now (database w))"
    if "delete_batch ctx (\<lambda>_ _. False) now i w = (Inl e, w1)" for e w1
    using deletes.batch_fails [OF base that] .
  show "\<exists>r w1. delete_batch ctx (\<lambda>_ _. False) now i w = (Inr r, w1) \<and>
      Removed r = min 100 (length (due_secrets now (database w))) \<and>
      Found r = min 100 (length (due_secrets now (database w)))"
    using good repo_DeleteExpired_full [of "database w" "beforeDelete (s3 ctx)" now "store w"]
      calmD(3) [of ctx]
    by (auto simp: delete_batch_def on_both_def calmD(1,2) aloneD split: prod.split)
qed

interpretation aborts_all: drain_clears "abort_batch ctx (\<lambda>_ _. False) now"
    "\<lambda>w :: 's world. length (stale_uploads now (database w))"
    "\<lambda>w :: 's world. calm ctx \<and> uploads_inv (database w) \<and> same_secrets db0 (database w) \<and> counters w = m0"
    for ctx :: "'s env" and now db0 m0
proof
  fix w :: "'s world" and i
  assume good: "calm ctx \<and> uploads_inv (database w) \<and> same_secrets db0 (database w) \<and> counters w = m0"
  then have base: "alone ctx \<and> uploads_inv (database w) \<and> same_secrets db0 (database w) \<and> counters w = m0"
    using calmD(1) by blast
  show "calm ctx \<and> uploads_inv (database (snd (abort_batch ctx (\<lambda>_ _. False) now i w))) \<and>
      same_secrets db0 (database (snd (abort_batch ctx (\<lambda>_ _. False) now i w))) \<and>
      counters (snd (abort_batch ctx (\<lambda>_ _. False) now i w)) = m0"
    using good aborts.batch_good [OF base] by blast
  show "length (stale_uploads now (database w1)) + Removed r = length (stale_uploads now (database w))"
    if "abort_batch ctx (\<lambda>_ _. False) now i w = (Inr r, w1)" for r w1
    using aborts.batch_works [OF base that] .
  show "Removed r \<le> Found r" if "abort_batch ctx (\<lambda>_ _. False) now i w = (Inr r, w1)" for r w1
    using aborts.batch_found [OF base that] .
  show "length (stale_uploads now (database w1)) \<le> length (stale_uploads now (database w))"
    if "abort_batch ctx (\<lambda>_ _. False) now i w = (Inl e, w1)" for e w1
    using aborts.batch_fails [OF base that] .
  show "\<exists>r w1. abort_batch ctx (\<lambda>_ _. False) now i w = (Inr r, w1) \<and>
      Removed r = min 100 (length (stale_uploads now (database w))) \<and>
      Found r = min 100 (length (stale_uploads now (database w)))"
    using good repo_AbortExpired_full [of "database w" "abortUpload (s3 ctx)" now "store w"]
      calmD(4) [of ctx]
    by (auto simp: abort_batch_def on_both_def calmD(1,2) aloneD split: prod.split)
qed

section \<open>A cycle\<close>

lemma counted_simps [simp]:
  "database (counted r) = database (snd r)" "store (counted r) = store (snd r)"
  "SecretsDeleted_cleanup (counters (counted r)) = SecretsDeleted_cleanup (counters (snd r))"
  "database (count_error e w) = database w" "store (count_error e w) = store w"
  "SecretsDeleted_cleanup (counters (count_error e w)) = SecretsDeleted_cleanup (counters w)"
  by (simp_all add: counted_def count_error_def count_def split: prod.split sum.split option.split)

lemma runCycle_drains:
  assumes alone: "alone ctx" and inv: "secrets_inv (database w)" "uploads_inv (database w)"
    and dels: "\<And>w5. secrets_inv (database w5) \<Longrightarrow>
      \<exists>n e w6. drainBatches (\<lambda>i. cancelled (2 * i + 5)) (delete_batch ctx locked (clock ctx 0)) w5 = Some ((n, e), w6) \<and>
        secrets_inv (database w6) \<and> same_uploads (database w5) (database w6) \<and> counters w6 = counters w5 \<and>
        R (length (due_secrets (clock ctx 0) (database w5))) n (length (due_secrets (clock ctx 0) (database w6)))"
    and abrt: "\<And>w1. uploads_inv (database w1) \<Longrightarrow>
      \<exists>n e w2. drainBatches (\<lambda>i. cancelled (2 * i + 4)) (abort_batch ctx locked (clock ctx 0)) w1 = Some ((n, e), w2) \<and>
        uploads_inv (database w2) \<and> same_secrets (database w1) (database w2) \<and> counters w2 = counters w1 \<and>
        S (length (stale_uploads (clock ctx 0) (database w1))) (length (stale_uploads (clock ctx 0) (database w2)))"
  shows "\<exists>w' n s. runCycle ctx cancelled locked w = Some w' \<and> secrets_inv (database w') \<and> uploads_inv (database w') \<and>
     SecretsDeleted_cleanup (counters w') = SecretsDeleted_cleanup (counters w) + n \<and>
     R (length (due_secrets (clock ctx 0) (database w))) n (length (due_secrets (clock ctx 0) (database w'))) \<and>
     S (length (stale_uploads (clock ctx 0) (database w))) s \<and>
     length (stale_uploads (clock ctx 0) (database w')) \<le> s"
proof -
  let ?now = "clock ctx 0"
  let ?w1 = "counted (on_db (repo_DeleteExpiredRetrievalSessions (flt ctx 0) ?now) w)"
  have w1: "uploads_inv (database ?w1)" "secrets_inv (database ?w1)"
    "due_secrets ?now (database ?w1) = due_secrets ?now (database w)"
    "stale_uploads ?now (database ?w1) = stale_uploads ?now (database w)"
    using inv repo_cleanup_inv(1) [of "database w"] same_uploadsD [OF frame_singles(1) [of "database w"]]
    by (simp_all add: due_singles)
  from abrt [OF w1(1)] obtain n e w2
    where d1: "drainBatches (\<lambda>i. cancelled (2 * i + 4)) (abort_batch ctx locked ?now) ?w1 = Some ((n, e), w2)"
      and w2: "uploads_inv (database w2)" "same_secrets (database ?w1) (database w2)" "counters w2 = counters ?w1"
        "S (length (stale_uploads ?now (database w))) (length (stale_uploads ?now (database w2)))"
    using w1(4) by metis
  let ?w4 = "counted (on_db (repo_DeleteFinishedUploadSessions (flt ctx 1) (?now - finishedUploadRetention)) (count_error e w2))"
  let ?w5 = "counted (on_db (repo_DeleteEndedTransfers (flt ctx 2) (?now - endedTransferRetention)) ?w4)"
  have w5: "secrets_inv (database ?w5)" "due_secrets ?now (database ?w5) = due_secrets ?now (database w)"
    "uploads_inv (database ?w5)"
    "length (stale_uploads ?now (database ?w5)) \<le> length (stale_uploads ?now (database w2))"
    using same_secretsD [OF w2(2)] w1 w2(1) same_secretsD [OF frame_singles(2)] same_secretsD [OF frame_singles(3)]
      same_uploadsD [OF frame_singles(4)] repo_DeleteFinished_inv stale_finished by simp_all
  from dels [OF w5(1)] obtain n' e' w6
    where d2: "drainBatches (\<lambda>i. cancelled (2 * i + 5)) (delete_batch ctx locked ?now) ?w5 = Some ((n', e'), w6)"
      and w6: "secrets_inv (database w6)" "same_uploads (database ?w5) (database w6)" "counters w6 = counters ?w5"
        "R (length (due_secrets ?now (database w))) n' (length (due_secrets ?now (database w6)))"
    using w5(2) by metis
  let ?w7 = "if n' > 0 then count (\<lambda>m. m\<lparr>SecretsDeleted_cleanup := SecretsDeleted_cleanup m + n'\<rparr>) w6 else w6"
  define w9 where "w9 = counted (on_db (repo_DeleteExpiredTombstones (flt ctx 3) ?now) (count_error e' ?w7))"
  have run: "runCycle ctx cancelled locked w = Some w9"
    using d1 d2 alone by (simp add: runCycle_def w9_def)
  have db9: "database w9 = snd (repo_DeleteExpiredTombstones (flt ctx 3) ?now (database w6))" by (simp add: w9_def)
  have inv9: "secrets_inv (database w9)" unfolding db9 by (rule repo_cleanup_inv(2) [OF w6(1)])
  have up9: "uploads_inv (database w9)" "stale_uploads ?now (database w9) = stale_uploads ?now (database ?w5)"
    unfolding db9 using same_uploadsD [OF same_trans(2) [OF w6(2) frame_singles(5)]] w5(3) by blast+
  have due9: "due_secrets ?now (database w9) = due_secrets ?now (database w6)"
    unfolding db9 by (rule due_singles(2))
  have "SecretsDeleted_cleanup (counters w9) = SecretsDeleted_cleanup (counters w) + n'"
    using w6(3) w2(3) by (simp add: w9_def count_def)
  then show ?thesis
    by (intro exI [of _ w9] exI [of _ n'] exI [of _ "length (stale_uploads ?now (database w2))"] conjI run inv9 up9(1)
        w2(4) w6(4) [folded due9] w5(4) [folded up9(2)])
qed

lemma runCycle_ends:
  assumes "alone ctx" and "secrets_inv (database w)" and "uploads_inv (database w)"
  shows "\<exists>w'. runCycle ctx cancelled locked w = Some w' \<and> secrets_inv (database w') \<and> uploads_inv (database w') \<and>
     length (due_secrets (clock ctx 0) (database w')) + SecretsDeleted_cleanup (counters w') \<le>
       length (due_secrets (clock ctx 0) (database w)) + SecretsDeleted_cleanup (counters w) \<and>
     length (stale_uploads (clock ctx 0) (database w')) \<le> length (stale_uploads (clock ctx 0) (database w))"
proof -
  have dels: "\<exists>n e w6. drainBatches (\<lambda>i. cancelled (2 * i + 5)) (delete_batch ctx locked (clock ctx 0)) w5 =
      Some ((n, e), w6) \<and>
      secrets_inv (database w6) \<and> same_uploads (database w5) (database w6) \<and> counters w6 = counters w5 \<and>
      length (due_secrets (clock ctx 0) (database w6)) + n \<le> length (due_secrets (clock ctx 0) (database w5))"
    if "secrets_inv (database w5)" for w5
  proof -
    have "alone ctx \<and> secrets_inv (database w5) \<and> same_uploads (database w5) (database w5) \<and> counters w5 = counters w5"
      using that assms(1) by simp
    from deletes.ends [OF this, of 0 "\<lambda>i. cancelled (2 * i + 5)" locked "clock ctx 0" 0]
    show ?thesis unfolding drainBatches_def by (elim exE conjE) (intro exI conjI, assumption+, simp)
  qed
  have abrt: "\<exists>n e w2. drainBatches (\<lambda>i. cancelled (2 * i + 4)) (abort_batch ctx locked (clock ctx 0)) w1 =
      Some ((n, e), w2) \<and>
      uploads_inv (database w2) \<and> same_secrets (database w1) (database w2) \<and> counters w2 = counters w1 \<and>
      length (stale_uploads (clock ctx 0) (database w2)) \<le> length (stale_uploads (clock ctx 0) (database w1))"
    if "uploads_inv (database w1)" for w1
  proof -
    have "alone ctx \<and> uploads_inv (database w1) \<and> same_secrets (database w1) (database w1) \<and> counters w1 = counters w1"
      using that assms(1) by simp
    from aborts.ends [OF this, of 0 "\<lambda>i. cancelled (2 * i + 4)" locked "clock ctx 0" 0]
    show ?thesis unfolding drainBatches_def by (elim exE conjE) (intro exI conjI, assumption+, simp)
  qed
  have "\<exists>w' n s. runCycle ctx cancelled locked w = Some w' \<and> secrets_inv (database w') \<and> uploads_inv (database w') \<and>
     SecretsDeleted_cleanup (counters w') = SecretsDeleted_cleanup (counters w) + n \<and>
     length (due_secrets (clock ctx 0) (database w')) + n \<le> length (due_secrets (clock ctx 0) (database w)) \<and>
     s \<le> length (stale_uploads (clock ctx 0) (database w)) \<and>
     length (stale_uploads (clock ctx 0) (database w')) \<le> s"
    by (rule runCycle_drains [where R = "\<lambda>a n b. b + n \<le> a" and S = "\<lambda>a b. b \<le> a", OF assms])
      (fact dels, fact abrt)
  then show ?thesis by (elim exE conjE) (intro exI conjI, assumption+, linarith+)
qed

text \<open>A worker that is left alone runs through any number of ticks and keeps the invariants of the tables.\<close>

lemma worker_Run_ends:
  "\<lbrakk>\<forall>t \<in> set ticks. alone (tick_env t); secrets_inv (database w); uploads_inv (database w)\<rbrakk> \<Longrightarrow>
     \<exists>w'. worker_Run ticks w = Some w' \<and> secrets_inv (database w') \<and> uploads_inv (database w')"
proof (induction ticks arbitrary: w)
  case (Cons t ticks)
  then obtain w1 where "runCycle (tick_env t) (tick_cancelled t) (tick_locked t) w = Some w1" "secrets_inv (database w1)" "uploads_inv (database w1)"
    using runCycle_ends [of "tick_env t" w "tick_cancelled t" "tick_locked t"] by auto
  then show ?case using Cons by simp
qed simp

text \<open>
  Property C31. A cycle of the cleanup always ends, whatever fails on the way, whichever rows are locked
  and whenever its time runs out: each batch removes a row or is the last one. It keeps the
  invariants of both groups of tables, no backlog grows, and the counter of deleted secrets counts no
  more secrets than the backlog lost.
\<close>

theorem cleanup_cycle_ends:
  assumes "alone ctx" and "secrets_inv (database w)" and "uploads_inv (database w)"
  shows "\<exists>w'. runCycle ctx cancelled locked w = Some w' \<and> secrets_inv (database w') \<and> uploads_inv (database w') \<and>
     length (due_secrets (clock ctx 0) (database w')) + SecretsDeleted_cleanup (counters w') \<le>
       length (due_secrets (clock ctx 0) (database w)) + SecretsDeleted_cleanup (counters w) \<and>
     length (stale_uploads (clock ctx 0) (database w')) \<le> length (stale_uploads (clock ctx 0) (database w))"
  using assms by (rule runCycle_ends)


definition demo_backlog :: "memory world" where
  "demo_backlog = \<lparr>store = empty_memory, database = demo_uploads\<lparr>secrets := [demo_secret]\<rparr>, counters = no_metrics\<rparr>"

lemma demo_backlog_inv:
  "secrets_inv (database demo_backlog)" "uploads_inv (database demo_backlog)"
  "length (due_secrets 101 (database demo_backlog)) = 1" "calm (quiet 101)"
  using demo_uploads_inv demo_inv(1)
  by (simp_all add: demo_backlog_def secrets_inv_def uploads_inv_def id_defs demo_uploads_def demo_db_def empty_db_def
      due_secrets_def secret_due_def demo_secret_def calm_def s3_Delete_def s3_AbortMultipartUpload_def memory_s3_def)

theorem cleanup_cycle_ends_witness:
  "runCycle (quiet 101) (\<lambda>i. i = 4) (\<lambda>i key. key = ''p'') demo_backlog \<noteq> None"
  using cleanup_cycle_ends [OF calmD(1) [OF demo_backlog_inv(4)] demo_backlog_inv(1,2)] by (metis option.distinct(1))


end
