(* ===== verification/Json.thy ===== *)
theory Json
  imports Strconv Sha256
begin

text \<open>
  What \<open>encoding/json\<close> writes for strings, numbers and booleans inside the structs that the share packages
  marshal. Strings are their UTF-8 bytes; a byte that is not part of valid UTF-8 is written as the
  replacement character.
\<close>

section \<open>UTF-8\<close>

definition byte_in :: "nat \<Rightarrow> nat \<Rightarrow> char \<Rightarrow> bool" where
  "byte_in lo hi c \<longleftrightarrow> lo \<le> ord c \<and> ord c \<le> hi"

text \<open>The number of bytes of the character a string starts with, 0 when there is none: \<open>utf8.DecodeRuneInString\<close>.\<close>

fun utf8_size :: "bytes \<Rightarrow> nat" where
  "utf8_size [] = 0"
| "utf8_size (a # rest) =
     (if ord a < 128 then 1
      else if byte_in 194 223 a then
        (case rest of b # _ \<Rightarrow> (if byte_in 128 191 b then 2 else 0) | [] \<Rightarrow> 0)
      else if byte_in 224 239 a then
        (case rest of
           b # c # _ \<Rightarrow>
             (if byte_in (if ord a = 224 then 160 else 128) (if ord a = 237 then 159 else 191) b \<and> byte_in 128 191 c
              then 3 else 0)
         | _ \<Rightarrow> 0)
      else if byte_in 240 244 a then
        (case rest of
           b # c # d # _ \<Rightarrow>
             (if byte_in (if ord a = 240 then 144 else 128) (if ord a = 244 then 143 else 191) b \<and>
                 byte_in 128 191 c \<and> byte_in 128 191 d
              then 4 else 0)
         | _ \<Rightarrow> 0)
      else 0)"

section \<open>Strings\<close>

definition json_quote :: char where "json_quote = CHR 0x22"

definition escape_ascii :: "char \<Rightarrow> string" where
  "escape_ascii c =
     (if c = json_quote \<or> c = CHR 0x5C then [CHR 0x5C, c]
      else if ord c = 8 then [CHR 0x5C, CHR ''b'']
      else if ord c = 12 then [CHR 0x5C, CHR ''f'']
      else if ord c = 10 then [CHR 0x5C, CHR ''n'']
      else if ord c = 13 then [CHR 0x5C, CHR ''r'']
      else if ord c = 9 then [CHR 0x5C, CHR ''t'']
      else if ord c < 32 \<or> c = CHR ''<'' \<or> c = CHR ''>'' \<or> c = CHR ''&''
      then CHR 0x5C # ''u00'' @ [hex_digit (ord c div 16), hex_digit (ord c mod 16)]
      else [c])"

text \<open>What is written for the first character of a string, and the rest of the string.\<close>

definition json_rune :: "char \<Rightarrow> bytes \<Rightarrow> string \<times> bytes" where
  "json_rune c cs =
     (let n = utf8_size (c # cs)
      in if ord c < 128 then (escape_ascii c, cs)
         else if n = 0 then (CHR 0x5C # ''ufffd'', cs)
         else if take 3 (c # cs) = [chr 226, chr 128, chr 168] then (CHR 0x5C # ''u2028'', drop (n - 1) cs)
         else if take 3 (c # cs) = [chr 226, chr 128, chr 169] then (CHR 0x5C # ''u2029'', drop (n - 1) cs)
         else (c # take (n - 1) cs, drop (n - 1) cs))"

lemma json_rune_rest: "length (snd (json_rune c cs)) \<le> length cs"
  by (auto simp: json_rune_def Let_def simp del: utf8_size.simps)

function json_escape :: "bytes \<Rightarrow> string" where
  "json_escape [] = []"
| "json_escape (c # cs) = fst (json_rune c cs) @ json_escape (snd (json_rune c cs))"
  by pat_completeness auto

termination
  by (relation "measure length") (auto simp: le_imp_less_Suc json_rune_rest)

definition json_string :: "bytes \<Rightarrow> string" where
  "json_string s = json_quote # json_escape s @ [json_quote]"

section \<open>Objects and arrays\<close>

fun json_commas :: "string list \<Rightarrow> string" where
  "json_commas [] = []"
| "json_commas [x] = x"
| "json_commas (x # xs) = x @ CHR '','' # json_commas xs"

definition json_object :: "(string \<times> string) list \<Rightarrow> string" where
  "json_object fields =
     CHR ''{'' # json_commas (map (\<lambda>(name, v). json_string name @ CHR '':'' # v) fields) @ [CHR ''}'']"

definition json_array :: "string list \<Rightarrow> string" where
  "json_array xs = CHR ''['' # json_commas xs @ [CHR '']'']"

definition json_bool :: "bool \<Rightarrow> string" where
  "json_bool b = (if b then ''true'' else ''false'')"

end
