(* ===== verification/Json_Parse.thy ===== *)
theory Json_Parse
  imports Json "HOL-Library.Monad_Syntax"
begin

text \<open>
  What \<open>encoding/json\<close> reads: the JSON grammar with Go's treatment of strings that are not valid UTF-8, its limit of
  nested values, and the decoding of objects into structs. A number stays the text it was written as until a field
  asks for an integer. The parser consumes fuel with every value; the length of the text is always enough.
\<close>

datatype jvalue =
    VNull
  | VBool bool
  | VNum string
  | VStr bytes
  | VArr "jvalue list"
  | VObj "(bytes \<times> jvalue) list"

section \<open>Strings\<close>

text \<open>\<open>utf8.EncodeRune\<close>.\<close>

definition encode_rune :: "nat \<Rightarrow> bytes" where
  "encode_rune r =
     (if r < 128 then [chr r]
      else if r < 2048 then [chr (192 + r div 64), chr (128 + r mod 64)]
      else if r < 65536 then [chr (224 + r div 4096), chr (128 + r div 64 mod 64), chr (128 + r mod 64)]
      else [chr (240 + r div 262144), chr (128 + r div 4096 mod 64), chr (128 + r div 64 mod 64), chr (128 + r mod 64)])"

definition replacement :: bytes where "replacement = [chr 239, chr 191, chr 189]"

definition hex_digit_value :: "char \<Rightarrow> nat option" where
  "hex_digit_value c =
     (if 48 \<le> ord c \<and> ord c \<le> 57 then Some (ord c - 48)
      else if 97 \<le> ord c \<and> ord c \<le> 102 then Some (ord c - 87)
      else if 65 \<le> ord c \<and> ord c \<le> 70 then Some (ord c - 55)
      else None)"

fun hex4 :: "string \<Rightarrow> (nat \<times> string) option" where
  "hex4 (a # b # c # d # rest) =
     do { w \<leftarrow> hex_digit_value a; x \<leftarrow> hex_digit_value b; y \<leftarrow> hex_digit_value c; z \<leftarrow> hex_digit_value d;
          Some (((w * 16 + x) * 16 + y) * 16 + z, rest) }"
| "hex4 _ = None"

text \<open>A code unit after a high surrogate, when it completes the pair.\<close>

definition low_surrogate :: "nat \<Rightarrow> string \<Rightarrow> (nat \<times> string) option" where
  "low_surrogate hi s =
     (case s of
        a # b # rest \<Rightarrow>
          (if a = CHR 0x5C \<and> b = CHR ''u'' \<and> hi < 56320 then
             (case hex4 rest of
                Some (lo, rest') \<Rightarrow>
                  (if 56320 \<le> lo \<and> lo < 57344 then Some ((hi - 55296) * 1024 + (lo - 56320) + 65536, rest') else None)
              | None \<Rightarrow> None)
           else None)
      | _ \<Rightarrow> None)"

definition unescape :: "char \<Rightarrow> string \<Rightarrow> (bytes \<times> string) option" where
  "unescape e s =
     (if e = json_quote \<or> e = CHR 0x5C \<or> e = CHR ''/'' then Some ([e], s)
      else if e = CHR ''b'' then Some ([chr 8], s)
      else if e = CHR ''f'' then Some ([chr 12], s)
      else if e = CHR ''n'' then Some ([chr 10], s)
      else if e = CHR ''r'' then Some ([chr 13], s)
      else if e = CHR ''t'' then Some ([chr 9], s)
      else if e = CHR ''u'' then
        (case hex4 s of
           None \<Rightarrow> None
         | Some (r, rest) \<Rightarrow>
             (if 55296 \<le> r \<and> r < 57344 then
                (case low_surrogate r rest of
                   Some (full, rest') \<Rightarrow> Some (encode_rune full, rest')
                 | None \<Rightarrow> Some (replacement, rest))
              else Some (encode_rune r, rest)))
      else None)"

text \<open>The bytes of the first character of a string literal that goes on.\<close>

definition unquote_rune :: "char \<Rightarrow> string \<Rightarrow> (bytes \<times> string) option" where
  "unquote_rune c cs =
     (if c = CHR 0x5C then (case cs of [] \<Rightarrow> None | e # rest \<Rightarrow> unescape e rest)
      else if ord c < 32 then None
      else if ord c < 128 then Some ([c], cs)
      else (let n = utf8_size (c # cs)
            in if n = 0 then Some (replacement, cs) else Some (c # take (n - 1) cs, drop (n - 1) cs)))"

lemma hex4_rest: "hex4 s = Some (r, rest) \<Longrightarrow> length rest \<le> length s"
  by (cases s rule: hex4.cases) (auto split: Option.bind_splits)

lemma low_surrogate_rest: "low_surrogate r s = Some (full, rest) \<Longrightarrow> length rest \<le> length s"
  by (auto simp: low_surrogate_def dest!: hex4_rest split: list.splits if_splits option.splits prod.splits)

lemma unescape_rest: "unescape e s = Some (bs, rest) \<Longrightarrow> length rest \<le> length s"
  by (auto simp: unescape_def dest!: hex4_rest low_surrogate_rest split: if_splits option.splits prod.splits)

lemma unquote_rune_rest: "unquote_rune c cs = Some (bs, rest) \<Longrightarrow> length rest \<le> length cs"
  by (auto simp: unquote_rune_def Let_def simp del: utf8_size.simps dest!: unescape_rest split: if_splits list.splits)

text \<open>The rest of a string literal behind its opening quote.\<close>

function json_unquote :: "string \<Rightarrow> (bytes \<times> string) option" where
  "json_unquote [] = None"
| "json_unquote (c # cs) =
     (if c = json_quote then Some ([], cs)
      else (case unquote_rune c cs of
              None \<Rightarrow> None
            | Some (bs, rest) \<Rightarrow> map_option (apfst ((@) bs)) (json_unquote rest)))"
  by pat_completeness auto

termination
  by (relation "measure length") (auto dest!: unquote_rune_rest)

section \<open>Values\<close>

definition is_space :: "char \<Rightarrow> bool" where
  "is_space c \<longleftrightarrow> ord c = 32 \<or> ord c = 9 \<or> ord c = 10 \<or> ord c = 13"

definition skip_space :: "string \<Rightarrow> string" where
  "skip_space s = dropWhile is_space s"

definition digit_run :: "string \<Rightarrow> string \<times> string" where
  "digit_run s = (takeWhile is_digit s, dropWhile is_digit s)"

definition number_int :: "string \<Rightarrow> (string \<times> string) option" where
  "number_int s =
     (case s of
        c # cs \<Rightarrow> (if c = CHR ''0'' then Some ([c], cs) else if is_digit c then Some (digit_run s) else None)
      | [] \<Rightarrow> None)"

definition number_frac :: "string \<Rightarrow> (string \<times> string) option" where
  "number_frac s =
     (case s of
        c # cs \<Rightarrow>
          (if c = CHR ''.'' then
             (let (ds, rest) = digit_run cs in if ds = [] then None else Some (c # ds, rest))
           else Some ([], s))
      | [] \<Rightarrow> Some ([], []))"

definition number_exp :: "string \<Rightarrow> (string \<times> string) option" where
  "number_exp s =
     (case s of
        c # cs \<Rightarrow>
          (if c = CHR ''e'' \<or> c = CHR ''E'' then
             (let (sign, cs') = (case cs of d # ds \<Rightarrow> if d = CHR ''+'' \<or> d = CHR ''-'' then ([d], ds) else ([], cs)
                                 | [] \<Rightarrow> ([], []));
                  (ds, rest) = digit_run cs'
              in if ds = [] then None else Some (c # sign @ ds, rest))
           else Some ([], s))
      | [] \<Rightarrow> Some ([], []))"

definition parse_number :: "string \<Rightarrow> (string \<times> string) option" where
  "parse_number s =
     (let (sign, s1) = (case s of c # cs \<Rightarrow> if c = CHR ''-'' then ([c], cs) else ([], s) | [] \<Rightarrow> ([], []))
      in do { (i, s2) \<leftarrow> number_int s1; (f, s3) \<leftarrow> number_frac s2; (e, s4) \<leftarrow> number_exp s3;
              Some (sign @ i @ f @ e, s4) })"

text \<open>The first value of a text, with fuel and the depth that is left, and what follows it.\<close>

fun parse_value :: "nat \<Rightarrow> nat \<Rightarrow> string \<Rightarrow> (jvalue \<times> string) option"
and parse_items :: "nat \<Rightarrow> nat \<Rightarrow> string \<Rightarrow> (jvalue list \<times> string) option"
and parse_members :: "nat \<Rightarrow> nat \<Rightarrow> string \<Rightarrow> ((bytes \<times> jvalue) list \<times> string) option" where
  "parse_value 0 d s = None"
| "parse_value (Suc k) d s =
     (case skip_space s of
        [] \<Rightarrow> None
      | c # cs \<Rightarrow>
          (if c = json_quote then map_option (apfst VStr) (json_unquote cs)
           else if c = CHR ''['' then
             (if d = 0 then None
              else (case skip_space cs of
                      [] \<Rightarrow> None
                    | b # bs \<Rightarrow> (if b = CHR '']'' then Some (VArr [], bs)
                                else map_option (apfst VArr) (parse_items k (d - 1) cs))))
           else if c = CHR ''{'' then
             (if d = 0 then None
              else (case skip_space cs of
                      [] \<Rightarrow> None
                    | b # bs \<Rightarrow> (if b = CHR ''}'' then Some (VObj [], bs)
                                else map_option (apfst VObj) (parse_members k (d - 1) cs))))
           else if take 4 (c # cs) = ''true'' then Some (VBool True, drop 3 cs)
           else if take 5 (c # cs) = ''false'' then Some (VBool False, drop 4 cs)
           else if take 4 (c # cs) = ''null'' then Some (VNull, drop 3 cs)
           else map_option (apfst VNum) (parse_number (c # cs))))"
| "parse_items 0 d s = None"
| "parse_items (Suc k) d s =
     (case parse_value k d s of
        None \<Rightarrow> None
      | Some (v, s1) \<Rightarrow>
          (case skip_space s1 of
             [] \<Rightarrow> None
           | c # cs \<Rightarrow>
               (if c = CHR '']'' then Some ([v], cs)
                else if c = CHR '','' then map_option (apfst ((#) v)) (parse_items k d cs)
                else None)))"
| "parse_members 0 d s = None"
| "parse_members (Suc k) d s =
     (case skip_space s of
        [] \<Rightarrow> None
      | q # s0 \<Rightarrow>
          (if q \<noteq> json_quote then None
           else (case json_unquote s0 of
                   None \<Rightarrow> None
                 | Some (name, s1) \<Rightarrow>
                     (case skip_space s1 of
                        [] \<Rightarrow> None
                      | p # s2 \<Rightarrow>
                          (if p \<noteq> CHR '':'' then None
                           else (case parse_value k d s2 of
                                   None \<Rightarrow> None
                                 | Some (v, s3) \<Rightarrow>
                                     (case skip_space s3 of
                                        [] \<Rightarrow> None
                                      | c # cs \<Rightarrow>
                                          (if c = CHR ''}'' then Some ([(name, v)], cs)
                                           else if c = CHR '','' then map_option (apfst ((#) (name, v))) (parse_members k d cs)
                                           else None))))))))"

definition maxNestingDepth :: nat where "maxNestingDepth = 10000"

text \<open>\<open>json.Unmarshal\<close> takes one value and nothing behind it; a \<open>Decoder\<close> takes the first value of a stream.\<close>

definition json_Decode :: "bytes \<Rightarrow> jvalue option" where
  "json_Decode s = map_option fst (parse_value (Suc (length s)) maxNestingDepth s)"

definition json_Unmarshal :: "bytes \<Rightarrow> jvalue option" where
  "json_Unmarshal s =
     (case parse_value (Suc (length s)) maxNestingDepth s of
        None \<Rightarrow> None
      | Some (v, rest) \<Rightarrow> (if skip_space rest = [] then Some v else None))"

section \<open>Fields of a struct\<close>

text \<open>
  A key names a field whatever its case; two letters outside ASCII fold to a letter of it. A null leaves a string, an
  integer or a boolean as it is, and a value of another type is an error. A key that is repeated overwrites what came
  before. \<open>encoding/json\<close> also decodes the elements of a repeated array over those of the earlier one; here the
  last array stands alone.
\<close>

fun fold_name :: "bytes \<Rightarrow> bytes" where
  "fold_name [] = []"
| "fold_name (c # cs) =
     (if 97 \<le> ord c \<and> ord c \<le> 122 then chr (ord c - 32) # fold_name cs
      else if take 2 (c # cs) = [chr 197, chr 191] then CHR ''S'' # fold_name (drop 1 cs)
      else if take 3 (c # cs) = [chr 226, chr 132, chr 170] then CHR ''K'' # fold_name (drop 2 cs)
      else c # fold_name cs)"

definition json_values :: "(bytes \<times> jvalue) list \<Rightarrow> string \<Rightarrow> jvalue list" where
  "json_values fields name = map snd (filter (\<lambda>(k, v). fold_name k = fold_name name) fields)"

fun last_value :: "(jvalue \<Rightarrow> 'a option) \<Rightarrow> 'a \<Rightarrow> jvalue list \<Rightarrow> 'a option" where
  "last_value decode acc [] = Some acc"
| "last_value decode acc (VNull # vs) = last_value decode acc vs"
| "last_value decode acc (v # vs) = (case decode v of None \<Rightarrow> None | Some x \<Rightarrow> last_value decode x vs)"

fun as_string :: "jvalue \<Rightarrow> bytes option" where
  "as_string (VStr s) = Some s" | "as_string _ = None"

fun as_int :: "jvalue \<Rightarrow> int option" where
  "as_int (VNum s) = ParseInt s" | "as_int _ = None"

fun as_bool :: "jvalue \<Rightarrow> bool option" where
  "as_bool (VBool b) = Some b" | "as_bool _ = None"

definition string_field :: "(bytes \<times> jvalue) list \<Rightarrow> string \<Rightarrow> bytes option" where
  "string_field fields name = last_value as_string [] (json_values fields name)"

definition int_field :: "(bytes \<times> jvalue) list \<Rightarrow> string \<Rightarrow> int option" where
  "int_field fields name = last_value as_int 0 (json_values fields name)"

definition bool_field :: "(bytes \<times> jvalue) list \<Rightarrow> string \<Rightarrow> bool option" where
  "bool_field fields name = last_value as_bool False (json_values fields name)"

text \<open>The elements of a slice of structs.\<close>

fun as_list :: "(jvalue \<Rightarrow> 'a option) \<Rightarrow> jvalue \<Rightarrow> 'a list option" where
  "as_list decode (VArr vs) = those (map decode vs)"
| "as_list decode _ = None"

fun list_values :: "(jvalue \<Rightarrow> 'a option) \<Rightarrow> 'a list \<Rightarrow> jvalue list \<Rightarrow> 'a list option" where
  "list_values decode acc [] = Some acc"
| "list_values decode acc (VNull # vs) = list_values decode [] vs"
| "list_values decode acc (v # vs) = (case as_list decode v of None \<Rightarrow> None | Some x \<Rightarrow> list_values decode x vs)"

definition list_field :: "(jvalue \<Rightarrow> 'a option) \<Rightarrow> (bytes \<times> jvalue) list \<Rightarrow> string \<Rightarrow> 'a list option" where
  "list_field decode fields name = list_values decode [] (json_values fields name)"

text \<open>A struct: null leaves its zero value.\<close>

fun as_struct :: "((bytes \<times> jvalue) list \<Rightarrow> 'a option) \<Rightarrow> jvalue \<Rightarrow> 'a option" where
  "as_struct decode VNull = decode []"
| "as_struct decode (VObj fields) = decode fields"
| "as_struct decode _ = None"

end
