(* ===== verification/Share_Errors.thy ===== *)
theory Share_Errors
  imports App_Errors Json_Parse
begin

text \<open>
  The errors of the client packages under \<open>internal/share\<close>: the sentinels of \<open>keys\<close>, \<open>bundle\<close> and \<open>share\<close>, the
  answers of a server (\<open>api.Error\<close>) and the typed errors of \<open>share\<close>. \<open>Wrapped\<close> is an error made with the
  \<open>w\<close> verb of \<open>fmt.Errorf\<close>. \<open>Panicked\<close> is no error value: the code panics there, and no caller recovers.
\<close>

section \<open>Types\<close>

record api_Error =
  e_Status :: int
  e_Message :: string
  e_RequestID :: string
  e_RetryAfter :: string
  e_Details :: "(bytes \<times> jvalue) list option"

record Gone =
  g_Outcome :: string
  g_BurnAfterRead :: bool
  g_EndedAt :: time
  g_FirstOpenedAt :: "time option"
  g_OpenedByOwner :: bool

datatype share_err =
    ErrInvalidShareSecret | ErrInvalidToken | ErrInvalidEnvelope | ErrDecrypt
  | ErrInvalidFooter | ErrInvalidManifest | ErrManifestTooLarge | ErrEmpty | ErrRangeMismatch
  | ErrNotALink | ErrNotOwner | ErrPasswordRequired | ErrWrongPassword | ErrLinkMismatch
  | ErrTooLarge | ErrNothingToShare
  | ApiErr api_Error
  | GoneErr Gone
  | NotFoundErr
  | ContextErr
  | NewErr string
  | Wrapped share_err string
  | Panicked

text \<open>\<open>errors.Is\<close> for the sentinels and \<open>errors.As\<close> for \<open>api.Error\<close>, which look through wrapping.\<close>

fun share_Is :: "share_err \<Rightarrow> share_err \<Rightarrow> bool" where
  "share_Is (Wrapped e m) target = (Wrapped e m = target \<or> share_Is e target)"
| "share_Is e target = (e = target)"

fun asApiError :: "share_err \<Rightarrow> api_Error option" where
  "asApiError (ApiErr e) = Some e"
| "asApiError (Wrapped e m) = asApiError e"
| "asApiError _ = None"

definition IsStatus :: "share_err \<Rightarrow> int \<Rightarrow> bool" where
  "IsStatus e code = (case asApiError e of Some a \<Rightarrow> e_Status a = code | None \<Rightarrow> False)"

lemma IsStatus_simps [simp]:
  "IsStatus (ApiErr a) n \<longleftrightarrow> e_Status a = n" "IsStatus (Wrapped e m) n = IsStatus e n"
  by (simp_all add: IsStatus_def)

text \<open>\<open>Error()\<close> of an \<open>api.Error\<close>.\<close>

definition api_Error_text :: "api_Error \<Rightarrow> string" where
  "api_Error_text e =
     (if e_Status e = 0 then ''network error: '' @ e_Message e
      else e_Message e @ '' (HTTP '' @ FormatInt (e_Status e) @ '')'')"

end
