(* ===== verification/Hkdf.thy ===== *)
theory Hkdf
  imports Sha256
begin

text \<open>
  SHA-512 (FIPS 180-4), HMAC (RFC 2104) and HKDF (RFC 5869) as Go's \<open>crypto/sha512\<close>, \<open>crypto/hmac\<close> and
  \<open>crypto/hkdf\<close> compute them: what \<open>internal/share/keys\<close> derives every key of a secret with.
\<close>

type_synonym u64 = "64 word"

section \<open>SHA-512\<close>

text \<open>
  The round constants are the first 64 bits of the fractional parts of the cube roots of the first 80 primes, the
  initial state those of the square roots of the first 8, in decimal.
\<close>

definition sha512_K :: "u64 list" where
  "sha512_K =
    [4794697086780616226, 8158064640168781261, 13096744586834688815, 16840607885511220156,
     4131703408338449720, 6480981068601479193, 10538285296894168987, 12329834152419229976,
     15566598209576043074, 1334009975649890238, 2608012711638119052, 6128411473006802146,
     8268148722764581231, 9286055187155687089, 11230858885718282805, 13951009754708518548,
     16472876342353939154, 17275323862435702243, 1135362057144423861, 2597628984639134821,
     3308224258029322869, 5365058923640841347, 6679025012923562964, 8573033837759648693,
     10970295158949994411, 12119686244451234320, 12683024718118986047, 13788192230050041572,
     14330467153632333762, 15395433587784984357, 489312712824947311, 1452737877330783856,
     2861767655752347644, 3322285676063803686, 5560940570517711597, 5996557281743188959,
     7280758554555802590, 8532644243296465576, 9350256976987008742, 10552545826968843579,
     11727347734174303076, 12113106623233404929, 14000437183269869457, 14369950271660146224,
     15101387698204529176, 15463397548674623760, 17586052441742319658, 1182934255886127544,
     1847814050463011016, 2177327727835720531, 2830643537854262169, 3796741975233480872,
     4115178125766777443, 5681478168544905931, 6601373596472566643, 7507060721942968483,
     8399075790359081724, 8693463985226723168, 9568029438360202098, 10144078919501101548,
     10430055236837252648, 11840083180663258601, 13761210420658862357, 14299343276471374635,
     14566680578165727644, 15097957966210449927, 16922976911328602910, 17689382322260857208,
     500013540394364858, 748580250866718886, 1242879168328830382, 1977374033974150939,
     2944078676154940804, 3659926193048069267, 4368137639120453308, 4836135668995329356,
     5532061633213252278, 6448918945643986474, 6902733635092675308, 7801388544844847127]"

definition sha512_H0 :: "u64 list" where
  "sha512_H0 =
    [7640891576956012808, 13503953896175478587, 4354685564936845355, 11912009170470909681,
     5840696475078001361, 11170449401992604703, 2270897969802886507, 6620516959819538809]"

definition rotr64 :: "nat \<Rightarrow> u64 \<Rightarrow> u64" where
  "rotr64 n x = drop_bit n x OR push_bit (64 - n) x"

definition Sigma0_512 :: "u64 \<Rightarrow> u64" where
  "Sigma0_512 x = rotr64 28 x XOR rotr64 34 x XOR rotr64 39 x"

definition Sigma1_512 :: "u64 \<Rightarrow> u64" where
  "Sigma1_512 x = rotr64 14 x XOR rotr64 18 x XOR rotr64 41 x"

definition sigma0_512 :: "u64 \<Rightarrow> u64" where
  "sigma0_512 x = rotr64 1 x XOR rotr64 8 x XOR drop_bit 7 x"

definition sigma1_512 :: "u64 \<Rightarrow> u64" where
  "sigma1_512 x = rotr64 19 x XOR rotr64 61 x XOR drop_bit 6 x"

fun extend_schedule512 :: "nat \<Rightarrow> u64 list \<Rightarrow> u64 list" where
  "extend_schedule512 0 w = w"
| "extend_schedule512 (Suc n) w =
     (let t = length w
      in extend_schedule512 n
           (w @ [sigma1_512 (w ! (t - 2)) + w ! (t - 7) + sigma0_512 (w ! (t - 15)) + w ! (t - 16)]))"

fun sha512_round :: "u64 list \<Rightarrow> u64 \<times> u64 \<Rightarrow> u64 list" where
  "sha512_round [a, b, c, d, e, f, g, h] (k, w) =
     (let t1 = h + Sigma1_512 e + ((e AND f) XOR (NOT e AND g)) + k + w;
          t2 = Sigma0_512 a + ((a AND b) XOR (a AND c) XOR (b AND c))
      in [t1 + t2, a, b, c, d + t1, e, f, g])"
| "sha512_round s _ = s"

definition be64 :: "char list \<Rightarrow> u64" where
  "be64 cs = foldl (\<lambda>acc c. push_bit 8 acc OR of_char c) 0 cs"

definition sha512_block :: "u64 list \<Rightarrow> bytes \<Rightarrow> u64 list" where
  "sha512_block h block =
     map2 (+) h
       (foldl sha512_round h
          (zip sha512_K (extend_schedule512 64 (map be64 (split_every 16 8 block)))))"

definition pad_zeros512 :: "nat \<Rightarrow> nat" where
  "pad_zeros512 len = (if len mod 128 < 112 then 111 - len mod 128 else 239 - len mod 128)"

definition sha512_pad :: "bytes \<Rightarrow> bytes" where
  "sha512_pad msg =
     msg @ [chr 128] @ replicate (pad_zeros512 (length msg)) (chr 0) @ be_bytes 16 (8 * int (length msg))"

definition Sum512 :: "bytes \<Rightarrow> bytes" where
  "Sum512 msg =
     (let p = sha512_pad msg
      in concat (map (\<lambda>w. be_bytes 8 (uint w))
           (foldl sha512_block sha512_H0 (split_every (length p div 128) 128 p))))"

section \<open>HMAC and HKDF\<close>

definition hmac_block_key :: "bytes \<Rightarrow> bytes" where
  "hmac_block_key key =
     (let k = (if length key > 128 then Sum512 key else key)
      in k @ replicate (128 - length k) (chr 0))"

definition xor_bytes :: "nat \<Rightarrow> bytes \<Rightarrow> bytes" where
  "xor_bytes pad bs = map (\<lambda>c. chr (ord c XOR pad)) bs"

definition hmac_512 :: "bytes \<Rightarrow> bytes \<Rightarrow> bytes" where
  "hmac_512 key msg =
     (let k = hmac_block_key key in Sum512 (xor_bytes 92 k @ Sum512 (xor_bytes 54 k @ msg)))"

text \<open>The expansion: blocks \<open>i\<close>, \<open>i + 1\<close>, ... until \<open>n\<close> bytes are there.\<close>

fun hkdf_blocks :: "bytes \<Rightarrow> bytes \<Rightarrow> nat \<Rightarrow> nat \<Rightarrow> bytes \<Rightarrow> bytes" where
  "hkdf_blocks prk info 0 i prev = []"
| "hkdf_blocks prk info (Suc n) i prev =
     (let t = hmac_512 prk (prev @ info @ [chr i]) in t @ hkdf_blocks prk info n (i + 1) t)"

text \<open>\<open>hkdf.Key\<close>, which refuses more than 255 blocks.\<close>

definition hkdf_Key :: "bytes \<Rightarrow> bytes \<Rightarrow> string \<Rightarrow> nat \<Rightarrow> bytes option" where
  "hkdf_Key secret salt info keyLength =
     (if keyLength > 255 * 64 then None
      else (let prk = hmac_512 salt secret
            in Some (take keyLength (hkdf_blocks prk info ((keyLength + 63) div 64) 1 []))))"

section \<open>Lengths\<close>

lemma length_sha512_round: "length s = 8 \<Longrightarrow> length (sha512_round s kw) = 8"
  by (cases "(s, kw)" rule: sha512_round.cases) (auto simp: Let_def)

lemma length_fold_rounds512: "length s = 8 \<Longrightarrow> length (foldl sha512_round s kws) = 8"
  by (induction kws arbitrary: s) (auto simp: length_sha512_round)

lemma length_fold_blocks512: "length h = 8 \<Longrightarrow> length (foldl sha512_block h bs) = 8"
  by (induction bs arbitrary: h) (auto simp: sha512_block_def length_fold_rounds512)

lemma length_Sum512 [simp]: "length (Sum512 msg) = 64"
  by (simp add: Sum512_def Let_def length_concat_const [where k = 8] length_fold_blocks512 sha512_H0_def)

lemma length_hkdf_blocks: "length (hkdf_blocks prk info n i prev) = 64 * n"
  by (induction n arbitrary: i prev) (auto simp: hmac_512_def Let_def)

lemma hkdf_Key_length:
  assumes "n \<le> 64"
  shows "\<exists>key. hkdf_Key secret salt info n = Some key \<and> length key = n"
proof -
  have "n \<le> 64 * ((n + 63) div 64)" using assms by (cases "n = 0") auto
  then show ?thesis using assms by (simp add: hkdf_Key_def Let_def length_hkdf_blocks)
qed

end
