(* ===== verification/Json_Roundtrip.thy ===== *)
theory Json_Roundtrip
  imports Json_Parse
begin

text \<open>
  Reading back what was written: the parser of \<open>Json_Parse\<close> inverts the writer of \<open>Json\<close> on strings of valid UTF-8,
  on integers, booleans, arrays and objects.
\<close>

section \<open>Valid UTF-8\<close>

function valid_utf8 :: "bytes \<Rightarrow> bool" where
  "valid_utf8 [] = True"
| "valid_utf8 (c # cs) = (utf8_size (c # cs) \<noteq> 0 \<and> valid_utf8 (drop (utf8_size (c # cs) - 1) cs))"
  by pat_completeness auto

termination
  by (relation "measure length") (auto simp: le_imp_less_Suc simp del: utf8_size.simps)

lemma short_cases:
  obtains "s = []" | a where "s = [a]" | a b where "s = [a, b]" | a b c where "s = [a, b, c]"
  | a b c d r where "s = a # b # c # d # r"
  by (cases s rule: remdups_adj.cases) (metis list.exhaust)+

lemma utf8_size_prefix:
  assumes "utf8_size s \<noteq> 0"
  shows "utf8_size s \<le> length s \<and> utf8_size (take (utf8_size s) s @ t) = utf8_size s"
  using assms by (cases s rule: short_cases) (simp_all split: if_split_asm)

lemma utf8_size_ascii [simp]: "ord c < 128 \<Longrightarrow> utf8_size (c # cs) = 1"
  by simp

lemma valid_utf8_ascii: "list_all (\<lambda>c. ord c < 128) s \<Longrightarrow> valid_utf8 s"
  by (induction s) (simp_all del: utf8_size.simps)

section \<open>Strings\<close>

lemma hex_digit_value_hex_digit [simp]: "n < 16 \<Longrightarrow> hex_digit_value (hex_digit n) = Some n"
  by (auto simp: hex_digit_value_def hex_digit_def of_char_of)

lemma hex_digit_value_0 [simp]: "hex_digit_value CHR ''0'' = Some 0"
  by (simp add: hex_digit_value_def)

lemma json_quote_not_backslash [simp]: "json_quote \<noteq> CHR 0x5C" "CHR 0x5C \<noteq> json_quote"
  by (simp_all add: json_quote_def)

lemma escape_ascii_unquote:
  assumes "ord c < 128"
  shows "json_unquote (escape_ascii c @ t) = map_option (apfst ((#) c)) (json_unquote t)"
proof -
  have c: "chr (ord c) = c" by simp
  consider "c = json_quote \<or> c = CHR 0x5C" | "ord c \<in> {8, 9, 10, 12, 13}"
    | "c \<noteq> json_quote" "c \<noteq> CHR 0x5C" "ord c \<notin> {8, 9, 10, 12, 13}" "ord c < 32 \<or> c = CHR ''<'' \<or> c = CHR ''>'' \<or> c = CHR ''&''"
    | "c \<noteq> json_quote" "c \<noteq> CHR 0x5C" "\<not> ord c < 32"
      "c \<noteq> CHR ''<''" "c \<noteq> CHR ''>''" "c \<noteq> CHR ''&''"
    by blast
  then show ?thesis
  proof cases
    case 1
    then show ?thesis
      by (auto simp: escape_ascii_def unquote_rune_def unescape_def apfst_def map_prod_def)
  next
    case 2
    then have "c = chr 8 \<or> c = chr 9 \<or> c = chr 10 \<or> c = chr 12 \<or> c = chr 13"
      by (metis c empty_iff insert_iff)
    then show ?thesis
      by (elim disjE) (simp_all add: escape_ascii_def unquote_rune_def unescape_def json_quote_def apfst_def map_prod_def)
  next
    case 3
    have "hex4 (''00'' @ [hex_digit (ord c div 16), hex_digit (ord c mod 16)] @ t) = Some (ord c, t)"
      using assms by simp
    moreover have "unescape (CHR ''u'') s = (case hex4 s of
           None \<Rightarrow> None
         | Some (r, rest) \<Rightarrow>
             (if 55296 \<le> r \<and> r < 57344 then
                (case low_surrogate r rest of
                   Some (full, rest') \<Rightarrow> Some (encode_rune full, rest')
                 | None \<Rightarrow> Some (replacement, rest))
              else Some (encode_rune r, rest)))" for s
      by (simp add: unescape_def json_quote_def)
    ultimately have "unescape (CHR ''u'') (''00'' @ [hex_digit (ord c div 16), hex_digit (ord c mod 16)] @ t) = Some ([c], t)"
      using assms by (simp add: encode_rune_def)
    moreover have "escape_ascii c = CHR 0x5C # CHR ''u'' # ''00'' @ [hex_digit (ord c div 16), hex_digit (ord c mod 16)]"
      using 3 by (simp add: escape_ascii_def)
    ultimately show ?thesis
      by (simp add: unquote_rune_def apfst_def map_prod_def)
  next
    case 4
    then show ?thesis using assms
      by (auto simp: escape_ascii_def unquote_rune_def apfst_def map_prod_def)
  qed
qed

lemma unescape_u202:
  "unescape (CHR ''u'') (CHR ''2'' # CHR ''0'' # CHR ''2'' # CHR ''8'' # t) = Some ([chr 226, chr 128, chr 168], t)"
  "unescape (CHR ''u'') (CHR ''2'' # CHR ''0'' # CHR ''2'' # CHR ''9'' # t) = Some ([chr 226, chr 128, chr 169], t)"
  by (simp_all add: unescape_def json_quote_def hex_digit_value_def encode_rune_def)

lemma json_rune_separator:
  assumes "d = chr 168 \<or> d = chr 169" and s: "c # cs = chr 226 # chr 128 # d # r"
  shows "utf8_size (c # cs) = 3 \<and>
    json_unquote (fst (json_rune c cs) @ t) = map_option (apfst ((@) (take 3 (c # cs)))) (json_unquote t)"
proof -
  have size: "utf8_size (c # cs) = 3" using assms by (auto simp: byte_in_def)
  have "fst (json_rune c cs) = CHR 0x5C # CHR ''u'' # CHR ''2'' # CHR ''0'' # CHR ''2'' # (if d = chr 168 then ''8'' else ''9'')"
    using assms size by (auto simp: json_rune_def Let_def simp del: utf8_size.simps)
  moreover have "unescape (CHR ''u'') (CHR ''2'' # CHR ''0'' # CHR ''2'' # (if d = chr 168 then ''8'' else ''9'') @ t) =
      Some ([chr 226, chr 128, d], t)"
    using assms(1) by (elim disjE) (simp_all add: unescape_u202)
  moreover have "take 3 (c # cs) = [chr 226, chr 128, d]" unfolding s by simp
  ultimately show ?thesis using size
    by (simp add: unquote_rune_def del: utf8_size.simps take_Suc_Cons)
qed

lemma json_rune_plain:
  assumes n: "utf8_size (c # cs) \<noteq> 0" and c: "\<not> ord c < 128"
    and plain: "take 3 (c # cs) \<noteq> [chr 226, chr 128, chr 168]" "take 3 (c # cs) \<noteq> [chr 226, chr 128, chr 169]"
  shows "json_unquote (fst (json_rune c cs) @ t) =
    map_option (apfst ((@) (take (utf8_size (c # cs)) (c # cs)))) (json_unquote t)"
proof -
  obtain k where k: "utf8_size (c # cs) = Suc k" using n by (cases "utf8_size (c # cs)") auto
  have rune: "fst (json_rune c cs) = c # take k cs"
    using c plain k by (auto simp: json_rune_def Let_def simp del: utf8_size.simps)
  have "utf8_size (c # take k cs @ t) = Suc k" and len: "length (take k cs) = k"
    using utf8_size_prefix [OF n, of t] by (simp_all add: k del: utf8_size.simps)
  moreover have "c \<noteq> json_quote" "c \<noteq> CHR 0x5C" "\<not> ord c < 32" using c by (auto simp: json_quote_def)
  ultimately have "unquote_rune c (take k cs @ t) = Some (c # take k cs, t)"
    using c by (simp add: unquote_rune_def del: utf8_size.simps)
  then show ?thesis using \<open>c \<noteq> json_quote\<close> by (simp add: rune k del: utf8_size.simps)
qed

lemma json_rune_unquote:
  assumes n: "utf8_size (c # cs) \<noteq> 0"
  shows "json_unquote (fst (json_rune c cs) @ t) =
    map_option (apfst ((@) (take (utf8_size (c # cs)) (c # cs)))) (json_unquote t)"
proof (cases "ord c < 128")
  case True
  then show ?thesis
    by (simp add: json_rune_def escape_ascii_unquote apfst_def map_prod_def del: utf8_size.simps)
next
  case False
  show ?thesis
  proof (cases "take 3 (c # cs) \<in> {[chr 226, chr 128, chr 168], [chr 226, chr 128, chr 169]}")
    case True
    then obtain d where d: "d = chr 168 \<or> d = chr 169" "take 3 (c # cs) = [chr 226, chr 128, d]" by blast
    then have "c # cs = chr 226 # chr 128 # d # drop 3 (c # cs)"
      by (metis append_Cons append_Nil append_take_drop_id)
    from json_rune_separator [OF d(1) this] show ?thesis by (simp del: utf8_size.simps)
  next
    case False
    then show ?thesis using json_rune_plain [OF n \<open>\<not> ord c < 128\<close>] by blast
  qed
qed

lemma json_unquote_escape:
  "valid_utf8 s \<Longrightarrow> json_unquote (json_escape s @ json_quote # t) = Some (s, t)"
proof (induction s rule: valid_utf8.induct)
  case 1
  then show ?case by simp
next
  case (2 c cs)
  let ?n = "utf8_size (c # cs)"
  have n: "?n \<noteq> 0" using 2 by simp
  have "snd (json_rune c cs) = drop (?n - 1) cs"
    using n by (auto simp: json_rune_def Let_def simp del: utf8_size.simps)
  then have "json_escape (c # cs) = fst (json_rune c cs) @ json_escape (drop (?n - 1) cs)" by simp
  then have "json_unquote (json_escape (c # cs) @ json_quote # t) =
      Some (take ?n (c # cs) @ drop (?n - 1) cs, t)"
    using 2 by (simp add: json_rune_unquote [OF n] del: utf8_size.simps json_escape.simps)
  also have "take ?n (c # cs) @ drop (?n - 1) cs = c # cs"
    using n by (cases ?n) (simp_all del: utf8_size.simps)
  finally show ?case .
qed

section \<open>Numbers\<close>

definition number_stop :: "string \<Rightarrow> bool" where
  "number_stop t \<longleftrightarrow> (case t of [] \<Rightarrow> True | c # _ \<Rightarrow> \<not> is_digit c \<and> c \<noteq> CHR ''.'' \<and> c \<noteq> CHR ''e'' \<and> c \<noteq> CHR ''E'')"

lemma is_digit_chars [simp]:
  "\<not> is_digit CHR ''-''" "\<not> is_digit CHR '',''" "\<not> is_digit CHR '']''" "\<not> is_digit CHR ''}''" "\<not> is_digit CHR '':''"
  "\<not> is_digit CHR ''.''" "is_digit CHR ''0''"
  by (simp_all add: is_digit_def)

lemma nat_digits_no_zero: "0 < n \<Longrightarrow> hd (nat_digits n) \<noteq> CHR ''0''"
proof (induction n rule: nat_digits.induct)
  case (1 n)
  show ?case
  proof (cases "n < 10")
    case True
    have "ord (chr (48 + n)) \<noteq> ord CHR ''0''" using True 1(2) by (simp add: ord_digit)
    then have "chr (48 + n) \<noteq> CHR ''0''" by (rule contrapos_nn) (rule arg_cong)
    then show ?thesis using True by (simp add: nat_digits.simps [of n])
  next
    case False
    then show ?thesis using 1 nat_digits_value [of "n div 10"] by (simp add: nat_digits.simps [of n])
  qed
qed

lemma number_int_digits:
  assumes "number_stop t"
  shows "number_int (nat_digits n @ t) = Some (nat_digits n, t)"
proof (cases "n = 0")
  case True
  moreover have "chr 48 = CHR ''0''" by code_simp
  ultimately show ?thesis by (simp add: nat_digits.simps number_int_def)
next
  case False
  obtain c cs where ds: "nat_digits n = c # cs" using nat_digits_value [of n] by (cases "nat_digits n") auto
  have "c \<noteq> CHR ''0''" using nat_digits_no_zero [of n] False ds by simp
  moreover have "is_digit c" and all: "list_all is_digit (nat_digits n)" using nat_digits_value [of n] ds by simp_all
  moreover have "takeWhile is_digit t = []" "dropWhile is_digit t = t"
    using assms by (cases t; simp add: number_stop_def)+
  moreover have "takeWhile is_digit (nat_digits n @ t) = nat_digits n @ takeWhile is_digit t"
    "dropWhile is_digit (nat_digits n @ t) = dropWhile is_digit t"
    using all by (simp_all add: list_all_iff)
  ultimately show ?thesis using ds by (simp add: number_int_def digit_run_def)
qed

lemma parse_number_FormatInt:
  assumes "number_stop t"
  shows "parse_number (FormatInt i @ t) = Some (FormatInt i, t)"
proof -
  have stop: "number_frac t = Some ([], t)" "number_exp t = Some ([], t)"
    using assms by (auto simp: number_stop_def number_frac_def number_exp_def split: list.splits)
  have digits: "\<exists>c cs. nat_digits n = c # cs \<and> c \<noteq> CHR ''-''" for n
    using nat_digits_hd [of n] nat_digits_value [of n] by (cases "nat_digits n") auto
  obtain c cs where "nat_digits (nat i) = c # cs" "c \<noteq> CHR ''-''" using digits by blast
  then show ?thesis
    using number_int_digits [OF assms, of "nat i"] number_int_digits [OF assms, of "nat (- i)"] stop
    by (auto simp: parse_number_def FormatInt_def Let_def)
qed

section \<open>Values\<close>

fun json_text :: "jvalue \<Rightarrow> string" where
  "json_text VNull = ''null''"
| "json_text (VBool b) = json_bool b"
| "json_text (VNum s) = s"
| "json_text (VStr s) = json_string s"
| "json_text (VArr vs) = json_array (map json_text vs)"
| "json_text (VObj fs) = json_object (map (\<lambda>(name, v). (name, json_text v)) fs)"

text \<open>The values that are written: integers, strings of valid UTF-8, and no more than so many of them nested.\<close>

fun writable :: "nat \<Rightarrow> jvalue \<Rightarrow> bool" where
  "writable d VNull = True"
| "writable d (VBool b) = True"
| "writable d (VNum s) = (\<exists>i. s = FormatInt i)"
| "writable d (VStr s) = valid_utf8 s"
| "writable d (VArr vs) = (0 < d \<and> list_all (writable (d - 1)) vs)"
| "writable d (VObj fs) = (0 < d \<and> list_all (\<lambda>(name, v). valid_utf8 name \<and> writable (d - 1) v) fs)"

definition starts_value :: "string \<Rightarrow> bool" where
  "starts_value s \<longleftrightarrow> (\<exists>c cs. s = c # cs \<and> \<not> is_space c \<and> c \<noteq> CHR '']'' \<and> c \<noteq> CHR ''}'')"

lemma starts_value_append: "starts_value s \<Longrightarrow> starts_value (s @ t)"
  by (auto simp: starts_value_def)

lemma is_digit_not_space: "is_digit c \<Longrightarrow> \<not> is_space c \<and> c \<noteq> CHR '']'' \<and> c \<noteq> CHR ''}''"
  by (auto simp: is_digit_def is_space_def)

lemma FormatInt_starts: "starts_value (FormatInt i)"
proof -
  have digits: "starts_value (nat_digits n)" for n
    using nat_digits_value [of n] is_digit_not_space by (cases "nat_digits n") (auto simp: starts_value_def)
  then show ?thesis by (simp add: FormatInt_def starts_value_def is_space_def)
qed

lemma json_text_starts: "writable d v \<Longrightarrow> starts_value (json_text v)"
  using FormatInt_starts
  by (cases v)
     (auto simp: starts_value_def is_space_def json_bool_def json_string_def json_quote_def json_array_def json_object_def)

lemma skip_space_simps [simp]: "\<not> is_space c \<Longrightarrow> skip_space (c # cs) = c # cs"
  by (simp add: skip_space_def)

lemma is_space_chars [simp]:
  "\<not> is_space CHR '',''" "\<not> is_space CHR '']''" "\<not> is_space CHR ''}''" "\<not> is_space CHR '':''" "\<not> is_space json_quote"
  "\<not> is_space CHR ''[''" "\<not> is_space CHR ''{''"
  by (simp_all add: is_space_def json_quote_def)

lemma number_stop_chars [simp]:
  "number_stop (CHR '','' # s)" "number_stop (CHR '']'' # s)" "number_stop (CHR ''}'' # s)" "number_stop []"
  by (simp_all add: number_stop_def)

definition reads_back :: "nat \<Rightarrow> jvalue \<Rightarrow> bool" where
  "reads_back d v \<longleftrightarrow>
     (\<forall>k t. number_stop t \<longrightarrow> length (json_text v) \<le> k \<longrightarrow> parse_value k d (json_text v @ t) = Some (v, t))"

lemma reads_backD:
  "reads_back d v \<Longrightarrow> number_stop t \<Longrightarrow> length (json_text v) \<le> k \<Longrightarrow> parse_value k d (json_text v @ t) = Some (v, t)"
  by (simp add: reads_back_def)

lemma parse_items_text:
  assumes "vs \<noteq> []" and "list_all (reads_back d) vs" and "length (json_commas (map json_text vs)) < k"
  shows "parse_items k d (json_commas (map json_text vs) @ CHR '']'' # t) = Some (vs, t)"
  using assms
proof (induction vs arbitrary: k)
  case (Cons v vs)
  obtain j where k: "k = Suc j" using Cons.prems by (cases k) auto
  show ?case
  proof (cases vs)
    case Nil
    then show ?thesis using Cons.prems by (simp add: k reads_backD)
  next
    case (Cons w ws)
    have written: "json_commas (json_text v # map json_text vs) = json_text v @ CHR '','' # json_commas (map json_text vs)"
      by (simp add: Cons)
    have "parse_items j d (json_commas (map json_text vs) @ CHR '']'' # t) = Some (vs, t)"
      using Cons.IH [of j] Cons.prems Cons by (simp add: k written)
    moreover have "parse_value j d (json_text v @ CHR '','' # json_commas (map json_text vs) @ CHR '']'' # t) =
        Some (v, CHR '','' # json_commas (map json_text vs) @ CHR '']'' # t)"
      using Cons.prems by (intro reads_backD) (simp_all add: k written)
    ultimately show ?thesis by (simp add: k written)
  qed
qed simp

definition member_text :: "bytes \<times> jvalue \<Rightarrow> string" where
  "member_text m = json_string (fst m) @ CHR '':'' # json_text (snd m)"

lemma parse_member_text:
  assumes "valid_utf8 name" and "reads_back d v" and "number_stop t" and "length (member_text (name, v)) \<le> k"
  shows "parse_members (Suc k) d (member_text (name, v) @ t) =
    (case skip_space t of
       [] \<Rightarrow> None
     | c # cs \<Rightarrow>
         (if c = CHR ''}'' then Some ([(name, v)], cs)
          else if c = CHR '','' then map_option (apfst ((#) (name, v))) (parse_members k d cs)
          else None))"
  using assms(3,4) by (simp add: member_text_def json_string_def json_unquote_escape [OF assms(1)] reads_backD [OF assms(2)])

lemma parse_members_text:
  assumes "fs \<noteq> []" and "list_all (\<lambda>m. valid_utf8 (fst m) \<and> reads_back d (snd m)) fs"
    and "length (json_commas (map member_text fs)) < k"
  shows "parse_members k d (json_commas (map member_text fs) @ CHR ''}'' # t) = Some (fs, t)"
  using assms
proof (induction fs arbitrary: k)
  case (Cons m fs)
  obtain j where k: "k = Suc j" using Cons.prems by (cases k) auto
  obtain name v where m: "m = (name, v)" by (cases m)
  show ?case
  proof (cases fs)
    case Nil
    then show ?thesis using Cons.prems by (simp add: k m parse_member_text del: parse_members.simps)
  next
    case (Cons w ws)
    have written: "json_commas (member_text (name, v) # map member_text fs) = member_text (name, v) @ CHR '','' # json_commas (map member_text fs)"
      by (simp add: Cons)
    have "parse_members j d (json_commas (map member_text fs) @ CHR ''}'' # t) = Some (fs, t)"
      using Cons.IH [of j] Cons.prems Cons by (simp add: k written)
    moreover have "valid_utf8 name" "reads_back d v" "length (member_text (name, v)) \<le> j"
      using Cons.prems by (simp_all add: m k written)
    ultimately show ?thesis by (simp add: k written parse_member_text m del: parse_members.simps)
  qed
qed simp

lemma json_text_members: "json_text (VObj fs) = CHR ''{'' # json_commas (map member_text fs) @ [CHR ''}'']"
  by (simp add: json_object_def comp_def case_prod_beta member_text_def [abs_def])

lemma json_commas_starts:
  "xs \<noteq> [] \<Longrightarrow> starts_value (hd xs) \<Longrightarrow> starts_value (json_commas xs @ t)"
  by (cases xs rule: json_commas.cases) (auto simp: starts_value_def)

lemma member_text_starts: "starts_value (member_text m)"
  by (simp add: member_text_def json_string_def json_quote_def starts_value_def is_space_def)

lemma not_number_literals:
  assumes "is_digit c \<or> c = CHR ''-''"
  shows "take 4 (c # s) \<noteq> ''true'' \<and> take 5 (c # s) \<noteq> ''false'' \<and> take 4 (c # s) \<noteq> ''null'' \<and>
    c \<noteq> json_quote \<and> c \<noteq> CHR ''['' \<and> c \<noteq> CHR ''{'' \<and> \<not> is_space c"
  using assms by (auto simp: is_digit_def json_quote_def is_space_def)

lemma FormatInt_hd: "\<exists>c cs. FormatInt i = c # cs \<and> (is_digit c \<or> c = CHR ''-'')"
proof -
  have "\<exists>c cs. nat_digits n = c # cs \<and> is_digit c" for n
    using nat_digits_value [of n] by (cases "nat_digits n") auto
  from this [of "nat i"] show ?thesis by (auto simp: FormatInt_def)
qed

lemma parse_number_value:
  assumes "number_stop t"
  shows "parse_value (Suc k) d (FormatInt i @ t) = Some (VNum (FormatInt i), t)"
proof -
  obtain c cs where i: "FormatInt i = c # cs" "is_digit c \<or> c = CHR ''-''" using FormatInt_hd by blast
  then show ?thesis
    using not_number_literals [OF i(2), of "cs @ t"] parse_number_FormatInt [OF assms, of i]
    by (simp del: take_Suc_Cons add: apfst_def map_prod_def)
qed

lemma reads_back_VArr:
  assumes "0 < d" and "list_all (writable (d - 1)) vs" and "list_all (reads_back (d - 1)) vs"
  shows "reads_back d (VArr vs)"
  unfolding reads_back_def
proof (intro allI impI)
  fix k t assume k: "length (json_text (VArr vs)) \<le> k"
  then obtain j where j: "k = Suc j" by (cases k) (auto simp: json_array_def)
  show "parse_value k d (json_text (VArr vs) @ t) = Some (VArr vs, t)"
  proof (cases "vs = []")
    case True
    then show ?thesis using assms by (simp add: j json_array_def json_quote_def)
  next
    case False
    then have "starts_value (json_commas (map json_text vs) @ CHR '']'' # t)"
      using assms(2) by (intro json_commas_starts) (cases vs; auto intro: json_text_starts)+
    then obtain c cs where "json_commas (map json_text vs) @ CHR '']'' # t = c # cs" "\<not> is_space c" "c \<noteq> CHR '']''"
      by (auto simp: starts_value_def)
    moreover have "parse_items j (d - 1) (json_commas (map json_text vs) @ CHR '']'' # t) = Some (vs, t)"
      using False assms(3) k by (intro parse_items_text) (simp_all add: j json_array_def)
    ultimately show ?thesis using assms(1) by (simp add: j json_array_def json_quote_def)
  qed
qed

lemma reads_back_VObj:
  assumes "0 < d" and "list_all (\<lambda>m. valid_utf8 (fst m) \<and> reads_back (d - 1) (snd m)) fs"
  shows "reads_back d (VObj fs)"
  unfolding reads_back_def json_text_members
proof (intro allI impI)
  fix k t assume k: "length (CHR ''{'' # json_commas (map member_text fs) @ [CHR ''}'']) \<le> k"
  then obtain j where j: "k = Suc j" by (cases k) auto
  show "parse_value k d ((CHR ''{'' # json_commas (map member_text fs) @ [CHR ''}'']) @ t) = Some (VObj fs, t)"
  proof (cases "fs = []")
    case True
    then show ?thesis using assms by (simp add: j json_quote_def)
  next
    case False
    then have "starts_value (json_commas (map member_text fs) @ CHR ''}'' # t)"
      by (intro json_commas_starts) (cases fs; simp add: member_text_starts)+
    then obtain c cs where "json_commas (map member_text fs) @ CHR ''}'' # t = c # cs" "\<not> is_space c" "c \<noteq> CHR ''}''"
      by (auto simp: starts_value_def)
    moreover have "parse_members j (d - 1) (json_commas (map member_text fs) @ CHR ''}'' # t) = Some (fs, t)"
      using False assms(2) k by (intro parse_members_text) (simp_all add: j)
    ultimately show ?thesis using assms(1) by (simp add: j json_quote_def)
  qed
qed

lemma json_text_not_Nil: "writable d v \<Longrightarrow> json_text v \<noteq> []"
  using json_text_starts by (fastforce simp: starts_value_def)

lemma parse_json_text: "writable d v \<Longrightarrow> reads_back d v"
proof (induction v arbitrary: d)
  case (VNum s)
  then obtain i where "s = FormatInt i" by auto
  moreover have "parse_value k d (FormatInt i @ t) = Some (VNum (FormatInt i), t)"
    if "number_stop t" "length (FormatInt i) \<le> k" for k t
    using that parse_number_value [OF that(1)] by (cases k) simp_all
  ultimately show ?case by (simp add: reads_back_def)
next
  case (VStr s)
  then show ?case
    by (auto simp: reads_back_def json_string_def json_unquote_escape Suc_le_D dest!: Suc_le_D)
next
  case (VArr vs)
  then show ?case by (intro reads_back_VArr) (auto simp: list_all_iff)
next
  case (VObj fs)
  then show ?case
    by (intro reads_back_VObj) (auto simp: list_all_iff split_beta intro: Basic_BNFs.snds.intros)
qed (auto simp: reads_back_def json_bool_def is_space_def json_quote_def dest!: Suc_le_D)

theorem json_Unmarshal_text:
  assumes "writable maxNestingDepth v"
  shows "json_Unmarshal (json_text v) = Some v"
  using reads_backD [OF parse_json_text [OF assms], of "[]" "Suc (length (json_text v))"]
  by (simp add: json_Unmarshal_def skip_space_def del: parse_value.simps)

theorem json_Decode_text:
  assumes "writable maxNestingDepth v" and "number_stop t"
  shows "json_Decode (json_text v @ t) = Some v"
  using reads_backD [OF parse_json_text [OF assms(1)] assms(2), of "Suc (length (json_text v @ t))"]
  by (simp add: json_Decode_def del: parse_value.simps)

section \<open>Fields\<close>

lemma fold_name_words [simp]:
  "fold_name ''type'' = ''TYPE''" "fold_name ''password_protected'' = ''PASSWORD_PROTECTED''"
  "fold_name ''bundle_name'' = ''BUNDLE_NAME''"
  "fold_name ''index'' = ''INDEX''" "fold_name ''offset'' = ''OFFSET''" "fold_name ''length'' = ''LENGTH''"
  "fold_name ''plaintextSize'' = ''PLAINTEXTSIZE''" "fold_name ''path'' = ''PATH''" "fold_name ''name'' = ''NAME''"
  "fold_name ''size'' = ''SIZE''" "fold_name ''chunks'' = ''CHUNKS''" "fold_name ''version'' = ''VERSION''"
  "fold_name ''bundleName'' = ''BUNDLENAME''" "fold_name ''chunkSize'' = ''CHUNKSIZE''" "fold_name ''files'' = ''FILES''"
  by code_simp+

lemmas field_defs = string_field_def int_field_def bool_field_def list_field_def json_values_def

lemma length_json_commas: "[] \<notin> set xs \<Longrightarrow> length xs \<le> length (json_commas xs)"
  by (induction xs rule: json_commas.induct) (auto simp: Suc_le_eq)

lemma length_json_array: "[] \<notin> set xs \<Longrightarrow> length xs \<le> length (json_array xs)"
  using length_json_commas [of xs] by (simp add: json_array_def)

end
