(* ===== verification/Keys.thy ===== *)
theory Keys
  imports Share_Errors Domain Hkdf Json_Roundtrip
begin

text \<open>
  \<open>internal/share/keys/keys.go\<close>: every key and token of a secret, derived from its share secret, and the two
  kinds of ciphertext. XChaCha20-Poly1305 and scrypt are third-party packages: they are the parameters
  \<open>primitives\<close>. \<open>crypto/rand\<close> is a \<open>rng\<close>: draw \<open>i\<close> fails or yields as many bytes as are asked for.
\<close>

section \<open>Constants\<close>

definition ShareSecretLength :: nat where "ShareSecretLength = 32"
definition DeletionTokenLength :: nat where "DeletionTokenLength = 32"
definition NonceLength :: nat where "NonceLength = 24"
definition RecordOverhead :: int where "RecordOverhead = int NonceLength + 16"
definition envelopeVersion :: string where "envelopeVersion = ''v2''"
definition derivationPrefix :: string where "derivationPrefix = ''secretli:derivation:v1''"
definition publicIDLength :: nat where "publicIDLength = 16"

lemma RecordOverhead_simp [simp]: "RecordOverhead = 40"
  by (simp add: RecordOverhead_def NonceLength_def)

section \<open>What the package relies on\<close>

text \<open>\<open>Seal key nonce plaintext aad\<close>, \<open>Open key nonce ciphertext aad\<close> and \<open>Scrypt password salt\<close>.\<close>

record primitives =
  Seal :: "bytes \<Rightarrow> bytes \<Rightarrow> bytes \<Rightarrow> bytes \<Rightarrow> bytes"
  Open :: "bytes \<Rightarrow> bytes \<Rightarrow> bytes \<Rightarrow> bytes \<Rightarrow> bytes option"
  Scrypt :: "string \<Rightarrow> bytes \<Rightarrow> bytes"

text \<open>What the documentation of XChaCha20-Poly1305 promises, for plaintexts below its limit of 256 GiB.\<close>

definition aead_opens :: "primitives \<Rightarrow> bool" where
  "aead_opens prim \<longleftrightarrow>
     (\<forall>key nonce plaintext aad.
        length key = 32 \<and> length nonce = NonceLength \<and> int (length plaintext) \<le> 274877906880 \<longrightarrow>
        length (Seal prim key nonce plaintext aad) = length plaintext + 16 \<and>
        Open prim key nonce (Seal prim key nonce plaintext aad) aad = Some plaintext)"

type_synonym rng = "nat \<Rightarrow> (nat \<Rightarrow> char) option"

definition rand_Read :: "rng \<Rightarrow> nat \<Rightarrow> nat \<Rightarrow> bytes option" where
  "rand_Read rng i n = map_option (\<lambda>source. map source [0..<n]) (rng i)"

lemma rand_Read_length: "rand_Read rng i n = Some bs \<Longrightarrow> length bs = n"
  by (auto simp: rand_Read_def)

section \<open>Key sets\<close>

record Meta =
  m_Type :: string
  m_PasswordProtected :: bool
  m_BundleName :: string

record EncodedKeys =
  en_ShareSecret :: string
  en_PublicID :: string
  en_MetadataToken :: string
  en_BlobToken :: string
  en_DeletionToken :: string

text \<open>A nil slice is the empty one: nothing tells them apart.\<close>

record KeySet =
  k_shareSecret :: bytes
  k_metaKey :: bytes
  k_blobKey :: bytes
  k_publicID :: bytes
  k_metadataToken :: bytes
  k_blobToken :: bytes
  k_deletionToken :: bytes

definition derive :: "bytes \<Rightarrow> string \<Rightarrow> nat \<Rightarrow> share_err + bytes" where
  "derive ikm name n =
     (case hkdf_Key ikm (replicate 64 (chr 0)) (derivationPrefix @ '':'' @ name) n of
        None \<Rightarrow> Inl (NewErr (''derive '' @ name))
      | Some key \<Rightarrow> Inr key)"

definition passwordMaterial :: "primitives \<Rightarrow> bytes \<Rightarrow> string \<Rightarrow> share_err + bytes" where
  "passwordMaterial prim secret password =
     (case derive secret ''password_salt'' 32 of
        Inl e \<Rightarrow> Inl e
      | Inr salt \<Rightarrow> Inr (Scrypt prim password salt))"

definition build_keys :: "bytes \<Rightarrow> bytes \<Rightarrow> bytes \<Rightarrow> share_err + KeySet" where
  "build_keys secret blobMaterial deletion =
     (case derive secret ''meta_key'' 32 of Inl e \<Rightarrow> Inl e
      | Inr metaKey \<Rightarrow>
     (case derive secret ''public_id'' publicIDLength of Inl e \<Rightarrow> Inl e
      | Inr publicID \<Rightarrow>
     (case derive secret ''metadata_token'' 32 of Inl e \<Rightarrow> Inl e
      | Inr metadataToken \<Rightarrow>
     (case derive blobMaterial ''blob_key'' 32 of Inl e \<Rightarrow> Inl e
      | Inr blobKey \<Rightarrow>
     (case derive blobMaterial ''blob_token'' 32 of Inl e \<Rightarrow> Inl e
      | Inr blobToken \<Rightarrow>
          Inr \<lparr>k_shareSecret = secret, k_metaKey = metaKey, k_blobKey = blobKey, k_publicID = publicID,
               k_metadataToken = metadataToken, k_blobToken = blobToken, k_deletionToken = deletion\<rparr>)))))"

definition Generate :: "rng \<Rightarrow> share_err + KeySet" where
  "Generate rng =
     (case rand_Read rng 0 ShareSecretLength of
        None \<Rightarrow> Inl (NewErr ''draw share secret'')
      | Some secret \<Rightarrow>
          (case rand_Read rng 1 DeletionTokenLength of
             None \<Rightarrow> Inl (NewErr ''draw deletion token'')
           | Some deletion \<Rightarrow> build_keys secret secret deletion))"

definition encode_key :: "bytes \<Rightarrow> string" where
  "encode_key b = (if b = [] then [] else EncodeToString b)"

definition decodeExact :: "string \<Rightarrow> nat \<Rightarrow> share_err + bytes" where
  "decodeExact s n =
     (case DecodeString s of
        None \<Rightarrow> Inl (NewErr ''wrong length'')
      | Some b \<Rightarrow> (if length b \<noteq> n then Inl (NewErr ''wrong length'') else Inr b))"

definition FromShareSecret :: "primitives \<Rightarrow> string \<Rightarrow> string \<Rightarrow> share_err + KeySet" where
  "FromShareSecret prim encoded password =
     (case decodeExact encoded ShareSecretLength of
        Inl e \<Rightarrow> Inl ErrInvalidShareSecret
      | Inr secret \<Rightarrow>
          (if password = [] then build_keys secret secret []
           else (case passwordMaterial prim secret password of
                   Inl e \<Rightarrow> Inl e
                 | Inr material \<Rightarrow> build_keys secret material [])))"

definition WithPassword :: "primitives \<Rightarrow> KeySet \<Rightarrow> string \<Rightarrow> share_err + KeySet" where
  "WithPassword prim k password =
     (if password = [] then Inr k
      else (case passwordMaterial prim (k_shareSecret k) password of
              Inl e \<Rightarrow> Inl e
            | Inr material \<Rightarrow> build_keys (k_shareSecret k) material (k_deletionToken k)))"

definition WithDeletionToken :: "KeySet \<Rightarrow> string \<Rightarrow> share_err + KeySet" where
  "WithDeletionToken k encoded =
     (case decodeExact encoded DeletionTokenLength of
        Inl e \<Rightarrow> Inl ErrInvalidToken
      | Inr token \<Rightarrow> Inr (k\<lparr>k_deletionToken := token\<rparr>))"

definition Encoded :: "KeySet \<Rightarrow> EncodedKeys" where
  "Encoded k =
     \<lparr>en_ShareSecret = encode_key (k_shareSecret k), en_PublicID = encode_key (k_publicID k),
      en_MetadataToken = encode_key (k_metadataToken k), en_BlobToken = encode_key (k_blobToken k),
      en_DeletionToken = encode_key (k_deletionToken k)\<rparr>"

definition HasDeletionToken :: "KeySet \<Rightarrow> bool" where
  "HasDeletionToken k \<longleftrightarrow> length (k_deletionToken k) > 0"

section \<open>Ciphertexts\<close>

definition metaAAD :: "KeySet \<Rightarrow> bytes" where
  "metaAAD k = k_publicID k @ ''meta''"

definition recordAAD :: "KeySet \<Rightarrow> bytes \<Rightarrow> bytes" where
  "recordAAD k suffix = k_publicID k @ ''bundle'' @ [chr 0] @ suffix"

definition newNonce :: "rng \<Rightarrow> nat \<Rightarrow> share_err + bytes" where
  "newNonce rng i =
     (case rand_Read rng i NonceLength of None \<Rightarrow> Inl (NewErr ''draw nonce'') | Some b \<Rightarrow> Inr b)"

text \<open>The struct tags of \<open>Meta\<close>: the bundle name is omitted when it is empty.\<close>

definition Meta_Marshal :: "Meta \<Rightarrow> bytes" where
  "Meta_Marshal meta =
     json_object ([(''type'', json_string (m_Type meta)),
                   (''password_protected'', json_bool (m_PasswordProtected meta))] @
                  (if m_BundleName meta = [] then [] else [(''bundle_name'', json_string (m_BundleName meta))]))"

definition Meta_decode :: "(bytes \<times> jvalue) list \<Rightarrow> Meta option" where
  "Meta_decode obj =
     do { t \<leftarrow> string_field obj ''type''; p \<leftarrow> bool_field obj ''password_protected'';
          n \<leftarrow> string_field obj ''bundle_name'';
          Some \<lparr>m_Type = t, m_PasswordProtected = p, m_BundleName = n\<rparr> }"

definition Meta_Unmarshal :: "bytes \<Rightarrow> Meta option" where
  "Meta_Unmarshal b = do { v \<leftarrow> json_Unmarshal b; as_struct Meta_decode v }"

text \<open>\<open>chacha20poly1305.NewX\<close> refuses keys that are not 32 bytes long.\<close>

definition EncryptMeta :: "primitives \<Rightarrow> rng \<Rightarrow> nat \<Rightarrow> KeySet \<Rightarrow> Meta \<Rightarrow> share_err + string" where
  "EncryptMeta prim rng i k meta =
     (case newNonce rng i of
        Inl e \<Rightarrow> Inl e
      | Inr nonce \<Rightarrow>
          (if length (k_metaKey k) \<noteq> 32 then Inl (NewErr ''metadata cipher'')
           else Inr (envelopeVersion @ ''$'' @ encode_key nonce @ ''$'' @
                  encode_key (Seal prim (k_metaKey k) nonce (Meta_Marshal meta) (metaAAD k)))))"

definition DecryptMeta :: "primitives \<Rightarrow> KeySet \<Rightarrow> string \<Rightarrow> share_err + Meta" where
  "DecryptMeta prim k envelope =
     (case strings_Split envelope (CHR ''$'') of
        [v, n, c] \<Rightarrow>
          (if v \<noteq> envelopeVersion then Inl ErrInvalidEnvelope
           else (case decodeExact n NonceLength of
             Inl e \<Rightarrow> Inl ErrInvalidEnvelope
           | Inr nonce \<Rightarrow>
             (case DecodeString c of
                None \<Rightarrow> Inl ErrInvalidEnvelope
              | Some ciphertext \<Rightarrow>
                  (if length (k_metaKey k) \<noteq> 32 then Inl (NewErr ''metadata cipher'')
                   else (case Open prim (k_metaKey k) nonce ciphertext (metaAAD k) of
                           None \<Rightarrow> Inl ErrDecrypt
                         | Some plaintext \<Rightarrow>
                             (case Meta_Unmarshal plaintext of
                                None \<Rightarrow> Inl ErrInvalidEnvelope
                              | Some meta \<Rightarrow> Inr meta))))))
      | _ \<Rightarrow> Inl ErrInvalidEnvelope)"

definition EncryptRecord :: "primitives \<Rightarrow> rng \<Rightarrow> nat \<Rightarrow> KeySet \<Rightarrow> bytes \<Rightarrow> bytes \<Rightarrow> share_err + bytes" where
  "EncryptRecord prim rng i k plaintext aadSuffix =
     (case newNonce rng i of
        Inl e \<Rightarrow> Inl e
      | Inr nonce \<Rightarrow>
          (if length (k_blobKey k) \<noteq> 32 then Inl (NewErr ''record cipher'')
           else Inr (nonce @ Seal prim (k_blobKey k) nonce plaintext (recordAAD k aadSuffix))))"

definition DecryptRecord :: "primitives \<Rightarrow> KeySet \<Rightarrow> bytes \<Rightarrow> bytes \<Rightarrow> share_err + bytes" where
  "DecryptRecord prim k record aadSuffix =
     (if int (length record) < RecordOverhead then Inl ErrDecrypt
      else if length (k_blobKey k) \<noteq> 32 then Inl (NewErr ''record cipher'')
      else (case Open prim (k_blobKey k) (take NonceLength record) (drop NonceLength record)
                   (recordAAD k aadSuffix) of
              None \<Rightarrow> Inl ErrDecrypt
            | Some plaintext \<Rightarrow> Inr plaintext))"

section \<open>Keys are derived\<close>

lemma derive_total: "n \<le> 64 \<Longrightarrow> \<exists>key. derive ikm name n = Inr key \<and> length key = n"
  using hkdf_Key_length [of n ikm "replicate 64 (chr 0)" "derivationPrefix @ '':'' @ name"]
  by (auto simp: derive_def)

lemma build_keys_total:
  "\<exists>k. build_keys secret material deletion = Inr k \<and> k_shareSecret k = secret \<and> k_deletionToken k = deletion \<and>
     length (k_metaKey k) = 32 \<and> length (k_blobKey k) = 32 \<and> length (k_publicID k) = publicIDLength \<and>
     length (k_metadataToken k) = 32 \<and> length (k_blobToken k) = 32"
proof -
  have d: "\<exists>key. derive ikm name 32 = Inr key \<and> length key = 32" for ikm name
    by (rule derive_total) simp
  obtain b where "derive secret ''public_id'' publicIDLength = Inr b \<and> length b = publicIDLength"
    using derive_total [of publicIDLength secret "''public_id''"] by (auto simp: publicIDLength_def)
  moreover obtain a where "derive secret ''meta_key'' 32 = Inr a \<and> length a = 32" using d by blast
  moreover obtain c where "derive secret ''metadata_token'' 32 = Inr c \<and> length c = 32" using d by blast
  moreover obtain e where "derive material ''blob_key'' 32 = Inr e \<and> length e = 32" using d by blast
  moreover obtain f where "derive material ''blob_token'' 32 = Inr f \<and> length f = 32" using d by blast
  ultimately show ?thesis by (simp add: build_keys_def)
qed

lemma build_keys_deletion:
  "build_keys secret material deletion = Inr k \<Longrightarrow> build_keys secret material [] = Inr (k\<lparr>k_deletionToken := []\<rparr>)"
  by (auto simp: build_keys_def split: sum.splits)

text \<open>What comes from the share secret alone is the same for every password.\<close>

lemma build_keys_meta:
  assumes "build_keys secret m d = Inr k" and "build_keys secret m' d' = Inr k'"
  shows "k_metaKey k' = k_metaKey k \<and> k_publicID k' = k_publicID k \<and> k_metadataToken k' = k_metadataToken k \<and>
     k_shareSecret k' = k_shareSecret k"
  using assms by (auto simp: build_keys_def split: sum.splits)

lemma build_keys_InrD:
  assumes "build_keys secret material deletion = Inr k"
  shows "k_shareSecret k = secret" "k_deletionToken k = deletion" "length (k_metaKey k) = 32"
    "length (k_blobKey k) = 32" "length (k_publicID k) = 16" "length (k_metadataToken k) = 32"
    "length (k_blobToken k) = 32"
  using build_keys_total [of secret material deletion] assms by (auto simp: publicIDLength_def)

lemma encode_key_decodes: "decodeExact (encode_key b) (length b) = Inr b"
  by (auto simp: decodeExact_def encode_key_def decode_encode) (simp_all add: DecodeString_def)

lemma Generate_InrD:
  assumes "Generate rng = Inr base"
  obtains secret deletion where "length secret = ShareSecretLength" "length deletion = DeletionTokenLength"
    "build_keys secret secret deletion = Inr base"
  using assms by (auto simp: Generate_def dest!: rand_Read_length split: option.splits)

lemma passwordMaterial_total: "\<exists>m. passwordMaterial prim secret password = Inr m"
  using derive_total [of 32 secret "''password_salt''"] by (auto simp: passwordMaterial_def)

lemma WithPassword_total: "\<exists>k'. WithPassword prim k password = Inr k'"
proof -
  obtain m where "passwordMaterial prim (k_shareSecret k) password = Inr m" using passwordMaterial_total by blast
  then show ?thesis using build_keys_total [of "k_shareSecret k" m "k_deletionToken k"]
    by (auto simp: WithPassword_def)
qed

section \<open>Ciphertexts open again\<close>

lemma EncryptRecord_InrD:
  assumes "EncryptRecord prim rng i k plaintext aad = Inr rec"
  obtains nonce where "length nonce = NonceLength" "length (k_blobKey k) = 32"
    "rec = nonce @ Seal prim (k_blobKey k) nonce plaintext (recordAAD k aad)"
  using assms
  by (auto simp: EncryptRecord_def newNonce_def dest!: rand_Read_length split: option.splits sum.splits if_splits)

lemma record_opens:
  assumes "aead_opens prim" and "EncryptRecord prim rng i k plaintext aad = Inr rec"
    and "int (length plaintext) \<le> 274877906880"
  shows "int (length rec) = int (length plaintext) + RecordOverhead" "DecryptRecord prim k rec aad = Inr plaintext"
proof -
  from EncryptRecord_InrD [OF assms(2)] obtain nonce where n: "length nonce = NonceLength" "length (k_blobKey k) = 32"
    "rec = nonce @ Seal prim (k_blobKey k) nonce plaintext (recordAAD k aad)" by blast
  then have seal: "length (Seal prim (k_blobKey k) nonce plaintext (recordAAD k aad)) = length plaintext + 16"
    "Open prim (k_blobKey k) nonce (Seal prim (k_blobKey k) nonce plaintext (recordAAD k aad)) (recordAAD k aad) =
      Some plaintext"
    using assms(1,3) unfolding aead_opens_def by blast+
  show "int (length rec) = int (length plaintext) + RecordOverhead"
    using n seal(1) by (simp add: NonceLength_def)
  then show "DecryptRecord prim k rec aad = Inr plaintext"
    using n seal(2) by (simp add: DecryptRecord_def)
qed

lemma EncryptRecord_ok:
  "rng i \<noteq> None \<Longrightarrow> length (k_blobKey k) = 32 \<Longrightarrow> \<exists>rec. EncryptRecord prim rng i k plaintext aad = Inr rec"
  by (auto simp: EncryptRecord_def newNonce_def rand_Read_def split: option.split)

lemma dollar_not_in_encode: "CHR ''$'' \<notin> set (encode_key b)"
proof
  assume "CHR ''$'' \<in> set (encode_key b)"
  then obtain n where "n < 64" "CHR ''$'' = b64_char n" using set_EncodeToString [of _ b] by (auto simp: encode_key_def split: if_splits)
  then have "b64_val (CHR ''$'') \<noteq> None" by simp
  then show False by (simp add: b64_val_def)
qed

section \<open>The link is enough\<close>

lemma link_rebuilds:
  assumes "Generate rng = Inr base" and "WithPassword prim base password = Inr blobKeys"
  shows "FromShareSecret prim (en_ShareSecret (Encoded base)) password = Inr (blobKeys\<lparr>k_deletionToken := []\<rparr>)"
proof -
  from Generate_InrD [OF assms(1)] obtain secret deletion where gen: "length secret = ShareSecretLength"
    "build_keys secret secret deletion = Inr base" by blast
  note base = build_keys_InrD(1,2) [OF gen(2)]
  have dec: "decodeExact (en_ShareSecret (Encoded base)) ShareSecretLength = Inr secret"
    using encode_key_decodes [of secret] by (simp add: Encoded_def base gen(1) [symmetric])
  show ?thesis
  proof (cases "password = []")
    case True
    then show ?thesis using assms(2) dec build_keys_deletion [OF gen(2)]
      by (simp add: FromShareSecret_def WithPassword_def)
  next
    case False
    then show ?thesis using assms(2) dec base
      by (auto simp: FromShareSecret_def WithPassword_def dest: build_keys_deletion split: sum.splits)
  qed
qed

text \<open>The owner link also carries the deletion token.\<close>

lemma owner_link_rebuilds:
  assumes "Generate rng = Inr base" and "WithPassword prim base password = Inr blobKeys"
  shows "WithDeletionToken (blobKeys\<lparr>k_deletionToken := []\<rparr>) (en_DeletionToken (Encoded base)) = Inr blobKeys"
proof -
  from Generate_InrD [OF assms(1)] obtain secret deletion where gen: "length deletion = DeletionTokenLength"
    "build_keys secret secret deletion = Inr base" by blast
  note base = build_keys_InrD(1,2) [OF gen(2)]
  have "decodeExact (en_DeletionToken (Encoded base)) DeletionTokenLength = Inr deletion"
    using encode_key_decodes [of deletion] by (simp add: Encoded_def base gen(1) [symmetric])
  moreover have "k_deletionToken blobKeys = deletion"
    using assms(2) base by (auto simp: WithPassword_def dest: build_keys_InrD(2) split: if_splits sum.splits)
  ultimately show ?thesis by (simp add: WithDeletionToken_def)
qed

text \<open>
  Property C33. Whoever holds the link and the password has every key and token of the secret: rebuilding the key set from
  the share secret a link carries and the password gives what the sender had, except the deletion token; and adding the
  deletion token of the owner link gives the sender's whole set. So the tokens are the ones the server stored hashes of, and
  the records decrypt.
\<close>

theorem link_rebuilds_the_keys:
  assumes "Generate rng = Inr base" and "WithPassword prim base password = Inr blobKeys"
  shows "FromShareSecret prim (en_ShareSecret (Encoded base)) password = Inr (blobKeys\<lparr>k_deletionToken := []\<rparr>) \<and>
     WithDeletionToken (blobKeys\<lparr>k_deletionToken := []\<rparr>) (en_DeletionToken (Encoded base)) = Inr blobKeys"
  using link_rebuilds [OF assms] owner_link_rebuilds [OF assms] ..

theorem link_rebuilds_the_keys_witness:
  "\<exists>base blobKeys recipientKeys. Generate (\<lambda>i. Some (\<lambda>n. chr (i + n))) = Inr base \<and>
     FromShareSecret \<lparr>Seal = (\<lambda>k n p a. p), Open = (\<lambda>k n c a. None), Scrypt = (\<lambda>p s. p @ s)\<rparr>
       (en_ShareSecret (Encoded base)) ''hunter2'' = Inr recipientKeys \<and>
     WithDeletionToken recipientKeys (en_DeletionToken (Encoded base)) = Inr blobKeys"
proof -
  obtain base where base: "Generate (\<lambda>i. Some (\<lambda>n. chr (i + n))) = Inr base"
    using build_keys_total [of "map (\<lambda>n. chr (0 + n)) [0..<ShareSecretLength]" "map (\<lambda>n. chr (0 + n)) [0..<ShareSecretLength]"
        "map (\<lambda>n. chr (1 + n)) [0..<DeletionTokenLength]"]
    by (auto simp: Generate_def rand_Read_def)
  moreover obtain blobKeys where
    "WithPassword \<lparr>Seal = (\<lambda>k n p a. p), Open = (\<lambda>k n c a. None), Scrypt = (\<lambda>p s. p @ s)\<rparr> base ''hunter2'' = Inr blobKeys"
    using WithPassword_total by blast
  ultimately show ?thesis using link_rebuilds_the_keys by blast
qed

lemma encode_key_length: "length b \<le> 6016 \<Longrightarrow> length (encode_key b) \<le> 8023"
  by (auto simp: encode_key_def length_EncodeToString)

lemma encode_key_ne: "b \<noteq> [] \<Longrightarrow> encode_key b = EncodeToString b"
  by (simp add: encode_key_def)

text \<open>What is sealed in an envelope reads back, in valid UTF-8.\<close>

definition Meta_value :: "Meta \<Rightarrow> jvalue" where
  "Meta_value meta =
     VObj ([(''type'', VStr (m_Type meta)), (''password_protected'', VBool (m_PasswordProtected meta))] @
           (if m_BundleName meta = [] then [] else [(''bundle_name'', VStr (m_BundleName meta))]))"

lemma Meta_Marshal_value: "Meta_Marshal meta = json_text (Meta_value meta)"
  by (simp add: Meta_Marshal_def Meta_value_def)

lemma Meta_names_utf8 [simp]:
  "valid_utf8 ''type''" "valid_utf8 ''password_protected''" "valid_utf8 ''bundle_name''"
  by (rule valid_utf8_ascii, simp)+

lemma Meta_roundtrip:
  assumes "valid_utf8 (m_Type meta)" and "valid_utf8 (m_BundleName meta)"
  shows "Meta_Unmarshal (Meta_Marshal meta) = Some meta"
proof -
  have "writable maxNestingDepth (Meta_value meta)"
    using assms by (simp add: Meta_value_def maxNestingDepth_def)
  from json_Unmarshal_text [OF this] show ?thesis
    by (simp add: Meta_Unmarshal_def Meta_Marshal_value Meta_value_def Meta_decode_def field_defs)
qed

lemma envelope_opens:
  assumes aead: "aead_opens prim" and gen: "Generate rng = Inr base"
    and enc: "EncryptMeta prim rng i base meta = Inr envelope" and small: "length (Meta_Marshal meta) \<le> 6000"
    and utf8: "valid_utf8 (m_Type meta)" "valid_utf8 (m_BundleName meta)"
    and link: "FromShareSecret prim (en_ShareSecret (Encoded base)) password = Inr k"
  shows "DecryptMeta prim k envelope = Inr meta \<and> ValidEncryptedMeta envelope"
proof -
  from Generate_InrD [OF gen] obtain secret deletion where g: "length secret = ShareSecretLength"
    "build_keys secret secret deletion = Inr base" by blast
  note base = build_keys_InrD [OF g(2)]
  have dec: "decodeExact (en_ShareSecret (Encoded base)) ShareSecretLength = Inr secret"
    using encode_key_decodes [of secret] by (simp add: Encoded_def base g(1) [symmetric])
  then obtain m d where "build_keys secret m d = Inr k"
    using link by (auto simp: FromShareSecret_def split: if_splits sum.splits)
  then have k: "k_metaKey k = k_metaKey base" "metaAAD k = metaAAD base"
    using build_keys_meta [OF g(2)] by (auto simp: metaAAD_def)
  from enc obtain nonce c where nonce: "length nonce = NonceLength"
    and c: "c = Seal prim (k_metaKey base) nonce (Meta_Marshal meta) (metaAAD base)"
    and env: "envelope = envelopeVersion @ ''$'' @ encode_key nonce @ ''$'' @ encode_key c"
    by (auto simp: EncryptMeta_def newNonce_def dest!: rand_Read_length split: sum.splits option.splits if_splits)
  have seal: "length c = length (Meta_Marshal meta) + 16" "Open prim (k_metaKey base) nonce c (metaAAD base) =
      Some (Meta_Marshal meta)"
    using aead nonce base(3) small unfolding aead_opens_def c by force+
  have parts: "strings_Split envelope (CHR ''$'') = [''v2'', encode_key nonce, encode_key c]"
    using dollar_not_in_encode strings_Split_append [of "CHR ''$''" "''v2''" "encode_key nonce @ ''$'' @ encode_key c"]
    by (simp add: env envelopeVersion_def strings_Split_append strings_Split_no_sep)
  have ne: "nonce \<noteq> []" "c \<noteq> []" using nonce seal(1) by (auto simp: NonceLength_def)
  then have b64: "DecodeString (encode_key nonce) = Some nonce" "DecodeString (encode_key c) = Some c"
    "isUnpaddedBase64URL (encode_key c)"
    by (simp_all add: encode_key_ne decode_encode isUnpaddedBase64URL_encode)
  have "length (encode_key nonce) = 32" using nonce ne
    by (simp add: encode_key_ne length_EncodeToString NonceLength_def)
  moreover have "length (encode_key c) \<le> 8023" using seal(1) small by (intro encode_key_length) simp
  ultimately have "length envelope \<le> EncryptedMetaMaxBytes \<and> envelope \<noteq> []"
    by (simp add: env envelopeVersion_def EncryptedMetaMaxBytes_def)
  then have "ValidEncryptedMeta envelope"
    using parts b64 nonce by (auto simp: ValidEncryptedMeta_def metadataV2NonceLength_def NonceLength_def isUnpaddedBase64URL_def)
  moreover have "DecryptMeta prim k envelope = Inr meta"
    using parts b64 nonce seal(2) k Meta_roundtrip [OF utf8] base(3)
    by (simp add: DecryptMeta_def decodeExact_def envelopeVersion_def)
  ultimately show ?thesis by blast
qed

text \<open>
  Property C34. The metadata envelope is readable with the link alone, whatever the password, and the
  server accepts it: for metadata of at most 6000 bytes, in valid UTF-8, it opens to what was sealed and passes the validation the
  server applies to it.
\<close>

theorem envelope_opens_with_the_link:
  assumes aead: "aead_opens prim" and gen: "Generate rng = Inr base"
    and enc: "EncryptMeta prim rng i base meta = Inr envelope" and small: "length (Meta_Marshal meta) \<le> 6000"
    and utf8: "valid_utf8 (m_Type meta)" "valid_utf8 (m_BundleName meta)"
    and link: "FromShareSecret prim (en_ShareSecret (Encoded base)) password = Inr k"
  shows "DecryptMeta prim k envelope = Inr meta \<and> ValidEncryptedMeta envelope"
  using assms by (rule envelope_opens)

text \<open>A stand-in for the cipher with the documented behaviour: the tag is constant, and everything opens.\<close>

definition open_primitives :: primitives where
  "open_primitives = \<lparr>Seal = (\<lambda>key nonce p aad. p @ replicate 16 (chr 0)),
     Open = (\<lambda>key nonce c aad. Some (take (length c - 16) c)), Scrypt = (\<lambda>p s. p @ s)\<rparr>"

lemma open_primitives_opens: "aead_opens open_primitives"
  by (simp add: aead_opens_def open_primitives_def)

definition demo_rng :: rng where "demo_rng i = Some (\<lambda>n. chr (65 + i))"

lemma demo_Generate: "\<exists>base. Generate demo_rng = Inr base \<and> length (k_blobKey base) = 32"
  using build_keys_total [of "replicate 32 (chr 65)" "replicate 32 (chr 65)" "replicate 32 (chr 66)"]
  by (auto simp: Generate_def rand_Read_def demo_rng_def ShareSecretLength_def DeletionTokenLength_def map_replicate_const)

theorem envelope_opens_with_the_link_witness:
  "\<exists>base envelope k. EncryptMeta open_primitives demo_rng 2 base \<lparr>m_Type = ''text'', m_PasswordProtected = True, m_BundleName = ''a''\<rparr> =
       Inr envelope \<and> Generate demo_rng = Inr base \<and>
     FromShareSecret open_primitives (en_ShareSecret (Encoded base)) ''pw'' = Inr k \<and>
     DecryptMeta open_primitives k envelope =
       Inr \<lparr>m_Type = ''text'', m_PasswordProtected = True, m_BundleName = ''a''\<rparr> \<and> ValidEncryptedMeta envelope"
proof -
  let ?meta = "\<lparr>m_Type = ''text'', m_PasswordProtected = True, m_BundleName = ''a''\<rparr>"
  obtain base where base: "Generate demo_rng = Inr base" using demo_Generate by blast
  obtain blobKeys where "WithPassword open_primitives base ''pw'' = Inr blobKeys" using WithPassword_total by blast
  from link_rebuilds [OF base this] obtain k
    where k: "FromShareSecret open_primitives (en_ShareSecret (Encoded base)) ''pw'' = Inr k" by blast
  have "length (k_metaKey base) = 32" using Generate_InrD [OF base] build_keys_InrD(3) by metis
  then obtain envelope where env: "EncryptMeta open_primitives demo_rng 2 base ?meta = Inr envelope"
    by (auto simp: EncryptMeta_def newNonce_def rand_Read_def demo_rng_def)
  have "length (Meta_Marshal ?meta) \<le> 6000"
    by (simp add: Meta_Marshal_def json_object_def json_string_def json_bool_def json_rune_def json_quote_def
        escape_ascii_def)
  moreover have "valid_utf8 (m_Type ?meta)" "valid_utf8 (m_BundleName ?meta)" by (simp_all del: utf8_size.simps)
  ultimately have "DecryptMeta open_primitives k envelope = Inr ?meta \<and> ValidEncryptedMeta envelope"
    by (rule envelope_opens_with_the_link [OF open_primitives_opens base env _ _ _ k])
  then show ?thesis using env base k by blast
qed

end
