(* ===== verification/Bundle.thy ===== *)
theory Bundle
  imports Keys "HOL-Library.Signed_Division"
begin

text \<open>
  \<open>internal/share/bundle\<close>: the encrypted blob format. Files are cut into records, each sealed and bound to its place;
  the encrypted manifest and a fixed footer follow. This theory has the data, the layout (\<open>NewPlan\<close>), the
  footer, the check of a manifest (\<open>validate\<close>) and \<open>Encrypt\<close> of \<open>bundle.go\<close> and \<open>writer.go\<close>.

  The layout is computed in unbounded integers: it walks over every 4 MiB of its files, so their sizes stay far below
  the range of an \<open>int64\<close>. What arrives in a manifest can be any \<open>int64\<close>, so its check wraps around.
\<close>

section \<open>Constants and data\<close>

definition FooterLength :: int where "FooterLength = 64"
definition ChunkSize :: int where "ChunkSize = 4 * 1024 * 1024"
definition MaxManifestBytes :: int where "MaxManifestBytes = 256 * 1024"
definition CoalesceBytes :: int where "CoalesceBytes = 16 * 1024 * 1024"
definition SmallBundleBytes :: int where "SmallBundleBytes = 1024 * 1024"
definition bundle_version :: int where "bundle_version = 2"

definition magic :: bytes where
  "magic = [chr 83, chr 76, chr 66, chr 78, chr 68, chr 76, chr 50, chr 0]"

lemmas bundle_consts =
  FooterLength_def ChunkSize_def MaxManifestBytes_def CoalesceBytes_def SmallBundleBytes_def bundle_version_def

record Chunk =
  c_Index :: int
  c_Offset :: int
  c_Length :: int
  c_PlaintextSize :: int

record File =
  f_Index :: int
  f_Path :: string
  f_Name :: string
  f_Type :: string
  f_Size :: int
  f_Chunks :: "Chunk list"

record Manifest =
  mf_Version :: int
  mf_BundleName :: string
  mf_ChunkSize :: int
  mf_Files :: "File list"

definition manifest_TotalSize :: "Manifest \<Rightarrow> int" where
  "manifest_TotalSize m = foldl (\<lambda>acc f. int64 (acc + f_Size f)) 0 (mf_Files m)"

record Footer =
  ft_ManifestLength :: int
  ft_ManifestSHA256 :: bytes

text \<open>\<open>ReadAt offset n\<close>: the bytes read, at most \<open>n\<close>, and how the read ended.\<close>

datatype read_end = ReadOk | ReadEOF | ReadFailed

record Source =
  src_Name :: string
  src_Path :: string
  src_Type :: string
  src_Size :: int
  src_ReadAt :: "int \<Rightarrow> int \<Rightarrow> bytes \<times> read_end"

record Record =
  r_FileIndex :: int
  r_ChunkIndex :: int
  r_Start :: int
  r_End :: int
  r_Offset :: int
  r_Length :: int
  r_PlaintextSize :: int

record Plan =
  pl_Manifest :: Manifest
  pl_ManifestJSON :: bytes
  pl_Records :: "Record list"
  pl_DataSize :: int
  pl_EncryptedManifestLength :: int
  pl_TotalSize :: int

section \<open>The manifest as JSON\<close>

definition Chunk_Marshal :: "Chunk \<Rightarrow> string" where
  "Chunk_Marshal c =
     json_object [(''index'', FormatInt (c_Index c)), (''offset'', FormatInt (c_Offset c)),
                  (''length'', FormatInt (c_Length c)), (''plaintextSize'', FormatInt (c_PlaintextSize c))]"

definition File_Marshal :: "File \<Rightarrow> string" where
  "File_Marshal f =
     json_object [(''index'', FormatInt (f_Index f)), (''path'', json_string (f_Path f)),
                  (''name'', json_string (f_Name f)), (''type'', json_string (f_Type f)),
                  (''size'', FormatInt (f_Size f)), (''chunks'', json_array (map Chunk_Marshal (f_Chunks f)))]"

definition Manifest_Marshal :: "Manifest \<Rightarrow> bytes" where
  "Manifest_Marshal m =
     json_object [(''version'', FormatInt (mf_Version m)), (''bundleName'', json_string (mf_BundleName m)),
                  (''chunkSize'', FormatInt (mf_ChunkSize m)), (''files'', json_array (map File_Marshal (mf_Files m)))]"

text \<open>And back: every field is optional, and what is missing is zero.\<close>

definition Chunk_decode :: "(bytes \<times> jvalue) list \<Rightarrow> Chunk option" where
  "Chunk_decode obj =
     do { i \<leftarrow> int_field obj ''index''; a \<leftarrow> int_field obj ''offset''; n \<leftarrow> int_field obj ''length'';
          p \<leftarrow> int_field obj ''plaintextSize'';
          Some \<lparr>c_Index = i, c_Offset = a, c_Length = n, c_PlaintextSize = p\<rparr> }"

definition File_decode :: "(bytes \<times> jvalue) list \<Rightarrow> File option" where
  "File_decode obj =
     do { i \<leftarrow> int_field obj ''index''; p \<leftarrow> string_field obj ''path''; n \<leftarrow> string_field obj ''name'';
          t \<leftarrow> string_field obj ''type''; sz \<leftarrow> int_field obj ''size'';
          cs \<leftarrow> list_field (as_struct Chunk_decode) obj ''chunks'';
          Some \<lparr>f_Index = i, f_Path = p, f_Name = n, f_Type = t, f_Size = sz, f_Chunks = cs\<rparr> }"

definition Manifest_decode :: "(bytes \<times> jvalue) list \<Rightarrow> Manifest option" where
  "Manifest_decode obj =
     do { v \<leftarrow> int_field obj ''version''; n \<leftarrow> string_field obj ''bundleName''; c \<leftarrow> int_field obj ''chunkSize'';
          fs \<leftarrow> list_field (as_struct File_decode) obj ''files'';
          Some \<lparr>mf_Version = v, mf_BundleName = n, mf_ChunkSize = c, mf_Files = fs\<rparr> }"

definition Manifest_Unmarshal :: "bytes \<Rightarrow> Manifest option" where
  "Manifest_Unmarshal b = do { v \<leftarrow> json_Unmarshal b; as_struct Manifest_decode v }"

section \<open>The layout\<close>

text \<open>The inner loop of \<open>NewPlan\<close> from \<open>start\<close> on: the records and chunks of one file and the offset behind them.\<close>

function plan_chunks :: "int \<Rightarrow> int \<Rightarrow> int \<Rightarrow> int \<Rightarrow> int \<Rightarrow> Record list \<times> Chunk list \<times> int" where
  "plan_chunks fileIndex fileSize start chunkIndex offset =
     (if start < fileSize
      then (let stop = min (start + ChunkSize) fileSize;
                plaintextSize = stop - start;
                len = plaintextSize + RecordOverhead;
                (records, chunks, offset') =
                  plan_chunks fileIndex fileSize (start + ChunkSize) (chunkIndex + 1) (offset + len)
            in (\<lparr>r_FileIndex = fileIndex, r_ChunkIndex = chunkIndex, r_Start = start, r_End = stop,
                 r_Offset = offset, r_Length = len, r_PlaintextSize = plaintextSize\<rparr> # records,
                \<lparr>c_Index = chunkIndex, c_Offset = offset, c_Length = len, c_PlaintextSize = plaintextSize\<rparr> # chunks,
                offset'))
      else ([], [], offset))"
  by pat_completeness auto

termination
  by (relation "measure (\<lambda>(fileIndex, fileSize, start, chunkIndex, offset). nat (fileSize - start))")
     (auto simp: ChunkSize_def)

declare plan_chunks.simps [simp del]

fun plan_files :: "Source list \<Rightarrow> int \<Rightarrow> int \<Rightarrow> Record list \<times> File list \<times> int" where
  "plan_files [] fileIndex offset = ([], [], offset)"
| "plan_files (src # sources) fileIndex offset =
     (let (records, chunks, offset1) = plan_chunks fileIndex (src_Size src) 0 0 offset;
          path = (if src_Path src = [] then src_Name src else src_Path src);
          typ = (if src_Type src = [] then ''application/octet-stream'' else src_Type src);
          (records', files, offset2) = plan_files sources (fileIndex + 1) offset1
      in (records @ records',
          \<lparr>f_Index = fileIndex, f_Path = path, f_Name = src_Name src, f_Type = typ, f_Size = src_Size src,
           f_Chunks = chunks\<rparr> # files,
          offset2))"

definition NewPlan :: "Source list \<Rightarrow> string \<Rightarrow> share_err + Plan" where
  "NewPlan sources bundleName =
     (if sources = [] then Inl ErrEmpty
      else
        (let (records, files, offset) = plan_files sources 0 0;
             manifest = \<lparr>mf_Version = bundle_version, mf_BundleName = bundleName, mf_ChunkSize = ChunkSize, mf_Files = files\<rparr>;
             manifestJSON = Manifest_Marshal manifest
         in if int (length manifestJSON) > MaxManifestBytes then Inl ErrManifestTooLarge
            else
              (let encryptedManifestLength = int (length manifestJSON) + RecordOverhead
               in Inr \<lparr>pl_Manifest = manifest, pl_ManifestJSON = manifestJSON, pl_Records = records,
                       pl_DataSize = offset, pl_EncryptedManifestLength = encryptedManifestLength,
                       pl_TotalSize = offset + encryptedManifestLength + FooterLength\<rparr>)))"

definition DefaultBundleName :: "string list \<Rightarrow> string" where
  "DefaultBundleName names =
     (case names of
        [name] \<Rightarrow> (if name \<noteq> [] then name else ''Secretli file'')
      | _ \<Rightarrow> ''Secretli bundle ('' @ FormatInt (int (length names)) @ '' files)'')"

definition EstimateEncryptedSize :: "int list \<Rightarrow> int" where
  "EstimateEncryptedSize sizes =
     (let (chunks, plaintext) =
        foldl (\<lambda>(chunks, plaintext) sz. (int64 (chunks + int64 (sz + ChunkSize - 1) sdiv ChunkSize), int64 (plaintext + sz)))
          (0, 0) sizes
      in int64 (plaintext + chunks * RecordOverhead + MaxManifestBytes + RecordOverhead + FooterLength))"

definition ManifestAAD :: bytes where "ManifestAAD = ''manifest:v2''"

definition ChunkAAD :: "int \<Rightarrow> int \<Rightarrow> int \<Rightarrow> bytes" where
  "ChunkAAD fileIndex chunkIndex plaintextSize =
     ''chunk:'' @ FormatInt fileIndex @ '':'' @ FormatInt chunkIndex @ '':'' @ FormatInt plaintextSize"

section \<open>The footer\<close>

definition be_value :: "bytes \<Rightarrow> int" where
  "be_value bs = foldl (\<lambda>v c. 256 * v + int (ord c)) 0 bs"

definition EncodeFooter :: "Footer \<Rightarrow> share_err + bytes" where
  "EncodeFooter f =
     (if ft_ManifestLength f \<le> RecordOverhead then Inl ErrInvalidFooter
      else Inr (magic @ be_bytes 4 bundle_version @ be_bytes 4 FooterLength @ be_bytes 8 (ft_ManifestLength f) @
                ft_ManifestSHA256 f @ replicate 8 (chr 0)))"

definition ParseFooter :: "bytes \<Rightarrow> share_err + Footer" where
  "ParseFooter b =
     (if int (length b) \<noteq> FooterLength \<or> take (length magic) b \<noteq> magic then Inl ErrInvalidFooter
      else if be_value (take 4 (drop 8 b)) \<noteq> bundle_version \<or> be_value (take 4 (drop 12 b)) \<noteq> FooterLength
      then Inl ErrInvalidFooter
      else (let len = be_value (take 8 (drop 16 b))
            in if len > 9007199254740992 \<or> len \<le> RecordOverhead then Inl ErrInvalidFooter
               else Inr \<lparr>ft_ManifestLength = len, ft_ManifestSHA256 = take 32 (drop 24 b)\<rparr>))"

definition SHA256Hex :: "bytes \<Rightarrow> string" where
  "SHA256Hex b = hex_EncodeToString (Sum256 b)"

section \<open>Checking a manifest\<close>

text \<open>The spans of the chunks from index \<open>i\<close> on, and the sum of their sizes from \<open>acc\<close> on.\<close>

fun check_chunks :: "int \<Rightarrow> int \<Rightarrow> int \<Rightarrow> int \<Rightarrow> Chunk list \<Rightarrow> ((int \<times> int) list \<times> int) option" where
  "check_chunks chunkSize manifestOffset i acc [] = Some ([], acc)"
| "check_chunks chunkSize manifestOffset i acc (c # cs) =
     (if c_Index c \<noteq> i \<or> c_Offset c < 0 \<or> c_PlaintextSize c \<le> 0 \<or> c_PlaintextSize c > chunkSize \<or>
         c_Length c \<noteq> int64 (c_PlaintextSize c + RecordOverhead)
      then None
      else (let stop = int64 (c_Offset c + c_Length c - 1)
            in if stop \<ge> manifestOffset then None
               else (case check_chunks chunkSize manifestOffset (i + 1) (int64 (acc + c_PlaintextSize c)) cs of
                       None \<Rightarrow> None
                     | Some (spans, t) \<Rightarrow> Some ((c_Offset c, stop) # spans, t))))"

fun check_files :: "int \<Rightarrow> int \<Rightarrow> int \<Rightarrow> File list \<Rightarrow> (int \<times> int) list option" where
  "check_files chunkSize manifestOffset i [] = Some []"
| "check_files chunkSize manifestOffset i (f # fs) =
     (if f_Index f \<noteq> i \<or> f_Path f = [] \<or> f_Name f = [] \<or> f_Size f < 0 then None
      else (case check_chunks chunkSize manifestOffset 0 0 (f_Chunks f) of
              None \<Rightarrow> None
            | Some (spans, fileSize) \<Rightarrow>
                (if fileSize \<noteq> f_Size f \<or> f_Size f = 0 \<and> f_Chunks f \<noteq> [] then None
                 else (case check_files chunkSize manifestOffset (i + 1) fs of
                         None \<Rightarrow> None
                       | Some spans' \<Rightarrow> Some (spans @ spans')))))"

text \<open>
  The walk over the sorted spans. Two spans with the same start fail in either order, so that \<open>sort.Slice\<close> is not
  stable does not matter.
\<close>

fun check_spans :: "int \<Rightarrow> (int \<times> int) list \<Rightarrow> int option" where
  "check_spans expected [] = Some expected"
| "check_spans expected ((start, stop) # spans) =
     (if start \<noteq> expected then None else check_spans (int64 (stop + 1)) spans)"

definition manifest_validate :: "Manifest \<Rightarrow> int \<Rightarrow> int \<Rightarrow> share_err option" where
  "manifest_validate m manifestOffset bundleSize =
     (if mf_Version m \<noteq> bundle_version \<or> mf_ChunkSize m \<noteq> ChunkSize \<or> mf_BundleName m = [] \<or> mf_Files m = [] \<or>
         manifestOffset < 0 \<or> int64 (manifestOffset + FooterLength) > bundleSize
      then Some ErrInvalidManifest
      else (case check_files (mf_ChunkSize m) manifestOffset 0 (mf_Files m) of
              None \<Rightarrow> Some ErrInvalidManifest
            | Some spans \<Rightarrow>
                (if check_spans 0 (sort_key fst spans) = Some manifestOffset then None
                 else Some ErrInvalidManifest)))"

section \<open>Encrypting\<close>

text \<open>
  \<open>ReadAt\<close> into a buffer that is used for every record: what it does not read keeps its old content.
\<close>

definition read_into :: "bytes \<Rightarrow> bytes \<Rightarrow> bytes" where
  "read_into buf got = got @ drop (length got) buf"

text \<open>The loop over the records, with the buffer, the output so far and the number of the next nonce.\<close>

fun encrypt_records ::
    "primitives \<Rightarrow> rng \<Rightarrow> Source list \<Rightarrow> KeySet \<Rightarrow> Record list \<Rightarrow> bytes \<Rightarrow> bytes \<Rightarrow> nat \<Rightarrow> share_err + (bytes \<times> nat)" where
  "encrypt_records prim rng sources ks [] buf out i = Inr (out, i)"
| "encrypt_records prim rng sources ks (r # rs) buf out i =
     (let n = nat (r_PlaintextSize r)
      in if r_FileIndex r < 0 \<or> int (length sources) \<le> r_FileIndex r \<or> r_PlaintextSize r < 0 \<or> length buf < n
         then Inl Panicked
         else
           (let src = sources ! nat (r_FileIndex r);
                (got, ending) = src_ReadAt src (r_Start r) (r_PlaintextSize r)
            in if ending = ReadFailed then Inl (NewErr (''read '' @ src_Name src))
               else
                 (let buf' = read_into buf got
                  in case EncryptRecord prim rng i ks (take n buf')
                            (ChunkAAD (r_FileIndex r) (r_ChunkIndex r) (r_PlaintextSize r)) of
                       Inl e \<Rightarrow> Inl e
                     | Inr encrypted \<Rightarrow>
                         (if int (length encrypted) \<noteq> r_Length r then Inl (NewErr ''bundle record size mismatch'')
                          else encrypt_records prim rng sources ks rs buf' (out @ encrypted) (i + 1)))))"

text \<open>The end of a bundle: the sealed manifest and the footer.\<close>

definition seal_manifest :: "primitives \<Rightarrow> rng \<Rightarrow> nat \<Rightarrow> Plan \<Rightarrow> KeySet \<Rightarrow> share_err + bytes" where
  "seal_manifest prim rng i plan ks =
     (case EncryptRecord prim rng i ks (pl_ManifestJSON plan) ManifestAAD of
        Inl e \<Rightarrow> Inl e
      | Inr encryptedManifest \<Rightarrow>
          (if int (length encryptedManifest) \<noteq> pl_EncryptedManifestLength plan
           then Inl (NewErr ''bundle manifest size mismatch'')
           else (case EncodeFooter \<lparr>ft_ManifestLength = int (length encryptedManifest),
                                    ft_ManifestSHA256 = Sum256 encryptedManifest\<rparr> of
                   Inl e \<Rightarrow> Inl e
                 | Inr trailer \<Rightarrow> Inr (encryptedManifest @ trailer))))"

definition Encrypt :: "primitives \<Rightarrow> rng \<Rightarrow> Plan \<Rightarrow> Source list \<Rightarrow> KeySet \<Rightarrow> share_err + bytes" where
  "Encrypt prim rng plan sources ks =
     (case encrypt_records prim rng sources ks (pl_Records plan) (replicate (nat ChunkSize) (chr 0)) [] 0 of
        Inl e \<Rightarrow> Inl e
      | Inr (out, i) \<Rightarrow>
          (case seal_manifest prim rng i plan ks of
             Inl e \<Rightarrow> Inl e
           | Inr tail \<Rightarrow>
               (if int (length (out @ tail)) \<noteq> pl_TotalSize plan then Inl (NewErr ''bundle size mismatch'')
                else Inr (out @ tail))))"

end
