(* ===== verification/Bundle_Layout.thy ===== *)
theory Bundle_Layout
  imports Bundle "HOL-Library.Multiset"
begin

text \<open>
  What the check of a manifest means, and that the layouts \<open>NewPlan\<close> makes pass it.
\<close>

section \<open>Spans that tile\<close>

definition covers :: "int \<Rightarrow> (int \<times> int) list \<Rightarrow> nat" where
  "covers x spans = length (filter (\<lambda>(a, b). a \<le> x \<and> x \<le> b) spans)"

lemma covers_simps [simp]:
  "covers x [] = 0" "covers x ((a, b) # s) = (if a \<le> x \<and> x \<le> b then 1 else 0) + covers x s"
  "covers x (s @ t) = covers x s + covers x t"
  by (simp_all add: covers_def)

lemma covers_0: "covers x spans = 0 \<longleftrightarrow> (\<forall>(a, b) \<in> set spans. \<not> (a \<le> x \<and> x \<le> b))"
  by (auto simp: covers_def filter_empty_conv)

lemma covers_sort: "covers x (sort_key fst spans) = covers x spans"
proof -
  have "mset (filter P (sort_key fst spans)) = mset (filter P spans)" for P by (simp add: mset_filter)
  then show ?thesis unfolding covers_def by (metis size_mset)
qed

text \<open>\<open>check_spans\<close> without wrap-around: nothing before \<open>e\<close>, everything up to \<open>n\<close> once, nothing behind.\<close>

lemma check_spans_iff:
  assumes "sorted (map fst spans)" and "\<forall>(a, b) \<in> set spans. a \<le> b \<and> b < 9223372036854775807"
    and "0 \<le> e" "e \<le> 9223372036854775807" and "\<forall>(a, b) \<in> set spans. 0 \<le> a"
  shows "check_spans e spans = Some n \<longleftrightarrow> e \<le> n \<and> (\<forall>x. covers x spans = (if e \<le> x \<and> x < n then 1 else 0))"
  using assms
proof (induction spans arbitrary: e)
  case Nil
  show ?case
  proof
    assume "e \<le> n \<and> (\<forall>x. covers x [] = (if e \<le> x \<and> x < n then 1 else 0))"
    then have "e \<le> n" "\<not> (e \<le> e \<and> e < n)" by (auto dest: spec [of _ e] split: if_splits)
    then show "check_spans e [] = Some n" by simp
  qed auto
next
  case (Cons s spans)
  obtain a b where s: "s = (a, b)" by fastforce
  have ab: "a \<le> b" "0 \<le> a" "b < 9223372036854775807" using Cons.prems s by auto
  then have wrap: "int64 (b + 1) = b + 1" by (simp add: int64_id)
  have IH: "check_spans (b + 1) spans = Some n \<longleftrightarrow>
      b + 1 \<le> n \<and> (\<forall>x. covers x spans = (if b + 1 \<le> x \<and> x < n then 1 else 0))"
    using Cons.prems ab by (intro Cons.IH) auto
  have later: "a \<le> a'" if "(a', b') \<in> set spans" for a' b' using Cons.prems(1) that s by force
  show ?case
  proof
    assume "check_spans e (s # spans) = Some n"
    then have "a = e" "check_spans (b + 1) spans = Some n" using s wrap by (auto split: if_splits)
    then show "e \<le> n \<and> (\<forall>x. covers x (s # spans) = (if e \<le> x \<and> x < n then 1 else 0))"
      using IH s ab by auto
  next
    assume r: "e \<le> n \<and> (\<forall>x. covers x (s # spans) = (if e \<le> x \<and> x < n then 1 else 0))"
    have "e \<le> a \<and> a < n" using spec [OF conjunct2 [OF r], of a] s ab by (auto split: if_splits)
    moreover have "e < a \<Longrightarrow> False"
    proof -
      assume "e < a"
      then have "covers e spans = 0" using later by (fastforce simp: covers_0)
      then show False using spec [OF conjunct2 [OF r], of e] s \<open>e < a\<close> calculation by auto
    qed
    ultimately have "a = e" by force
    have "b < n" using spec [OF conjunct2 [OF r], of b] s ab by (auto split: if_splits)
    have "covers x spans = (if b + 1 \<le> x \<and> x < n then 1 else 0)" for x
      using spec [OF conjunct2 [OF r], of x] s ab \<open>a = e\<close> \<open>b < n\<close> by (auto split: if_splits)
    then show "check_spans e (s # spans) = Some n" using IH \<open>b < n\<close> \<open>a = e\<close> s wrap by simp
  qed
qed

lemma check_spans_starts:
  "check_spans e spans = Some n \<Longrightarrow> e \<le> m \<Longrightarrow> \<forall>(a, b) \<in> set spans. int64 (b + 1) \<le> m \<Longrightarrow>
     \<forall>(a, b) \<in> set spans. a \<le> m"
proof (induction spans arbitrary: e)
  case (Cons s spans)
  obtain a b where s: "s = (a, b)" by fastforce
  with Cons.prems have "a = e" "check_spans (int64 (b + 1)) spans = Some n" "int64 (b + 1) \<le> m"
    by (auto split: if_splits)
  with Cons.IH [of "int64 (b + 1)"] Cons.prems(2,3) s show ?case by simp
qed simp

section \<open>What a valid manifest is\<close>

definition chunk_ok :: "int \<Rightarrow> Chunk \<Rightarrow> bool" where
  "chunk_ok i c \<longleftrightarrow> c_Index c = i \<and> 0 \<le> c_Offset c \<and> 0 < c_PlaintextSize c \<and> c_PlaintextSize c \<le> ChunkSize \<and>
     c_Length c = c_PlaintextSize c + RecordOverhead"

definition file_ok :: "int \<Rightarrow> File \<Rightarrow> bool" where
  "file_ok i f \<longleftrightarrow> f_Index f = i \<and> f_Path f \<noteq> [] \<and> f_Name f \<noteq> [] \<and>
     (\<forall>j < length (f_Chunks f). chunk_ok (int j) (f_Chunks f ! j)) \<and>
     f_Size f = sum_list (map c_PlaintextSize (f_Chunks f))"

definition all_chunks :: "Manifest \<Rightarrow> Chunk list" where
  "all_chunks m = concat (map f_Chunks (mf_Files m))"

text \<open>Every position before \<open>n\<close> belongs to exactly one record, and no record reaches beyond.\<close>

definition records_tile :: "Chunk list \<Rightarrow> int \<Rightarrow> bool" where
  "records_tile cs n \<longleftrightarrow>
     (\<forall>x. 0 \<le> x \<and> x < n \<longrightarrow> length (filter (\<lambda>c. c_Offset c \<le> x \<and> x < c_Offset c + c_Length c) cs) = 1) \<and>
     (\<forall>c \<in> set cs. c_Offset c + c_Length c \<le> n)"

definition span :: "Chunk \<Rightarrow> int \<times> int" where
  "span c = (c_Offset c, int64 (c_Offset c + c_Length c - 1))"

lemma int64_add: "int64 (int64 a + b) = int64 (a + b)"
proof -
  have "int64 a + b + 9223372036854775808 = (a + 9223372036854775808) mod 18446744073709551616 + b"
    by (simp add: int64_def)
  moreover have "((a + 9223372036854775808) mod 18446744073709551616 + b) mod 18446744073709551616 =
      (a + 9223372036854775808 + b) mod 18446744073709551616"
    by (rule mod_add_left_eq)
  moreover have "a + 9223372036854775808 + b = a + b + 9223372036854775808" by simp
  ultimately show ?thesis by (simp only: int64_def [of "int64 a + b"] int64_def [of "a + b"])
qed

lemma all_indices_Cons:
  "(\<forall>j < length (x # xs). P (i + int j) ((x # xs) ! j)) \<longleftrightarrow> P i x \<and> (\<forall>j < length xs. P (i + 1 + int j) (xs ! j))"
  by (simp add: All_less_Suc2 add.assoc)

lemma check_chunks_eq:
  "check_chunks ChunkSize m i acc cs =
     (if (\<forall>j < length cs. chunk_ok (i + int j) (cs ! j)) \<and> (\<forall>c \<in> set cs. snd (span c) < m)
      then Some (map span cs, if cs = [] then acc else int64 (acc + sum_list (map c_PlaintextSize cs))) else None)"
proof (induction cs arbitrary: i acc)
  case (Cons c cs)
  have len: "0 < c_PlaintextSize c \<Longrightarrow> c_PlaintextSize c \<le> ChunkSize \<Longrightarrow>
      int64 (c_PlaintextSize c + RecordOverhead) = c_PlaintextSize c + RecordOverhead"
    by (simp add: ChunkSize_def int64_id)
  have head: "(c_Index c \<noteq> i \<or> c_Offset c < 0 \<or> c_PlaintextSize c \<le> 0 \<or> c_PlaintextSize c > ChunkSize \<or>
      c_Length c \<noteq> int64 (c_PlaintextSize c + RecordOverhead)) \<longleftrightarrow> \<not> chunk_ok i c"
    using len by (auto simp: chunk_ok_def not_less)
  show ?case
    unfolding all_indices_Cons check_chunks.simps head Cons.IH
    by (simp add: span_def Let_def int64_add add.assoc)
qed simp

lemma sum_sizes_pos:
  "\<forall>j < length cs. chunk_ok (i + int j) (cs ! j) \<Longrightarrow> 0 \<le> sum_list (map c_PlaintextSize cs) \<and>
     (cs \<noteq> [] \<longrightarrow> 0 < sum_list (map c_PlaintextSize cs))"
proof (induction cs arbitrary: i)
  case (Cons c cs)
  then have "chunk_ok i c" "0 \<le> sum_list (map c_PlaintextSize cs)"
    unfolding all_indices_Cons by blast+
  then show ?case by (simp add: chunk_ok_def)
qed simp

lemma check_file_eq:
  assumes "sum_list (map c_PlaintextSize cs) \<le> 9223372036854775807"
  shows "(case check_chunks ChunkSize m 0 0 cs of None \<Rightarrow> None | Some (sp, t) \<Rightarrow>
       (if t \<noteq> n \<or> n = 0 \<and> cs \<noteq> [] then None else K sp)) =
     (if (\<forall>j < length cs. chunk_ok (int j) (cs ! j)) \<and> (\<forall>c \<in> set cs. snd (span c) < m) \<and>
         n = sum_list (map c_PlaintextSize cs) then K (map span cs) else None)"
proof (cases "(\<forall>j < length cs. chunk_ok (0 + int j) (cs ! j)) \<and> (\<forall>c \<in> set cs. snd (span c) < m)")
  case True
  define total where "total = sum_list (map c_PlaintextSize cs)"
  have pos: "0 \<le> total" "cs \<noteq> [] \<Longrightarrow> 0 < total" "cs = [] \<Longrightarrow> total = 0"
    using sum_sizes_pos [of cs 0] True by (auto simp: total_def)
  have "(if cs = [] then 0 else int64 (0 + total)) = total"
    using assms pos by (simp add: int64_id total_def [symmetric])
  then have "check_chunks ChunkSize m 0 0 cs = Some (map span cs, total)"
    using check_chunks_eq [of m 0 0 cs] unfolding if_P [OF True] total_def by simp
  then show ?thesis using True pos(2) by (auto simp: total_def [symmetric])
next
  case False
  have "check_chunks ChunkSize m 0 0 cs = None"
    using check_chunks_eq [of m 0 0 cs] unfolding if_not_P [OF False] .
  moreover have "\<not> ((\<forall>j < length cs. chunk_ok (int j) (cs ! j)) \<and> (\<forall>c \<in> set cs. snd (span c) < m) \<and>
         n = sum_list (map c_PlaintextSize cs))" using False by auto
  ultimately show ?thesis by (simp only: option.case if_False)
qed

lemma check_files_eq:
  assumes "\<forall>f \<in> set fs. sum_list (map c_PlaintextSize (f_Chunks f)) \<le> 9223372036854775807"
  shows "check_files ChunkSize m i fs =
     (if (\<forall>j < length fs. file_ok (i + int j) (fs ! j)) \<and> (\<forall>f \<in> set fs. \<forall>c \<in> set (f_Chunks f). snd (span c) < m)
      then Some (map span (concat (map f_Chunks fs))) else None)"
  using assms
proof (induction fs arbitrary: i)
  case (Cons f fs)
  have IH: "check_files ChunkSize m (i + 1) fs =
     (if (\<forall>j < length fs. file_ok (i + 1 + int j) (fs ! j)) \<and> (\<forall>f \<in> set fs. \<forall>c \<in> set (f_Chunks f). snd (span c) < m)
      then Some (map span (concat (map f_Chunks fs))) else None)"
    using Cons.prems by (intro Cons.IH) simp
  have pos: "\<forall>j < length (f_Chunks f). chunk_ok (int j) (f_Chunks f ! j) \<Longrightarrow> \<not> sum_list (map c_PlaintextSize (f_Chunks f)) < 0"
    using sum_sizes_pos [of "f_Chunks f" 0] by simp
  have "sum_list (map c_PlaintextSize (f_Chunks f)) \<le> 9223372036854775807" using Cons.prems by simp
  then show ?case
    unfolding all_indices_Cons check_files.simps IH using pos
    by (simp add: check_file_eq file_ok_def)
qed simp

text \<open>
  The manifests that fit into memory: the sizes of a file's chunks, at most 4 MiB each, do not sum up beyond an \<open>int64\<close>.
\<close>

definition manifest_range :: "Manifest \<Rightarrow> bool" where
  "manifest_range m \<longleftrightarrow>
     (\<forall>f \<in> set (mf_Files m). sum_list (map c_PlaintextSize (f_Chunks f)) \<le> 9223372036854775807)"

lemma covers_span:
  assumes "\<forall>c \<in> set cs. snd (span c) = c_Offset c + c_Length c - 1"
  shows "covers x (map span cs) = length (filter (\<lambda>c. c_Offset c \<le> x \<and> x < c_Offset c + c_Length c) cs)"
  using assms by (induction cs) (auto simp: span_def)

lemma records_tile_covers:
  assumes "\<forall>c \<in> set cs. snd (span c) = c_Offset c + c_Length c - 1 \<and> 0 \<le> c_Offset c \<and> 0 < c_Length c" and "0 \<le> n"
  shows "records_tile cs n \<longleftrightarrow> (\<forall>x. covers x (map span cs) = (if 0 \<le> x \<and> x < n then 1 else 0))"
proof -
  have cov: "covers x (map span cs) = length (filter (\<lambda>c. c_Offset c \<le> x \<and> x < c_Offset c + c_Length c) cs)" for x
    using assms by (intro covers_span) simp
  have none: "covers x (map span cs) = 0 \<longleftrightarrow> (\<forall>c \<in> set cs. \<not> (c_Offset c \<le> x \<and> x < c_Offset c + c_Length c))" for x
    by (simp add: cov filter_empty_conv)
  have "(\<forall>c \<in> set cs. c_Offset c + c_Length c \<le> n) \<longleftrightarrow> (\<forall>x. \<not> (0 \<le> x \<and> x < n) \<longrightarrow> covers x (map span cs) = 0)" if all: "records_tile cs n \<or> (\<forall>x. covers x (map span cs) = (if 0 \<le> x \<and> x < n then 1 else 0))"
  proof
    assume "\<forall>c \<in> set cs. c_Offset c + c_Length c \<le> n"
    then show "\<forall>x. \<not> (0 \<le> x \<and> x < n) \<longrightarrow> covers x (map span cs) = 0"
    proof (intro allI impI)
      fix x assume "\<not> (0 \<le> x \<and> x < n)"
      moreover have "0 \<le> c_Offset c" "c_Offset c + c_Length c \<le> n" if "c \<in> set cs" for c
        using that assms \<open>\<forall>c \<in> set cs. c_Offset c + c_Length c \<le> n\<close> by auto
      ultimately show "covers x (map span cs) = 0" unfolding none by force
    qed
  next
    assume outside: "\<forall>x. \<not> (0 \<le> x \<and> x < n) \<longrightarrow> covers x (map span cs) = 0"
    show "\<forall>c \<in> set cs. c_Offset c + c_Length c \<le> n"
    proof
      fix c assume c: "c \<in> set cs"
      let ?x = "c_Offset c + c_Length c - 1"
      have "covers ?x (map span cs) \<noteq> 0" using c assms none [of ?x] by force
      then have "?x < n" using outside by meson
      then show "c_Offset c + c_Length c \<le> n" by simp
    qed
  qed
  then show ?thesis unfolding records_tile_def by (auto simp: cov split: if_splits)
qed

lemma validate_iff:
  assumes range: "manifest_range m" and off: "0 \<le> n" "n \<le> 4611686018427387904" "n + FooterLength \<le> bundleSize"
  shows "manifest_validate m n bundleSize = None \<longleftrightarrow>
     mf_Version m = bundle_version \<and> mf_ChunkSize m = ChunkSize \<and> mf_BundleName m \<noteq> [] \<and> mf_Files m \<noteq> [] \<and>
     (\<forall>j < length (mf_Files m). file_ok (int j) (mf_Files m ! j)) \<and> records_tile (all_chunks m) n"
proof (cases "mf_Version m = bundle_version \<and> mf_ChunkSize m = ChunkSize \<and> mf_BundleName m \<noteq> [] \<and> mf_Files m \<noteq> [] \<and>
     (\<forall>j < length (mf_Files m). file_ok (int j) (mf_Files m ! j))")
  case False
  have "\<forall>f \<in> set (mf_Files m). sum_list (map c_PlaintextSize (f_Chunks f)) \<le> 9223372036854775807"
    using range by (simp add: manifest_range_def)
  then show ?thesis using False check_files_eq [of "mf_Files m" n 0]
    by (auto simp: manifest_validate_def)
next
  case True
  let ?cs = "all_chunks m"
  let ?spans = "sort_key fst (map span ?cs)"
  have "\<forall>f \<in> set (mf_Files m). sum_list (map c_PlaintextSize (f_Chunks f)) \<le> 9223372036854775807"
    using range by (simp add: manifest_range_def)
  then have files: "check_files ChunkSize n 0 (mf_Files m) =
      (if \<forall>c \<in> set ?cs. snd (span c) < n then Some (map span ?cs) else None)"
    using True check_files_eq [of "mf_Files m" n 0] by (auto simp: all_chunks_def)
  have head: "int64 (n + FooterLength) \<le> bundleSize" using off by (simp add: FooterLength_def int64_id)
  have chunk: "0 \<le> c_Offset c \<and> 0 < c_Length c \<and> c_Length c \<le> ChunkSize + RecordOverhead" if "c \<in> set ?cs" for c
  proof -
    from that obtain f where f: "f \<in> set (mf_Files m)" "c \<in> set (f_Chunks f)" by (auto simp: all_chunks_def)
    then obtain j where "j < length (mf_Files m)" "f = mf_Files m ! j" by (auto simp: in_set_conv_nth)
    then have "file_ok (int j) f" using True by simp
    with f(2) obtain i where "chunk_ok (int i) c" by (auto simp: file_ok_def in_set_conv_nth)
    then show ?thesis by (simp add: chunk_ok_def)
  qed
  have lhs: "manifest_validate m n bundleSize = None \<longleftrightarrow>
      (\<forall>c \<in> set ?cs. snd (span c) < n) \<and> check_spans 0 ?spans = Some n"
    using True files head off by (auto simp: manifest_validate_def)
  show ?thesis
  proof (cases "\<forall>c \<in> set ?cs. c_Offset c \<le> n")
    case True2: True
    have stop: "snd (span c) = c_Offset c + c_Length c - 1" if "c \<in> set ?cs" for c
    proof -
      have "c_Offset c \<le> n" using True2 that by blast
      then show ?thesis using chunk [OF that] off by (simp add: span_def int64_id ChunkSize_def)
    qed
    have chk: "check_spans 0 ?spans = Some n \<longleftrightarrow> (\<forall>x. covers x ?spans = (if 0 \<le> x \<and> x < n then 1 else 0))"
    proof (subst check_spans_iff)
      show "\<forall>(a, b) \<in> set ?spans. a \<le> b \<and> b < 9223372036854775807"
        using chunk stop True2 off by (fastforce simp: ChunkSize_def span_def)
      show "\<forall>(a, b) \<in> set ?spans. 0 \<le> a" using chunk by (auto simp: span_def)
    qed (use off in simp_all)
    have tile: "records_tile ?cs n \<longleftrightarrow> (\<forall>x. covers x ?spans = (if 0 \<le> x \<and> x < n then 1 else 0))"
      using records_tile_covers [of ?cs n] chunk stop off by (simp add: covers_sort)
    have "records_tile ?cs n \<Longrightarrow> \<forall>c \<in> set ?cs. snd (span c) < n" using stop by (auto simp: records_tile_def)
    then show ?thesis using lhs chk tile True by blast
  next
    case False
    then obtain c where c: "c \<in> set ?cs" "c_Offset c > n" by force
    have "\<not> records_tile ?cs n" using c chunk [OF c(1)] by (force simp: records_tile_def)
    moreover have "\<not> ((\<forall>c \<in> set ?cs. snd (span c) < n) \<and> check_spans 0 ?spans = Some n)"
    proof
      assume a: "(\<forall>c \<in> set ?cs. snd (span c) < n) \<and> check_spans 0 ?spans = Some n"
      have "int64 (snd (span c) + 1) \<le> n" if "c \<in> set ?cs" for c
      proof -
        have "int64 (snd (span c) + 1) = snd (span c) + 1"
          using a that off int64_range [of "c_Offset c + c_Length c - 1"] by (force simp: span_def intro!: int64_id)
        then show ?thesis using a that by force
      qed
      then have "\<forall>(x, y) \<in> set ?spans. int64 (y + 1) \<le> n" by (auto simp: span_def)
      with check_spans_starts [of 0 ?spans n n] a off have "\<forall>(x, y) \<in> set ?spans. x \<le> n" by blast
      then show False using c by (force simp: span_def)
    qed
    ultimately show ?thesis using lhs by blast
  qed
qed

section \<open>What a layout is\<close>

fun contiguous :: "int \<Rightarrow> Chunk list \<Rightarrow> int \<Rightarrow> bool" where
  "contiguous a [] b \<longleftrightarrow> a = b"
| "contiguous a (c # cs) b \<longleftrightarrow>
     c_Offset c = a \<and> 0 < c_PlaintextSize c \<and> c_PlaintextSize c \<le> ChunkSize \<and>
     c_Length c = c_PlaintextSize c + RecordOverhead \<and> contiguous (a + c_Length c) cs b"

lemma contiguous_append: "contiguous a (xs @ ys) b \<longleftrightarrow> (\<exists>m. contiguous a xs m \<and> contiguous m ys b)"
  by (induction xs arbitrary: a) auto

lemma contiguous_le: "contiguous a cs b \<Longrightarrow> a \<le> b"
  by (induction cs arbitrary: a) fastforce+

lemma contiguous_in: "contiguous a cs b \<Longrightarrow> c \<in> set cs \<Longrightarrow>
     a \<le> c_Offset c \<and> c_Offset c + c_Length c \<le> b \<and> 0 < c_PlaintextSize c \<and> c_PlaintextSize c \<le> ChunkSize \<and>
     c_Length c = c_PlaintextSize c + RecordOverhead"
  by (induction cs arbitrary: a) (auto dest: contiguous_le, fastforce)

lemma contiguous_count: "contiguous a cs b \<Longrightarrow>
     length (filter (\<lambda>c. c_Offset c \<le> x \<and> x < c_Offset c + c_Length c) cs) = (if a \<le> x \<and> x < b then 1 else 0)"
proof (induction cs arbitrary: a)
  case (Cons c cs)
  then have "contiguous (a + c_Length c) cs b" "0 < c_Length c" "c_Offset c = a" by auto
  with Cons.IH [OF this(1)] contiguous_le [OF this(1)] show ?case by auto
qed simp

lemma contiguous_records_tile:
  assumes "contiguous 0 cs n"
  shows "records_tile cs n"
  unfolding records_tile_def
proof (intro conjI allI ballI impI)
  show "length (filter (\<lambda>c. c_Offset c \<le> x \<and> x < c_Offset c + c_Length c) cs) = 1" if "0 \<le> x \<and> x < n" for x
    using contiguous_count [OF assms, of x] that by (simp only: if_P)
  show "c_Offset c + c_Length c \<le> n" if "c \<in> set cs" for c
    using contiguous_in [OF assms that] by blast
qed

definition chunk_of :: "Record \<Rightarrow> Chunk" where
  "chunk_of r = \<lparr>c_Index = r_ChunkIndex r, c_Offset = r_Offset r, c_Length = r_Length r, c_PlaintextSize = r_PlaintextSize r\<rparr>"

lemma chunk_of_simps [simp]:
  "c_Index (chunk_of r) = r_ChunkIndex r" "c_Offset (chunk_of r) = r_Offset r" "c_Length (chunk_of r) = r_Length r"
  "c_PlaintextSize (chunk_of r) = r_PlaintextSize r"
  by (simp_all add: chunk_of_def)

text \<open>The plaintext of a record.\<close>

definition piece :: "bytes \<Rightarrow> Record \<Rightarrow> bytes" where
  "piece content r = take (nat (r_PlaintextSize r)) (drop (nat (r_Start r)) content)"

definition record_ok :: "int \<Rightarrow> int \<Rightarrow> Record \<Rightarrow> bool" where
  "record_ok i n r \<longleftrightarrow> r_FileIndex r = i \<and> 0 \<le> r_Start r \<and> r_Start r + r_PlaintextSize r \<le> n"

lemma plan_chunks_facts:
  assumes "plan_chunks i n start k offset = (rs, cs, offset')" and "0 \<le> start"
  shows "cs = map chunk_of rs" "contiguous offset cs offset'" "\<forall>j < length cs. c_Index (cs ! j) = k + int j"
    "sum_list (map c_PlaintextSize cs) = (if start < n then n - start else 0)" "\<forall>r \<in> set rs. record_ok i n r"
    "int (length content) = n \<Longrightarrow> concat (map (piece content) rs) = drop (nat start) content"
proof -
  have "cs = map chunk_of rs \<and> contiguous offset cs offset' \<and> (\<forall>j < length cs. c_Index (cs ! j) = k + int j) \<and>
    sum_list (map c_PlaintextSize cs) = (if start < n then n - start else 0) \<and> (\<forall>r \<in> set rs. record_ok i n r) \<and>
    (int (length content) = n \<longrightarrow> concat (map (piece content) rs) = drop (nat start) content)"
    using assms
  proof (induction i n start k offset arbitrary: rs cs offset' rule: plan_chunks.induct)
    case (1 i n start k offset)
    show ?case
    proof (cases "start < n")
      case False
      then show ?thesis using 1(2) by (simp add: plan_chunks.simps)
    next
      case True
      let ?m = "min (start + ChunkSize) n"
      let ?len = "?m - start + RecordOverhead"
      obtain rs1 cs1 o1 where rec: "plan_chunks i n (start + ChunkSize) (k + 1) (offset + ?len) = (rs1, cs1, o1)"
        by (cases "plan_chunks i n (start + ChunkSize) (k + 1) (offset + ?len)") auto
      then have rs: "rs = \<lparr>r_FileIndex = i, r_ChunkIndex = k, r_Start = start, r_End = ?m,
                 r_Offset = offset, r_Length = ?len, r_PlaintextSize = ?m - start\<rparr> # rs1"
        and cs: "cs = \<lparr>c_Index = k, c_Offset = offset, c_Length = ?len, c_PlaintextSize = ?m - start\<rparr> # cs1"
        and o: "offset' = o1"
        using 1(2) True by (simp_all add: plan_chunks.simps [of i n start] Let_def)
      have CS: "0 < ChunkSize" by (simp add: ChunkSize_def)
      have IH: "cs1 = map chunk_of rs1 \<and> contiguous (offset + ?len) cs1 o1 \<and>
          (\<forall>j < length cs1. c_Index (cs1 ! j) = k + 1 + int j) \<and>
          sum_list (map c_PlaintextSize cs1) = (if start + ChunkSize < n then n - (start + ChunkSize) else 0) \<and>
          (\<forall>r \<in> set rs1. record_ok i n r) \<and>
          (int (length content) = n \<longrightarrow> concat (map (piece content) rs1) = drop (nat (start + ChunkSize)) content)"
        by (rule 1(1) [OF True refl refl refl rec]) (use 1(3) CS in simp)
      have idx: "\<forall>j < length cs. c_Index (cs ! j) = k + int j"
        unfolding cs by (subst all_indices_Cons) (use IH in auto)
      have pc: "int (length content) = n \<Longrightarrow> concat (map (piece content) rs) = drop (nat start) content"
      proof -
        assume n: "int (length content) = n"
        have "drop (nat start) content = take (nat (?m - start)) (drop (nat start) content) @
            drop (nat (?m - start)) (drop (nat start) content)" by (rule append_take_drop_id [symmetric])
        also have "drop (nat (?m - start)) (drop (nat start) content) = drop (nat (start + ChunkSize)) content"
          using n True 1(3) CS by (auto simp: min_def nat_diff_distrib nat_add_distrib add.commute)
        finally show ?thesis using IH n by (simp add: rs piece_def)
      qed
      show ?thesis using IH idx pc True CS 1(3)
        by (auto simp: rs cs o chunk_of_def record_ok_def min_def)
    qed
  qed
  then show "cs = map chunk_of rs" "contiguous offset cs offset'" "\<forall>j < length cs. c_Index (cs ! j) = k + int j"
    "sum_list (map c_PlaintextSize cs) = (if start < n then n - start else 0)" "\<forall>r \<in> set rs. record_ok i n r"
    "int (length content) = n \<Longrightarrow> concat (map (piece content) rs) = drop (nat start) content" by blast+
qed

text \<open>The file a source becomes, with its records.\<close>

definition source_file :: "Source \<Rightarrow> int \<Rightarrow> Record list \<Rightarrow> File \<Rightarrow> bool" where
  "source_file src i rs f \<longleftrightarrow>
     f_Index f = i \<and> f_Name f = src_Name src \<and> f_Path f = (if src_Path src = [] then src_Name src else src_Path src) \<and>
     f_Type f = (if src_Type src = [] then ''application/octet-stream'' else src_Type src) \<and> f_Size f = src_Size src \<and>
     f_Chunks f = map chunk_of rs \<and> (\<forall>j < length rs. r_ChunkIndex (rs ! j) = int j) \<and>
     (0 \<le> src_Size src \<longrightarrow> sum_list (map r_PlaintextSize rs) = src_Size src) \<and>
     (\<forall>r \<in> set rs. record_ok i (src_Size src) r) \<and>
     (\<forall>content. int (length content) = src_Size src \<longrightarrow> concat (map (piece content) rs) = content)"

lemma plan_files_facts:
  "plan_files sources i offset = (rs, fs, offset') \<Longrightarrow>
     \<exists>rss. rs = concat rss \<and> length rss = length sources \<and> length fs = length sources \<and>
       contiguous offset (concat (map f_Chunks fs)) offset' \<and>
       (\<forall>j < length sources. source_file (sources ! j) (i + int j) (rss ! j) (fs ! j))"
proof (induction sources arbitrary: i offset rs fs offset')
  case (Cons src sources)
  obtain rs1 cs1 o1 where c: "plan_chunks i (src_Size src) 0 0 offset = (rs1, cs1, o1)"
    by (cases "plan_chunks i (src_Size src) 0 0 offset") auto
  obtain rs2 fs2 o2 where f: "plan_files sources (i + 1) o1 = (rs2, fs2, o2)"
    by (cases "plan_files sources (i + 1) o1") auto
  obtain f1 where fs: "rs = rs1 @ rs2" "fs = f1 # fs2" "offset' = o2"
    and ff: "f1 = \<lparr>f_Index = i, f_Path = (if src_Path src = [] then src_Name src else src_Path src),
      f_Name = src_Name src, f_Type = (if src_Type src = [] then ''application/octet-stream'' else src_Type src),
      f_Size = src_Size src, f_Chunks = cs1\<rparr>"
    using Cons.prems c f by (auto simp: Let_def)
  note facts = plan_chunks_facts [OF c order_refl]
  have "\<forall>j < length rs1. r_ChunkIndex (rs1 ! j) = int j" using facts(1,3) by auto
  moreover have "0 \<le> src_Size src \<longrightarrow> sum_list (map r_PlaintextSize rs1) = src_Size src"
    using facts(1,4) by (auto simp: comp_def)
  moreover have "\<forall>content. int (length content) = src_Size src \<longrightarrow> concat (map (piece content) rs1) = content"
    using facts(6) by simp
  ultimately have one: "source_file src i rs1 f1" using facts(1,5) by (simp add: source_file_def ff)
  from Cons.IH [OF f] obtain rss where rss: "rs2 = concat rss" "length rss = length sources" "length fs2 = length sources"
    "contiguous o1 (concat (map f_Chunks fs2)) o2"
    "\<forall>j < length sources. source_file (sources ! j) (i + 1 + int j) (rss ! j) (fs2 ! j)" by blast
  have "source_file ((src # sources) ! j) (i + int j) ((rs1 # rss) ! j) (fs ! j)" if "j < length (src # sources)" for j
    using that one rss(5) fs(2) by (cases j) (auto simp: add.assoc)
  then show ?case using rss fs facts(2) ff
    by (intro exI [of _ "rs1 # rss"]) (auto simp: contiguous_append)
qed simp

lemma source_file_ok:
  assumes "source_file src i rs f" and "contiguous a (f_Chunks f) b" and "0 \<le> a" and "0 \<le> src_Size src" and "src_Name src \<noteq> []"
  shows "file_ok i f"
proof -
  have "chunk_ok (int j) (f_Chunks f ! j)" if "j < length (f_Chunks f)" for j
    using assms(1,3) contiguous_in [OF assms(2) nth_mem [OF that]] that
    by (auto simp: source_file_def chunk_ok_def)
  then show ?thesis using assms by (auto simp: file_ok_def source_file_def comp_def)
qed

lemma contiguous_files:
  "contiguous a (concat (map f_Chunks fs)) b \<Longrightarrow> j < length fs \<Longrightarrow>
     \<exists>m n. a \<le> m \<and> contiguous m (f_Chunks (fs ! j)) n \<and> n \<le> b"
proof (induction fs arbitrary: a j)
  case (Cons f fs)
  then obtain m where m: "contiguous a (f_Chunks f) m" "contiguous m (concat (map f_Chunks fs)) b"
    by (auto simp: contiguous_append)
  show ?case
  proof (cases j)
    case 0
    then show ?thesis using m contiguous_le [OF m(2)] by auto
  next
    case (Suc i)
    then obtain x y where "m \<le> x" "contiguous x (f_Chunks (fs ! i)) y" "y \<le> b"
      using Cons.IH [OF m(2), of i] Cons.prems(2) by auto
    then show ?thesis using Suc contiguous_le [OF m(1)] by (intro exI [of _ x] exI [of _ y]) simp
  qed
qed simp

lemma NewPlan_InrD:
  assumes "NewPlan sources bundleName = Inr plan"
  shows "\<exists>rss. pl_Records plan = concat rss \<and> length rss = length sources \<and>
      length (mf_Files (pl_Manifest plan)) = length sources \<and>
      contiguous 0 (all_chunks (pl_Manifest plan)) (pl_DataSize plan) \<and>
      (\<forall>j < length sources. source_file (sources ! j) (int j) (rss ! j) (mf_Files (pl_Manifest plan) ! j))"
    and "mf_Version (pl_Manifest plan) = bundle_version" "mf_BundleName (pl_Manifest plan) = bundleName"
    "mf_ChunkSize (pl_Manifest plan) = ChunkSize" "sources \<noteq> []"
    "pl_ManifestJSON plan = Manifest_Marshal (pl_Manifest plan)" "int (length (pl_ManifestJSON plan)) \<le> MaxManifestBytes"
    "pl_EncryptedManifestLength plan = int (length (pl_ManifestJSON plan)) + RecordOverhead"
    "pl_TotalSize plan = pl_DataSize plan + pl_EncryptedManifestLength plan + FooterLength"
proof -
  obtain rs fs off where f: "plan_files sources 0 0 = (rs, fs, off)" by (cases "plan_files sources 0 0") auto
  then show "\<exists>rss. pl_Records plan = concat rss \<and> length rss = length sources \<and>
      length (mf_Files (pl_Manifest plan)) = length sources \<and>
      contiguous 0 (all_chunks (pl_Manifest plan)) (pl_DataSize plan) \<and>
      (\<forall>j < length sources. source_file (sources ! j) (int j) (rss ! j) (mf_Files (pl_Manifest plan) ! j))"
    using assms plan_files_facts [OF f]
    by (auto simp: NewPlan_def Let_def all_chunks_def split: if_splits)
  show "mf_Version (pl_Manifest plan) = bundle_version" "mf_BundleName (pl_Manifest plan) = bundleName"
    "mf_ChunkSize (pl_Manifest plan) = ChunkSize" "sources \<noteq> []"
    "pl_ManifestJSON plan = Manifest_Marshal (pl_Manifest plan)" "int (length (pl_ManifestJSON plan)) \<le> MaxManifestBytes"
    "pl_EncryptedManifestLength plan = int (length (pl_ManifestJSON plan)) + RecordOverhead"
    "pl_TotalSize plan = pl_DataSize plan + pl_EncryptedManifestLength plan + FooterLength"
    using assms f by (auto simp: NewPlan_def Let_def split: if_splits)
qed

lemma plan_contiguous:
  assumes "NewPlan sources bundleName = Inr plan"
  shows "contiguous 0 (map chunk_of (pl_Records plan)) (pl_DataSize plan)"
proof -
  from NewPlan_InrD(1) [OF assms] obtain rss where rss: "pl_Records plan = concat rss" "length rss = length sources"
    "length (mf_Files (pl_Manifest plan)) = length sources"
    "contiguous 0 (all_chunks (pl_Manifest plan)) (pl_DataSize plan)"
    "\<forall>j < length sources. source_file (sources ! j) (int j) (rss ! j) (mf_Files (pl_Manifest plan) ! j)" by blast
  have "map f_Chunks (mf_Files (pl_Manifest plan)) = map (map chunk_of) rss"
    using rss by (intro nth_equalityI) (simp_all add: source_file_def)
  then have "all_chunks (pl_Manifest plan) = map chunk_of (pl_Records plan)"
    by (simp add: all_chunks_def rss(1) map_concat)
  then show ?thesis using rss(4) by simp
qed

text \<open>
  Property C35. The check of a manifest is exact: for a bundle of up to 4 EiB it passes exactly the manifests of this
  version whose files are well formed, whose file sizes are the sums of their chunks, and whose records cover every
  byte before the manifest exactly once.
\<close>

theorem validate_accepts_exact_tilings:
  assumes "manifest_range m" and "0 \<le> manifestOffset" and "manifestOffset \<le> 4611686018427387904"
    and "manifestOffset + FooterLength \<le> bundleSize"
  shows "manifest_validate m manifestOffset bundleSize = None \<longleftrightarrow>
     mf_Version m = bundle_version \<and> mf_ChunkSize m = ChunkSize \<and> mf_BundleName m \<noteq> [] \<and> mf_Files m \<noteq> [] \<and>
     (\<forall>j < length (mf_Files m). file_ok (int j) (mf_Files m ! j)) \<and> records_tile (all_chunks m) manifestOffset"
  using assms by (rule validate_iff)

lemma plan_validates:
  assumes "NewPlan sources bundleName = Inr plan" and "bundleName \<noteq> []"
    and "\<forall>src \<in> set sources. 0 \<le> src_Size src \<and> src_Name src \<noteq> []"
    and "pl_DataSize plan \<le> 4611686018427387904" and "pl_DataSize plan + FooterLength \<le> bundleSize"
  shows "manifest_validate (pl_Manifest plan) (pl_DataSize plan) bundleSize = None"
proof -
  let ?m = "pl_Manifest plan"
  from NewPlan_InrD(1) [OF assms(1)] obtain rss where p: "length rss = length sources" "length (mf_Files ?m) = length sources"
    "contiguous 0 (all_chunks ?m) (pl_DataSize plan)"
    "\<forall>j < length sources. source_file (sources ! j) (int j) (rss ! j) (mf_Files ?m ! j)" by blast
  have size0: "0 \<le> pl_DataSize plan" using contiguous_le [OF p(3)] .
  have each: "file_ok (int j) (mf_Files ?m ! j) \<and> sum_list (map c_PlaintextSize (f_Chunks (mf_Files ?m ! j))) \<le> pl_DataSize plan"
    if "j < length sources" for j
  proof -
    obtain a b where ab: "0 \<le> a" "contiguous a (f_Chunks (mf_Files ?m ! j)) b" "b \<le> pl_DataSize plan"
      using contiguous_files [OF p(3) [unfolded all_chunks_def], of j] \<open>j < length sources\<close> p(2) by auto
    have "sum_list (map c_PlaintextSize cs) + a \<le> b" if "contiguous a cs b" for a b cs
      using that by (induction cs arbitrary: a) fastforce+
    then have "sum_list (map c_PlaintextSize (f_Chunks (mf_Files ?m ! j))) \<le> pl_DataSize plan" using ab by fastforce
    then show ?thesis using source_file_ok [of "sources ! j" "int j" "rss ! j"] p(4) that ab assms(3) by simp
  qed
  have "manifest_range ?m"
    using each p(2) assms(4) by (fastforce simp: manifest_range_def in_set_conv_nth)
  then show ?thesis using validate_iff [of ?m "pl_DataSize plan" bundleSize] assms size0 each p(2)
      NewPlan_InrD(2-5) [OF assms(1)] contiguous_records_tile [OF p(3)] by auto
qed

definition tiny_manifest :: Manifest where
  "tiny_manifest = \<lparr>mf_Version = 2, mf_BundleName = ''a'', mf_ChunkSize = 4194304, mf_Files =
     [\<lparr>f_Index = 0, f_Path = ''a'', f_Name = ''a'', f_Type = ''t'', f_Size = 1, f_Chunks =
        [\<lparr>c_Index = 0, c_Offset = 0, c_Length = 41, c_PlaintextSize = 1\<rparr>]\<rparr>]\<rparr>"

theorem validate_accepts_exact_tilings_witness:
  "manifest_validate tiny_manifest 41 150 = None \<and> manifest_validate tiny_manifest 42 150 \<noteq> None"
proof -
  have range: "manifest_range tiny_manifest" by (simp add: manifest_range_def tiny_manifest_def)
  have "\<not> records_tile (all_chunks tiny_manifest) 42"
    by (auto simp: records_tile_def all_chunks_def tiny_manifest_def intro!: exI [of _ 41])
  then show ?thesis
    using validate_accepts_exact_tilings [OF range, of 41 150] validate_accepts_exact_tilings [OF range, of 42 150]
    by (simp add: tiny_manifest_def all_chunks_def records_tile_def file_ok_def chunk_ok_def bundle_consts)
qed

end
