(* ===== verification/Bundle_Json.thy ===== *)
theory Bundle_Json
  imports Bundle_Layout
begin

text \<open>
  The manifest of a plan reads back from its JSON: its numbers are in the range of an \<open>int64\<close>, since the text of at most
  \<open>MaxManifestBytes\<close> has room for every file and chunk, and its names are kept when they are valid UTF-8.
\<close>

definition int64_fits :: "int \<Rightarrow> bool" where
  "int64_fits i \<longleftrightarrow> - 9223372036854775808 \<le> i \<and> i \<le> 9223372036854775807"

lemma ParseInt_fits: "int64_fits i \<Longrightarrow> ParseInt (FormatInt i) = Some i"
  by (simp add: int64_fits_def ParseInt_FormatInt)

definition chunk_value :: "Chunk \<Rightarrow> jvalue" where
  "chunk_value c =
     VObj [(''index'', VNum (FormatInt (c_Index c))), (''offset'', VNum (FormatInt (c_Offset c))),
           (''length'', VNum (FormatInt (c_Length c))), (''plaintextSize'', VNum (FormatInt (c_PlaintextSize c)))]"

definition file_value :: "File \<Rightarrow> jvalue" where
  "file_value f =
     VObj [(''index'', VNum (FormatInt (f_Index f))), (''path'', VStr (f_Path f)), (''name'', VStr (f_Name f)),
           (''type'', VStr (f_Type f)), (''size'', VNum (FormatInt (f_Size f))),
           (''chunks'', VArr (map chunk_value (f_Chunks f)))]"

definition manifest_value :: "Manifest \<Rightarrow> jvalue" where
  "manifest_value m =
     VObj [(''version'', VNum (FormatInt (mf_Version m))), (''bundleName'', VStr (mf_BundleName m)),
           (''chunkSize'', VNum (FormatInt (mf_ChunkSize m))), (''files'', VArr (map file_value (mf_Files m)))]"

lemma Manifest_Marshal_value: "Manifest_Marshal m = json_text (manifest_value m)"
proof -
  have "json_text (chunk_value c) = Chunk_Marshal c" for c by (simp add: Chunk_Marshal_def chunk_value_def)
  then have "json_text (file_value f) = File_Marshal f" for f by (simp add: File_Marshal_def file_value_def comp_def)
  then show ?thesis by (simp add: Manifest_Marshal_def manifest_value_def comp_def)
qed

lemma bundle_names_utf8 [simp]:
  "valid_utf8 ''index''" "valid_utf8 ''offset''" "valid_utf8 ''length''" "valid_utf8 ''plaintextSize''" "valid_utf8 ''path''"
  "valid_utf8 ''name''" "valid_utf8 ''size''" "valid_utf8 ''chunks''" "valid_utf8 ''version''" "valid_utf8 ''bundleName''"
  "valid_utf8 ''chunkSize''" "valid_utf8 ''files''" "valid_utf8 ''application/octet-stream''"
  by (rule valid_utf8_ascii, simp)+

definition chunk_fits :: "Chunk \<Rightarrow> bool" where
  "chunk_fits c \<longleftrightarrow>
     int64_fits (c_Index c) \<and> int64_fits (c_Offset c) \<and> int64_fits (c_Length c) \<and> int64_fits (c_PlaintextSize c)"

definition file_fits :: "File \<Rightarrow> bool" where
  "file_fits f \<longleftrightarrow>
     int64_fits (f_Index f) \<and> int64_fits (f_Size f) \<and> valid_utf8 (f_Path f) \<and> valid_utf8 (f_Name f) \<and>
     valid_utf8 (f_Type f) \<and> list_all chunk_fits (f_Chunks f)"

lemma those_map_Some: "(\<And>x. x \<in> set xs \<Longrightarrow> f x = Some (g x)) \<Longrightarrow> those (map f xs) = Some (map g xs)"
  by (induction xs) auto

lemma chunk_roundtrip: "chunk_fits c \<Longrightarrow> as_struct Chunk_decode (chunk_value c) = Some c"
  by (simp add: chunk_value_def Chunk_decode_def field_defs chunk_fits_def ParseInt_fits)

lemma file_roundtrip:
  assumes "file_fits f"
  shows "as_struct File_decode (file_value f) = Some f"
proof -
  have "those (map (as_struct Chunk_decode \<circ> chunk_value) (f_Chunks f)) = Some (map (\<lambda>c. c) (f_Chunks f))"
    using assms by (intro those_map_Some) (auto simp: file_fits_def list_all_iff chunk_roundtrip)
  then show ?thesis using assms
    by (simp add: file_value_def File_decode_def field_defs file_fits_def ParseInt_fits)
qed

lemma manifest_roundtrip:
  assumes "int64_fits (mf_Version m)" and "int64_fits (mf_ChunkSize m)" and "valid_utf8 (mf_BundleName m)"
    and files: "list_all file_fits (mf_Files m)"
  shows "Manifest_Unmarshal (Manifest_Marshal m) = Some m"
proof -
  have "writable 9998 (file_value f)" if "f \<in> set (mf_Files m)" for f
    using files that by (auto simp: file_value_def chunk_value_def file_fits_def list_all_iff)
  then have "writable maxNestingDepth (manifest_value m)"
    using assms by (auto simp: manifest_value_def maxNestingDepth_def list_all_iff)
  note parsed = json_Unmarshal_text [OF this]
  have "those (map (as_struct File_decode \<circ> file_value) (mf_Files m)) = Some (map (\<lambda>f. f) (mf_Files m))"
    using files by (intro those_map_Some) (auto simp: list_all_iff file_roundtrip)
  then show ?thesis using parsed assms(1-3)
    by (simp add: Manifest_Unmarshal_def Manifest_Marshal_value manifest_value_def Manifest_decode_def field_defs ParseInt_fits)
qed

section \<open>Every plan fits\<close>

lemma in_json_commas: "x \<in> set xs \<Longrightarrow> length x \<le> length (json_commas xs)"
  by (induction xs rule: json_commas.induct) auto

lemma chunks_written: "length (f_Chunks f) \<le> length (File_Marshal f)"
proof -
  have "length (map Chunk_Marshal (f_Chunks f)) \<le> length (json_array (map Chunk_Marshal (f_Chunks f)))"
    by (rule length_json_array) (auto simp: Chunk_Marshal_def json_object_def)
  then show ?thesis by (simp add: File_Marshal_def json_object_def)
qed

lemma files_written:
  "length (mf_Files m) \<le> length (Manifest_Marshal m)"
  "f \<in> set (mf_Files m) \<Longrightarrow> length (File_Marshal f) \<le> length (Manifest_Marshal m)"
proof -
  have "length (map File_Marshal (mf_Files m)) \<le> length (json_array (map File_Marshal (mf_Files m)))"
    by (rule length_json_array) (auto simp: File_Marshal_def json_object_def)
  then show "length (mf_Files m) \<le> length (Manifest_Marshal m)" by (simp add: Manifest_Marshal_def json_object_def)
  show "length (File_Marshal f) \<le> length (Manifest_Marshal m)" if "f \<in> set (mf_Files m)"
    using in_json_commas [of "File_Marshal f" "map File_Marshal (mf_Files m)"] that
    by (simp add: Manifest_Marshal_def json_object_def json_array_def)
qed

lemma plan_unmarshals:
  assumes plan: "NewPlan sources bundleName = Inr plan" and size: "pl_DataSize plan \<le> 4611686018427387904"
    and name: "valid_utf8 bundleName"
    and srcs: "\<forall>src \<in> set sources. 0 \<le> src_Size src \<and> valid_utf8 (src_Name src) \<and> valid_utf8 (src_Path src) \<and>
      valid_utf8 (src_Type src)"
  shows "Manifest_Unmarshal (pl_ManifestJSON plan) = Some (pl_Manifest plan)"
proof -
  let ?m = "pl_Manifest plan"
  note facts = NewPlan_InrD [OF plan]
  from facts(1) obtain rss where p: "length rss = length sources" "length (mf_Files ?m) = length sources"
    "contiguous 0 (all_chunks ?m) (pl_DataSize plan)"
    "\<forall>j < length sources. source_file (sources ! j) (int j) (rss ! j) (mf_Files ?m ! j)" by blast
  have room: "int (length (Manifest_Marshal ?m)) \<le> 262144" using facts(6,7) by (simp add: MaxManifestBytes_def)
  have "file_fits (mf_Files ?m ! j)" if j: "j < length sources" for j
  proof -
    let ?f = "mf_Files ?m ! j" and ?src = "sources ! j"
    have f: "?f \<in> set (mf_Files ?m)" and src: "?src \<in> set sources" using j p(2) by simp_all
    have sf: "source_file ?src (int j) (rss ! j) ?f" using p(4) j by blast
    obtain a b where ab: "0 \<le> a" "contiguous a (f_Chunks ?f) b" "b \<le> pl_DataSize plan"
      using contiguous_files [OF p(3) [unfolded all_chunks_def], of j] j p(2) by auto
    have count: "int (length (f_Chunks ?f)) \<le> 262144" "int j < 262144"
      using chunks_written [of ?f] files_written(1) [of ?m] files_written(2) [OF f] room j p(2) by fastforce+
    have "chunk_fits (f_Chunks ?f ! i)" if i: "i < length (f_Chunks ?f)" for i
      using contiguous_in [OF ab(2) nth_mem [OF i]] ab sf i count size
      by (simp add: chunk_fits_def int64_fits_def source_file_def)
    moreover have "src_Size ?src \<le> pl_DataSize plan"
    proof -
      have "sum_list (map c_PlaintextSize cs) + x \<le> y" if "contiguous x cs y" for x y cs
        using that by (induction cs arbitrary: x) fastforce+
      then have "sum_list (map c_PlaintextSize (f_Chunks ?f)) \<le> pl_DataSize plan" using ab by fastforce
      then show ?thesis using sf srcs src by (simp add: source_file_def comp_def)
    qed
    ultimately show ?thesis using sf srcs src count size
      by (auto simp: file_fits_def int64_fits_def source_file_def list_all_length)
  qed
  then have "list_all file_fits (mf_Files ?m)" using p(2) by (simp add: list_all_length)
  then have "Manifest_Unmarshal (Manifest_Marshal ?m) = Some ?m"
    using facts(2-4) name by (intro manifest_roundtrip) (simp_all add: int64_fits_def bundle_consts)
  then show ?thesis using facts(6) by simp
qed

end
