(* ===== verification/Bundle_Reader.thy ===== *)
theory Bundle_Reader
  imports Bundle
begin

text \<open>
  \<open>internal/share/bundle/reader.go\<close>: reading the manifest and the files of a bundle over range requests. A byte slice
  is its content and the bytes between its length and its capacity, since Go slices up to the capacity. A
  fetcher is a function on the state \<open>'s\<close> of whatever serves the ranges; a writer one on a state \<open>'w\<close>. The
  progress callback only observes the reading and is left out.
\<close>

type_synonym slice = "bytes \<times> bytes"
type_synonym 's fetcher = "int \<Rightarrow> int \<Rightarrow> 's \<Rightarrow> (share_err + slice) \<times> 's"
type_synonym 'w writer = "bytes \<Rightarrow> 'w \<Rightarrow> share_err option \<times> 'w"

text \<open>The slice expression \<open>s[lo:hi]\<close>, which panics beyond the capacity.\<close>

definition reslice :: "slice \<Rightarrow> int \<Rightarrow> int \<Rightarrow> slice option" where
  "reslice s lo hi =
     (if lo < 0 \<or> hi < lo \<or> int (length (fst s @ snd s)) < hi then None
      else Some (take (nat (hi - lo)) (drop (nat lo) (fst s @ snd s)), drop (nat hi) (fst s @ snd s)))"

section \<open>Small bundles\<close>

definition serve_whole :: "slice \<Rightarrow> int \<Rightarrow> 's fetcher" where
  "serve_whole whole bundleSize start stop st =
     (if start < 0 \<or> stop \<ge> bundleSize \<or> stop < start then (Inl ErrRangeMismatch, st)
      else (case reslice whole start (stop + 1) of
              None \<Rightarrow> (Inl Panicked, st)
            | Some s \<Rightarrow> (Inr s, st)))"

definition CachingFetcher :: "'s fetcher \<Rightarrow> int \<Rightarrow> 's \<Rightarrow> (share_err + 's fetcher) \<times> 's" where
  "CachingFetcher fetch bundleSize st =
     (if bundleSize > SmallBundleBytes then (Inr fetch, st)
      else (case fetch 0 (int64 (bundleSize - 1)) st of
              (Inl e, st1) \<Rightarrow> (Inl e, st1)
            | (Inr whole, st1) \<Rightarrow>
                (if int (length (fst whole)) \<noteq> bundleSize then (Inl ErrRangeMismatch, st1)
                 else (Inr (serve_whole whole bundleSize), st1))))"

section \<open>The manifest\<close>

definition ReadManifest ::
    "primitives \<Rightarrow> 's fetcher \<Rightarrow> KeySet \<Rightarrow> int \<Rightarrow> 's \<Rightarrow> (share_err + Manifest) \<times> 's" where
  "ReadManifest prim fetch ks bundleSize st =
     (if bundleSize < FooterLength then (Inl ErrInvalidFooter, st)
      else (case fetch (bundleSize - FooterLength) (bundleSize - 1) st of
        (Inl e, st1) \<Rightarrow> (Inl e, st1)
      | (Inr trailer, st1) \<Rightarrow>
          (case ParseFooter (fst trailer) of
             Inl e \<Rightarrow> (Inl e, st1)
           | Inr footer \<Rightarrow>
               (if ft_ManifestLength footer > MaxManifestBytes + RecordOverhead then (Inl ErrManifestTooLarge, st1)
                else
                  (let manifestOffset = bundleSize - FooterLength - ft_ManifestLength footer
                   in if manifestOffset < 0 then (Inl ErrInvalidFooter, st1)
                      else (case fetch manifestOffset (manifestOffset + ft_ManifestLength footer - 1) st1 of
                        (Inl e, st2) \<Rightarrow> (Inl e, st2)
                      | (Inr encrypted, st2) \<Rightarrow>
                          (if int (length (fst encrypted)) \<noteq> ft_ManifestLength footer then (Inl ErrRangeMismatch, st2)
                           else if Sum256 (fst encrypted) \<noteq> ft_ManifestSHA256 footer
                           then (Inl (Wrapped ErrInvalidManifest ''hash mismatch''), st2)
                           else (case DecryptRecord prim ks (fst encrypted) ManifestAAD of
                             Inl e \<Rightarrow> (Inl e, st2)
                           | Inr plaintext \<Rightarrow>
                               (case Manifest_Unmarshal plaintext of
                                  None \<Rightarrow> (Inl ErrInvalidManifest, st2)
                                | Some manifest \<Rightarrow>
                                    (case manifest_validate manifest manifestOffset bundleSize of
                                       Some e \<Rightarrow> (Inl e, st2)
                                     | None \<Rightarrow> (Inr manifest, st2)))))))))))"

section \<open>The files\<close>

text \<open>
  The chunks that join the one before them in a request, as long as their plaintext together stays within
  \<open>CoalesceBytes\<close>, and the chunks after them.
\<close>

fun coalesce :: "int \<Rightarrow> Chunk list \<Rightarrow> Chunk list \<times> Chunk list" where
  "coalesce groupPlaintext [] = ([], [])"
| "coalesce groupPlaintext (c # cs) =
     (if int64 (groupPlaintext + c_PlaintextSize c) \<le> CoalesceBytes
      then (let (group, rest) = coalesce (int64 (groupPlaintext + c_PlaintextSize c)) cs in (c # group, rest))
      else ([], c # cs))"

lemma coalesce_rest: "length (snd (coalesce g cs)) \<le> length cs"
  by (induction cs arbitrary: g) (auto split: prod.split dest: le_SucI simp: Let_def case_prod_beta)

fun decrypt_chunks ::
    "primitives \<Rightarrow> KeySet \<Rightarrow> int \<Rightarrow> slice \<Rightarrow> int \<Rightarrow> Chunk list \<Rightarrow> 'w writer \<Rightarrow> 'w \<Rightarrow> share_err option \<times> 'w" where
  "decrypt_chunks prim ks fileIndex encrypted cursor [] write w = (None, w)"
| "decrypt_chunks prim ks fileIndex encrypted cursor (c # cs) write w =
     (case reslice encrypted cursor (int64 (cursor + c_Length c)) of
        None \<Rightarrow> (Some Panicked, w)
      | Some record \<Rightarrow>
          (case DecryptRecord prim ks (fst record) (ChunkAAD fileIndex (c_Index c) (c_PlaintextSize c)) of
             Inl e \<Rightarrow> (Some e, w)
           | Inr plaintext \<Rightarrow>
               (if int (length plaintext) \<noteq> c_PlaintextSize c then (Some (Wrapped ErrInvalidManifest ''chunk size''), w)
                else (case write plaintext w of
                        (Some e, w1) \<Rightarrow> (Some e, w1)
                      | (None, w1) \<Rightarrow>
                          decrypt_chunks prim ks fileIndex encrypted (int64 (cursor + c_Length c)) cs write w1))))"

function decrypt_groups ::
    "primitives \<Rightarrow> 's fetcher \<Rightarrow> KeySet \<Rightarrow> int \<Rightarrow> Chunk list \<Rightarrow> 'w writer \<Rightarrow> 's \<times> 'w \<Rightarrow> share_err option \<times> 's \<times> 'w" where
  "decrypt_groups prim fetch ks fileIndex [] write sw = (None, sw)"
| "decrypt_groups prim fetch ks fileIndex (c # cs) write sw =
     (let group = fst (coalesce (c_PlaintextSize c) cs);
          rest = snd (coalesce (c_PlaintextSize c) cs);
          lst = last (c # group);
          groupLength = int64 (int64 (c_Offset lst + c_Length lst) - c_Offset c)
      in (case fetch (c_Offset c) (int64 (c_Offset c + groupLength - 1)) (fst sw) of
            (Inl e, st1) \<Rightarrow> (Some e, st1, snd sw)
          | (Inr encrypted, st1) \<Rightarrow>
              (if int (length (fst encrypted)) \<noteq> groupLength then (Some ErrRangeMismatch, st1, snd sw)
               else (case decrypt_chunks prim ks fileIndex encrypted 0 (c # group) write (snd sw) of
                       (Some e, w1) \<Rightarrow> (Some e, st1, w1)
                     | (None, w1) \<Rightarrow> decrypt_groups prim fetch ks fileIndex rest write (st1, w1)))))"
  by pat_completeness auto

termination
  by (relation "measure (\<lambda>(prim, fetch, ks, fileIndex, chunks, write, sw). length chunks)")
     (auto simp: coalesce_rest le_imp_less_Suc)

definition DecryptFile ::
    "primitives \<Rightarrow> 's fetcher \<Rightarrow> KeySet \<Rightarrow> File \<Rightarrow> 'w writer \<Rightarrow> 's \<times> 'w \<Rightarrow> share_err option \<times> 's \<times> 'w" where
  "DecryptFile prim fetch ks file write sw = decrypt_groups prim fetch ks (f_Index file) (f_Chunks file) write sw"

end
