(* ===== verification/Bundle_Roundtrip.thy ===== *)
theory Bundle_Roundtrip
  imports Bundle_Json Bundle_Reader
begin

text \<open>
  A bundle that was encrypted reads back: what \<open>Encrypt\<close> writes is where the layout says, and the reader finds
  the footer, the manifest and every file of it.
\<close>

section \<open>Records in a bundle\<close>

definition part_of :: "bytes \<Rightarrow> int \<Rightarrow> int \<Rightarrow> bytes" where
  "part_of bdl offset n = take (nat n) (drop (nat offset) bdl)"

lemma part_of_prefix:
  "0 \<le> offset \<Longrightarrow> 0 \<le> n \<Longrightarrow> offset + n \<le> int (length bdl) \<Longrightarrow> part_of (bdl @ rest) offset n = part_of bdl offset n"
  by (simp add: part_of_def nat_le_iff)

lemma part_of_length: "0 \<le> offset \<Longrightarrow> 0 \<le> n \<Longrightarrow> offset + n \<le> int (length bdl) \<Longrightarrow> length (part_of bdl offset n) = nat n"
  by (simp add: part_of_def)

lemma part_of_part:
  "0 \<le> a \<Longrightarrow> 0 \<le> b \<Longrightarrow> 0 \<le> n \<Longrightarrow> b + n \<le> m \<Longrightarrow> part_of (part_of bdl a m) b n = part_of bdl (a + b) n"
  by (simp add: part_of_def drop_take nat_add_distrib min_def nat_le_iff add.commute)

definition sealed_at :: "primitives \<Rightarrow> KeySet \<Rightarrow> bytes \<Rightarrow> int \<Rightarrow> Chunk \<Rightarrow> bytes \<Rightarrow> bool" where
  "sealed_at prim ks bdl i c plaintext \<longleftrightarrow>
     0 \<le> c_Offset c \<and> 0 \<le> c_Length c \<and> c_Offset c + c_Length c \<le> int (length bdl) \<and>
     DecryptRecord prim ks (part_of bdl (c_Offset c) (c_Length c)) (ChunkAAD i (c_Index c) (c_PlaintextSize c)) = Inr plaintext \<and>
     int (length plaintext) = c_PlaintextSize c"

lemma sealed_at_prefix: "sealed_at prim ks bdl i c p \<Longrightarrow> sealed_at prim ks (bdl @ rest) i c p"
  by (simp add: sealed_at_def part_of_prefix)

section \<open>Writing\<close>

text \<open>A source that reads as \<open>content\<close>: every range inside it comes in full.\<close>

definition reads_as :: "Source \<Rightarrow> bytes \<Rightarrow> bool" where
  "reads_as src content \<longleftrightarrow>
     int (length content) = src_Size src \<and>
     (\<forall>a n. 0 \<le> a \<and> 0 \<le> n \<and> a + n \<le> src_Size src \<longrightarrow>
        fst (src_ReadAt src a n) = part_of content a n \<and> snd (src_ReadAt src a n) \<noteq> ReadFailed)"

lemma read_into_exact: "length got \<le> length buf \<Longrightarrow> take (length got) (read_into buf got) = got \<and>
     length (read_into buf got) = length buf"
  by (simp add: read_into_def)

lemma encrypt_records_seal:
  assumes aead: "aead_opens prim" and rng: "\<forall>i. rng i \<noteq> None" and key: "length (k_blobKey ks) = 32"
    and srcs: "\<forall>j < length sources. reads_as (sources ! j) (contents ! j)"
  shows "contiguous (int (length out)) (map chunk_of rs) e \<Longrightarrow> length buf = nat ChunkSize \<Longrightarrow>
     \<forall>r \<in> set rs. \<exists>j < length sources. record_ok (int j) (src_Size (sources ! j)) r \<Longrightarrow>
     \<exists>out'. encrypt_records prim rng sources ks rs buf out i = Inr (out', i + length rs) \<and> int (length out') = e \<and>
       (\<exists>rest. out' = out @ rest) \<and>
       (\<forall>r \<in> set rs. sealed_at prim ks out' (r_FileIndex r) (chunk_of r) (piece (contents ! nat (r_FileIndex r)) r))"
proof (induction rs arbitrary: out buf i)
  case (Cons r rs)
  then obtain j where j: "j < length sources" "r_FileIndex r = int j" "0 \<le> r_Start r"
    "r_Start r + r_PlaintextSize r \<le> src_Size (sources ! j)" by (auto simp: record_ok_def)
  have r: "r_Offset r = int (length out)" "0 < r_PlaintextSize r" "r_PlaintextSize r \<le> ChunkSize"
    "r_Length r = r_PlaintextSize r + RecordOverhead"
    and behind: "contiguous (int (length out) + r_Length r) (map chunk_of rs) e" using Cons.prems(1) by auto
  obtain got ending where read: "src_ReadAt (sources ! j) (r_Start r) (r_PlaintextSize r) = (got, ending)" by fastforce
  then have got: "got = piece (contents ! j) r" "ending \<noteq> ReadFailed" "int (length (contents ! j)) = src_Size (sources ! j)"
  proof -
    have "reads_as (sources ! j) (contents ! j)" using srcs j(1) by blast
    then have "fst (src_ReadAt (sources ! j) (r_Start r) (r_PlaintextSize r)) =
        part_of (contents ! j) (r_Start r) (r_PlaintextSize r) \<and>
      snd (src_ReadAt (sources ! j) (r_Start r) (r_PlaintextSize r)) \<noteq> ReadFailed \<and>
      int (length (contents ! j)) = src_Size (sources ! j)"
      using j r(2) by (simp add: reads_as_def)
    then show "got = piece (contents ! j) r" "ending \<noteq> ReadFailed" "int (length (contents ! j)) = src_Size (sources ! j)"
      using read by (simp_all add: piece_def part_of_def)
  qed
  have len: "length got = nat (r_PlaintextSize r)" using got j(3,4) r(2) by (simp add: piece_def)
  let ?buf = "read_into buf got"
  have "length got \<le> length buf" using len r Cons.prems(2) by simp
  from read_into_exact [OF this] have buf: "take (nat (r_PlaintextSize r)) ?buf = got" "length ?buf = nat ChunkSize"
    using len Cons.prems(2) by simp_all
  obtain enc where enc: "EncryptRecord prim rng i ks got (ChunkAAD (int j) (r_ChunkIndex r) (r_PlaintextSize r)) = Inr enc"
    using EncryptRecord_ok [where rng = rng and i = i, OF _ key] rng by blast
  have "int (length got) \<le> 274877906880" using len r by (simp add: ChunkSize_def)
  note opens = record_opens [OF aead enc this]
  have elen: "int (length enc) = r_Length r" using opens(1) len r by simp
  have "contiguous (int (length (out @ enc))) (map chunk_of rs) e" using behind elen by simp
  from Cons.IH [OF this buf(2), of "i + 1"] Cons.prems(3) obtain out' rest
    where IH: "encrypt_records prim rng sources ks rs ?buf (out @ enc) (i + 1) = Inr (out', i + 1 + length rs)"
      "int (length out') = e" "out' = (out @ enc) @ rest"
      "\<forall>r \<in> set rs. sealed_at prim ks out' (r_FileIndex r) (chunk_of r) (piece (contents ! nat (r_FileIndex r)) r)"
    by auto
  have "\<not> (r_FileIndex r < 0 \<or> int (length sources) \<le> r_FileIndex r \<or> r_PlaintextSize r < 0 \<or>
      length buf < nat (r_PlaintextSize r))" using j r Cons.prems(2) by simp
  then have run: "encrypt_records prim rng sources ks (r # rs) buf out i = Inr (out', i + length (r # rs))"
    using read got(2) buf enc elen IH(1) j by (simp add: Let_def)
  have "part_of (out @ enc) (r_Offset r) (r_Length r) = enc" using r(1) elen by (simp add: part_of_def)
  then have "sealed_at prim ks (out @ enc) (r_FileIndex r) (chunk_of r) (piece (contents ! nat (r_FileIndex r)) r)"
    using opens(2) r elen j len got(1) by (simp add: sealed_at_def)
  then have "sealed_at prim ks out' (r_FileIndex r) (chunk_of r) (piece (contents ! nat (r_FileIndex r)) r)"
    using sealed_at_prefix IH(3) by metis
  then show ?case using run IH(2-4) by auto
qed auto

section \<open>The footer\<close>

lemma be_value_snoc: "be_value (xs @ [c]) = 256 * be_value xs + int (ord c)"
  by (simp add: be_value_def)

lemma be_value_bytes: "be_value (be_bytes k n) = n mod 256 ^ k"
proof (induction k arbitrary: n)
  case (Suc k)
  have "int (ord (char_of n)) = n mod 256" by (simp add: of_nat_of_char of_char_of)
  then have "be_value (be_bytes (Suc k) n) = 256 * (n div 256 mod 256 ^ k) + n mod 256"
    by (simp add: be_value_snoc Suc)
  also have "\<dots> = n mod 256 ^ Suc k" by (simp add: zmod_zmult2_eq)
  finally show ?case .
qed (simp add: be_value_def)

lemma footer_roundtrip:
  assumes "RecordOverhead < n" and "n \<le> 9007199254740992" and "length sha = 32"
  shows "\<exists>b. EncodeFooter \<lparr>ft_ManifestLength = n, ft_ManifestSHA256 = sha\<rparr> = Inr b \<and> length b = 64 \<and>
     ParseFooter b = Inr \<lparr>ft_ManifestLength = n, ft_ManifestSHA256 = sha\<rparr>"
proof -
  let ?b = "magic @ be_bytes 4 bundle_version @ be_bytes 4 FooterLength @ be_bytes 8 n @ sha @ replicate 8 (chr 0)"
  have len: "length magic = 8" "length ?b = 64" using assms(3) by (simp_all add: magic_def)
  have cut: "take 8 ?b = magic" "take 4 (drop 8 ?b) = be_bytes 4 bundle_version" "take 4 (drop 12 ?b) = be_bytes 4 FooterLength"
    "take 8 (drop 16 ?b) = be_bytes 8 n" "take 32 (drop 24 ?b) = sha"
    using len(1) assms(3) by simp_all
  have "n mod 256 ^ 8 = n" using assms by simp
  then have "ParseFooter ?b = Inr \<lparr>ft_ManifestLength = n, ft_ManifestSHA256 = sha\<rparr>"
    using assms len(2) unfolding ParseFooter_def len(1) cut be_value_bytes
    by (simp add: FooterLength_def bundle_version_def)
  then show ?thesis using assms(1) len(2) by (simp add: EncodeFooter_def)
qed

section \<open>Reading\<close>

text \<open>
  What the reader relies on: in a good state, a range inside the bundle of at most \<open>range_limit\<close> bytes is answered with
  its bytes, and the state stays good. What lies behind the slice in memory can be anything.
\<close>

definition range_limit :: int where "range_limit = 64 * 1024 * 1024"

locale range_server =
  fixes fetch :: "'s fetcher" and bdl :: bytes and good :: "'s \<Rightarrow> bool"
  assumes serves: "good st \<Longrightarrow> 0 \<le> a \<Longrightarrow> a \<le> b \<Longrightarrow> b < int (length bdl) \<Longrightarrow> b - a + 1 \<le> range_limit \<Longrightarrow>
    \<exists>spare st1. fetch a b st = (Inr (part_of bdl a (b - a + 1), spare), st1) \<and> good st1"
begin

lemma serves_part:
  assumes "good st" and "0 \<le> a" and "0 < n" and "a + n \<le> int (length bdl)" and "n \<le> range_limit"
  obtains spare st1 where "fetch a (a + n - 1) st = (Inr (part_of bdl a n, spare), st1)" "good st1"
  using serves [of st a "a + n - 1"] assms by auto

end

lemma reslice_part:
  assumes "0 \<le> lo" and "0 \<le> n" and "lo + n \<le> int (length bs)"
  shows "\<exists>spare'. reslice (bs, spare) lo (lo + n) = Some (part_of bs lo n, spare')"
  using assms by (simp add: reslice_def part_of_def nat_le_iff)

text \<open>A whole bundle in memory serves its ranges, and so does what \<open>CachingFetcher\<close> returns.\<close>

lemma serve_whole_serves: "range_server (serve_whole (bdl, spare) (int (length bdl))) bdl good"
proof
  fix st a b assume "good st" "0 \<le> a" "a \<le> b" "b < int (length bdl)"
  then show "\<exists>spare' st1. serve_whole (bdl, spare) (int (length bdl)) a b st = (Inr (part_of bdl a (b - a + 1), spare'), st1) \<and> good st1"
    using reslice_part [of a "b - a + 1" bdl spare] by (auto simp: serve_whole_def)
qed

interpretation whole: range_server "serve_whole (bdl, spare) (int (length bdl))" bdl "\<lambda>_ :: 's. True" for bdl spare
  by (rule serve_whole_serves)

lemma cached_serves:
  assumes "range_server fetch bdl good" and "good st" and "bdl \<noteq> []"
    and small: "int (length bdl) \<le> 9223372036854775807"
  shows "\<exists>cached st1. CachingFetcher fetch (int (length bdl)) st = (Inr cached, st1) \<and> good st1 \<and>
     range_server cached bdl good"
proof (cases "int (length bdl) > SmallBundleBytes")
  case True
  then show ?thesis using assms by (simp add: CachingFetcher_def)
next
  case False
  have "0 < int (length bdl)" using assms(3) by simp
  have "int (length bdl) \<le> range_limit" using False by (simp add: SmallBundleBytes_def range_limit_def)
  then obtain spare st1 where f: "fetch 0 (0 + int (length bdl) - 1) st = (Inr (part_of bdl 0 (int (length bdl)), spare), st1)" "good st1"
    using range_server.serves_part [OF assms(1,2), of 0 "int (length bdl)"] \<open>0 < int (length bdl)\<close> by auto
  have "part_of bdl 0 (int (length bdl)) = bdl" by (simp add: part_of_def)
  then show ?thesis using f False small serve_whole_serves [of bdl spare good]
    by (simp add: CachingFetcher_def int64_id)
qed

text \<open>A writer that collects what is written.\<close>

definition append_writer :: "bytes writer" where
  "append_writer bs w = (None, w @ bs)"

lemma append_writer_simp [simp]: "append_writer bs w = (None, w @ bs)"
  by (simp add: append_writer_def)

lemma sealed_atD:
  "sealed_at prim ks bdl i c p \<Longrightarrow>
     DecryptRecord prim ks (part_of bdl (c_Offset c) (c_Length c)) (ChunkAAD i (c_Index c) (c_PlaintextSize c)) = Inr p"
  "sealed_at prim ks bdl i c p \<Longrightarrow> int (length p) = c_PlaintextSize c"
  by (simp_all add: sealed_at_def)

lemma decrypt_chunks_run:
  assumes base: "0 \<le> base" "0 \<le> n" "base + n \<le> int (length bdl)" and fits: "int (length bdl) \<le> 9223372036854775807"
  shows "contiguous (base + cursor) cs (base + n) \<Longrightarrow> 0 \<le> cursor \<Longrightarrow>
     list_all2 (sealed_at prim ks bdl i) cs ps \<Longrightarrow>
     decrypt_chunks prim ks i (part_of bdl base n, spare) cursor cs append_writer w = (None, w @ concat ps)"
proof (induction cs arbitrary: cursor ps w)
  case (Cons c cs)
  from Cons.prems(3) obtain p ps' where ps: "ps = p # ps'" "sealed_at prim ks bdl i c p" "list_all2 (sealed_at prim ks bdl i) cs ps'"
    by (auto simp: list_all2_Cons1)
  have c: "c_Offset c = base + cursor" "0 < c_Length c" and rest: "contiguous (base + cursor + c_Length c) cs (base + n)"
    using Cons.prems(1) by auto
  have stop: "cursor + c_Length c \<le> n" using contiguous_le [OF rest] by simp
  then have wrap: "int64 (cursor + c_Length c) = cursor + c_Length c"
    using base fits c Cons.prems(2) by (intro int64_id) auto
  have "part_of (part_of bdl base n) cursor (c_Length c) = part_of bdl (c_Offset c) (c_Length c)"
    using part_of_part [of base cursor "c_Length c" n bdl] base c Cons.prems(2) stop by simp
  moreover obtain spare' where "reslice (part_of bdl base n, spare) cursor (cursor + c_Length c) =
      Some (part_of (part_of bdl base n) cursor (c_Length c), spare')"
    using reslice_part [of cursor "c_Length c" "part_of bdl base n" spare] part_of_length [of base n bdl]
      base c Cons.prems(2) stop by auto
  moreover have "contiguous (base + (cursor + c_Length c)) cs (base + n)" using rest by (simp add: add.assoc)
  ultimately show ?case
    using ps(1,3) sealed_atD [OF ps(2)] Cons.IH [of "cursor + c_Length c" ps' "w @ p"] Cons.prems(2) c(2) wrap
    by simp
qed simp

lemma coalesce_split: "fst (coalesce g cs) @ snd (coalesce g cs) = cs"
  by (induction cs arbitrary: g) (auto simp: Let_def case_prod_beta)

lemma contiguous_last: "contiguous a (c # cs) b \<Longrightarrow> c_Offset (last (c # cs)) + c_Length (last (c # cs)) = b"
proof -
  assume "contiguous a (c # cs) b"
  then have "contiguous a (butlast (c # cs) @ [last (c # cs)]) b" by (simp only: append_butlast_last_id list.distinct not_False_eq_True)
  then obtain m where "contiguous m [last (c # cs)] b" unfolding contiguous_append by blast
  then show ?thesis by (simp del: last.simps)
qed

text \<open>A group of chunks is at most as large as the bound of a group, or one chunk, and the overhead of its records.\<close>

lemma coalesce_sum:
  assumes "0 \<le> g" and "g \<le> CoalesceBytes" and "\<forall>c \<in> set cs. 0 < c_PlaintextSize c \<and> c_PlaintextSize c \<le> ChunkSize"
  shows "g + sum_list (map c_PlaintextSize (fst (coalesce g cs))) \<le> CoalesceBytes"
  using assms
proof (induction cs arbitrary: g)
  case (Cons c cs)
  have "int64 (g + c_PlaintextSize c) = g + c_PlaintextSize c"
    using Cons.prems by (intro int64_id) (auto simp: CoalesceBytes_def ChunkSize_def)
  then show ?case using Cons.IH [of "g + c_PlaintextSize c"] Cons.prems by (auto simp: Let_def case_prod_beta)
qed simp

lemma contiguous_sum:
  "contiguous a cs b \<Longrightarrow> b - a = sum_list (map c_PlaintextSize cs) + RecordOverhead * int (length cs)"
proof (induction cs arbitrary: a)
  case (Cons c cs)
  have "contiguous (a + c_Length c) cs b" using Cons.prems unfolding contiguous.simps by blast
  from Cons.IH [OF this] have "b - (a + c_Length c) = sum_list (map c_PlaintextSize cs) + RecordOverhead * int (length cs)" .
  then show ?case using Cons.prems by (simp add: distrib_left)
qed simp

lemma group_small:
  assumes cs: "contiguous a (c # cs) b" and few: "int (length (c # cs)) \<le> MaxManifestBytes"
    and group: "contiguous a (c # fst (coalesce (c_PlaintextSize c) cs)) m"
  shows "m - a \<le> range_limit"
proof -
  let ?g = "fst (coalesce (c_PlaintextSize c) cs)"
  have "length ?g \<le> length cs" using arg_cong [OF coalesce_split [of "c_PlaintextSize c" cs], of length] by simp
  then have n: "int (length (c # ?g)) \<le> 262144" using few by (simp add: MaxManifestBytes_def)
  have "0 < c_PlaintextSize c" "c_PlaintextSize c \<le> ChunkSize" using cs by simp_all
  moreover have "\<forall>d \<in> set cs. 0 < c_PlaintextSize d \<and> c_PlaintextSize d \<le> ChunkSize"
    using contiguous_in [OF cs] by auto
  ultimately have "c_PlaintextSize c + sum_list (map c_PlaintextSize ?g) \<le> CoalesceBytes"
    by (intro coalesce_sum) (auto simp: CoalesceBytes_def ChunkSize_def)
  then show ?thesis using contiguous_sum [OF group] n
    by (simp add: CoalesceBytes_def RecordOverhead_def NonceLength_def range_limit_def)
qed

context range_server
begin

lemma groups_run:
  assumes fits: "int (length bdl) \<le> 9223372036854775807"
  shows "good st \<Longrightarrow> int (length cs) \<le> MaxManifestBytes \<Longrightarrow> contiguous a cs b \<Longrightarrow> 0 \<le> a \<Longrightarrow> b \<le> int (length bdl) \<Longrightarrow> list_all2 (sealed_at prim ks bdl i) cs ps \<Longrightarrow>
     \<exists>st1. decrypt_groups prim fetch ks i cs append_writer (st, w) = (None, st1, w @ concat ps) \<and> good st1"
proof (induction "length cs" arbitrary: cs st a ps w rule: less_induct)
  case less
  show ?case
  proof (cases cs)
    case Nil
    then show ?thesis using less.prems by simp
  next
    case (Cons c cs1)
    let ?group = "c # fst (coalesce (c_PlaintextSize c) cs1)"
    let ?rest = "snd (coalesce (c_PlaintextSize c) cs1)"
    have split: "cs = ?group @ ?rest" using coalesce_split [of "c_PlaintextSize c" cs1] Cons by simp
    then obtain m where m: "contiguous a ?group m" "contiguous m ?rest b"
      using less.prems(3) contiguous_append by metis
    obtain ps1 ps2 where ps: "ps = ps1 @ ps2" "list_all2 (sealed_at prim ks bdl i) ?group ps1"
      "list_all2 (sealed_at prim ks bdl i) ?rest ps2"
      using less.prems(6) unfolding split list_all2_append1 by blast
    have ends: "c_Offset (last ?group) + c_Length (last ?group) = m" by (rule contiguous_last [OF m(1)])
    have off: "c_Offset c = a" "a < m" "m \<le> b"
      using m contiguous_le [OF m(2)] contiguous_in [OF m(1), of c] by auto
    have small: "m - a \<le> range_limit"
      using group_small [OF less.prems(3,2) [unfolded Cons] m(1)] .
    have wrap: "int64 (int64 m - a) = m - a" "int64 (a + (m - a) - 1) = a + (m - a) - 1"
      using off less.prems(4,5) fits by (simp_all add: int64_id)
    obtain spare st1 where f: "fetch a (a + (m - a) - 1) st = (Inr (part_of bdl a (m - a), spare), st1)" "good st1"
      using serves_part [OF less.prems(1,4), of "m - a"] off less.prems(5) small by auto
    have len: "int (length (part_of bdl a (m - a))) = m - a"
      using part_of_length [of a "m - a" bdl] off less.prems(4,5) by simp
    have run: "decrypt_chunks prim ks i (part_of bdl a (m - a), spare) 0 ?group append_writer w = (None, w @ concat ps1)"
    proof (rule decrypt_chunks_run [OF _ _ _ fits _ _ ps(2)])
      show "contiguous (a + 0) ?group (a + (m - a))" using m(1) by (simp del: contiguous.simps)
    qed (use off less.prems(4,5) in simp_all)
    have "length ?rest < length cs" using coalesce_rest [of "c_PlaintextSize c" cs1] Cons by simp
    from less.hyps [OF this f(2) _ m(2) _ less.prems(5) ps(3), of "w @ concat ps1"] off less.prems(2,4) this
    obtain st2 where "decrypt_groups prim fetch ks i ?rest append_writer (st1, w @ concat ps1) =
        (None, st2, (w @ concat ps1) @ concat ps2)" "good st2" by auto
    then show ?thesis using Cons off(1) ends wrap f(1) len run ps(1) by (simp add: Let_def del: last.simps)
  qed
qed

end

lemma DecryptFile_run:
  assumes "range_server fetch bdl good" and "good st" and "int (length bdl) \<le> 9223372036854775807"
    and "int (length (f_Chunks f)) \<le> MaxManifestBytes" and "contiguous a (f_Chunks f) b" "0 \<le> a" "b \<le> int (length bdl)"
    and "list_all2 (sealed_at prim ks bdl (f_Index f)) (f_Chunks f) ps"
  shows "\<exists>st1. DecryptFile prim fetch ks f append_writer (st, w) = (None, st1, w @ concat ps) \<and> good st1"
  unfolding DecryptFile_def by (rule range_server.groups_run [OF assms(1,3,2,4-8)])

section \<open>Round trip\<close>

text \<open>The parts of a finished bundle: the records, the sealed manifest and the footer that names it.\<close>

definition manifest_sealed :: "primitives \<Rightarrow> KeySet \<Rightarrow> bytes \<Rightarrow> bytes \<Rightarrow> bytes \<Rightarrow> bool" where
  "manifest_sealed prim ks json enc trailer \<longleftrightarrow>
     int (length enc) = int (length json) + RecordOverhead \<and> DecryptRecord prim ks enc ManifestAAD = Inr json \<and>
     length trailer = 64 \<and>
     ParseFooter trailer = Inr \<lparr>ft_ManifestLength = int (length enc), ft_ManifestSHA256 = Sum256 enc\<rparr>"

lemma seal_manifest_run:
  assumes aead: "aead_opens prim" and rng: "\<forall>i. rng i \<noteq> None" and key: "length (k_blobKey ks) = 32"
    and plan: "NewPlan sources bundleName = Inr plan"
  shows "\<exists>enc trailer. seal_manifest prim rng i plan ks = Inr (enc @ trailer) \<and>
     manifest_sealed prim ks (pl_ManifestJSON plan) enc trailer"
proof -
  note facts = NewPlan_InrD(6-8) [OF plan]
  obtain enc where enc: "EncryptRecord prim rng i ks (pl_ManifestJSON plan) ManifestAAD = Inr enc"
    using EncryptRecord_ok [where rng = rng and i = i, OF _ key] rng by blast
  have "int (length (pl_ManifestJSON plan)) \<le> 274877906880" using facts(2) by (simp add: MaxManifestBytes_def)
  note opens = record_opens [OF aead enc this]
  have "pl_ManifestJSON plan \<noteq> []" by (simp add: facts(1) Manifest_Marshal_def json_object_def)
  then have "RecordOverhead < int (length enc)" "int (length enc) \<le> 9007199254740992"
    using opens(1) facts(2) by (simp_all add: MaxManifestBytes_def)
  from footer_roundtrip [OF this length_Sum256] obtain trailer where
    "EncodeFooter \<lparr>ft_ManifestLength = int (length enc), ft_ManifestSHA256 = Sum256 enc\<rparr> = Inr trailer" "length trailer = 64"
    "ParseFooter trailer = Inr \<lparr>ft_ManifestLength = int (length enc), ft_ManifestSHA256 = Sum256 enc\<rparr>" by blast
  then have "seal_manifest prim rng i plan ks = Inr (enc @ trailer) \<and>
      manifest_sealed prim ks (pl_ManifestJSON plan) enc trailer"
    using enc opens facts(3) by (simp add: seal_manifest_def manifest_sealed_def)
  then show ?thesis by blast
qed

lemma Encrypt_run:
  assumes aead: "aead_opens prim" and rng: "\<forall>i. rng i \<noteq> None" and key: "length (k_blobKey ks) = 32"
    and plan: "NewPlan sources bundleName = Inr plan"
    and srcs: "\<forall>j < length sources. reads_as (sources ! j) (contents ! j)"
  shows "\<exists>out enc trailer. Encrypt prim rng plan sources ks = Inr (out @ enc @ trailer) \<and>
     int (length out) = pl_DataSize plan \<and> manifest_sealed prim ks (pl_ManifestJSON plan) enc trailer \<and>
     (\<forall>r \<in> set (pl_Records plan).
        sealed_at prim ks out (r_FileIndex r) (chunk_of r) (piece (contents ! nat (r_FileIndex r)) r))"
proof -
  from NewPlan_InrD(1) [OF plan] obtain rss where rss: "pl_Records plan = concat rss" "length rss = length sources"
    "length (mf_Files (pl_Manifest plan)) = length sources"
    "contiguous 0 (all_chunks (pl_Manifest plan)) (pl_DataSize plan)"
    "\<forall>j < length sources. source_file (sources ! j) (int j) (rss ! j) (mf_Files (pl_Manifest plan) ! j)" by blast
  have cont: "contiguous (int (length [])) (map chunk_of (pl_Records plan)) (pl_DataSize plan)"
    using plan_contiguous [OF plan] by simp
  have recs: "\<forall>r \<in> set (pl_Records plan). \<exists>j < length sources. record_ok (int j) (src_Size (sources ! j)) r"
    using rss(2,5) by (fastforce simp: rss(1) in_set_conv_nth source_file_def)
  from encrypt_records_seal [OF aead rng key srcs cont _ recs, of "replicate (nat ChunkSize) (chr 0)" 0] obtain out where
    out: "encrypt_records prim rng sources ks (pl_Records plan) (replicate (nat ChunkSize) (chr 0)) [] 0 =
      Inr (out, length (pl_Records plan))" "int (length out) = pl_DataSize plan"
    "\<forall>r \<in> set (pl_Records plan).
      sealed_at prim ks out (r_FileIndex r) (chunk_of r) (piece (contents ! nat (r_FileIndex r)) r)" by auto
  from seal_manifest_run [OF aead rng key plan, of "length (pl_Records plan)"] obtain enc trailer where
    tail: "seal_manifest prim rng (length (pl_Records plan)) plan ks = Inr (enc @ trailer)"
      "manifest_sealed prim ks (pl_ManifestJSON plan) enc trailer" by blast
  have "int (length (out @ enc @ trailer)) = pl_TotalSize plan"
    using out(2) tail(2) NewPlan_InrD(8,9) [OF plan] by (simp add: manifest_sealed_def FooterLength_def)
  then have "Encrypt prim rng plan sources ks = Inr (out @ enc @ trailer)"
    using out(1) tail(1) by (simp add: Encrypt_def del: length_append)
  then show ?thesis using out(2,3) tail(2) by blast
qed

lemma ReadManifest_run:
  assumes server: "range_server fetch bdl good" "good st" and bdl: "bdl = out @ enc @ trailer"
    and sealed: "manifest_sealed prim ks json enc trailer" and json: "Manifest_Unmarshal json = Some m" "json \<noteq> []"
      "int (length json) \<le> MaxManifestBytes"
    and valid: "manifest_validate m (int (length out)) (int (length bdl)) = None"
  shows "\<exists>st1. ReadManifest prim fetch ks (int (length bdl)) st = (Inr m, st1) \<and> good st1"
proof -
  note s = sealed [unfolded manifest_sealed_def]
  let ?n = "int (length bdl)" and ?m = "int (length enc)"
  have len: "?n = int (length out) + ?m + 64" using s by (simp add: bdl)
  have parts: "part_of bdl (?n - FooterLength) FooterLength = trailer" "part_of bdl (int (length out)) ?m = enc"
  proof -
    have trl: "length trailer = 64" using s by blast
    then have "?n - FooterLength = int (length out + length enc)" by (simp add: bdl FooterLength_def)
    then have "nat (?n - FooterLength) = length out + length enc" by (simp only: nat_int)
    with trl show "part_of bdl (?n - FooterLength) FooterLength = trailer" unfolding part_of_def bdl by (simp add: FooterLength_def)
    show "part_of bdl (int (length out)) ?m = enc" by (simp add: part_of_def bdl)
  qed
  obtain spare st1 where f1: "fetch (?n - FooterLength) (?n - 1) st = (Inr (trailer, spare), st1)" "good st1"
    using range_server.serves_part [OF server, of "?n - FooterLength" FooterLength] parts(1) len
    by (auto simp: FooterLength_def range_limit_def)
  have small: "?m \<le> range_limit"
    using s json(3) by (simp add: MaxManifestBytes_def RecordOverhead_def NonceLength_def range_limit_def)
  have "0 < ?m" using s json(2) by simp
  then obtain spare2 st2 where f2: "fetch (int (length out)) (int (length out) + ?m - 1) st1 = (Inr (enc, spare2), st2)" "good st2"
    using range_server.serves_part [OF server(1) f1(2), of "int (length out)" ?m] parts(2) len small by auto
  have off: "?n - FooterLength - ?m = int (length out)" using len by (simp add: FooterLength_def)
  have "ReadManifest prim fetch ks ?n st = (Inr m, st2)"
    using f1(1) f2(1) s json valid len off by (simp add: ReadManifest_def Let_def FooterLength_def)
  then show ?thesis using f2(2) by blast
qed

text \<open>The files of a sealed bundle, over any service of its ranges.\<close>

lemma files_read_back:
  assumes plan: "NewPlan sources bundleName = Inr plan"
    and srcs: "\<forall>j < length sources. reads_as (sources ! j) (contents ! j)"
    and out: "int (length out) = pl_DataSize plan" and fits: "int (length (out @ rest)) \<le> 9223372036854775807"
    and sealed: "\<forall>r \<in> set (pl_Records plan).
        sealed_at prim ks out (r_FileIndex r) (chunk_of r) (piece (contents ! nat (r_FileIndex r)) r)"
    and server: "range_server fetch (out @ rest) good" "good st" and j: "j < length sources"
  shows "\<exists>st1. DecryptFile prim fetch ks (mf_Files (pl_Manifest plan) ! j) append_writer (st, []) = (None, st1, contents ! j) \<and> good st1"
proof -
  let ?bdl = "out @ rest" and ?m = "pl_Manifest plan"
  from NewPlan_InrD(1) [OF plan] obtain rss where rss: "pl_Records plan = concat rss" "length rss = length sources"
    "length (mf_Files ?m) = length sources" "contiguous 0 (all_chunks ?m) (pl_DataSize plan)"
    "\<forall>j < length sources. source_file (sources ! j) (int j) (rss ! j) (mf_Files ?m ! j)" by blast
  have sf: "source_file (sources ! j) (int j) (rss ! j) (mf_Files ?m ! j)" using rss(5) j by blast
  have "mf_Files ?m ! j \<in> set (mf_Files ?m)" using j rss(3) by simp
  then have few: "int (length (f_Chunks (mf_Files ?m ! j))) \<le> MaxManifestBytes"
    using chunks_written [of "mf_Files ?m ! j"] files_written(2) [of "mf_Files ?m ! j" ?m] NewPlan_InrD(6,7) [OF plan] by fastforce
  obtain a b where ab: "0 \<le> a" "contiguous a (f_Chunks (mf_Files ?m ! j)) b" "b \<le> pl_DataSize plan"
    using contiguous_files [OF rss(4) [unfolded all_chunks_def], of j] j rss(3) by auto
  have "sealed_at prim ks ?bdl (int j) (chunk_of r) (piece (contents ! j) r)" if "r \<in> set (rss ! j)" for r
  proof -
    have "r \<in> set (pl_Records plan)" using that j rss(1,2) by auto
    moreover have "r_FileIndex r = int j" using sf that by (auto simp: source_file_def record_ok_def)
    ultimately show ?thesis using sealed sealed_at_prefix by fastforce
  qed
  then have sealed': "list_all2 (sealed_at prim ks ?bdl (f_Index (mf_Files ?m ! j))) (f_Chunks (mf_Files ?m ! j))
      (map (piece (contents ! j)) (rss ! j))"
    using sf by (auto simp: source_file_def list_all2_conv_all_nth)
  have "concat (map (piece (contents ! j)) (rss ! j)) = contents ! j"
    using sf srcs j by (simp add: source_file_def reads_as_def)
  then show ?thesis using DecryptFile_run [OF server fits few ab(2,1) _ sealed', of "[]"] ab(3) out by simp
qed

definition utf8_names :: "Source \<Rightarrow> bool" where
  "utf8_names src \<longleftrightarrow> valid_utf8 (src_Name src) \<and> valid_utf8 (src_Path src) \<and> valid_utf8 (src_Type src)"

lemma bundle_reads_back:
  assumes aead: "aead_opens prim" and rng: "\<forall>i. rng i \<noteq> None" and key: "length (k_blobKey ks) = 32"
    and plan: "NewPlan sources bundleName = Inr plan" and name: "bundleName \<noteq> []" "valid_utf8 bundleName"
    and srcs: "\<forall>j < length sources. reads_as (sources ! j) (contents ! j) \<and> src_Name (sources ! j) \<noteq> [] \<and> utf8_names (sources ! j)"
    and size: "pl_DataSize plan \<le> 4611686018427387904"
  shows "\<exists>bdl. (Encrypt prim rng plan sources ks = Inr bdl \<and> int (length bdl) = pl_TotalSize plan \<and>
     (\<forall>fetch good st. range_server fetch bdl good \<and> good st \<longrightarrow>
        (\<exists>st1. ReadManifest prim fetch ks (int (length bdl)) st = (Inr (pl_Manifest plan), st1) \<and> good st1) \<and>
        (\<forall>j < length sources. \<exists>st1.
           DecryptFile prim fetch ks (mf_Files (pl_Manifest plan) ! j) append_writer (st, []) = (None, st1, contents ! j) \<and>
           good st1))) \<and>
     int (length bdl) \<le> 9223372036854775807 \<and> bdl \<noteq> [] \<and> length (mf_Files (pl_Manifest plan)) = length sources"
proof -
  have reads: "\<forall>j < length sources. reads_as (sources ! j) (contents ! j)" using srcs by blast
  from Encrypt_run [OF aead rng key plan this] obtain out enc trailer
    where enc: "Encrypt prim rng plan sources ks = Inr (out @ enc @ trailer)" "int (length out) = pl_DataSize plan"
      "manifest_sealed prim ks (pl_ManifestJSON plan) enc trailer"
      "\<forall>r \<in> set (pl_Records plan).
        sealed_at prim ks out (r_FileIndex r) (chunk_of r) (piece (contents ! nat (r_FileIndex r)) r)" by blast
  let ?bdl = "out @ enc @ trailer" and ?m = "pl_Manifest plan"
  note tail = enc(3) [unfolded manifest_sealed_def]
  note facts = NewPlan_InrD [OF plan]
  have total: "int (length ?bdl) = pl_TotalSize plan" using enc(2) tail facts(8,9) by (simp add: FooterLength_def)
  have fits: "int (length ?bdl) \<le> 9223372036854775807"
    using enc(2) tail facts(7) size by (simp add: MaxManifestBytes_def)
  have srcs': "\<forall>src \<in> set sources. 0 \<le> src_Size src \<and> src_Name src \<noteq> [] \<and> utf8_names src"
    using srcs by (auto simp: in_set_conv_nth reads_as_def) (metis of_nat_0_le_iff)
  then have valid: "manifest_validate ?m (int (length out)) (int (length ?bdl)) = None"
    using plan_validates [OF plan name(1) _ size] enc(2) tail by (simp add: FooterLength_def)
  have json: "Manifest_Unmarshal (pl_ManifestJSON plan) = Some ?m"
    using srcs' by (intro plan_unmarshals [OF plan size name(2)]) (simp add: utf8_names_def)
  have ne: "pl_ManifestJSON plan \<noteq> []" by (simp add: facts(6) Manifest_Marshal_def json_object_def)
  have more: "?bdl \<noteq> []" "length (mf_Files ?m) = length sources" using tail facts(1) by auto
  show ?thesis
  proof (intro exI [of _ ?bdl] conjI allI impI)
    fix fetch :: "'a fetcher" and good st assume server: "range_server fetch ?bdl good \<and> good st"
    then show "\<exists>st1. ReadManifest prim fetch ks (int (length ?bdl)) st = (Inr ?m, st1) \<and> good st1"
      by (intro ReadManifest_run [OF _ _ refl enc(3) json ne facts(7) valid]) simp_all
    show "\<exists>st1. DecryptFile prim fetch ks (mf_Files ?m ! j) append_writer (st, []) = (None, st1, contents ! j) \<and> good st1"
      if "j < length sources" for j
      using server by (intro files_read_back [OF plan reads enc(2) fits enc(4) _ _ that]) simp_all
  qed (use enc(1) total fits more in simp_all)
qed

text \<open>
  Property C36. What was encrypted reads back. For sources that deliver their bytes and have names in valid UTF-8, with
  randomness to draw nonces from, \<open>Encrypt\<close> makes a bundle, and over any service that answers its ranges of up to 64 MiB the reader
  gets exactly the planned manifest and writes out exactly the content of every file, through however many requests it
  groups the records into.
\<close>

theorem encrypted_bundle_reads_back:
  assumes aead: "aead_opens prim" and rng: "\<forall>i. rng i \<noteq> None" and key: "length (k_blobKey ks) = 32"
    and plan: "NewPlan sources bundleName = Inr plan" and name: "bundleName \<noteq> []" "valid_utf8 bundleName"
    and srcs: "\<forall>j < length sources. reads_as (sources ! j) (contents ! j) \<and> src_Name (sources ! j) \<noteq> [] \<and> utf8_names (sources ! j)"
    and size: "pl_DataSize plan \<le> 4611686018427387904"
  shows "\<exists>bdl. Encrypt prim rng plan sources ks = Inr bdl \<and> int (length bdl) = pl_TotalSize plan \<and>
     (\<forall>fetch good st. range_server fetch bdl good \<and> good st \<longrightarrow>
        (\<exists>st1. ReadManifest prim fetch ks (int (length bdl)) st = (Inr (pl_Manifest plan), st1) \<and> good st1) \<and>
        (\<forall>j < length sources. \<exists>st1.
           DecryptFile prim fetch ks (mf_Files (pl_Manifest plan) ! j) append_writer (st, []) = (None, st1, contents ! j) \<and>
           good st1))"
  using bundle_reads_back [OF assms] by (rule ex_forward) (rule conjunct1)

section \<open>An example, and a manifest that is not laid out by NewPlan\<close>

definition demo_keys :: KeySet where
  "demo_keys = \<lparr>k_shareSecret = [], k_metaKey = [], k_blobKey = replicate 32 (CHR ''k''), k_publicID = ''p'',
     k_metadataToken = [], k_blobToken = [], k_deletionToken = []\<rparr>"

definition memory_source :: "string \<Rightarrow> bytes \<Rightarrow> Source" where
  "memory_source name content = \<lparr>src_Name = name, src_Path = [], src_Type = [], src_Size = int (length content),
     src_ReadAt = (\<lambda>a n. (part_of content a n, ReadOk))\<rparr>"

lemma memory_source_name [simp]: "src_Name (memory_source name content) = name"
  by (simp add: memory_source_def)

lemma memory_source_reads: "reads_as (memory_source name content) content"
  by (simp add: reads_as_def memory_source_def)

lemma demo_plan: "\<exists>plan. NewPlan [memory_source ''a'' ''hello''] ''a'' = Inr plan \<and> pl_DataSize plan = 45"
  by (simp add: NewPlan_def memory_source_def Let_def plan_chunks.simps bundle_consts Manifest_Marshal_def
      File_Marshal_def Chunk_Marshal_def json_object_def json_array_def json_string_def json_quote_def json_rune_def
      escape_ascii_def FormatInt_def nat_digits.simps)

lemma valid_a: "valid_utf8 ''a''" by simp

theorem encrypted_bundle_reads_back_witness:
  "\<exists>plan bdl. NewPlan [memory_source ''a'' ''hello''] ''a'' = Inr plan \<and>
     Encrypt open_primitives demo_rng plan [memory_source ''a'' ''hello''] demo_keys = Inr bdl \<and>
     snd (snd (DecryptFile open_primitives (serve_whole (bdl, ''spare'') (int (length bdl))) demo_keys
       (mf_Files (pl_Manifest plan) ! 0) append_writer ((), []))) = ''hello''"
proof -
  obtain plan where plan: "NewPlan [memory_source ''a'' ''hello''] ''a'' = Inr plan" "pl_DataSize plan = 45"
    using demo_plan by blast
  have srcs: "\<forall>j < length [memory_source ''a'' ''hello'']. reads_as ([memory_source ''a'' ''hello''] ! j) ([''hello''] ! j) \<and>
      src_Name ([memory_source ''a'' ''hello''] ! j) \<noteq> [] \<and> utf8_names ([memory_source ''a'' ''hello''] ! j)"
    using memory_source_reads [of "''a''" "''hello''"] valid_a by (simp add: utf8_names_def memory_source_def del: valid_utf8.simps(2))
  have pre: "\<forall>i. demo_rng i \<noteq> None" "length (k_blobKey demo_keys) = 32" "''a'' \<noteq> []" "pl_DataSize plan \<le> 4611686018427387904"
    using plan(2) by (simp_all add: demo_rng_def demo_keys_def)
  obtain bdl where bdl: "Encrypt open_primitives demo_rng plan [memory_source ''a'' ''hello''] demo_keys = Inr bdl \<and>
     int (length bdl) = pl_TotalSize plan \<and>
     (\<forall>fetch (good :: unit \<Rightarrow> bool) st. range_server fetch bdl good \<and> good st \<longrightarrow>
        (\<exists>st1. ReadManifest open_primitives fetch demo_keys (int (length bdl)) st =
           (Inr (pl_Manifest plan), st1) \<and> good st1) \<and>
        (\<forall>j < length [memory_source ''a'' ''hello'']. \<exists>st1.
           DecryptFile open_primitives fetch demo_keys (mf_Files (pl_Manifest plan) ! j) append_writer (st, []) =
             (None, st1, [''hello''] ! j) \<and> good st1))"
    using encrypted_bundle_reads_back [OF open_primitives_opens pre(1,2) plan(1) pre(3) valid_a srcs pre(4)] by (elim exE)
  have "range_server (serve_whole (bdl, ''spare'') (int (length bdl))) bdl (\<lambda>_ :: unit. True) \<and> True"
    using serve_whole_serves by blast
  from conjunct2 [OF mp [OF spec [OF spec [OF spec [OF conjunct2 [OF conjunct2 [OF bdl]]]]] this]]
  obtain st1 where "DecryptFile open_primitives (serve_whole (bdl, ''spare'') (int (length bdl))) demo_keys
      (mf_Files (pl_Manifest plan) ! 0) append_writer ((), []) = (None, st1, ''hello'')" by auto
  then show ?thesis using plan(1) bdl by (intro exI [of _ plan] exI [of _ bdl]) simp
qed

text \<open>
  A manifest whose records tile the data, but not in the order of the file's chunks: the second chunk lies behind the
  third. It passes the check, although the reader takes the chunks of a file to lie back to back, and reading the third
  chunk from the fetched range goes beyond the slice.
\<close>

definition scrambled_manifest :: Manifest where
  "scrambled_manifest = \<lparr>mf_Version = 2, mf_BundleName = ''a'', mf_ChunkSize = 4194304, mf_Files =
     [\<lparr>f_Index = 0, f_Path = ''a'', f_Name = ''a'', f_Type = ''t'', f_Size = 44, f_Chunks =
        [\<lparr>c_Index = 0, c_Offset = 0, c_Length = 41, c_PlaintextSize = 1\<rparr>,
         \<lparr>c_Index = 1, c_Offset = 123, c_Length = 41, c_PlaintextSize = 1\<rparr>,
         \<lparr>c_Index = 2, c_Offset = 41, c_Length = 82, c_PlaintextSize = 42\<rparr>]\<rparr>]\<rparr>"

definition zero_fetch :: "unit fetcher" where
  "zero_fetch a b st = (Inr (replicate (nat (b - a + 1)) (chr 0), []), st)"

lemma scrambled_chunks_panic:
  "manifest_validate scrambled_manifest 164 300 = None \<and>
   fst (DecryptFile open_primitives zero_fetch demo_keys (mf_Files scrambled_manifest ! 0) append_writer ((), [])) =
     Some Panicked"
proof
  show "manifest_validate scrambled_manifest 164 300 = None"
    by (simp add: manifest_validate_def scrambled_manifest_def bundle_consts int64_def)
  show "fst (DecryptFile open_primitives zero_fetch demo_keys (mf_Files scrambled_manifest ! 0) append_writer ((), [])) =
     Some Panicked"
    by (simp add: DecryptFile_def scrambled_manifest_def zero_fetch_def demo_keys_def open_primitives_def
        int64_def CoalesceBytes_def reslice_def DecryptRecord_def NonceLength_def)
qed

end
