(* ===== verification/Share_Upload.thy ===== *)
theory Share_Upload
  imports Bundle_Roundtrip Upload_Handler
begin

text \<open>
  \<open>upload\<close> of \<open>internal/share/share.go\<close>: the records of a bundle are encrypted in order and grouped into parts of the
  server's size. \<open>stopped k\<close> says whether the context of the uploads has ended before record \<open>k\<close>: a part
  failed for good, or the caller gave up.
\<close>

section \<open>Cutting a bundle into parts\<close>

definition MinPartBytes :: int where "MinPartBytes = 5 * 1024 * 1024"

record SentPart =
  sp_Number :: int
  sp_Offset :: int
  sp_Data :: bytes
  sp_SHA256 :: string

text \<open>The part that is being filled, its number and offset, and the parts handed to the uploads.\<close>

record cutting =
  cut_part :: bytes
  cut_number :: int
  cut_offset :: int
  cut_sent :: "SentPart list"

definition flush :: "cutting \<Rightarrow> cutting" where
  "flush s =
     s\<lparr>cut_part := [], cut_number := cut_number s + 1, cut_offset := cut_offset s + int (length (cut_part s)),
       cut_sent := cut_sent s @ [\<lparr>sp_Number = cut_number s, sp_Offset = cut_offset s, sp_Data = cut_part s,
                                  sp_SHA256 = SHA256Hex (cut_part s)\<rparr>]\<rparr>"

text \<open>
  The test for a short read compares the length of the buffer, which is always the one asked for, so every read that
  ends with EOF passes.
\<close>

fun cut_records ::
    "primitives \<Rightarrow> rng \<Rightarrow> (nat \<Rightarrow> bool) \<Rightarrow> int \<Rightarrow> Source list \<Rightarrow> KeySet \<Rightarrow> nat \<Rightarrow> Record list \<Rightarrow> bytes \<Rightarrow> cutting \<Rightarrow>
       share_err option \<times> cutting \<times> nat" where
  "cut_records prim rng stopped partSize sources ks i [] buf s = (None, s, i)"
| "cut_records prim rng stopped partSize sources ks i (r # rs) buf s =
     (if stopped i then (None, s, i)
      else
        (let s1 = (if 0 < length (cut_part s) \<and> int (length (cut_part s)) + r_Length r > partSize \<and>
                      int (length (cut_part s)) \<ge> MinPartBytes
                   then flush s else s);
             n = nat (r_PlaintextSize r)
         in if r_FileIndex r < 0 \<or> int (length sources) \<le> r_FileIndex r \<or> r_PlaintextSize r < 0 \<or> length buf < n
            then (Some Panicked, s1, i)
            else
              (let src = sources ! nat (r_FileIndex r);
                   (got, ending) = src_ReadAt src (r_Start r) (r_PlaintextSize r);
                   buf1 = read_into buf got
               in if ending \<noteq> ReadOk \<and> (ending \<noteq> ReadEOF \<or> int (length (take n buf1)) \<noteq> r_PlaintextSize r)
                  then (Some (NewErr (''read '' @ src_Name src)), s1, i)
                  else
                    (case EncryptRecord prim rng i ks (take n buf1)
                            (ChunkAAD (r_FileIndex r) (r_ChunkIndex r) (r_PlaintextSize r)) of
                       Inl e \<Rightarrow> (Some e, s1, i)
                     | Inr encrypted \<Rightarrow>
                         (if int (length encrypted) \<noteq> r_Length r then (Some (NewErr ''bundle record size mismatch''), s1, i)
                          else cut_records prim rng stopped partSize sources ks (i + 1) rs buf1
                                 (s1\<lparr>cut_part := cut_part s1 @ encrypted\<rparr>))))))"

text \<open>The digits of a digest back to its bytes. Other characters only shift, which no digest has.\<close>

definition hex_value :: "char \<Rightarrow> nat" where
  "hex_value c =
     (if 48 \<le> ord c \<and> ord c \<le> 57 then ord c - 48
      else if 97 \<le> ord c \<and> ord c \<le> 102 then ord c - 97 + 10 else 0)"

fun mustDecodeHex :: "string \<Rightarrow> bytes" where
  "mustDecodeHex (a # b # rest) = chr ((hex_value a * 16 + hex_value b) mod 256) # mustDecodeHex rest"
| "mustDecodeHex _ = []"

text \<open>
  The parts of a bundle in the order they are handed to the uploads, and the error that stops the encryption. The first
  buffer is made with the server's part size, which must not be negative.
\<close>

definition cut_bundle ::
    "primitives \<Rightarrow> rng \<Rightarrow> (nat \<Rightarrow> bool) \<Rightarrow> int \<Rightarrow> Plan \<Rightarrow> Source list \<Rightarrow> KeySet \<Rightarrow> share_err option \<times> SentPart list" where
  "cut_bundle prim rng stopped partSize plan sources ks =
     (if min partSize (pl_TotalSize plan) + RecordOverhead < 0 then (Some Panicked, [])
      else case cut_records prim rng stopped partSize sources ks 0 (pl_Records plan) (replicate (nat ChunkSize) (chr 0))
             \<lparr>cut_part = [], cut_number = 1, cut_offset = 0, cut_sent = []\<rparr> of
        (Some e, s, i) \<Rightarrow> (Some e, cut_sent s)
      | (None, s, i) \<Rightarrow>
          (if stopped i then (Some ContextErr, cut_sent s)
           else
             (case EncryptRecord prim rng i ks (pl_ManifestJSON plan) ManifestAAD of
                Inl e \<Rightarrow> (Some e, cut_sent s)
              | Inr encryptedManifest \<Rightarrow>
                  (if int (length encryptedManifest) \<noteq> pl_EncryptedManifestLength plan
                   then (Some (NewErr ''bundle manifest size mismatch''), cut_sent s)
                   else (case EncodeFooter \<lparr>ft_ManifestLength = int (length encryptedManifest),
                                ft_ManifestSHA256 = mustDecodeHex (SHA256Hex encryptedManifest)\<rparr> of
                           Inl e \<Rightarrow> (Some e, cut_sent s)
                         | Inr trailer \<Rightarrow>
                             (None, cut_sent (flush (s\<lparr>cut_part := cut_part s @ encryptedManifest @ trailer\<rparr>))))))))"

section \<open>The parts are the bundle\<close>

definition joined :: "cutting \<Rightarrow> bytes" where
  "joined s = concat (map sp_Data (cut_sent s)) @ cut_part s"

lemma joined_simps [simp]:
  "joined (flush s) = joined s" "joined (s\<lparr>cut_part := cut_part s @ enc\<rparr>) = joined s @ enc"
  by (simp_all add: joined_def flush_def)

lemma length_read_into: "length buf \<le> length (read_into buf got)"
  by (simp add: read_into_def)

lemma cut_records_joins:
  "cut_records prim rng (\<lambda>_. False) partSize sources ks i rs buf s = (None, s', i') \<Longrightarrow>
     encrypt_records prim rng sources ks rs buf (joined s) i = Inr (joined s', i')"
proof (induction rs arbitrary: i buf s)
  case (Cons r rs)
  let ?n = "nat (r_PlaintextSize r)"
  define s1 where "s1 = (if 0 < length (cut_part s) \<and> int (length (cut_part s)) + r_Length r > partSize \<and>
    int (length (cut_part s)) \<ge> MinPartBytes then flush s else s)"
  obtain got ending where read: "src_ReadAt (sources ! nat (r_FileIndex r)) (r_Start r) (r_PlaintextSize r) = (got, ending)"
    by fastforce
  let ?aad = "ChunkAAD (r_FileIndex r) (r_ChunkIndex r) (r_PlaintextSize r)"
  from Cons.prems have ok: "\<not> (r_FileIndex r < 0 \<or> int (length sources) \<le> r_FileIndex r \<or> r_PlaintextSize r < 0 \<or> length buf < ?n)"
    unfolding cut_records.simps Let_def by (simp split: if_splits)
  have full: "int (length (take ?n (read_into buf got))) = r_PlaintextSize r"
    using ok length_read_into [of buf got] by simp
  obtain enc where enc: "ending \<noteq> ReadFailed" "EncryptRecord prim rng i ks (take ?n (read_into buf got)) ?aad = Inr enc"
    "int (length enc) = r_Length r"
    "cut_records prim rng (\<lambda>_. False) partSize sources ks (i + 1) rs (read_into buf got)
       (s1\<lparr>cut_part := cut_part s1 @ enc\<rparr>) = (None, s', i')"
    using Cons.prems ok read full unfolding cut_records.simps Let_def s1_def [symmetric]
    by (cases ending) (auto split: if_splits sum.splits)
  have "joined (s1\<lparr>cut_part := cut_part s1 @ enc\<rparr>) = joined s @ enc" by (simp add: s1_def)
  then show ?case using Cons.IH [OF enc(4)] enc(1-3) ok read by (simp add: Let_def)
qed simp

lemma cut_records_total:
  "encrypt_records prim rng sources ks rs buf (joined s) i = Inr (out, i') \<Longrightarrow>
     \<exists>s'. cut_records prim rng (\<lambda>_. False) partSize sources ks i rs buf s = (None, s', i')"
proof (induction rs arbitrary: i buf s)
  case (Cons r rs)
  let ?n = "nat (r_PlaintextSize r)"
  define s1 where "s1 = (if 0 < length (cut_part s) \<and> int (length (cut_part s)) + r_Length r > partSize \<and>
    int (length (cut_part s)) \<ge> MinPartBytes then flush s else s)"
  obtain got ending where read: "src_ReadAt (sources ! nat (r_FileIndex r)) (r_Start r) (r_PlaintextSize r) = (got, ending)"
    by fastforce
  let ?aad = "ChunkAAD (r_FileIndex r) (r_ChunkIndex r) (r_PlaintextSize r)"
  from Cons.prems have ok: "\<not> (r_FileIndex r < 0 \<or> int (length sources) \<le> r_FileIndex r \<or> r_PlaintextSize r < 0 \<or> length buf < ?n)"
    unfolding encrypt_records.simps Let_def by (simp split: if_splits)
  have full: "int (length (take ?n (read_into buf got))) = r_PlaintextSize r"
    using ok length_read_into [of buf got] by simp
  obtain enc where enc: "ending \<noteq> ReadFailed" "EncryptRecord prim rng i ks (take ?n (read_into buf got)) ?aad = Inr enc"
    "int (length enc) = r_Length r"
    "encrypt_records prim rng sources ks rs (read_into buf got) (joined s @ enc) (i + 1) = Inr (out, i')"
    using Cons.prems ok read unfolding encrypt_records.simps Let_def by (auto split: if_splits sum.splits)
  have "joined (s1\<lparr>cut_part := cut_part s1 @ enc\<rparr>) = joined s @ enc" by (simp add: s1_def)
  then obtain s' where "cut_records prim rng (\<lambda>_. False) partSize sources ks (i + 1) rs (read_into buf got)
      (s1\<lparr>cut_part := cut_part s1 @ enc\<rparr>) = (None, s', i')"
    using Cons.IH [of "read_into buf got" "s1\<lparr>cut_part := cut_part s1 @ enc\<rparr>" "i + 1"] enc(4) by auto
  moreover have "\<not> (ending \<noteq> ReadOk \<and> (ending \<noteq> ReadEOF \<or> int (length (take ?n (read_into buf got))) \<noteq> r_PlaintextSize r))"
    using full enc(1) by (cases ending) auto
  ultimately show ?case
    using ok read enc(2,3) unfolding cut_records.simps Let_def s1_def [symmetric] by auto
qed simp

section \<open>The parts are acceptable\<close>

text \<open>
  Parts are numbered from 1 and lie back to back; a part that was handed to the uploads has at least the minimum
  size, and no part is larger than the server's part size.
\<close>

definition cut_ok :: "int \<Rightarrow> cutting \<Rightarrow> bool" where
  "cut_ok partSize s \<longleftrightarrow>
     (\<forall>j < length (cut_sent s). sp_Number (cut_sent s ! j) = int j + 1 \<and>
        sp_Offset (cut_sent s ! j) = int (length (concat (map sp_Data (take j (cut_sent s))))) \<and>
        MinPartBytes \<le> int (length (sp_Data (cut_sent s ! j))) \<and> int (length (sp_Data (cut_sent s ! j))) \<le> partSize) \<and>
     cut_number s = int (length (cut_sent s)) + 1 \<and>
     cut_offset s = int (length (concat (map sp_Data (cut_sent s)))) \<and> int (length (cut_part s)) \<le> partSize"

lemma flush_ok: "cut_ok partSize s \<Longrightarrow> MinPartBytes \<le> int (length (cut_part s)) \<Longrightarrow> 0 \<le> partSize \<Longrightarrow> cut_ok partSize (flush s)"
  by (auto simp: cut_ok_def flush_def nth_append less_Suc_eq)

lemma cut_records_ok:
  assumes big: "MinPartBytes + ChunkSize + RecordOverhead \<le> partSize"
  shows "cut_records prim rng stopped partSize sources ks i rs buf s = (None, s', i') \<Longrightarrow> cut_ok partSize s \<Longrightarrow>
     \<forall>r \<in> set rs. r_Length r \<le> ChunkSize + RecordOverhead \<Longrightarrow> cut_ok partSize s'"
proof (induction rs arbitrary: i buf s)
  case (Cons r rs)
  let ?n = "nat (r_PlaintextSize r)"
  show ?case
  proof (cases "stopped i")
    case True
    then show ?thesis using Cons.prems by simp
  next
    case False
    define s1 where "s1 = (if 0 < length (cut_part s) \<and> int (length (cut_part s)) + r_Length r > partSize \<and>
      int (length (cut_part s)) \<ge> MinPartBytes then flush s else s)"
    obtain got ending where read: "src_ReadAt (sources ! nat (r_FileIndex r)) (r_Start r) (r_PlaintextSize r) = (got, ending)"
      by fastforce
    obtain enc where enc: "int (length enc) = r_Length r"
      "cut_records prim rng stopped partSize sources ks (i + 1) rs (read_into buf got)
         (s1\<lparr>cut_part := cut_part s1 @ enc\<rparr>) = (None, s', i')"
      using Cons.prems(1) read False unfolding cut_records.simps Let_def s1_def [symmetric]
      by (auto split: if_splits sum.splits)
    have s1: "cut_ok partSize s1" using Cons.prems(2) flush_ok big by (auto simp: s1_def MinPartBytes_def ChunkSize_def)
    have r: "r_Length r \<le> ChunkSize + RecordOverhead" using Cons.prems(3) by simp
    have "int (length (cut_part s1)) + r_Length r \<le> partSize"
    proof (cases "0 < length (cut_part s) \<and> int (length (cut_part s)) + r_Length r > partSize \<and>
        int (length (cut_part s)) \<ge> MinPartBytes")
      case True
      then show ?thesis using r big by (simp add: s1_def flush_def MinPartBytes_def)
    next
      case False
      then have "s1 = s" unfolding s1_def by (rule if_not_P)
      then show ?thesis using False r big by (auto simp: MinPartBytes_def not_less not_le)
    qed
    then have "cut_ok partSize (s1\<lparr>cut_part := cut_part s1 @ enc\<rparr>)" using s1 enc(1) by (simp add: cut_ok_def)
    from Cons.IH [OF enc(2) this] Cons.prems(3) show ?thesis by simp
  qed
qed simp

lemma ord_hex_digit: "n < 16 \<Longrightarrow> hex_value (hex_digit n) = n"
  by (auto simp: hex_value_def hex_digit_def of_char_of)

lemma mustDecodeHex_hex: "mustDecodeHex (hex_EncodeToString bs) = bs"
proof (induction bs)
  case (Cons b bs)
  have "ord b div 16 < 16" using nat_of_char_less_256 [of b] by linarith
  then have "chr ((hex_value (hex_digit (ord b div 16)) * 16 + hex_value (hex_digit (ord b mod 16))) mod 256) = b"
    using nat_of_char_less_256 [of b] by (simp add: ord_hex_digit chr_ord_eq)
  then show ?case using Cons by (simp add: hex_EncodeToString_def)
qed (simp add: hex_EncodeToString_def)

section \<open>Client and server agree\<close>

text \<open>The row the server records for a part that it stored under a tag.\<close>

definition recorded_part :: "string \<Rightarrow> time \<Rightarrow> (int \<Rightarrow> string) \<Rightarrow> SentPart \<Rightarrow> UploadPart" where
  "recorded_part sid now etag p =
     \<lparr>p_SessionID = sid, p_PartNumber = sp_Number p, p_Offset = sp_Offset p, p_Size = int (length (sp_Data p)),
      p_SHA256 = sp_SHA256 p, p_ETag = etag (sp_Number p), p_CreatedAt = now\<rparr>"

lemma recorded_part_simps [simp]:
  "p_PartNumber (recorded_part sid now etag p) = sp_Number p" "p_Offset (recorded_part sid now etag p) = sp_Offset p"
  "p_Size (recorded_part sid now etag p) = int (length (sp_Data p))"
  by (simp_all add: recorded_part_def)

lemma encrypt_records_length:
  "encrypt_records prim rng sources ks rs buf out i = Inr (out', i') \<Longrightarrow> contiguous (int (length out)) (map chunk_of rs) e \<Longrightarrow>
     int (length out') = e"
proof (induction rs arbitrary: buf out i)
  case (Cons r rs)
  obtain got ending where read: "src_ReadAt (sources ! nat (r_FileIndex r)) (r_Start r) (r_PlaintextSize r) = (got, ending)"
    by fastforce
  with Cons.prems(1) obtain enc where "int (length enc) = r_Length r"
    "encrypt_records prim rng sources ks rs (read_into buf got) (out @ enc) (i + 1) = Inr (out', i')"
    by (auto simp: Let_def split: if_splits sum.splits)
  moreover from this(1) have "contiguous (int (length (out @ enc))) (map chunk_of rs) e" using Cons.prems(2) by auto
  ultimately show ?case using Cons.IH by blast
qed simp

lemma cut_bundle_InrD:
  assumes plan: "NewPlan sources bundleName = Inr plan"
    and cut: "cut_bundle prim rng (\<lambda>_. False) multipartUploadPartSize plan sources ks = (None, parts)"
  shows "\<exists>s tail. Encrypt prim rng plan sources ks = Inr (joined s @ tail) \<and> cut_ok multipartUploadPartSize s \<and>
     0 < length tail \<and> int (length tail) \<le> 1024 * 1024 \<and> int (length (joined s @ tail)) = pl_TotalSize plan \<and>
     parts = cut_sent (flush (s\<lparr>cut_part := cut_part s @ tail\<rparr>))"
proof -
  let ?s0 = "\<lparr>cut_part = [], cut_number = 1, cut_offset = 0, cut_sent = []\<rparr>"
  let ?buf = "replicate (nat ChunkSize) (chr 0)"
  from cut obtain s i em trailer where
    recs: "cut_records prim rng (\<lambda>_. False) multipartUploadPartSize sources ks 0 (pl_Records plan) ?buf ?s0 = (None, s, i)"
    and em: "EncryptRecord prim rng i ks (pl_ManifestJSON plan) ManifestAAD = Inr em"
      "int (length em) = pl_EncryptedManifestLength plan"
    and tr: "EncodeFooter \<lparr>ft_ManifestLength = int (length em), ft_ManifestSHA256 = Sum256 em\<rparr> = Inr trailer"
    and parts: "parts = cut_sent (flush (s\<lparr>cut_part := cut_part s @ em @ trailer\<rparr>))"
    by (auto simp: cut_bundle_def SHA256Hex_def mustDecodeHex_hex split: sum.splits prod.splits option.splits if_splits)
  note cont = plan_contiguous [OF plan]
  have joined0: "joined ?s0 = []" by (simp add: joined_def)
  have enc: "encrypt_records prim rng sources ks (pl_Records plan) ?buf [] 0 = Inr (joined s, i)"
    using cut_records_joins [OF recs] unfolding joined0 .
  have len: "int (length (joined s)) = pl_DataSize plan"
    using encrypt_records_length [OF enc] cont by simp
  have trl: "length trailer = 64" "0 < length em"
    using tr by (auto simp: EncodeFooter_def magic_def length_Sum256 split: if_splits)
  have total: "int (length (joined s @ em @ trailer)) = pl_TotalSize plan"
    using len trl em(2) NewPlan_InrD(9) [OF plan] by (simp add: FooterLength_def)
  have "seal_manifest prim rng i plan ks = Inr (em @ trailer)" using em tr by (simp add: seal_manifest_def)
  then have "Encrypt prim rng plan sources ks = Inr (joined s @ em @ trailer)"
    using enc total by (simp add: Encrypt_def del: length_append)
  moreover have "cut_ok multipartUploadPartSize s"
  proof (rule cut_records_ok [OF _ recs])
    show "\<forall>r \<in> set (pl_Records plan). r_Length r \<le> ChunkSize + RecordOverhead"
    proof
      fix r assume "r \<in> set (pl_Records plan)"
      then have "chunk_of r \<in> set (map chunk_of (pl_Records plan))" by simp
      from contiguous_in [OF cont this] show "r_Length r \<le> ChunkSize + RecordOverhead" by simp
    qed
  qed (simp_all add: cut_ok_def multipartUploadPartSize_def MinPartBytes_def ChunkSize_def)
  moreover have "int (length (em @ trailer)) \<le> 1024 * 1024"
    using em(2) trl NewPlan_InrD(7,8) [OF plan] by (simp add: MaxManifestBytes_def)
  ultimately show ?thesis using parts trl(2) total by (intro exI [of _ s] exI [of _ "em @ trailer"]) simp
qed

lemma sent_layout:
  assumes ok: "cut_ok multipartUploadPartSize s" and tail: "0 < length tail" "int (length tail) \<le> 1024 * 1024"
    and parts: "parts = cut_sent (flush (s\<lparr>cut_part := cut_part s @ tail\<rparr>))"
  shows "concat (map sp_Data parts) = joined s @ tail"
    "tiles (int (length (joined s @ tail))) (map (recorded_part sid now etag) parts)"
    "\<forall>p \<in> set (map (recorded_part sid now etag) parts). part_sized p"
proof -
  let ?sent = "cut_sent s" and ?data = "cut_part s @ tail"
  let ?lst = "\<lparr>sp_Number = int (length ?sent) + 1, sp_Offset = int (length (concat (map sp_Data ?sent))),
      sp_Data = ?data, sp_SHA256 = SHA256Hex ?data\<rparr>"
  have ps: "parts = ?sent @ [?lst]" using ok by (simp add: parts flush_def cut_ok_def)
  show "concat (map sp_Data parts) = joined s @ tail" by (simp add: ps joined_def)
  have sizes: "sum_list (map (\<lambda>x. int (length (sp_Data x))) xs) = int (length (concat (map sp_Data xs)))" for xs
    by (induction xs) auto
  have taken: "sum_list (take j (map (\<lambda>x. int (length (sp_Data x))) xs)) = int (length (concat (take j (map sp_Data xs))))" for j xs
    by (simp add: take_map sizes)
  show "tiles (int (length (joined s @ tail))) (map (recorded_part sid now etag) parts)"
    using ok by (auto simp: tiles_def ps nth_append comp_def sizes taken cut_ok_def joined_def take_map
        s3MinimumPartSize_def MinPartBytes_def less_Suc_eq)
  have "part_sized (recorded_part sid now etag p)" if "p \<in> set ?sent" for p
    using ok that by (fastforce simp: part_sized_def cut_ok_def in_set_conv_nth MinPartBytes_def part_sizes)
  moreover have "part_sized (recorded_part sid now etag ?lst)"
    using ok tail by (simp add: part_sized_def cut_ok_def part_sizes add_nonneg_pos)
  ultimately show "\<forall>p \<in> set (map (recorded_part sid now etag) parts). part_sized p" by (auto simp: ps)
qed

lemma tiles_few_parts:
  assumes tile: "tiles blob_size rows" and sized: "\<forall>p \<in> set rows. part_sized p" and limit: "blob_size \<le> 1024 * 1024 * 1024"
  shows "int (length rows) \<le> maxMultipartPartNumber"
proof -
  have split: "rows = butlast rows @ [last rows]" using tile by (simp add: tiles_def)
  have "s3MinimumPartSize \<le> p_Size p" if "p \<in> set (butlast rows)" for p
  proof -
    from that obtain j where "j < length rows - 1" "p = rows ! j" by (auto simp: in_set_conv_nth nth_butlast)
    then show ?thesis using tile by (simp add: tiles_def)
  qed
  then have "int (length (butlast rows)) * s3MinimumPartSize \<le> sum_list (map p_Size (butlast rows))"
    by (intro sum_sizes_ge) blast
  also have "\<dots> \<le> sum_list (map p_Size rows)"
  proof -
    have "last rows \<in> set rows" using tile by (intro last_in_set) (simp add: tiles_def)
    then have "0 < p_Size (last rows)" using sized part_sized_def by blast
    then show ?thesis using arg_cong [OF split, of "\<lambda>xs. sum_list (map p_Size xs)"]
      by (simp only: map_append sum_list_append list.map sum_list.Cons sum_list.Nil)
  qed
  also have "\<dots> \<le> 1024 * 1024 * 1024" using tile limit by (simp add: tiles_def)
  finally show ?thesis by (simp add: s3MinimumPartSize_def maxMultipartPartNumber_def)
qed

text \<open>
  Property C37. Streaming does the same as \<open>Encrypt\<close>, in pieces the server takes. When no upload fails, the parts
  the client cuts, put together, are exactly the bundle \<open>Encrypt\<close> builds in memory from the same randomness. And
  whatever tags storage answers with, the server lets every part in (its size, its number and its place) and
  accepts the recorded parts of a bundle of at most a GiB as the complete upload of the declared size.
\<close>

theorem upload_streams_the_bundle_in_accepted_parts:
  assumes plan: "NewPlan sources bundleName = Inr plan" and limit: "pl_TotalSize plan \<le> 1024 * 1024 * 1024"
    and cut: "cut_bundle prim rng (\<lambda>_. False) multipartUploadPartSize plan sources ks = (None, parts)"
    and session: "u_BlobSize session = pl_TotalSize plan"
  shows "Encrypt prim rng plan sources ks = Inr (concat (map sp_Data parts)) \<and>
     validateUploadParts session (map (recorded_part sid now etag) parts) =
       Inr (map completed_part (map (recorded_part sid now etag) parts)) \<and>
     (\<forall>p \<in> set parts. 0 < length (sp_Data p) \<and> int (length (sp_Data p)) \<le> maxMultipartUploadPart \<and>
        sp_Number p \<le> maxMultipartPartNumber \<and>
        validatePartPlacement (u_BlobSize session) (sp_Number p) (sp_Offset p) (int (length (sp_Data p))) = None)"
proof -
  from cut_bundle_InrD [OF plan cut] obtain s tail where
    enc: "Encrypt prim rng plan sources ks = Inr (joined s @ tail)" "int (length (joined s @ tail)) = pl_TotalSize plan"
    and ok: "cut_ok multipartUploadPartSize s" "0 < length tail" "int (length tail) \<le> 1024 * 1024"
      "parts = cut_sent (flush (s\<lparr>cut_part := cut_part s @ tail\<rparr>))" by blast
  let ?rows = "map (recorded_part sid now etag) parts"
  note layout = sent_layout(1) [OF ok] sent_layout(2,3) [OF ok, where sid = sid and now = now and etag = etag]
  have tile: "tiles (u_BlobSize session) ?rows" using layout(2) enc(2) session by simp
  have "0 < int (length (joined s @ tail))" using ok(2) by (simp add: add_nonneg_pos)
  then have pos: "0 < u_BlobSize session" using enc(2) session by simp
  have sorted: "sort_key p_PartNumber ?rows = ?rows"
    by (rule sort_key_id_if_sorted) (use tile in \<open>auto simp: sorted_iff_nth_mono tiles_def\<close>)
  have accepted: "validateUploadParts session ?rows = Inr (map completed_part ?rows)"
    using validateUploadParts_iff [of ?rows session "map completed_part ?rows"] layout(3) pos limit session tile sorted
    by (simp add: max_int64_def part_sizes)
  have count: "int (length parts) \<le> maxMultipartPartNumber"
    using tiles_few_parts [OF tile layout(3)] limit session by simp
  have "0 < length (sp_Data p) \<and> int (length (sp_Data p)) \<le> maxMultipartUploadPart \<and>
      sp_Number p \<le> maxMultipartPartNumber \<and>
      validatePartPlacement (u_BlobSize session) (sp_Number p) (sp_Offset p) (int (length (sp_Data p))) = None"
    if p: "p \<in> set parts" for p
  proof -
    have row: "recorded_part sid now etag p \<in> set ?rows" using p by simp
    have "validatePartPlacement (u_BlobSize session) (sp_Number p) (sp_Offset p) (int (length (sp_Data p))) = None"
      using layout_placement [OF tile layout(3) _ _ row] count limit session
      by (simp add: max_int64_def s3MinimumPartSize_def)
    moreover obtain j where "j < length parts" "p = parts ! j" using p by (auto simp: in_set_conv_nth)
    then have "sp_Number p = int j + 1" "j < length parts" using tile by (auto simp: tiles_def)
    then have "sp_Number p \<le> maxMultipartPartNumber" using count by simp
    moreover have "part_sized (recorded_part sid now etag p)" using layout(3) row by blast
    ultimately show ?thesis by (simp add: part_sized_def)
  qed
  then show ?thesis using enc(1) layout(1) accepted by simp
qed

lemma cut_bundle_total:
  assumes plan: "NewPlan sources bundleName = Inr plan" and enc: "Encrypt prim rng plan sources ks = Inr bdl"
  shows "\<exists>parts. cut_bundle prim rng (\<lambda>_. False) multipartUploadPartSize plan sources ks = (None, parts)"
proof -
  let ?s0 = "\<lparr>cut_part = [], cut_number = 1, cut_offset = 0, cut_sent = []\<rparr>"
  let ?buf = "replicate (nat ChunkSize) (chr 0)"
  from enc obtain out i tail where
    recs: "encrypt_records prim rng sources ks (pl_Records plan) ?buf [] 0 = Inr (out, i)"
    and tail: "seal_manifest prim rng i plan ks = Inr tail"
    by (auto simp: Encrypt_def split: sum.splits prod.splits if_splits)
  have joined0: "joined ?s0 = []" by (simp add: joined_def)
  from cut_records_total [where s = ?s0 and partSize = multipartUploadPartSize, unfolded joined0, OF recs]
  obtain s where "cut_records prim rng (\<lambda>_. False) multipartUploadPartSize sources ks 0 (pl_Records plan) ?buf ?s0 = (None, s, i)"
    by blast
  moreover have "0 \<le> min multipartUploadPartSize (pl_TotalSize plan) + RecordOverhead"
    using NewPlan_InrD(8,9) [OF plan] contiguous_le [OF plan_contiguous [OF plan]]
    by (simp add: multipartUploadPartSize_def FooterLength_def)
  ultimately show ?thesis using tail
    by (auto simp: cut_bundle_def seal_manifest_def SHA256Hex_def mustDecodeHex_hex split: sum.splits if_splits)
qed

lemma demo_cut:
  assumes "NewPlan [memory_source ''a'' ''hello''] ''a'' = Inr plan"
  shows "\<exists>parts. cut_bundle open_primitives demo_rng (\<lambda>_. False) multipartUploadPartSize plan
     [memory_source ''a'' ''hello''] demo_keys = (None, parts)"
proof -
  have "\<forall>i. demo_rng i \<noteq> None" "length (k_blobKey demo_keys) = 32"
    "\<forall>j < length [memory_source ''a'' ''hello'']. reads_as ([memory_source ''a'' ''hello''] ! j) ([''hello''] ! j)"
    using memory_source_reads [of "''a''" "''hello''"] by (simp_all add: demo_rng_def demo_keys_def)
  from Encrypt_run [OF open_primitives_opens this(1,2) assms this(3)] obtain bdl
    where "Encrypt open_primitives demo_rng plan [memory_source ''a'' ''hello''] demo_keys = Inr bdl" by blast
  from cut_bundle_total [OF assms this] show ?thesis .
qed

theorem upload_streams_the_bundle_in_accepted_parts_witness:
  "\<exists>plan parts. NewPlan [memory_source ''a'' ''hello''] ''a'' = Inr plan \<and>
     cut_bundle open_primitives demo_rng (\<lambda>_. False) multipartUploadPartSize plan [memory_source ''a'' ''hello''] demo_keys =
       (None, parts) \<and>
     validateUploadParts (demo_session\<lparr>u_BlobSize := pl_TotalSize plan\<rparr>) (map (recorded_part ''s'' 0 (\<lambda>_. ''e'')) parts) =
       Inr (map completed_part (map (recorded_part ''s'' 0 (\<lambda>_. ''e'')) parts))"
proof -
  obtain plan where plan: "NewPlan [memory_source ''a'' ''hello''] ''a'' = Inr plan" "pl_DataSize plan = 45"
    using demo_plan by blast
  obtain parts where cut: "cut_bundle open_primitives demo_rng (\<lambda>_. False) multipartUploadPartSize plan
     [memory_source ''a'' ''hello''] demo_keys = (None, parts)" using demo_cut [OF plan(1)] by blast
  have "pl_TotalSize plan \<le> 1024 * 1024 * 1024"
    using plan(2) NewPlan_InrD(7-9) [OF plan(1)] by (simp add: MaxManifestBytes_def FooterLength_def)
  from upload_streams_the_bundle_in_accepted_parts [OF plan(1) this cut,
      of "demo_session\<lparr>u_BlobSize := pl_TotalSize plan\<rparr>" "''s''" 0 "\<lambda>_. ''e''"]
  show ?thesis using plan(1) cut by auto
qed

text \<open>
  A file that shrank to nothing after its size was taken: every read ends with EOF and no byte. The test against short
  reads lets it pass, and what is sealed in its place is the old content of the buffer.
\<close>

definition shrunk_source :: Source where
  "shrunk_source = \<lparr>src_Name = ''a'', src_Path = [], src_Type = [], src_Size = 5, src_ReadAt = (\<lambda>_ _. ([], ReadEOF))\<rparr>"

lemma shrunk_plan: "\<exists>plan. NewPlan [shrunk_source] ''a'' = Inr plan \<and> pl_Records plan =
    [\<lparr>r_FileIndex = 0, r_ChunkIndex = 0, r_Start = 0, r_End = 5, r_Offset = 0, r_Length = 45, r_PlaintextSize = 5\<rparr>]"
  by (simp add: NewPlan_def shrunk_source_def Let_def plan_chunks.simps bundle_consts Manifest_Marshal_def
      File_Marshal_def Chunk_Marshal_def json_object_def json_array_def json_string_def json_quote_def json_rune_def
      escape_ascii_def FormatInt_def nat_digits.simps)

lemma short_read_goes_unnoticed:
  "\<exists>plan enc parts. NewPlan [shrunk_source] ''a'' = Inr plan \<and>
     EncryptRecord open_primitives demo_rng 0 demo_keys (replicate 5 (chr 0)) (ChunkAAD 0 0 5) = Inr enc \<and>
     cut_bundle open_primitives demo_rng (\<lambda>_. False) multipartUploadPartSize plan [shrunk_source] demo_keys = (None, parts) \<and>
     take 45 (concat (map sp_Data parts)) = enc"
proof -
  have rng: "\<forall>i. demo_rng i \<noteq> None" and key: "length (k_blobKey demo_keys) = 32" by (simp_all add: demo_rng_def demo_keys_def)
  obtain plan where plan: "NewPlan [shrunk_source] ''a'' = Inr plan" "pl_Records plan =
    [\<lparr>r_FileIndex = 0, r_ChunkIndex = 0, r_Start = 0, r_End = 5, r_Offset = 0, r_Length = 45, r_PlaintextSize = 5\<rparr>]"
    using shrunk_plan by blast
  obtain enc where enc: "EncryptRecord open_primitives demo_rng 0 demo_keys (replicate 5 (chr 0)) (ChunkAAD 0 0 5) = Inr enc"
    using EncryptRecord_ok [where rng = demo_rng and i = 0, OF _ key] rng by blast
  have len: "length enc = 45" using record_opens(1) [OF open_primitives_opens enc] by simp
  have recs: "encrypt_records open_primitives demo_rng [shrunk_source] demo_keys (pl_Records plan)
      (replicate (nat ChunkSize) (chr 0)) [] 0 = Inr (enc, 1)"
    using enc len by (simp add: plan(2) shrunk_source_def ChunkSize_def read_into_def)
  from seal_manifest_run [OF open_primitives_opens rng key plan(1), of 1] obtain em tr where
    tail: "seal_manifest open_primitives demo_rng 1 plan demo_keys = Inr (em @ tr)"
      "manifest_sealed open_primitives demo_keys (pl_ManifestJSON plan) em tr" by blast
  have "pl_DataSize plan = 45" using plan_contiguous [OF plan(1)] by (simp add: plan(2))
  then have "int (length (enc @ em @ tr)) = pl_TotalSize plan"
    using len tail(2) NewPlan_InrD(8,9) [OF plan(1)] by (simp add: manifest_sealed_def FooterLength_def)
  then have "Encrypt open_primitives demo_rng plan [shrunk_source] demo_keys = Inr (enc @ em @ tr)"
    using recs tail(1) by (simp add: Encrypt_def del: length_append)
  moreover from cut_bundle_total [OF plan(1) this] obtain parts where parts: "cut_bundle open_primitives demo_rng (\<lambda>_. False)
      multipartUploadPartSize plan [shrunk_source] demo_keys = (None, parts)" by blast
  moreover have "concat (map sp_Data parts) = enc @ em @ tr"
    using cut_bundle_InrD [OF plan(1) parts] calculation(1) sent_layout(1) by fastforce
  ultimately show ?thesis using plan(1) enc len by (intro exI [of _ plan] exI [of _ enc] exI [of _ parts]) simp
qed

end
