(* ===== verification/Rfc3339.thy ===== *)
theory Rfc3339
  imports Strconv "HOL-Library.Monad_Syntax"
begin

text \<open>
  \<open>time.Parse(time.RFC3339, s)\<close>: a date, a time of day with one or two digits for the hour, an optional fraction of the
  second of which nine digits count, and a zone. The result is the instant in nanoseconds.
\<close>

definition leap_year :: "nat \<Rightarrow> bool" where
  "leap_year y \<longleftrightarrow> y mod 4 = 0 \<and> (y mod 100 \<noteq> 0 \<or> y mod 400 = 0)"

definition month_days :: "nat \<Rightarrow> nat \<Rightarrow> nat" where
  "month_days y m = (if m = 2 then (if leap_year y then 29 else 28) else if m \<in> {4, 6, 9, 11} then 30 else 31)"

text \<open>Days since 1970-01-01; the leap years before year \<open>y\<close> include year 0.\<close>

definition days_of_date :: "nat \<Rightarrow> nat \<Rightarrow> nat \<Rightarrow> int" where
  "days_of_date y m d =
     int (365 * y + (y + 3) div 4 + (y + 399) div 400 + sum_list (map (month_days y) [1..<m]) + d) -
     int ((y + 99) div 100) - 719529"

fun digit_pair :: "string \<Rightarrow> (nat \<times> string) option" where
  "digit_pair (a # b # rest) = (if is_digit a \<and> is_digit b then Some (digits_value [a, b], rest) else None)"
| "digit_pair _ = None"

definition hour_digits :: "string \<Rightarrow> (nat \<times> string) option" where
  "hour_digits s =
     (case s of
        a # rest \<Rightarrow>
          (if \<not> is_digit a then None
           else (case rest of
                   b # rest' \<Rightarrow> (if is_digit b then Some (digits_value [a, b], rest') else Some (digits_value [a], rest))
                 | [] \<Rightarrow> Some (digits_value [a], [])))
      | [] \<Rightarrow> None)"

definition year_digits :: "string \<Rightarrow> (nat \<times> string) option" where
  "year_digits s =
     (if length s \<ge> 4 \<and> list_all is_digit (take 4 s) then Some (digits_value (take 4 s), drop 4 s) else None)"

fun expect :: "char \<Rightarrow> string \<Rightarrow> string option" where
  "expect c [] = None"
| "expect c (d # ds) = (if c = d then Some ds else None)"

definition within :: "nat \<Rightarrow> nat \<Rightarrow> nat \<Rightarrow> unit option" where
  "within lo n hi = (if lo \<le> n \<and> n \<le> hi then Some () else None)"

text \<open>The fraction of a second, if there is one.\<close>

definition fraction :: "string \<Rightarrow> nat \<times> string" where
  "fraction s =
     (case s of
        c # rest \<Rightarrow>
          (let ds = takeWhile is_digit rest
           in if (c = CHR ''.'' \<or> c = CHR '','') \<and> ds \<noteq> []
              then (digits_value (take 9 (ds @ replicate 9 (CHR ''0''))), dropWhile is_digit rest)
              else (0, s))
      | [] \<Rightarrow> (0, []))"

text \<open>The offset from UTC in seconds; nothing may follow it.\<close>

definition zone :: "string \<Rightarrow> int option" where
  "zone s =
     (if s = ''Z'' then Some 0
      else (case s of
        c # rest \<Rightarrow>
          do { (h, s1) \<leftarrow> digit_pair rest; s2 \<leftarrow> expect (CHR '':'') s1; (m, s3) \<leftarrow> digit_pair s2;
               within 0 h 24; within 0 m 60;
               (if s3 \<noteq> [] then None
                else if c = CHR ''+'' then Some (int (h * 3600 + m * 60))
                else if c = CHR ''-'' then Some (- int (h * 3600 + m * 60))
                else None) }
      | [] \<Rightarrow> None))"

definition Parse_RFC3339 :: "string \<Rightarrow> time option" where
  "Parse_RFC3339 s0 =
     do { (y, s1) \<leftarrow> year_digits s0; s2 \<leftarrow> expect (CHR ''-'') s1;
          (m, s3) \<leftarrow> digit_pair s2; within 1 m 12; s4 \<leftarrow> expect (CHR ''-'') s3;
          (d, s5) \<leftarrow> digit_pair s4; s6 \<leftarrow> expect (CHR ''T'') s5;
          (hh, s7) \<leftarrow> hour_digits s6; within 0 hh 23; s8 \<leftarrow> expect (CHR '':'') s7;
          (mm, s9) \<leftarrow> digit_pair s8; within 0 mm 59; s10 \<leftarrow> expect (CHR '':'') s9;
          (ss, s11) \<leftarrow> digit_pair s10; within 0 ss 59;
          (let (nanos, s12) = fraction s11
           in do { off \<leftarrow> zone s12; within 1 d (month_days y m);
                   Some (((days_of_date y m d * 86400 + int (hh * 3600 + mm * 60 + ss)) - off) * 1000000000 + int nanos) }) }"

lemma eight_zeros: "replicate 8 (CHR ''0'') = ''00000000''"
  by (simp add: numeral_eq_Suc)

lemma Parse_RFC3339_examples:
  "Parse_RFC3339 ''1970-01-01T00:00:00Z'' = Some 0"
  "Parse_RFC3339 ''2026-07-20T10:30:00.5+02:00'' = Some 1784536200500000000"
  "Parse_RFC3339 ''2024-02-29T23:59:59Z'' = Some 1709251199000000000"
  "Parse_RFC3339 ''2023-02-29T23:59:59Z'' = None"
  by (simp_all add: Parse_RFC3339_def year_digits_def hour_digits_def within_def fraction_def zone_def is_digit_def
      digits_value_def days_of_date_def month_days_def leap_year_def upt_rec eight_zeros)

section \<open>Format\<close>

text \<open>
  \<open>t.UTC().Format(time.RFC3339)\<close> for the instants from 1970 on, which are the ones the program has: the year and the
  month are found by counting days.
\<close>

definition year_days :: "nat \<Rightarrow> nat" where "year_days y = (if leap_year y then 366 else 365)"

function year_of_days :: "nat \<Rightarrow> nat \<Rightarrow> nat \<times> nat" where
  "year_of_days y n = (if n < year_days y then (y, n) else year_of_days (y + 1) (n - year_days y))"
  by pat_completeness auto

termination
  by (relation "measure snd") (auto simp: year_days_def)

function month_of_days :: "nat \<Rightarrow> nat \<Rightarrow> nat \<Rightarrow> nat \<times> nat" where
  "month_of_days y m n = (if n < month_days y m then (m, n) else month_of_days y (m + 1) (n - month_days y m))"
  by pat_completeness auto

termination
  by (relation "measure (\<lambda>(y, m, n). n)") (auto simp: month_days_def)

declare year_of_days.simps [simp del] month_of_days.simps [simp del]

definition two_digits :: "nat \<Rightarrow> string" where
  "two_digits n = [chr (48 + n div 10 mod 10), chr (48 + n mod 10)]"

definition four_digits :: "nat \<Rightarrow> string" where
  "four_digits n = two_digits (n div 100) @ two_digits (n mod 100)"

definition Format_RFC3339 :: "time \<Rightarrow> string" where
  "Format_RFC3339 t =
     (let secs = nat (t div 1000000000);
          (y, n) = year_of_days 1970 (secs div 86400);
          (m, d) = month_of_days y 1 n;
          s = secs mod 86400
      in four_digits y @ ''-'' @ two_digits m @ ''-'' @ two_digits (d + 1) @ ''T'' @
         two_digits (s div 3600) @ '':'' @ two_digits (s div 60 mod 60) @ '':'' @ two_digits (s mod 60) @ ''Z'')"

section \<open>What is formatted parses\<close>

lemma div_step:
  assumes k: "k = Suc j"
  shows "(y + 1 + j) div k = (y + j) div k + (if y mod k = 0 then 1 else 0)"
proof -
  define q r where "q = y div k" and "r = y mod k"
  have y: "y = r + k * q" unfolding q_def r_def by simp
  have r: "r < k" using k by (simp add: r_def)
  have "y + 1 + j = r + 1 + j + k * q" "y + j = r + j + k * q" using y by linarith+
  then have "(y + 1 + j) div k = q + (r + 1 + j) div k" "(y + j) div k = q + (r + j) div k"
    using div_mult_self2 [of k] r by (metis not_less_zero)+
  moreover have "(r + 1 + j) div k = 1" using r k by (simp add: div_nat_eqI)
  moreover have "(r + j) div k = (if r = 0 then 0 else 1)" using r k by (auto simp: div_nat_eqI)
  ultimately show ?thesis by (simp add: r_def)
qed

lemma leap_count:
  assumes "a' = a + (if y4 then 1 else 0)" and "b' = b + (if y100 then 1 else 0)" and "c' = c + (if y400 then 1 else 0)"
    and "y400 \<Longrightarrow> y100" and "y100 \<Longrightarrow> y4"
  shows "int (365 * (y + 1) + a' + c') - int b' =
    int (365 * y + a + c) - int b + int (if y4 \<and> (\<not> y100 \<or> y400) then 366 else 365)"
  using assms by (cases y4; cases y100; cases y400) simp_all

lemma year_days_eq:
  "int (365 * (y + 1) + (y + 1 + 3) div 4 + (y + 1 + 399) div 400) - int ((y + 1 + 99) div 100) =
   int (365 * y + (y + 3) div 4 + (y + 399) div 400) - int ((y + 99) div 100) + int (year_days y)"
proof -
  have "y mod 400 = 0 \<Longrightarrow> y mod 100 = 0" "y mod 100 = 0 \<Longrightarrow> y mod 4 = 0"
    using dvd_trans [of 100 400 y] dvd_trans [of 4 100 y] by (simp_all add: dvd_eq_mod_eq_0)
  moreover have "(y + 1 + 3) div 4 = (y + 3) div 4 + (if y mod 4 = 0 then 1 else 0)"
    "(y + 1 + 99) div 100 = (y + 99) div 100 + (if y mod 100 = 0 then 1 else 0)"
    "(y + 1 + 399) div 400 = (y + 399) div 400 + (if y mod 400 = 0 then 1 else 0)"
    by (rule div_step, simp)+
  ultimately show ?thesis unfolding year_days_def leap_year_def by (intro leap_count)
qed

lemma year_of_days_sum:
  "year_of_days y n = (y', n') \<Longrightarrow> n' < year_days y' \<and> y \<le> y' \<and>
     days_of_date y' 1 (n' + 1) = days_of_date y 1 (n + 1)"
proof (induction y n arbitrary: y' n' rule: year_of_days.induct)
  case (1 y n)
  show ?case
  proof (cases "n < year_days y")
    case True
    then show ?thesis using 1(2) by (simp add: year_of_days.simps [of y n])
  next
    case False
    then have "year_of_days (y + 1) (n - year_days y) = (y', n')" using 1(2) by (simp add: year_of_days.simps [of y n])
    from 1(1) [OF False this] show ?thesis using False year_days_eq [of y] by (simp add: days_of_date_def)
  qed
qed

lemma month_of_days_sum:
  "month_of_days y m n = (m', n') \<Longrightarrow> 1 \<le> m \<Longrightarrow> n' < month_days y m' \<and> m \<le> m' \<and>
     days_of_date y m' (n' + 1) = days_of_date y m (n + 1)"
proof (induction y m n arbitrary: m' n' rule: month_of_days.induct)
  case (1 y m n)
  show ?case
  proof (cases "n < month_days y m")
    case True
    then show ?thesis using 1(2) by (simp add: month_of_days.simps [of y m n])
  next
    case False
    then have "month_of_days y (m + 1) (n - month_days y m) = (m', n')" using 1(2) by (simp add: month_of_days.simps [of y m n])
    from 1(1) [OF False this] show ?thesis using False 1(3) by (simp add: days_of_date_def)
  qed
qed

text \<open>The months of a year are used up by its days.\<close>

lemma month_of_days_within:
  "n < sum_list (map (month_days y) [m..<13]) \<Longrightarrow> fst (month_of_days y m n) \<le> 12"
proof (induction y m n rule: month_of_days.induct)
  case (1 y m n)
  have m: "m < 13" using 1(2) by (cases "m < 13") auto
  then have sum: "sum_list (map (month_days y) [m..<13]) = month_days y m + sum_list (map (month_days y) [m + 1..<13])"
    by (simp add: upt_conv_Cons)
  show ?case
  proof (cases "n < month_days y m")
    case True
    then show ?thesis using m by (simp add: month_of_days.simps [of y m n])
  next
    case False
    then show ?thesis using 1 sum by (simp add: month_of_days.simps [of y m n])
  qed
qed

lemma month_of_days_bound: "n < year_days y \<Longrightarrow> fst (month_of_days y 1 n) \<le> 12"
  by (rule month_of_days_within) (simp add: upt_rec year_days_def month_days_def split: if_split_asm)

lemma is_digit_chr: "d < 10 \<Longrightarrow> is_digit (chr (48 + d))"
  by (simp add: is_digit_def ord_digit)

lemma two_digits_parse:
  assumes "n < 100"
  shows "digit_pair (two_digits n @ s) = Some (n, s)" "hour_digits (two_digits n @ s) = Some (n, s)"
proof -
  have "n div 10 mod 10 = n div 10" "n div 10 < 10" using assms by auto
  moreover have "10 * (n div 10) + n mod 10 = n" by simp
  ultimately show "digit_pair (two_digits n @ s) = Some (n, s)" "hour_digits (two_digits n @ s) = Some (n, s)"
    by (simp_all add: two_digits_def hour_digits_def is_digit_chr digits_value_def ord_digit)
qed

lemma four_digits_parse:
  assumes "n < 10000"
  shows "year_digits (four_digits n @ s) = Some (n, s)"
proof -
  have split: "digits_value [a, b, c, d] = 100 * digits_value [a, b] + digits_value [c, d]" for a b c d
    by (simp add: digits_value_def)
  have "digits_value (two_digits k) = k" "list_all is_digit (two_digits k)" if "k < 100" for k
  proof -
    have "k div 10 mod 10 = k div 10" "k div 10 < 10" using that by auto
    moreover have "10 * (k div 10) + k mod 10 = k" by simp
    ultimately show "digits_value (two_digits k) = k" "list_all is_digit (two_digits k)"
      by (simp_all add: two_digits_def digits_value_def ord_digit is_digit_chr)
  qed
  from this [of "n div 100"] this [of "n mod 100"]
  have "digits_value (two_digits (n div 100)) = n div 100" "digits_value (two_digits (n mod 100)) = n mod 100"
    "list_all is_digit (four_digits n)" using assms by (simp_all add: four_digits_def)
  moreover have "digits_value (four_digits n) = 100 * digits_value (two_digits (n div 100)) + digits_value (two_digits (n mod 100))"
    unfolding four_digits_def two_digits_def append.simps by (rule split)
  ultimately have "list_all is_digit (four_digits n)" "length (four_digits n) = 4" "digits_value (four_digits n) = n"
    by (simp_all add: four_digits_def two_digits_def)
  then show ?thesis by (simp add: year_digits_def)
qed

lemma days_mono: "10000 \<le> y \<Longrightarrow> days_of_date 10000 1 1 \<le> days_of_date y 1 1"
proof (induction y rule: dec_induct)
  case (step y)
  then show ?case using year_days_eq [of y] by (simp add: days_of_date_def)
qed simp

lemma days_plus: "days_of_date y 1 (n + 1) = days_of_date y 1 1 + int n"
  by (simp add: days_of_date_def)

lemma year_of_days_bound:
  assumes "year_of_days 1970 n = (y, k)" and "n < 2932897"
  shows "y < 10000"
proof (rule ccontr)
  assume "\<not> y < 10000"
  then have "days_of_date 10000 1 1 \<le> days_of_date y 1 1" by (intro days_mono) simp
  moreover have "days_of_date 10000 1 1 = 2932897" "days_of_date 1970 1 1 = 0" by (simp_all add: days_of_date_def)
  ultimately show False using year_of_days_sum [OF assms(1)] assms(2) by (simp only: days_plus) linarith
qed

theorem Parse_Format_RFC3339:
  assumes "0 \<le> t" and "t < 253402300800 * 1000000000"
  shows "Parse_RFC3339 (Format_RFC3339 t) = Some (t div 1000000000 * 1000000000)"
proof -
  define secs where "secs = nat (t div 1000000000)"
  have secs: "int secs = t div 1000000000" "secs < 253402300800" using assms by (auto simp: secs_def)
  obtain y n where y: "year_of_days 1970 (secs div 86400) = (y, n)" by (cases "year_of_days 1970 (secs div 86400)")
  obtain m d where m: "month_of_days y 1 n = (m, d)" by (cases "month_of_days y 1 n")
  define s where "s = secs mod 86400"
  note ys = year_of_days_sum [OF y] and ms = month_of_days_sum [OF m order_refl]
  have m12: "m \<le> 12" using month_of_days_bound [of n y] ys m by simp
  have small: "y < 10000" "d + 1 < 100" "m < 100" "d + 1 \<le> month_days y m" "1 \<le> m"
    using year_of_days_bound [OF y] secs(2) ms m12 by (auto simp: month_days_def split: if_splits)
  have day: "days_of_date y m (d + 1) = int (secs div 86400)"
  proof -
    have "days_of_date 1970 1 1 = 0" by (simp add: days_of_date_def)
    then have "days_of_date 1970 1 (secs div 86400 + 1) = int (secs div 86400)" by (simp only: days_plus)
    then show ?thesis using ys ms by simp
  qed
  define hh mm ss where "hh = s div 3600" and "mm = s div 60 mod 60" and "ss = s mod 60"
  have time: "hh < 24" "mm < 60" "ss < 60" "hh * 3600 + mm * 60 + ss = s"
  proof -
    have "s < 86400" by (simp add: s_def)
    then show "hh < 24" by (simp add: hh_def less_mult_imp_div_less)
    show "mm < 60" "ss < 60" by (simp_all add: mm_def ss_def)
    have "s div 60 div 60 = s div 3600" by (simp add: div_mult2_eq [symmetric])
    then show "hh * 3600 + mm * 60 + ss = s"
      using div_mult_mod_eq [of s 60] div_mult_mod_eq [of "s div 60" 60] unfolding hh_def mm_def ss_def by linarith
  qed
  have "hh < 100" "mm < 100" "ss < 100" "hh \<le> 23" "mm \<le> 59" "ss \<le> 59" using time by simp_all
  moreover have "Format_RFC3339 t = four_digits y @ ''-'' @ two_digits m @ ''-'' @ two_digits (d + 1) @ ''T'' @
      two_digits hh @ '':'' @ two_digits mm @ '':'' @ two_digits ss @ ''Z''"
    using y m by (simp add: Format_RFC3339_def secs_def [symmetric] s_def [symmetric] Let_def hh_def mm_def ss_def)
  moreover have "fraction ''Z'' = (0, ''Z'')" "zone ''Z'' = Some 0" by (simp_all add: fraction_def zone_def)
  moreover have "int (secs div 86400) * 86400 + int s = int secs"
    using div_mult_mod_eq [of secs 86400] unfolding s_def by (metis of_nat_add of_nat_mult of_nat_numeral)
  ultimately show ?thesis
    using small time(4) m12 day secs(1)
    by (simp add: Parse_RFC3339_def four_digits_parse two_digits_parse within_def del: of_nat_add)
qed

end
