(* ===== verification/Url.thy ===== *)
theory Url
  imports Json_Parse "HOL-Library.Sublist"
begin

text \<open>
  What the clients use of \<open>net/url\<close> and \<open>strings\<close>: parsing a URL into scheme, host, path and fragment, and trimming
  white space. What \<open>net/url\<close> takes for a host depends on its version (ports, IPv6 literals and zones, percent
  escapes); it is the parameter \<open>parse_Host\<close>, which yields the host as \<open>URL.Host\<close> has it.
\<close>

section \<open>White space\<close>

text \<open>The characters of \<open>unicode.IsSpace\<close> in UTF-8.\<close>

definition space_runes :: "bytes list" where
  "space_runes =
     map (\<lambda>n. [chr n]) [9, 10, 11, 12, 13, 32] @
     map (map chr) ([[194, 133], [194, 160], [225, 154, 128], [226, 128, 168], [226, 128, 169], [226, 128, 175],
                     [226, 129, 159], [227, 128, 128]] @ map (\<lambda>n. [226, 128, n]) [128..<139])"

lemma space_runes_ne: "p \<in> set space_runes \<Longrightarrow> p \<noteq> []"
  by (auto simp: space_runes_def)

function trim_left :: "bytes \<Rightarrow> bytes" where
  "trim_left s = (case find (\<lambda>p. prefix p s) space_runes of None \<Rightarrow> s | Some p \<Rightarrow> trim_left (drop (length p) s))"
  by pat_completeness auto

termination
proof (relation "measure length")
  fix s p assume "find (\<lambda>p. prefix p s) space_runes = Some p"
  then have "p \<noteq> []" "prefix p s" using space_runes_ne by (auto simp: find_Some_iff)
  then show "(drop (length p) s, s) \<in> measure length" by (auto simp: prefix_def)
qed simp

function trim_right :: "bytes \<Rightarrow> bytes" where
  "trim_right s =
     (case find (\<lambda>p. suffix p s) space_runes of None \<Rightarrow> s | Some p \<Rightarrow> trim_right (take (length s - length p) s))"
  by pat_completeness auto

termination
proof (relation "measure length")
  fix s p assume "find (\<lambda>p. suffix p s) space_runes = Some p"
  then have "p \<noteq> []" "suffix p s" using space_runes_ne by (auto simp: find_Some_iff)
  then show "(take (length s - length p) s, s) \<in> measure length" by (auto simp: suffix_def)
qed simp

declare trim_left.simps [simp del] trim_right.simps [simp del]

definition TrimSpace :: "string \<Rightarrow> string" where
  "TrimSpace s = trim_right (trim_left s)"

section \<open>Percent escapes\<close>

fun unescape_percent :: "string \<Rightarrow> string option" where
  "unescape_percent [] = Some []"
| "unescape_percent (c # cs) =
     (if c = CHR ''%'' then
        (case cs of
           a # b # rest \<Rightarrow>
             (case (hex_digit_value a, hex_digit_value b) of
                (Some x, Some y) \<Rightarrow> map_option ((#) (chr (16 * x + y))) (unescape_percent rest)
              | _ \<Rightarrow> None)
         | _ \<Rightarrow> None)
      else map_option ((#) c) (unescape_percent cs))"

lemma unescape_percent_plain: "CHR ''%'' \<notin> set s \<Longrightarrow> unescape_percent s = Some s"
  by (induction s) auto

section \<open>Parsing\<close>

record URL =
  u_Scheme :: string
  u_Host :: string
  u_Path :: string
  u_Fragment :: string

definition is_letter :: "char \<Rightarrow> bool" where
  "is_letter c \<longleftrightarrow> 65 \<le> ord c \<and> ord c \<le> 90 \<or> 97 \<le> ord c \<and> ord c \<le> 122"

definition ToLower_ascii :: "string \<Rightarrow> string" where
  "ToLower_ascii s = map (\<lambda>c. if 65 \<le> ord c \<and> ord c \<le> 90 then chr (ord c + 32) else c) s"

text \<open>The scheme and what follows its colon; no scheme, or None when a colon comes first.\<close>

definition getScheme :: "string \<Rightarrow> (string \<times> string) option" where
  "getScheme s =
     (let name = takeWhile (\<lambda>c. is_letter c \<or> is_digit c \<or> c \<in> {CHR ''+'', CHR ''-'', CHR ''.''}) s;
          rest = drop (length name) s
      in if name \<noteq> [] \<and> \<not> is_letter (hd name) then Some ([], s)
         else (case rest of
                 c # cs \<Rightarrow> (if c = CHR '':'' then (if name = [] then None else Some (name, cs)) else Some ([], s))
               | [] \<Rightarrow> Some ([], s)))"

definition userinfo_char :: "char \<Rightarrow> bool" where
  "userinfo_char c \<longleftrightarrow> is_letter c \<or> is_digit c \<or> c \<in> set ''-._:~!$&()*+,;=%@'' \<or> ord c = 39"

definition last_at :: "string \<Rightarrow> (string \<times> string) option" where
  "last_at s =
     (if CHR ''@'' \<in> set s
      then Some (rev (tl (dropWhile (\<lambda>c. c \<noteq> CHR ''@'') (rev s))), rev (takeWhile (\<lambda>c. c \<noteq> CHR ''@'') (rev s)))
      else None)"

definition parseAuthority :: "(string \<Rightarrow> string option) \<Rightarrow> string \<Rightarrow> string option" where
  "parseAuthority parse_Host authority =
     (case last_at authority of
        None \<Rightarrow> parse_Host authority
      | Some (userinfo, host) \<Rightarrow>
          (case parse_Host host of
             None \<Rightarrow> None
           | Some h \<Rightarrow> (if list_all userinfo_char userinfo \<and> unescape_percent userinfo \<noteq> None then Some h else None)))"

text \<open>A URL without its fragment. The query, and what an opaque URL has instead of a host and a path, are not used.\<close>

definition parse_url :: "(string \<Rightarrow> string option) \<Rightarrow> string \<Rightarrow> URL option" where
  "parse_url parse_Host raw =
     (if list_ex (\<lambda>c. ord c < 32 \<or> ord c = 127) raw then None
      else if raw = ''*'' then Some \<lparr>u_Scheme = [], u_Host = [], u_Path = raw, u_Fragment = []\<rparr>
      else (case getScheme raw of
        None \<Rightarrow> None
      | Some (scheme0, rest0) \<Rightarrow>
          (let scheme = ToLower_ascii scheme0;
               (rest, query, found) = strings_Cut rest0 (CHR ''?'')
           in if \<not> prefix ''/'' rest \<and> scheme \<noteq> [] then Some \<lparr>u_Scheme = scheme, u_Host = [], u_Path = [], u_Fragment = []\<rparr>
              else if \<not> prefix ''/'' rest \<and> CHR '':'' \<in> set (takeWhile (\<lambda>c. c \<noteq> CHR ''/'') rest) then None
              else if (scheme \<noteq> [] \<or> \<not> prefix ''///'' rest) \<and> prefix ''//'' rest then
                (let authority = takeWhile (\<lambda>c. c \<noteq> CHR ''/'') (drop 2 rest);
                     path = dropWhile (\<lambda>c. c \<noteq> CHR ''/'') (drop 2 rest)
                 in do { host \<leftarrow> parseAuthority parse_Host authority; p \<leftarrow> unescape_percent path;
                         Some \<lparr>u_Scheme = scheme, u_Host = host, u_Path = p, u_Fragment = []\<rparr> })
              else do { p \<leftarrow> unescape_percent rest;
                        Some \<lparr>u_Scheme = scheme, u_Host = [], u_Path = p, u_Fragment = []\<rparr> })))"

definition url_Parse :: "(string \<Rightarrow> string option) \<Rightarrow> string \<Rightarrow> URL option" where
  "url_Parse parse_Host raw =
     (let (u, frag, found) = strings_Cut raw (CHR ''#'')
      in do { url \<leftarrow> parse_url parse_Host u; f \<leftarrow> unescape_percent frag; Some (url\<lparr>u_Fragment := f\<rparr>) })"

end
