(* ===== verification/Api_Client.thy ===== *)
theory Api_Client
  imports Share_Errors Rfc3339 Url Sha256
begin

text \<open>
  \<open>internal/share/api/client.go\<close>: the HTTP client. What it talks to is the parameter \<open>wire\<close> over a state \<open>'x\<close> of
  the world outside: \<open>http.Client.Do\<close>, the end of the context, the timer, and the randomness and clock behind a
  request id. An answer is its status, its headers as \<open>Header.Get\<close> reads them, the bytes of its body, and
  whether reading them ends in an error.
\<close>

section \<open>Requests and answers\<close>

record http_request =
  hq_Method :: string
  hq_URL :: string
  hq_Headers :: "(string \<times> string) list"
  hq_Body :: "bytes option"
  hq_ContentLength :: int

record http_response =
  hr_Status :: int
  hr_Header :: "string \<Rightarrow> string"
  hr_Body :: bytes
  hr_BodyErr :: "string option"

datatype http_result = Answered http_response | NoAnswer string

record 'x wire =
  wi_Do :: "http_request \<Rightarrow> 'x \<Rightarrow> http_result \<times> 'x"
  wi_Done :: "'x \<Rightarrow> bool"
  wi_Sleep :: "duration \<Rightarrow> 'x \<Rightarrow> bool \<times> 'x"
  wi_Random :: "'x \<Rightarrow> bytes option \<times> time \<times> 'x"
  wi_Host :: "string \<Rightarrow> string option"

record Client =
  cl_BaseURL :: string
  cl_UserAgent :: string

definition TrimRight_slash :: "string \<Rightarrow> string" where
  "TrimRight_slash s = rev (dropWhile (\<lambda>c. c = CHR ''/'') (rev s))"

definition New_Client :: "string \<Rightarrow> Client" where
  "New_Client baseURL = \<lparr>cl_BaseURL = TrimRight_slash baseURL, cl_UserAgent = ''secretli-cli''\<rparr>"

definition MaxTransientAttempts :: nat where "MaxTransientAttempts = 3"
definition maxRetryAfter :: duration where "maxRetryAfter = 30 * time_Second"
definition headerMetadataToken :: string where "headerMetadataToken = ''X-Metadata-Token''"
definition headerBlobToken :: string where "headerBlobToken = ''X-Blob-Token''"
definition headerDeletionToken :: string where "headerDeletionToken = ''X-Deletion-Token''"
definition headerRequestID :: string where "headerRequestID = ''X-Request-ID''"
definition headerPartOffset :: string where "headerPartOffset = ''X-Part-Offset''"
definition headerPartSize :: string where "headerPartSize = ''X-Part-Size''"
definition headerPartSHA256 :: string where "headerPartSHA256 = ''X-Part-SHA256''"

lemmas header_defs = headerMetadataToken_def headerBlobToken_def headerDeletionToken_def headerRequestID_def
  headerPartOffset_def headerPartSize_def headerPartSHA256_def

section \<open>One request\<close>

text \<open>A value in base 36, for the request id of a machine without randomness. The clock is past 1970.\<close>

fun base36 :: "nat \<Rightarrow> string" where
  "base36 n = (if n < 36 then [chr (if n < 10 then 48 + n else 87 + n)]
               else base36 (n div 36) @ [chr (if n mod 36 < 10 then 48 + n mod 36 else 87 + n mod 36)])"

declare base36.simps [simp del]

definition newRequestID :: "bytes option \<Rightarrow> time \<Rightarrow> string" where
  "newRequestID random_bytes now =
     (case random_bytes of
        None \<Rightarrow> ''req-'' @ base36 (nat now)
      | Some r \<Rightarrow>
          (let b = take 16 r;
               b1 = b[6 := chr (ord (b ! 6) mod 16 + 64)];
               b2 = b1[8 := chr (ord (b1 ! 8) mod 64 + 128)];
               h = hex_EncodeToString b2
           in take 8 h @ ''-'' @ take 4 (drop 8 h) @ ''-'' @ take 4 (drop 12 h) @ ''-'' @ take 4 (drop 16 h) @ ''-'' @ drop 20 h))"

text \<open>The object in an error answer: its message and details. Numbers in the details are not converted.\<close>

definition error_payload :: "bytes \<Rightarrow> (string \<times> (bytes \<times> jvalue) list option) option" where
  "error_payload b =
     do { v \<leftarrow> json_Decode (take 65536 b);
          as_struct (\<lambda>obj.
            do { e \<leftarrow> string_field obj ''error'';
                 d \<leftarrow> last_value (\<lambda>v. case v of VObj fs \<Rightarrow> Some (Some fs) | _ \<Rightarrow> None) None (json_values obj ''details'');
                 Some (e, d) }) v }"

record call =
  rq_Method :: string
  rq_Path :: string
  rq_Headers :: "(string \<times> string) list"
  rq_Body :: "bytes option"

definition body_length :: "bytes option \<Rightarrow> int" where
  "body_length b = (case b of None \<Rightarrow> 0 | Some bs \<Rightarrow> int (length bs))"

definition build_request :: "Client \<Rightarrow> call \<Rightarrow> string \<Rightarrow> http_request" where
  "build_request c rq requestID =
     \<lparr>hq_Method = rq_Method rq, hq_URL = cl_BaseURL c @ rq_Path rq,
      hq_Headers = rq_Headers rq @ [(headerRequestID, requestID), (''User-Agent'', cl_UserAgent c)],
      hq_Body = rq_Body rq, hq_ContentLength = body_length (rq_Body rq)\<rparr>"

definition request_failed :: "http_response \<Rightarrow> string \<Rightarrow> api_Error" where
  "request_failed resp requestID =
     (let (msg, details) =
        (case error_payload (hr_Body resp) of
           Some (m, d) \<Rightarrow> (if m \<noteq> [] then m else ''request failed ('' @ FormatInt (hr_Status resp) @ '')'', d)
         | None \<Rightarrow> (''request failed ('' @ FormatInt (hr_Status resp) @ '')'', None))
      in \<lparr>e_Status = hr_Status resp, e_Message = msg,
          e_RequestID = (if hr_Header resp headerRequestID \<noteq> [] then hr_Header resp headerRequestID else requestID),
          e_RetryAfter = hr_Header resp ''Retry-After'', e_Details = details\<rparr>)"

definition do_once :: "Client \<Rightarrow> 'x wire \<Rightarrow> call \<Rightarrow> 'x \<Rightarrow> (share_err + http_response) \<times> 'x" where
  "do_once c w rq x =
     (if url_Parse (wi_Host w) (cl_BaseURL c @ rq_Path rq) = None then (Inl (NewErr ''build request''), x)
      else (let (r, now, x1) = wi_Random w x; requestID = newRequestID r now
            in case wi_Do w (build_request c rq requestID) x1 of
                 (NoAnswer msg, x2) \<Rightarrow>
                   (if wi_Done w x2 then (Inl ContextErr, x2)
                    else (Inl (ApiErr \<lparr>e_Status = 0, e_Message = msg, e_RequestID = requestID, e_RetryAfter = [],
                                       e_Details = None\<rparr>), x2))
               | (Answered resp, x2) \<Rightarrow>
                   (if 200 \<le> hr_Status resp \<and> hr_Status resp < 300 then (Inr resp, x2)
                    else (Inl (ApiErr (request_failed resp requestID)), x2))))"

section \<open>Retries\<close>

definition transient :: "int \<Rightarrow> bool" where
  "transient code \<longleftrightarrow> code = 0 \<or> code = 429 \<or> code \<ge> 500"

definition retryDelay :: "nat \<Rightarrow> string \<Rightarrow> duration" where
  "retryDelay attempt retryAfter =
     (let default_delay = int attempt * 250 * time_Millisecond
      in if retryAfter \<noteq> [] then
           (case ParseInt retryAfter of
              Some seconds \<Rightarrow> (if seconds \<ge> 0 then min (int64 (seconds * time_Second)) maxRetryAfter else default_delay)
            | None \<Rightarrow> default_delay)
         else default_delay)"

text \<open>The loop of \<open>do\<close> with the attempts that are left, the number of the next one and the last error.\<close>

fun do_attempts :: "Client \<Rightarrow> 'x wire \<Rightarrow> call \<Rightarrow> nat \<Rightarrow> nat \<Rightarrow> share_err \<Rightarrow> 'x \<Rightarrow> (share_err + http_response) \<times> 'x" where
  "do_attempts c w rq 0 attempt lastErr x = (Inl lastErr, x)"
| "do_attempts c w rq (Suc left) attempt lastErr x =
     (if wi_Done w x then (Inl ContextErr, x)
      else (case do_once c w rq x of
              (Inr resp, x1) \<Rightarrow> (Inr resp, x1)
            | (Inl e, x1) \<Rightarrow>
                (case asApiError e of
                   None \<Rightarrow> (Inl e, x1)
                 | Some a \<Rightarrow>
                     (if \<not> transient (e_Status a) \<or> attempt = MaxTransientAttempts then (Inl e, x1)
                      else (case wi_Sleep w (retryDelay attempt (e_RetryAfter a)) x1 of
                              (False, x2) \<Rightarrow> (Inl ContextErr, x2)
                            | (True, x2) \<Rightarrow> do_attempts c w rq left (attempt + 1) e x2)))))"

definition api_do :: "Client \<Rightarrow> 'x wire \<Rightarrow> call \<Rightarrow> 'x \<Rightarrow> (share_err + http_response) \<times> 'x" where
  "api_do c w rq x = do_attempts c w rq MaxTransientAttempts 1 ContextErr x"

text \<open>\<open>doJSON\<close> with a decoder for the fields of \<open>out\<close>. What is decoded from an answer without content is zero.\<close>

definition doJSON ::
    "Client \<Rightarrow> 'x wire \<Rightarrow> ((bytes \<times> jvalue) list \<Rightarrow> 'a option) \<Rightarrow> call \<Rightarrow> 'x \<Rightarrow> (share_err + 'a) \<times> 'x" where
  "doJSON c w decode rq x =
     (case api_do c w rq x of
        (Inl e, x1) \<Rightarrow> (Inl e, x1)
      | (Inr resp, x1) \<Rightarrow>
          (case (if hr_Status resp = 204 then decode [] else do { v \<leftarrow> json_Decode (hr_Body resp); as_struct decode v }) of
             None \<Rightarrow> (Inl (ApiErr \<lparr>e_Status = hr_Status resp, e_Message = ''unreadable answer: '',
                                 e_RequestID = hr_Header resp headerRequestID, e_RetryAfter = [], e_Details = None\<rparr>), x1)
           | Some out \<Rightarrow> (Inr out, x1)))"

text \<open>\<open>doJSON\<close> without a place for the answer.\<close>

definition doJSON_discard :: "Client \<Rightarrow> 'x wire \<Rightarrow> call \<Rightarrow> 'x \<Rightarrow> share_err option \<times> 'x" where
  "doJSON_discard c w rq x =
     (case api_do c w rq x of (Inl e, x1) \<Rightarrow> (Some e, x1) | (Inr resp, x1) \<Rightarrow> (None, x1))"

end
