(* ===== verification/Api_Retry.thy ===== *)
theory Api_Retry
  imports Api_Client
begin

text \<open>
  What the retry loop of the client does to the wire below it: a wire that also records the requests, their answers and
  the waits; the bounds on them, which answers are asked for again, and which one the call reports.
\<close>

section \<open>A wire that keeps a log\<close>

type_synonym 'x logged = "'x \<times> (http_request \<times> http_result) list \<times> duration list"

definition logged_wire :: "'x wire \<Rightarrow> 'x logged wire" where
  "logged_wire w =
     \<lparr>wi_Do = (\<lambda>q (x, sent, slept). case wi_Do w q x of (r, x1) \<Rightarrow> (r, x1, sent @ [(q, r)], slept)),
      wi_Done = (\<lambda>(x, sent, slept). wi_Done w x),
      wi_Sleep = (\<lambda>d (x, sent, slept). case wi_Sleep w d x of (alive, x1) \<Rightarrow> (alive, x1, sent, slept @ [d])),
      wi_Random = (\<lambda>(x, sent, slept). case wi_Random w x of (r, now, x1) \<Rightarrow> (r, now, x1, sent, slept)),
      wi_Host = wi_Host w\<rparr>"

lemma logged_wire_simps [simp]:
  "wi_Do (logged_wire w) q (x, sent, slept) = (case wi_Do w q x of (r, x1) \<Rightarrow> (r, x1, sent @ [(q, r)], slept))"
  "wi_Done (logged_wire w) (x, sent, slept) = wi_Done w x"
  "wi_Sleep (logged_wire w) d (x, sent, slept) = (case wi_Sleep w d x of (alive, x1) \<Rightarrow> (alive, x1, sent, slept @ [d]))"
  "wi_Random (logged_wire w) (x, sent, slept) = (case wi_Random w x of (r, now, x1) \<Rightarrow> (r, now, x1, sent, slept))"
  "wi_Host (logged_wire w) = wi_Host w"
  by (simp_all add: logged_wire_def)

text \<open>One attempt sends at most one request, the one of the call; the log changes nothing else.\<close>

definition sends :: "Client \<Rightarrow> call \<Rightarrow> http_request \<Rightarrow> bool" where
  "sends c rq q \<longleftrightarrow>
     hq_Method q = rq_Method rq \<and> hq_URL q = cl_BaseURL c @ rq_Path rq \<and> hq_Body q = rq_Body rq \<and>
     (\<exists>requestID. hq_Headers q = rq_Headers rq @ [(headerRequestID, requestID), (''User-Agent'', cl_UserAgent c)])"

lemma build_request_sends: "sends c rq (build_request c rq requestID)"
  by (simp add: sends_def build_request_def)

text \<open>
  No answer, rate limiting or a failure of the server is worth another attempt; an error reports an answer when it
  carries its status and its advice when to come back.
\<close>

fun worth_repeating :: "http_result \<Rightarrow> bool" where
  "worth_repeating (NoAnswer msg) = True"
| "worth_repeating (Answered resp) = (hr_Status resp = 0 \<or> hr_Status resp = 429 \<or> 500 \<le> hr_Status resp)"

fun reports :: "share_err + http_response \<Rightarrow> http_result \<Rightarrow> bool" where
  "reports (Inr resp) answer = (answer = Answered resp \<and> 200 \<le> hr_Status resp \<and> hr_Status resp < 300)"
| "reports (Inl e) (NoAnswer msg) = (\<exists>a. e = ApiErr a \<and> e_Status a = 0 \<and> e_Message a = msg)"
| "reports (Inl e) (Answered resp) =
     (\<exists>a. e = ApiErr a \<and> e_Status a = hr_Status resp \<and> e_RetryAfter a = hr_Header resp ''Retry-After'' \<and>
        \<not> (200 \<le> hr_Status resp \<and> hr_Status resp < 300))"

lemma request_failed_fields:
  "e_Status (request_failed resp requestID) = hr_Status resp"
  "e_RetryAfter (request_failed resp requestID) = hr_Header resp ''Retry-After''"
  by (simp_all add: request_failed_def split: option.split prod.split)

lemma transient_repeating: "reports (Inl (ApiErr a)) answer \<Longrightarrow> worth_repeating answer \<longleftrightarrow> transient (e_Status a)"
  by (cases answer) (auto simp: transient_def)

text \<open>One attempt: it fails before a request is sent, or sends one and reports its answer, or the context is over.\<close>

lemma do_once_logged:
  assumes "do_once c w rq x = (r, x1)"
  obtains (unsent) "do_once c (logged_wire w) rq (x, sent, slept) = (r, x1, sent, slept)" "r = Inl (NewErr ''build request'')"
    | (sent) q answer where "do_once c (logged_wire w) rq (x, sent, slept) = (r, x1, sent @ [(q, answer)], slept)"
      "sends c rq q" "reports r answer \<or> r = Inl ContextErr \<and> worth_repeating answer"
proof (cases "url_Parse (wi_Host w) (cl_BaseURL c @ rq_Path rq) = None")
  case True
  then show ?thesis using assms by (intro unsent) (auto simp: do_once_def)
next
  case False
  obtain bs now x0 where rnd: "wi_Random w x = (bs, now, x0)" by (cases "wi_Random w x")
  let ?q = "build_request c rq (newRequestID bs now)"
  obtain answer x2 where answer: "wi_Do w ?q x0 = (answer, x2)" by fastforce
  show ?thesis
  proof (rule sent)
    show "do_once c (logged_wire w) rq (x, sent, slept) = (r, x1, sent @ [(?q, answer)], slept)"
      using False assms rnd answer by (auto simp: do_once_def Let_def split: http_result.splits if_splits)
    show "sends c rq ?q" by (rule build_request_sends)
    show "reports r answer \<or> r = Inl ContextErr \<and> worth_repeating answer"
      using False assms rnd answer
      by (cases answer) (auto simp: do_once_def Let_def request_failed_fields split: if_splits)
  qed
qed

section \<open>Bounds\<close>

lemma retryDelay_le:
  assumes "attempt \<le> 3"
  shows "retryDelay attempt after \<le> maxRetryAfter"
proof -
  have le: "int attempt \<le> 3" using assms by simp
  have "int attempt * 250 * time_Millisecond \<le> 3 * 250 * time_Millisecond"
    by (rule mult_right_mono [OF mult_right_mono [OF le]]) (simp_all add: time_Millisecond_def)
  also have "3 * 250 * time_Millisecond \<le> maxRetryAfter"
    by (simp add: maxRetryAfter_def time_Second_def time_Millisecond_def)
  finally have "int attempt * 250 * time_Millisecond \<le> maxRetryAfter" .
  then show ?thesis unfolding retryDelay_def Let_def by (cases "ParseInt after") simp_all
qed

text \<open>A wait the server asks for that does not fit in nanoseconds wraps around: there is no wait at all.\<close>

lemma huge_retry_after_is_no_wait: "retryDelay 1 (FormatInt 9223372037) < 0"
proof -
  have "ParseInt (FormatInt 9223372037) = Some 9223372037" by (rule ParseInt_FormatInt) simp_all
  moreover have "FormatInt 9223372037 \<noteq> []" using calculation by (auto simp: ParseInt_def)
  ultimately show ?thesis by (simp add: retryDelay_def maxRetryAfter_def time_Second_def int64_def)
qed

definition retried_well ::
    "Client \<Rightarrow> call \<Rightarrow> nat \<Rightarrow> share_err + http_response \<Rightarrow> (http_request \<times> http_result) list \<Rightarrow> duration list \<Rightarrow> bool" where
  "retried_well c rq left r sent slept \<longleftrightarrow>
     length sent \<le> left \<and> length slept \<le> left - 1 \<and> (\<forall>d \<in> set slept. d \<le> maxRetryAfter) \<and>
     (\<forall>(q, answer) \<in> set sent. sends c rq q) \<and> (\<forall>(q, answer) \<in> set (butlast sent). worth_repeating answer) \<and>
     (r = Inl (NewErr ''build request'') \<or>
      r = Inl ContextErr \<and> (\<forall>(q, answer) \<in> set sent. worth_repeating answer) \<or>
      length sent = length slept + 1 \<and> reports r (snd (last sent)) \<and>
        (isl r \<and> worth_repeating (snd (last sent)) \<longrightarrow> length sent = left))"

lemma retried_well_first:
  "sends c rq q \<Longrightarrow> reports r answer \<or> r = Inl ContextErr \<and> worth_repeating answer \<Longrightarrow> left \<noteq> 0 \<Longrightarrow>
     (reports r answer \<Longrightarrow> isl r \<Longrightarrow> worth_repeating answer \<Longrightarrow> left = 1) \<Longrightarrow> retried_well c rq left r [(q, answer)] []"
  by (auto simp: retried_well_def)

lemma retried_well_next:
  assumes "retried_well c rq left r sent slept" and "sends c rq q" "worth_repeating answer" "d \<le> maxRetryAfter" "left \<noteq> 0"
  shows "retried_well c rq (Suc left) r ((q, answer) # sent) (d # slept)"
  using assms by (auto simp: retried_well_def)

lemma do_attempts_logged:
  assumes "do_attempts c w rq left attempt lastErr x = (r, x1)" and "left + attempt = 4" and "left \<noteq> 0"
  shows "\<exists>extra waits. do_attempts c (logged_wire w) rq left attempt lastErr (x, sent, slept) = (r, x1, sent @ extra, slept @ waits) \<and>
    retried_well c rq left r extra waits"
  using assms
proof (induction left arbitrary: attempt lastErr x sent slept)
  case (Suc left)
  show ?case
  proof (cases "wi_Done w x")
    case True
    then show ?thesis using Suc.prems by (intro exI [of _ "[]"]) (auto simp: retried_well_def)
  next
    case alive: False
    obtain r1 x2 where once: "do_once c w rq x = (r1, x2)" by (cases "do_once c w rq x")
    from do_once_logged [OF once, of sent slept] show ?thesis
    proof cases
      case 1
      then show ?thesis using Suc.prems(1) once alive
        by (intro exI [of _ "[]"]) (auto simp: retried_well_def)
    next
      case sent: (2 q answer)
      show ?thesis
      proof (cases "\<exists>a. r1 = Inl (ApiErr a) \<and> transient (e_Status a) \<and> attempt \<noteq> MaxTransientAttempts")
        case False
        have shape: "(\<exists>resp. r1 = Inr resp) \<or> r1 = Inl ContextErr \<or> (\<exists>a. r1 = Inl (ApiErr a))"
          using sent(3) by (cases r1; cases answer) auto
        with False have "r = r1" "x1 = x2"
          "do_attempts c (logged_wire w) rq (Suc left) attempt lastErr (x, sent, slept) = (r1, x2, sent @ [(q, answer)], slept)"
          using Suc.prems(1) once sent(1) alive by auto
        moreover have "retried_well c rq (Suc left) r1 [(q, answer)] []"
        proof (rule retried_well_first [OF sent(2,3)])
          assume rep: "reports r1 answer" "isl r1" "worth_repeating answer"
          with shape obtain a where "r1 = Inl (ApiErr a)" by (cases answer) auto
          with False rep transient_repeating have "attempt = MaxTransientAttempts" by blast
          then show "Suc left = 1" using Suc.prems(2) by (simp add: MaxTransientAttempts_def)
        qed simp
        ultimately show ?thesis by (intro exI [of _ "[(q, answer)]"] exI [of _ "[]"]) simp
      next
        case True
        then obtain a where a: "r1 = Inl (ApiErr a)" "transient (e_Status a)" "attempt \<noteq> MaxTransientAttempts" by blast
        have again: "worth_repeating answer" using sent(3) a transient_repeating by auto
        have more: "left \<noteq> 0" using a(3) Suc.prems(2) by (simp add: MaxTransientAttempts_def)
        let ?d = "retryDelay attempt (e_RetryAfter a)"
        have d: "?d \<le> maxRetryAfter" using retryDelay_le Suc.prems(2) by simp
        obtain awake x3 where nap: "wi_Sleep w ?d x2 = (awake, x3)" by (cases "wi_Sleep w ?d x2")
        show ?thesis
        proof (cases awake)
          case False
          then show ?thesis using Suc.prems(1) once sent(1,2) again a nap alive d
            by (intro exI [of _ "[(q, answer)]"] exI [of _ "[?d]"]) (use more in \<open>auto simp: retried_well_def\<close>)
        next
          case True
          then have "do_attempts c w rq left (attempt + 1) (ApiErr a) x3 = (r, x1)"
            using Suc.prems(1) once a nap alive by simp
          then obtain extra waits where rest: "do_attempts c (logged_wire w) rq left (attempt + 1) (ApiErr a)
              (x3, sent @ [(q, answer)], slept @ [?d]) = (r, x1, (sent @ [(q, answer)]) @ extra, (slept @ [?d]) @ waits)"
            "retried_well c rq left r extra waits"
            using Suc.IH [of "attempt + 1" "ApiErr a" x3 "sent @ [(q, answer)]" "slept @ [?d]"] Suc.prems(2) more by auto
          from retried_well_next [OF rest(2) sent(2) again d more] rest(1) show ?thesis
            using True once sent(1) a nap alive
            by (intro exI [of _ "(q, answer) # extra"] exI [of _ "?d # waits"]) simp
        qed
      qed
    qed
  qed
qed simp

text \<open>
  Property C40. A call of the client sends the same request at most three times and waits at most twice, each time for at
  most thirty seconds. It repeats only what is transient: every request but the last had no answer, or one of status 429 or
  from 500 on. It reports what the last request got: success is the last answer, of a status between 200 and 299; an error
  carries the status of the last answer and its Retry-After, or that there was none and why; and an error that was worth
  repeating is reported only after the third request. Otherwise the URL was malformed, or the context ended before an answer
  that is final. (The log does not change what the call returns.)
\<close>

theorem retries_are_bounded:
  assumes "api_do c w rq x = (r, x1)"
  shows "\<exists>sent slept. api_do c (logged_wire w) rq (x, [], []) = (r, x1, sent, slept) \<and>
     length sent \<le> 3 \<and> length slept \<le> 2 \<and> (\<forall>d \<in> set slept. d \<le> 30 * time_Second) \<and>
     (\<forall>(q, answer) \<in> set sent. sends c rq q) \<and> (\<forall>(q, answer) \<in> set (butlast sent). worth_repeating answer) \<and>
     (r = Inl (NewErr ''build request'') \<or>
      r = Inl ContextErr \<and> (\<forall>(q, answer) \<in> set sent. worth_repeating answer) \<or>
      length sent = length slept + 1 \<and> reports r (snd (last sent)) \<and>
        (isl r \<and> worth_repeating (snd (last sent)) \<longrightarrow> length sent = 3))"
  using do_attempts_logged [of c w rq 3 1 ContextErr x r x1 "[]" "[]"] assms
  by (simp add: api_do_def MaxTransientAttempts_def retried_well_def maxRetryAfter_def)

text \<open>A server that answers 503 twice and then 200.\<close>

definition flaky_wire :: "nat wire" where
  "flaky_wire =
     \<lparr>wi_Do = (\<lambda>q n. (Answered \<lparr>hr_Status = (if n < 2 then 503 else 200), hr_Header = (\<lambda>_. []), hr_Body = [], hr_BodyErr = None\<rparr>, n + 1)),
      wi_Done = (\<lambda>n. False), wi_Sleep = (\<lambda>d n. (True, n)), wi_Random = (\<lambda>n. (None, 0, n)), wi_Host = Some\<rparr>"

lemma demo_url: "url_Parse Some ''http://h/'' \<noteq> None"
  by code_simp

lemma retries_are_bounded_witness:
  "\<exists>sent slept. api_do (New_Client ''http://h'') (logged_wire flaky_wire)
       \<lparr>rq_Method = ''GET'', rq_Path = ''/'', rq_Headers = [], rq_Body = None\<rparr> (0, [], []) =
       (Inr \<lparr>hr_Status = 200, hr_Header = (\<lambda>_. []), hr_Body = [], hr_BodyErr = None\<rparr>, 3, sent, slept) \<and>
     length sent \<le> 3 \<and> length slept \<le> 2"
proof -
  let ?c = "New_Client ''http://h''" and ?rq = "\<lparr>rq_Method = ''GET'', rq_Path = ''/'', rq_Headers = [], rq_Body = None\<rparr>"
  have "api_do ?c flaky_wire ?rq 0 = (Inr \<lparr>hr_Status = 200, hr_Header = (\<lambda>_. []), hr_Body = [], hr_BodyErr = None\<rparr>, 3)"
    using demo_url by (simp add: New_Client_def TrimRight_slash_def api_do_def MaxTransientAttempts_def numeral_3_eq_3 do_once_def
        flaky_wire_def request_failed_fields transient_def Let_def)
  from retries_are_bounded [OF this] show ?thesis by auto
qed

end
