(* ===== verification/Middleware.thy ===== *)
theory Middleware
  imports Server Url
begin

text \<open>
  The middleware of the server and its small handlers: \<open>internal/adapter/httpserver/middleware.go\<close>, \<open>health.go\<close>,
  \<open>version.go\<close>, \<open>internal/adapter/metrics/http.go\<close> and \<open>internal/platform/config/config.go\<close>. Echo's own middleware,
  the rate limiter's store and the parsers of IP addresses are parameters; what the code configures them with is a value.
\<close>

section \<open>Configuration\<close>

record S3Config =
  s3_Endpoint :: string
  s3_Bucket :: string
  s3_AccessKey :: string
  s3_SecretKey :: string
  s3_UseSSL :: bool
  s3_Region :: string

record Config =
  cfg_Port :: string
  cfg_DatabaseURL :: string
  cfg_S3 :: S3Config
  cfg_MaxFileSize :: int
  cfg_CleanupInterval :: duration
  cfg_AllowedOrigins :: string
  cfg_MetricsToken :: string
  cfg_TrustedProxies :: string

text \<open>What \<open>Load\<close> gives when only the required variables are set: the defaults of the tags.\<close>

definition default_S3Config :: "string \<Rightarrow> string \<Rightarrow> string \<Rightarrow> S3Config" where
  "default_S3Config endpoint accessKey secretKey =
     \<lparr>s3_Endpoint = endpoint, s3_Bucket = ''secretli'', s3_AccessKey = accessKey, s3_SecretKey = secretKey, s3_UseSSL = True,
      s3_Region = ''us-east-1''\<rparr>"

definition default_Config :: "string \<Rightarrow> S3Config \<Rightarrow> Config" where
  "default_Config databaseURL s3cfg =
     \<lparr>cfg_Port = ''8080'', cfg_DatabaseURL = databaseURL, cfg_S3 = s3cfg, cfg_MaxFileSize = 1073741824,
      cfg_CleanupInterval = time_Minute, cfg_AllowedOrigins = [], cfg_MetricsToken = [], cfg_TrustedProxies = []\<rparr>"

section \<open>Origins, log levels, headers\<close>

text \<open>The entries of a comma-separated list, trimmed, without the empty ones.\<close>

definition comma_entries :: "string \<Rightarrow> string list" where
  "comma_entries s = filter (\<lambda>o'. o' \<noteq> []) (map TrimSpace (strings_Split s (CHR '','')))"

definition parseOrigins :: "string \<Rightarrow> string list" where
  "parseOrigins origins = (if origins = [] then [] else comma_entries origins)"

datatype log_level = LevelInfo | LevelError

definition requestLogLevel :: "int \<Rightarrow> log_level" where
  "requestLogLevel code = (if code \<ge> 500 then LevelError else LevelInfo)"

definition permissionsPolicy :: string where
  "permissionsPolicy = ''camera=(self), microphone=(), geolocation=()''"

text \<open>The headers \<open>securityHeaders\<close> has set on every answer. The apostrophes are written as \<open>CHR 0x27\<close>.\<close>

definition quoted_source :: "string \<Rightarrow> string" where
  "quoted_source s = CHR 0x27 # s @ [CHR 0x27]"

definition contentSecurityPolicy :: string where
  "contentSecurityPolicy =
     ''default-src '' @ quoted_source ''self'' @ ''; script-src '' @ quoted_source ''self'' @
     ''; style-src '' @ quoted_source ''self'' @ '' '' @ quoted_source ''unsafe-inline'' @
     ''; font-src '' @ quoted_source ''self'' @ ''; img-src '' @ quoted_source ''self'' @ '' data:''"

definition securityHeaders :: "(string \<times> string) list" where
  "securityHeaders =
     [(''Permissions-Policy'', permissionsPolicy), (''X-Content-Type-Options'', ''nosniff''),
      (''X-Frame-Options'', ''DENY''), (''Content-Security-Policy'', contentSecurityPolicy),
      (''Referrer-Policy'', ''no-referrer'')]"

record CORSConfig =
  cors_AllowOrigins :: "string list"
  cors_AllowMethods :: "string list"
  cors_AllowHeaders :: "string list"
  cors_ExposeHeaders :: "string list"
  cors_AllowCredentials :: bool
  cors_MaxAge :: int

definition corsMiddleware :: "string list \<Rightarrow> CORSConfig" where
  "corsMiddleware origins =
     \<lparr>cors_AllowOrigins = origins, cors_AllowMethods = [''GET'', ''POST'', ''PUT'', ''DELETE'', ''OPTIONS''],
      cors_AllowHeaders = [''Content-Type'', ''Authorization'', ''X-Request-ID'', ''Range'', ''X-Metadata-Token'', ''X-Blob-Token'',
        ''X-Deletion-Token'', ''X-Part-Offset'', ''X-Part-Size'', ''X-Part-SHA256''],
      cors_ExposeHeaders = [''X-Request-ID'', ''Accept-Ranges'', ''Content-Range'', ''Content-Length''],
      cors_AllowCredentials = True, cors_MaxAge = 86400\<rparr>"

section \<open>Who may read the metrics\<close>

definition HasPrefix :: "string \<Rightarrow> string \<Rightarrow> bool" where
  "HasPrefix s p \<longleftrightarrow> take (length p) s = p"

definition TrimPrefix :: "string \<Rightarrow> string \<Rightarrow> string" where
  "TrimPrefix s p = (if HasPrefix s p then drop (length p) s else s)"

definition metricsAuth :: "string \<Rightarrow> (request \<Rightarrow> answer) \<Rightarrow> request \<Rightarrow> answer" where
  "metricsAuth token next_handler req =
     (let auth = header req ''Authorization''
      in if \<not> HasPrefix auth ''Bearer '' \<or> \<not> TokensEqual (TrimPrefix auth ''Bearer '') token
         then Inr ((NoContent 401)\<lparr>headers := [(''WWW-Authenticate'', ''Bearer realm='' @ [CHR 0x22] @ ''metrics'' @ [CHR 0x22])]\<rparr>)
         else next_handler req)"

section \<open>Client addresses\<close>

text \<open>
  \<open>net.ParseIP\<close> gives the text of the address and whether it has four bytes; \<open>net.ParseCIDR\<close> a network \<open>'n\<close>.
\<close>

record 'n net =
  net_ParseIP :: "string \<Rightarrow> (string \<times> bool) option"
  net_ParseCIDR :: "string \<Rightarrow> 'n option"

definition proxy_entry :: "'n net \<Rightarrow> string \<Rightarrow> string" where
  "proxy_entry net entry =
     (if CHR ''/'' \<notin> set entry then
        (case net_ParseIP net entry of
           Some (ip, four) \<Rightarrow> ip @ ''/'' @ FormatInt (if four then 32 else 128)
         | None \<Rightarrow> entry)
      else entry)"

fun parse_entries :: "'n net \<Rightarrow> string list \<Rightarrow> err + 'n list" where
  "parse_entries net [] = Inr []"
| "parse_entries net (raw # raws) =
     (let entry = TrimSpace raw
      in if entry = [] then parse_entries net raws
         else (case net_ParseCIDR net (proxy_entry net entry) of
                 None \<Rightarrow> Inl (PlainErr ''invalid trusted proxy'')
               | Some n \<Rightarrow> (case parse_entries net raws of Inl e \<Rightarrow> Inl e | Inr ns \<Rightarrow> Inr (n # ns))))"

definition parseTrustedProxies :: "'n net \<Rightarrow> string \<Rightarrow> err + 'n list" where
  "parseTrustedProxies net value = parse_entries net (strings_Split value (CHR '',''))"

text \<open>The peer address, or the X-Forwarded-For header walked from the right over the trusted networks alone.\<close>

datatype 'n extractor = ExtractIPDirect | ExtractIPFromXFFHeader "'n list"

definition newIPExtractor :: "'n net \<Rightarrow> string \<Rightarrow> err + 'n extractor" where
  "newIPExtractor net trustedProxies =
     (case parseTrustedProxies net trustedProxies of
        Inl e \<Rightarrow> Inl e
      | Inr ranges \<Rightarrow> Inr (if ranges = [] then ExtractIPDirect else ExtractIPFromXFFHeader ranges))"

lemma parse_entries_blank: "\<forall>s \<in> set raws. TrimSpace s = [] \<Longrightarrow> parse_entries net raws = Inr []"
  by (induction raws) simp_all

text \<open>Forwarding headers are trusted only when a network is configured, and one bad entry stops the server from starting.\<close>

lemma newIPExtractor_direct:
  "\<forall>s \<in> set (strings_Split proxies (CHR '','')). TrimSpace s = [] \<Longrightarrow> newIPExtractor net proxies = Inr ExtractIPDirect"
  by (simp add: newIPExtractor_def parseTrustedProxies_def parse_entries_blank)

lemma parse_entries_all:
  "parse_entries net raws = Inr ns \<Longrightarrow>
     map Some ns = map (\<lambda>raw. net_ParseCIDR net (proxy_entry net (TrimSpace raw))) (filter (\<lambda>raw. TrimSpace raw \<noteq> []) raws)"
  by (induction raws arbitrary: ns) (auto simp: Let_def split: if_splits option.splits sum.splits)

section \<open>Rate limits\<close>

record RateLimit =
  rl_Limit :: int
  rl_Window :: duration
  rl_Burst :: int
  rl_ExpiresIn :: duration

definition rateLimiter :: "int \<Rightarrow> duration \<Rightarrow> RateLimit" where
  "rateLimiter limit window = \<lparr>rl_Limit = limit, rl_Window = window, rl_Burst = limit, rl_ExpiresIn = 3 * time_Minute\<rparr>"

text \<open>The answer to a request the store does not allow.\<close>

definition rate_denied :: response where
  "rate_denied = (JSON 429 (JObj [(''error'', JStr ''rate limit exceeded'')]))\<lparr>headers := [(''Retry-After'', ''60'')]\<rparr>"

section \<open>Health, version and the pages\<close>

definition Liveness :: answer where
  "Liveness = Inr (JSON 200 (JObj [(''status'', JStr ''ok'')]))"

definition ReadinessWithDB :: "bool \<Rightarrow> answer" where
  "ReadinessWithDB pings =
     (if \<not> pings then Inr (JSON 503 (JObj [(''status'', JStr ''unavailable'')]))
      else Inr (JSON 200 (JObj [(''status'', JStr ''ok'')])))"

definition VersionHandler :: "string \<Rightarrow> answer" where
  "VersionHandler version = Inr (JSON 200 (JObj [(''version'', JStr version)]))"

text \<open>\<open>spaHandler\<close>: the path the file server gets; a path that is no file of the pages is served the start page.\<close>

definition spaHandler :: "(string \<Rightarrow> bool) \<Rightarrow> string \<Rightarrow> string" where
  "spaHandler opens url_path =
     (let path = TrimPrefix url_path ''/'' in if opens (if path = [] then ''.'' else path) then url_path else ''/'')"

section \<open>Request ids in the log\<close>

text \<open>
  The request id the log records of a request carry: \<open>correlationMiddleware\<close> puts the id of the answer's header into the
  context, \<open>correlation.Handler\<close> adds it to a record when it is not empty.
\<close>

definition correlationMiddleware :: "string \<Rightarrow> string option" where
  "correlationMiddleware id_header = (if id_header \<noteq> [] then Some id_header else None)"

definition RequestID :: "string option \<Rightarrow> string" where
  "RequestID ctx = (case ctx of Some i \<Rightarrow> i | None \<Rightarrow> [])"

definition correlation_Handle :: "string option \<Rightarrow> (string \<times> string) list \<Rightarrow> (string \<times> string) list" where
  "correlation_Handle ctx attrs = (if RequestID ctx \<noteq> [] then attrs @ [(''request_id'', RequestID ctx)] else attrs)"

lemma correlated: "correlation_Handle (correlationMiddleware i) [] = (if i = [] then [] else [(''request_id'', i)])"
  by (simp add: correlation_Handle_def correlationMiddleware_def RequestID_def)

section \<open>HTTP metrics\<close>

record http_metrics =
  hm_InFlight :: int
  hm_Total :: "(string \<times> string \<times> string) list"

text \<open>
  How a handler ends, with the status of its answer (0 when nothing was written): it returns, or it panics, and then only
  \<open>Recover\<close>, the outermost middleware, catches the panic.
\<close>

datatype ending = Returns int | Panics

definition HTTPMetrics_Middleware :: "string \<Rightarrow> string \<Rightarrow> string \<Rightarrow> (http_metrics \<Rightarrow> ending \<times> http_metrics) \<Rightarrow> http_metrics \<Rightarrow> ending \<times> http_metrics" where
  "HTTPMetrics_Middleware method path route next_handler m =
     (if path = ''/metrics'' then next_handler m
      else (case next_handler (m\<lparr>hm_InFlight := hm_InFlight m + 1\<rparr>) of
              (Panics, m1) \<Rightarrow> (Panics, m1)
            | (Returns code, m1) \<Rightarrow>
                (Returns code,
                 m1\<lparr>hm_InFlight := hm_InFlight m1 - 1,
                    hm_Total := hm_Total m1 @ [(method, if route = [] then ''/*'' else route,
                                               FormatInt (if code = 0 then 200 else code))]\<rparr>)))"

lemma in_flight_balanced:
  assumes "\<And>m. hm_InFlight (snd (h m)) = hm_InFlight m" and "fst (HTTPMetrics_Middleware method path route h m) \<noteq> Panics"
  shows "hm_InFlight (snd (HTTPMetrics_Middleware method path route h m)) = hm_InFlight m"
  using assms(2) assms(1) [of m] assms(1) [of "m\<lparr>hm_InFlight := hm_InFlight m + 1\<rparr>"]
  by (auto simp: HTTPMetrics_Middleware_def split: prod.splits ending.splits if_splits)

text \<open>A panic leaves the gauge one too high for good, and the request uncounted.\<close>

lemma panic_leaks_in_flight:
  "HTTPMetrics_Middleware method ''/x'' route (\<lambda>m. (Panics, m)) m = (Panics, m\<lparr>hm_InFlight := hm_InFlight m + 1\<rparr>)"
  by (simp add: HTTPMetrics_Middleware_def)

end
