(* ===== verification/Routes.thy ===== *)
theory Routes
  imports Middleware Secret_Handler Upload_Handler Transfer_Handler
begin

text \<open>
  \<open>internal/adapter/httpserver/routes.go\<close>: the table of routes, and a request's way from its path to a handler. Echo's
  router is the parameter \<open>sv_Router\<close>; what is relied on is \<open>echo_router\<close>, its documented order of precedence.
\<close>

section \<open>The table\<close>

datatype endpoint =
    GetMetrics | GetLive | GetReady | GetVersion
  | StartRetrievalSession_ep | SecretMetadata_ep | RetrieveSecretRange_ep | DeleteSecret_ep
  | CreateTransfer_ep | ClaimTransfer_ep | PostAnswer_ep | AwaitAnswer_ep | PostDelivery_ep | AwaitDelivery_ep | CloseTransfer_ep
  | CreateUploadSession_ep | CompleteUploadSession_ep | AbortUploadSession_ep | UploadPart_ep
  | GetPage

record route =
  rt_Method :: string
  rt_Path :: string
  rt_Endpoint :: endpoint
  rt_RateLimit :: "RateLimit option"
  rt_BodyLimit :: "int option"

definition smallRequestBodyLimit :: int where "smallRequestBodyLimit = 64 * 1024"

definition open_route :: "string \<Rightarrow> endpoint \<Rightarrow> route" where
  "open_route path ep = \<lparr>rt_Method = ''GET'', rt_Path = path, rt_Endpoint = ep, rt_RateLimit = None, rt_BodyLimit = None\<rparr>"

definition limited_route :: "string \<Rightarrow> int \<Rightarrow> string \<Rightarrow> endpoint \<Rightarrow> route" where
  "limited_route method limit path ep =
     \<lparr>rt_Method = method, rt_Path = path, rt_Endpoint = ep, rt_RateLimit = Some (rateLimiter limit time_Minute),
      rt_BodyLimit = Some smallRequestBodyLimit\<rparr>"

definition registerRoutes :: "route list" where
  "registerRoutes =
     [open_route ''/metrics'' GetMetrics, open_route ''/api/v1/health/live'' GetLive,
      open_route ''/api/v1/health/ready'' GetReady, open_route ''/api/v1/version'' GetVersion,
      limited_route ''POST'' 30 ''/api/v1/secrets/:publicID/retrieval-session'' StartRetrievalSession_ep,
      limited_route ''GET'' 30 ''/api/v1/secrets/:publicID/meta'' SecretMetadata_ep,
      limited_route ''GET'' 600 ''/api/v1/secrets/:publicID/blob'' RetrieveSecretRange_ep,
      limited_route ''DELETE'' 30 ''/api/v1/secrets/:publicID'' DeleteSecret_ep,
      limited_route ''POST'' 10 ''/api/v1/transfers'' CreateTransfer_ep,
      limited_route ''POST'' 10 ''/api/v1/transfers/claim'' ClaimTransfer_ep,
      limited_route ''POST'' 300 ''/api/v1/transfers/:transferID/answer'' PostAnswer_ep,
      limited_route ''GET'' 300 ''/api/v1/transfers/:transferID/answer'' AwaitAnswer_ep,
      limited_route ''POST'' 300 ''/api/v1/transfers/:transferID/delivery'' PostDelivery_ep,
      limited_route ''GET'' 300 ''/api/v1/transfers/:transferID/delivery'' AwaitDelivery_ep,
      limited_route ''DELETE'' 30 ''/api/v1/transfers/:transferID'' CloseTransfer_ep,
      limited_route ''POST'' 10 ''/api/v1/secrets/uploads'' CreateUploadSession_ep,
      limited_route ''POST'' 60 ''/api/v1/secrets/uploads/:sessionID/complete'' CompleteUploadSession_ep,
      limited_route ''DELETE'' 60 ''/api/v1/secrets/uploads/:sessionID'' AbortUploadSession_ep,
      (limited_route ''PUT'' 600 ''/api/v1/secrets/uploads/:sessionID/parts/:partNumber'' UploadPart_ep)\<lparr>rt_BodyLimit := None\<rparr>,
      open_route ''/*'' GetPage]"

section \<open>Echo's router\<close>

text \<open>The segments of a path against those of a pattern; a segment behind a colon is bound to its name, a star takes the rest.\<close>

fun bind_segments :: "string list \<Rightarrow> string list \<Rightarrow> (string \<times> string) list option" where
  "bind_segments [] [] = Some []"
| "bind_segments (p # ps) segs =
     (if p = ''*'' then Some []
      else (case segs of
              [] \<Rightarrow> None
            | s # ss \<Rightarrow>
                (if take 1 p = '':'' then (if s = [] then None else map_option ((#) (drop 1 p, s)) (bind_segments ps ss))
                 else if p = s then bind_segments ps ss else None)))"
| "bind_segments [] (s # ss) = None"

definition bind_path :: "route \<Rightarrow> string \<Rightarrow> (string \<times> string) list option" where
  "bind_path r path = bind_segments (strings_Split (rt_Path r) (CHR ''/'')) (strings_Split path (CHR ''/''))"

definition matches :: "route \<Rightarrow> string \<Rightarrow> string \<Rightarrow> bool" where
  "matches r method path \<longleftrightarrow> rt_Method r = method \<and> bind_path r path \<noteq> None"

text \<open>
  What Echo documents: a static path goes before one with parameters, and both before a match-any path, whatever the order
  of registration. Only the case where one route is left after the match-any ones is needed. A path without a route, or
  without one for the method, is an error of Echo's.
\<close>

definition match_any :: "route \<Rightarrow> bool" where
  "match_any r \<longleftrightarrow> CHR ''*'' \<in> set (rt_Path r)"

type_synonym router = "route list \<Rightarrow> string \<Rightarrow> string \<Rightarrow> err + route \<times> (string \<times> string) list"

definition echo_router :: "router \<Rightarrow> bool" where
  "echo_router find_route \<longleftrightarrow>
     (\<forall>routes method path r bound.
        filter (\<lambda>r'. matches r' method path \<and> \<not> match_any r') routes = [r] \<and> bind_path r path = Some bound \<longrightarrow>
        find_route routes method path = Inr (r, bound))"

text \<open>A router that takes the first match that is not match-any, for the examples.\<close>

definition first_router :: router where
  "first_router routes method path =
     (case filter (\<lambda>r. matches r method path \<and> \<not> match_any r) routes @
           filter (\<lambda>r. matches r method path \<and> match_any r) routes of
        [] \<Rightarrow> Inl (HTTPError 404 (Some ''Not Found''))
      | r # rs \<Rightarrow> Inr (r, the (bind_path r path)))"

lemma first_router_echo: "echo_router first_router"
  by (simp add: echo_router_def first_router_def)

section \<open>The server\<close>

text \<open>
  What the server is started with, and what it meets: the environment of the \<open>n\<close>-th request, whether the rate limiter lets
  it through, how its long poll is woken and its spool file fares. \<open>Bind\<close> of Echo and the validator are parameters, like the
  handlers that only read (metrics and pages).
\<close>

record 's server =
  sv_Router :: router
  sv_Config :: Config
  sv_Env :: "nat \<Rightarrow> 's env"
  sv_Allows :: "nat \<Rightarrow> RateLimit \<Rightarrow> bool"
  sv_Wakes :: "nat \<Rightarrow> nat \<Rightarrow> wake"
  sv_Disk :: "nat \<Rightarrow> spool_fate"
  sv_BindUpload :: "request \<Rightarrow> createUploadSessionRequest option"
  sv_ValidateUpload :: "createUploadSessionRequest \<Rightarrow> FieldError list"
  sv_BindCreate :: "request \<Rightarrow> createTransferRequest option"
  sv_BindClaim :: "request \<Rightarrow> claimTransferRequest option"
  sv_BindAnswer :: "request \<Rightarrow> transferAnswerRequest option"
  sv_BindDelivery :: "request \<Rightarrow> transferDeliveryRequest option"
  sv_Pings :: "nat \<Rightarrow> bool"
  sv_Version :: string
  sv_Metrics :: "request \<Rightarrow> answer"
  sv_Page :: "request \<Rightarrow> answer"

definition metrics_route :: "Config \<Rightarrow> (request \<Rightarrow> answer) \<Rightarrow> request \<Rightarrow> answer" where
  "metrics_route cfg handler req =
     (if cfg_MetricsToken cfg \<noteq> [] then metricsAuth (cfg_MetricsToken cfg) handler req else handler req)"

text \<open>The handler of an endpoint. A long poll that never returns has no answer.\<close>

fun endpoint_handler :: "'s server \<Rightarrow> nat \<Rightarrow> endpoint \<Rightarrow> request \<Rightarrow> 's world \<Rightarrow> (answer \<times> 's world) option" where
  "endpoint_handler sv n GetMetrics req w = Some (metrics_route (sv_Config sv) (sv_Metrics sv) req, w)"
| "endpoint_handler sv n GetLive req w = Some (Liveness, w)"
| "endpoint_handler sv n GetReady req w = Some (ReadinessWithDB (sv_Pings sv n), w)"
| "endpoint_handler sv n GetVersion req w = Some (VersionHandler (sv_Version sv), w)"
| "endpoint_handler sv n StartRetrievalSession_ep req w = Some (handle_StartRetrievalSession (sv_Env sv n) req w)"
| "endpoint_handler sv n SecretMetadata_ep req w = Some (handle_SecretMetadata (sv_Env sv n) req w)"
| "endpoint_handler sv n RetrieveSecretRange_ep req w = Some (handle_RetrieveSecretRange (sv_Env sv n) req w)"
| "endpoint_handler sv n DeleteSecret_ep req w = Some (handle_DeleteSecret (sv_Env sv n) req w)"
| "endpoint_handler sv n CreateTransfer_ep req w = Some (handle_CreateTransfer (sv_BindCreate sv) (sv_Env sv n) req w)"
| "endpoint_handler sv n ClaimTransfer_ep req w = Some (handle_ClaimTransfer (sv_BindClaim sv) (sv_Env sv n) req w)"
| "endpoint_handler sv n PostAnswer_ep req w = Some (handle_PostAnswer (sv_BindAnswer sv) (sv_Env sv n) req w)"
| "endpoint_handler sv n AwaitAnswer_ep req w = handle_AwaitAnswer (sv_Wakes sv n) (sv_Env sv n) req w"
| "endpoint_handler sv n PostDelivery_ep req w = Some (handle_PostDelivery (sv_BindDelivery sv) (sv_Env sv n) req w)"
| "endpoint_handler sv n AwaitDelivery_ep req w = handle_AwaitDelivery (sv_Wakes sv n) (sv_Env sv n) req w"
| "endpoint_handler sv n CloseTransfer_ep req w = Some (handle_CloseTransfer (sv_Env sv n) req w)"
| "endpoint_handler sv n CreateUploadSession_ep req w =
     Some (handle_CreateUploadSession (sv_BindUpload sv) (sv_ValidateUpload sv) (cfg_MaxFileSize (sv_Config sv)) (sv_Env sv n) req w)"
| "endpoint_handler sv n CompleteUploadSession_ep req w = Some (handle_CompleteUploadSession (sv_Env sv n) req w)"
| "endpoint_handler sv n AbortUploadSession_ep req w = Some (handle_AbortUploadSession (sv_Env sv n) req w)"
| "endpoint_handler sv n UploadPart_ep req w =
     Some (handle_UploadPart (cfg_MaxFileSize (sv_Config sv)) (sv_Disk sv n) (sv_Env sv n) req w)"
| "endpoint_handler sv n GetPage req w = Some (sv_Page sv req, w)"

text \<open>The limits in front of the handler: the rate limit of the group, then the bound on the body.\<close>

definition limit_body :: "int option \<Rightarrow> request \<Rightarrow> err + request" where
  "limit_body bound req =
     (case bound of
        None \<Rightarrow> Inr req
      | Some n \<Rightarrow>
          (if ContentLength req > n then Inl (HTTPError 413 None)
           else Inr (req\<lparr>content := take (nat n) (content req),
                         content_fails := (content_fails req \<or> int (length (content req)) > n)\<rparr>)))"

definition dispatch :: "'s server \<Rightarrow> nat \<Rightarrow> string \<Rightarrow> string \<Rightarrow> request \<Rightarrow> 's world \<Rightarrow> (answer \<times> 's world) option" where
  "dispatch sv n method path req w =
     (case sv_Router sv registerRoutes method path of
        Inl e \<Rightarrow> Some (Inl e, w)
      | Inr (r, bound) \<Rightarrow>
          (if (case rt_RateLimit r of None \<Rightarrow> False | Some rl \<Rightarrow> \<not> sv_Allows sv n rl) then Some (Inr rate_denied, w)
           else (case limit_body (rt_BodyLimit r) (req\<lparr>param := (\<lambda>x. case map_of bound x of Some v \<Rightarrow> v | None \<Rightarrow> [])\<rparr>) of
                   Inl e \<Rightarrow> Some (Inl e, w)
                 | Inr req' \<Rightarrow> endpoint_handler sv n (rt_Endpoint r) req' w)))"

end
