(* ===== verification/Share_Link.thy ===== *)
theory Share_Link
  imports Url Keys
begin

text \<open>
  The links of \<open>internal/share/share.go\<close>: \<open>https://host/s#secret\<close>, for the owner followed by an exclamation mark and
  the deletion token.
\<close>

record Link =
  l_Origin :: string
  l_Secret :: string
  l_DeletionToken :: string

definition link_char :: "char \<Rightarrow> bool" where
  "link_char c \<longleftrightarrow> is_letter c \<or> is_digit c \<or> c = CHR ''_'' \<or> c = CHR ''-''"

definition link_token :: "string \<Rightarrow> bool" where
  "link_token s \<longleftrightarrow> length s = 43 \<and> list_all link_char s"

text \<open>The submatches of \<open>linkFragment\<close>; a group that took no part is the empty string.\<close>

definition linkFragment :: "string \<Rightarrow> (string \<times> string) option" where
  "linkFragment f =
     (if link_token f then Some (f, [])
      else if link_token (take 43 f) \<and> take 1 (drop 43 f) = ''!'' \<and> link_token (drop 44 f) then Some (take 43 f, drop 44 f)
      else None)"

definition ParseLink :: "(string \<Rightarrow> string option) \<Rightarrow> string \<Rightarrow> share_err + Link" where
  "ParseLink parse_Host raw =
     (case url_Parse parse_Host (TrimSpace raw) of
        None \<Rightarrow> Inl ErrNotALink
      | Some u \<Rightarrow>
          (if u_Scheme u \<noteq> ''https'' \<and> u_Scheme u \<noteq> ''http'' \<or> u_Host u = [] \<or> u_Path u \<noteq> ''/s'' then Inl ErrNotALink
           else (case linkFragment (u_Fragment u) of
                   None \<Rightarrow> Inl ErrNotALink
                 | Some (secret, deletion) \<Rightarrow>
                     Inr \<lparr>l_Origin = u_Scheme u @ ''://'' @ u_Host u, l_Secret = secret, l_DeletionToken = deletion\<rparr>)))"

definition IsOwner :: "Link \<Rightarrow> bool" where
  "IsOwner l \<longleftrightarrow> l_DeletionToken l \<noteq> []"

definition Recipient :: "Link \<Rightarrow> Link" where
  "Recipient l = \<lparr>l_Origin = l_Origin l, l_Secret = l_Secret l, l_DeletionToken = []\<rparr>"

definition Link_String :: "Link \<Rightarrow> string" where
  "Link_String l =
     (let s = l_Origin l @ ''/s#'' @ l_Secret l
      in if l_DeletionToken l \<noteq> [] then s @ ''!'' @ l_DeletionToken l else s)"

section \<open>Links read back\<close>

definition well_formed_link :: "Link \<Rightarrow> bool" where
  "well_formed_link l \<longleftrightarrow> link_token (l_Secret l) \<and> (IsOwner l \<longrightarrow> link_token (l_DeletionToken l))"

definition link_text :: "Link \<Rightarrow> string" where
  "link_text l = l_Secret l @ (if IsOwner l then ''!'' @ l_DeletionToken l else [])"

lemma Link_String_text: "Link_String l = l_Origin l @ ''/s#'' @ link_text l"
  by (simp add: Link_String_def link_text_def IsOwner_def)

lemma linkFragment_text: "well_formed_link l \<Longrightarrow> linkFragment (link_text l) = Some (l_Secret l, l_DeletionToken l)"
  by (auto simp: well_formed_link_def link_text_def linkFragment_def link_token_def IsOwner_def)

lemma linkFragment_SomeD:
  "linkFragment f = Some (secret, deletion) \<Longrightarrow> link_token secret \<and> (deletion \<noteq> [] \<longrightarrow> link_token deletion)"
  by (auto simp: linkFragment_def split: if_splits)

lemma link_text_chars: "well_formed_link l \<Longrightarrow> c \<in> set (link_text l) \<Longrightarrow> link_char c \<or> c = CHR ''!''"
  by (auto simp: well_formed_link_def link_text_def link_token_def list_all_iff split: if_splits)

lemma link_char_plain: "link_char c \<or> c = CHR ''!'' \<Longrightarrow> 32 < ord c \<and> ord c < 127 \<and> c \<noteq> CHR ''#'' \<and> c \<noteq> CHR ''%''"
  by (auto simp: link_char_def is_letter_def is_digit_def)

lemma space_runes_ends:
  "list_all (\<lambda>p. p \<noteq> [] \<and> (ord (hd p) \<le> 32 \<or> 128 \<le> ord (hd p)) \<and> (ord (last p) \<le> 32 \<or> 128 \<le> ord (last p))) space_runes"
  by (simp add: space_runes_def upt_rec [of "numeral m" for m])

lemma no_space_prefix:
  assumes "s \<noteq> []" and "32 < ord (hd s)" and "ord (hd s) < 128"
  shows "trim_left s = s"
proof -
  have "\<not> prefix p s" if "p \<in> set space_runes" for p
  proof
    assume "prefix p s"
    moreover have "p \<noteq> []" "ord (hd p) \<le> 32 \<or> 128 \<le> ord (hd p)"
      using that space_runes_ends by (auto simp: list_all_iff)
    ultimately show False using assms by (auto simp: prefix_def)
  qed
  then have "find (\<lambda>p. prefix p s) space_runes = None" by (simp add: find_None_iff)
  then show ?thesis by (simp add: trim_left.simps)
qed

lemma no_space_suffix:
  assumes "s \<noteq> []" and "32 < ord (last s)" and "ord (last s) < 128"
  shows "trim_right s = s"
proof -
  have "\<not> suffix p s" if "p \<in> set space_runes" for p
  proof
    assume "suffix p s"
    moreover have "p \<noteq> []" "ord (last p) \<le> 32 \<or> 128 \<le> ord (last p)"
      using that space_runes_ends by (auto simp: list_all_iff)
    ultimately show False using assms by (auto simp: suffix_def)
  qed
  then have "find (\<lambda>p. suffix p s) space_runes = None" by (simp add: find_None_iff)
  then show ?thesis by (simp add: trim_right.simps)
qed

text \<open>A host as a server's origin has it: printable, without any of the characters that end it in a URL.\<close>

definition plain_host :: "string \<Rightarrow> bool" where
  "plain_host h \<longleftrightarrow>
     h \<noteq> [] \<and> list_all (\<lambda>c. 32 < ord c \<and> ord c < 127 \<and> c \<notin> {CHR ''/'', CHR ''?'', CHR ''#'', CHR ''@'', CHR ''%''}) h"

lemma plain_host_no_hash: "plain_host h \<Longrightarrow> CHR ''#'' \<notin> set h"
  by (simp add: plain_host_def list_all_iff) blast

lemma getScheme_http: "getScheme (''http'' @ ''://'' @ s) = Some (''http'', ''//'' @ s)"
  "getScheme (''https'' @ ''://'' @ s) = Some (''https'', ''//'' @ s)"
  by (simp_all add: getScheme_def is_letter_def is_digit_def)

lemma ToLower_http: "ToLower_ascii ''http'' = ''http''" "ToLower_ascii ''https'' = ''https''"
  by (simp_all add: ToLower_ascii_def)

text \<open>A path without anything that would end it, or be unescaped in it.\<close>

definition plain_path :: "string \<Rightarrow> bool" where
  "plain_path p \<longleftrightarrow> list_all (\<lambda>c. 32 < ord c \<and> ord c < 127 \<and> c \<notin> {CHR ''?'', CHR ''#'', CHR ''%''}) p"

lemma plain_path_append [simp]: "plain_path (p @ q) \<longleftrightarrow> plain_path p \<and> plain_path q"
  by (simp add: plain_path_def)

lemma parse_url_path:
  assumes scheme: "scheme = ''http'' \<or> scheme = ''https''" and host: "plain_host host" "parse_Host host = Some host"
    and path: "plain_path p"
  shows "parse_url parse_Host (scheme @ ''://'' @ host @ ''/'' @ p) =
    Some \<lparr>u_Scheme = scheme, u_Host = host, u_Path = ''/'' @ p, u_Fragment = []\<rparr>"
proof -
  let ?raw = "scheme @ ''://'' @ host @ ''/'' @ p"
  have printable: "list_all (\<lambda>c. 32 < ord c \<and> ord c < 127) host" "list_all (\<lambda>c. 32 < ord c \<and> ord c < 127) p"
    using host(1) path unfolding plain_host_def plain_path_def by (auto elim: list.pred_mono_strong)
  then have "\<not> list_ex (\<lambda>c. ord c < 32 \<or> ord c = 127) host" "\<not> list_ex (\<lambda>c. ord c < 32 \<or> ord c = 127) p"
    by (fastforce simp: list_ex_iff list_all_iff)+
  then have "\<not> list_ex (\<lambda>c. ord c < 32 \<or> ord c = 127) ?raw" using scheme by auto
  moreover have "?raw \<noteq> ''*''" "scheme \<noteq> []" using scheme by auto
  moreover have "getScheme ?raw = Some (scheme, ''//'' @ host @ ''/'' @ p)" "ToLower_ascii scheme = scheme"
    using scheme getScheme_http ToLower_http by auto
  moreover have "CHR ''?'' \<notin> set (''//'' @ host @ ''/'' @ p)"
    using host path by (auto simp: plain_host_def plain_path_def list_all_iff)
  then have "strings_Cut (''//'' @ host @ ''/'' @ p) (CHR ''?'') = (''//'' @ host @ ''/'' @ p, [], False)"
    by (simp only: strings_Cut_def if_False)
  moreover have "takeWhile (\<lambda>c. c \<noteq> CHR ''/'') (host @ ''/'' @ p) = host"
    "dropWhile (\<lambda>c. c \<noteq> CHR ''/'') (host @ ''/'' @ p) = ''/'' @ p"
    using host by (auto simp: plain_host_def list_all_iff takeWhile_append dropWhile_append)
  moreover have "parseAuthority parse_Host host = Some host"
    using host by (auto simp: parseAuthority_def last_at_def plain_host_def list_all_iff)
  moreover have "CHR ''%'' \<notin> set (''/'' @ p)" using path by (auto simp: plain_path_def list_all_iff)
  then have "unescape_percent (''/'' @ p) = Some (''/'' @ p)" by (rule unescape_percent_plain)
  ultimately show ?thesis unfolding parse_url_def by (simp add: prefix_def)
qed

lemmas parse_url_origin = parse_url_path [where p = "''s''", simplified plain_path_def, simplified]

lemma url_Parse_path:
  assumes "scheme = ''http'' \<or> scheme = ''https''" and "plain_host host" and "parse_Host host = Some host" and "plain_path p"
  shows "url_Parse parse_Host (scheme @ ''://'' @ host @ ''/'' @ p) =
    Some \<lparr>u_Scheme = scheme, u_Host = host, u_Path = ''/'' @ p, u_Fragment = []\<rparr>"
proof -
  have "CHR ''#'' \<notin> set p" using assms(4) by (auto simp: plain_path_def list_all_iff)
  then have "CHR ''#'' \<notin> set (scheme @ ''://'' @ host @ ''/'' @ p)"
    using assms(1) plain_host_no_hash [OF assms(2)] by auto
  then have "strings_Cut (scheme @ ''://'' @ host @ ''/'' @ p) (CHR ''#'') = (scheme @ ''://'' @ host @ ''/'' @ p, [], False)"
    by (simp only: strings_Cut_def if_False)
  moreover note parse_url_path [of scheme host parse_Host p]
  ultimately show ?thesis using assms by (simp add: url_Parse_def)
qed

lemma trim_link:
  assumes "scheme = ''http'' \<or> scheme = ''https''" and "well_formed_link l"
  shows "TrimSpace (scheme @ s @ link_text l) = scheme @ s @ link_text l"
proof -
  let ?x = "scheme @ s @ link_text l"
  have ne: "link_text l \<noteq> []" using assms(2) by (auto simp: well_formed_link_def link_text_def link_token_def)
  have "32 < ord (hd ?x) \<and> ord (hd ?x) < 128" using assms(1) by auto
  then have "trim_left ?x = ?x" using ne by (intro no_space_prefix) auto
  moreover have "last ?x \<in> set (link_text l)" using ne by simp
  then have "32 < ord (last ?x) \<and> ord (last ?x) < 127" using link_text_chars [OF assms(2)] link_char_plain by blast
  then have "trim_right ?x = ?x" using ne by (intro no_space_suffix) auto
  ultimately show ?thesis by (simp add: TrimSpace_def)
qed

lemma Link_String_parses:
  assumes scheme: "scheme = ''http'' \<or> scheme = ''https''" and host: "plain_host host" "parse_Host host = Some host"
    and l: "l_Origin l = scheme @ ''://'' @ host" "well_formed_link l"
  shows "ParseLink parse_Host (Link_String l) = Inr l"
proof -
  have shown: "Link_String l = (scheme @ ''://'' @ host @ ''/s'') @ CHR ''#'' # link_text l"
    by (simp add: Link_String_text l(1))
  have "CHR ''#'' \<notin> set (scheme @ ''://'' @ host @ ''/s'')"
    using scheme plain_host_no_hash [OF host(1)] by (elim disjE) simp_all
  from strings_Cut_append [OF this, of "link_text l"]
  have cut: "strings_Cut (Link_String l) (CHR ''#'') = (scheme @ ''://'' @ host @ ''/s'', link_text l, True)"
    by (simp only: shown)
  have "CHR ''%'' \<notin> set (link_text l)" using link_text_chars [OF l(2)] link_char_plain by blast
  then have "unescape_percent (link_text l) = Some (link_text l)" by (rule unescape_percent_plain)
  then have url: "url_Parse parse_Host (Link_String l) =
      Some \<lparr>u_Scheme = scheme, u_Host = host, u_Path = ''/s'', u_Fragment = link_text l\<rparr>"
    using parse_url_origin [of scheme host parse_Host, OF scheme host] cut by (simp add: url_Parse_def)
  have "TrimSpace (Link_String l) = Link_String l"
    using trim_link [OF scheme l(2), of "''://'' @ host @ ''/s#''"] by (simp add: shown)
  then show ?thesis using url scheme host(1) l(1) linkFragment_text [OF l(2)]
    by (auto simp: ParseLink_def plain_host_def)
qed

text \<open>
  Property C38. Links read back as they are printed: the link of a server with an ordinary origin parses to the same
  origin, secret and deletion token, and the link to hand out parses to the same secret without the token that owns it.
\<close>

theorem links_read_back:
  assumes "scheme = ''http'' \<or> scheme = ''https''" and "plain_host host" and "parse_Host host = Some host"
    and "l_Origin l = scheme @ ''://'' @ host" and "well_formed_link l"
  shows "ParseLink parse_Host (Link_String l) = Inr l \<and>
    ParseLink parse_Host (Link_String (Recipient l)) = Inr (Recipient l) \<and> \<not> IsOwner (Recipient l)"
proof -
  have "well_formed_link (Recipient l)" using assms(5) by (simp add: well_formed_link_def Recipient_def IsOwner_def)
  then show ?thesis using assms Link_String_parses [of scheme host parse_Host "Recipient l"] Link_String_parses [of scheme host parse_Host l]
    by (simp add: Recipient_def IsOwner_def)
qed

definition demo_link :: Link where
  "demo_link = \<lparr>l_Origin = ''https://a.b'', l_Secret = replicate 43 (CHR ''x''), l_DeletionToken = replicate 43 (CHR ''y'')\<rparr>"

theorem links_read_back_witness:
  "ParseLink Some (Link_String demo_link) = Inr demo_link \<and>
   ParseLink Some (Link_String (Recipient demo_link)) = Inr (Recipient demo_link)"
  using links_read_back [of "''https''" "''a.b''" Some demo_link]
  by (simp add: demo_link_def plain_host_def well_formed_link_def link_token_def IsOwner_def link_char_def is_letter_def list_all_iff)

section \<open>Parsed links are well formed\<close>

lemma link_char_val: "link_char c \<Longrightarrow> b64_val c \<noteq> None \<and> \<not> is_newline c"
  by (auto simp: link_char_def is_letter_def is_digit_def b64_val_def is_newline_def)

lemma val_link_char: "b64_val c \<noteq> None \<Longrightarrow> link_char c"
proof -
  have "ord c = ord (CHR ''-'') \<Longrightarrow> c = CHR ''-''" "ord c = ord (CHR ''_'') \<Longrightarrow> c = CHR ''_''"
    by (simp_all only: of_char_eq_iff)
  then show "b64_val c \<noteq> None \<Longrightarrow> link_char c"
    by (auto simp: link_char_def is_letter_def is_digit_def b64_val_def split: if_splits)
qed

lemma link_token_iff: "link_token s \<longleftrightarrow> ValidToken s"
  using link_char_val val_link_char
  by (auto simp: link_token_def ValidToken_def TokenLength_def isUnpaddedBase64URL_iff list_all_iff)

lemma link_token_encode_key: "length bs = 32 \<Longrightarrow> link_token (encode_key bs)"
  using ValidToken_encode [of bs] by (auto simp: link_token_iff encode_key_def)

lemma link_token_decodes:
  assumes "link_token s"
  shows "\<exists>b. decodeExact s 32 = Inr b"
proof -
  have "list_all link_char s" "length s = 43" using assms by (simp_all add: link_token_def)
  then have "filter (\<lambda>c. \<not> is_newline c) s = s" by (auto simp: filter_id_conv list_all_iff dest: link_char_val)
  moreover have "\<exists>vs. b64_vals s = Some vs" using \<open>list_all link_char s\<close>
    by (induction s) (auto dest: link_char_val)
  then obtain vs where vs: "b64_vals s = Some vs" by blast
  moreover have "length vs = 43" using b64_vals_length [OF vs] \<open>length s = 43\<close> by simp
  moreover obtain bs where bs: "b64_groups vs = Some bs" using b64_groups_defined [of vs] \<open>length vs = 43\<close> by auto
  moreover have "length bs = 32" using length_b64_groups [OF bs] \<open>length vs = 43\<close> by simp
  ultimately show ?thesis by (simp add: decodeExact_def DecodeString_def)
qed

lemma FromShareSecret_total:
  assumes "link_token s"
  shows "\<exists>k. FromShareSecret prim s password = Inr k"
proof -
  obtain b where b: "decodeExact s 32 = Inr b" using link_token_decodes [OF assms] by blast
  obtain m where "passwordMaterial prim b password = Inr m" using passwordMaterial_total by blast
  then show ?thesis using b build_keys_total [of b b "[]"] build_keys_total [of b m "[]"]
    by (auto simp: FromShareSecret_def ShareSecretLength_def)
qed

text \<open>
  Property C39. Whatever text is accepted as a link is one: its origin is an http or https server, its secret and, if it
  has one, its deletion token are 43 base64url characters, so keys can always be derived from it.
\<close>

theorem parsed_links_are_well_formed:
  assumes "ParseLink parse_Host raw = Inr l"
  shows "well_formed_link l \<and>
    (\<exists>scheme host. (scheme = ''http'' \<or> scheme = ''https'') \<and> host \<noteq> [] \<and> l_Origin l = scheme @ ''://'' @ host) \<and>
    (\<exists>k. FromShareSecret prim (l_Secret l) password = Inr k) \<and>
    (IsOwner l \<longrightarrow> (\<forall>k. \<exists>k'. WithDeletionToken k (l_DeletionToken l) = Inr k'))"
proof -
  from assms obtain u where url: "url_Parse parse_Host (TrimSpace raw) = Some u"
    by (cases "url_Parse parse_Host (TrimSpace raw)") (simp_all add: ParseLink_def)
  with assms have u: "linkFragment (u_Fragment u) = Some (l_Secret l, l_DeletionToken l)"
    "u_Scheme u = ''http'' \<or> u_Scheme u = ''https''" "u_Host u \<noteq> []" "l_Origin l = u_Scheme u @ ''://'' @ u_Host u"
    by (auto simp: ParseLink_def split: option.splits if_splits)
  have tokens: "link_token (l_Secret l)" "IsOwner l \<Longrightarrow> link_token (l_DeletionToken l)"
    using linkFragment_SomeD [OF u(1)] by (auto simp: IsOwner_def)
  then have "\<exists>k'. WithDeletionToken k (l_DeletionToken l) = Inr k'" if "IsOwner l" for k
    using link_token_decodes [of "l_DeletionToken l"] that by (auto simp: WithDeletionToken_def DeletionTokenLength_def)
  then show ?thesis using tokens u FromShareSecret_total [OF tokens(1)] by (auto simp: well_formed_link_def)
qed

theorem parsed_links_are_well_formed_witness:
  "well_formed_link demo_link \<and> (\<exists>k. FromShareSecret open_primitives (l_Secret demo_link) ''pw'' = Inr k)"
proof -
  have "ParseLink Some (Link_String demo_link) = Inr demo_link"
    by (intro Link_String_parses [of "''https''" "''a.b''"])
       (simp_all add: demo_link_def plain_host_def well_formed_link_def link_token_def IsOwner_def link_char_def is_letter_def list_all_iff)
  from parsed_links_are_well_formed [OF this] show ?thesis by blast
qed

end
