(* ===== verification/Api_Calls.thy ===== *)
theory Api_Calls
  imports Api_Client
begin

text \<open>
  The calls of \<open>internal/share/api/client.go\<close> on the loop of \<open>Api_Client\<close>, the story of a secret that is gone, and
  what the retries amount to.
\<close>

section \<open>Secrets that are gone\<close>

text \<open>A key of a decoded map: the last value it was given.\<close>

definition map_key :: "(bytes \<times> jvalue) list \<Rightarrow> string \<Rightarrow> jvalue option" where
  "map_key details name = map_option snd (find (\<lambda>(k, v). k = name) (rev details))"

definition map_string :: "(bytes \<times> jvalue) list \<Rightarrow> string \<Rightarrow> string option" where
  "map_string details name = (case map_key details name of Some (VStr s) \<Rightarrow> Some s | _ \<Rightarrow> None)"

definition map_bool :: "(bytes \<times> jvalue) list \<Rightarrow> string \<Rightarrow> bool" where
  "map_bool details name = (case map_key details name of Some (VBool b) \<Rightarrow> b | _ \<Rightarrow> False)"

definition AsGone :: "share_err \<Rightarrow> Share_Errors.Gone option" where
  "AsGone e =
     (case asApiError e of
        None \<Rightarrow> None
      | Some a \<Rightarrow>
          (case e_Details a of
             None \<Rightarrow> None
           | Some details \<Rightarrow>
               (if e_Status a \<noteq> 410 then None
                else (case (map_string details ''outcome'', map_string details ''ended_at'') of
                  (Some outcome, Some endedAt) \<Rightarrow>
                    (if outcome = [] then None
                     else (case Parse_RFC3339 endedAt of
                             None \<Rightarrow> None
                           | Some ended \<Rightarrow>
                               Some \<lparr>g_Outcome = outcome, g_BurnAfterRead = map_bool details ''burn_after_read'',
                                     g_EndedAt = ended,
                                     g_FirstOpenedAt = Option.bind (map_string details ''first_opened_at'') Parse_RFC3339,
                                     g_OpenedByOwner = map_bool details ''opened_by_owner''\<rparr>))
                | _ \<Rightarrow> None))))"

section \<open>Reading\<close>

record Metadata =
  md_EncryptedMeta :: string
  md_BlobSize :: int
  md_BurnAfterRead :: bool
  md_ExpiresAt :: time
  md_CreatedAt :: time
  md_OpenedAt :: "time option"

text \<open>A field that is a pointer to a string: null makes it nil.\<close>

fun last_pointer :: "bytes option \<Rightarrow> jvalue list \<Rightarrow> bytes option option" where
  "last_pointer acc [] = Some acc"
| "last_pointer acc (VNull # vs) = last_pointer None vs"
| "last_pointer acc (VStr s # vs) = last_pointer (Some s) vs"
| "last_pointer acc (v # vs) = None"

definition pointer_field :: "(bytes \<times> jvalue) list \<Rightarrow> string \<Rightarrow> bytes option option" where
  "pointer_field obj name = last_pointer None (json_values obj name)"

record metadata_body =
  mb_EncryptedMeta :: string
  mb_BlobSize :: int
  mb_BurnAfterRead :: bool
  mb_ExpiresAt :: string
  mb_CreatedAt :: string
  mb_OpenedAt :: "string option"

definition metadata_decode :: "(bytes \<times> jvalue) list \<Rightarrow> metadata_body option" where
  "metadata_decode obj =
     do { m \<leftarrow> string_field obj ''encrypted_meta''; n \<leftarrow> int_field obj ''blob_size''; b \<leftarrow> bool_field obj ''burn_after_read'';
          e \<leftarrow> string_field obj ''expires_at''; c \<leftarrow> string_field obj ''created_at''; p \<leftarrow> pointer_field obj ''opened_at'';
          Some \<lparr>mb_EncryptedMeta = m, mb_BlobSize = n, mb_BurnAfterRead = b, mb_ExpiresAt = e, mb_CreatedAt = c,
                mb_OpenedAt = p\<rparr> }"

definition read_metadata :: "metadata_body \<Rightarrow> share_err + Metadata" where
  "read_metadata out =
     (case Parse_RFC3339 (mb_ExpiresAt out) of
        None \<Rightarrow> Inl (NewErr ''metadata expires_at'')
      | Some expires \<Rightarrow>
          (case Parse_RFC3339 (mb_CreatedAt out) of
             None \<Rightarrow> Inl (NewErr ''metadata created_at'')
           | Some created \<Rightarrow>
               Inr \<lparr>md_EncryptedMeta = mb_EncryptedMeta out, md_BlobSize = mb_BlobSize out,
                    md_BurnAfterRead = mb_BurnAfterRead out, md_ExpiresAt = expires, md_CreatedAt = created,
                    md_OpenedAt = Option.bind (mb_OpenedAt out) Parse_RFC3339\<rparr>))"

definition api_Metadata :: "Client \<Rightarrow> 'x wire \<Rightarrow> string \<Rightarrow> string \<Rightarrow> 'x \<Rightarrow> (share_err + Metadata) \<times> 'x" where
  "api_Metadata c w publicID metadataToken x =
     (case doJSON c w metadata_decode
             \<lparr>rq_Method = ''GET'', rq_Path = ''/api/v1/secrets/'' @ publicID @ ''/meta'',
              rq_Headers = [(headerMetadataToken, metadataToken)], rq_Body = None\<rparr> x of
        (Inl e, x1) \<Rightarrow> (Inl e, x1)
      | (Inr out, x1) \<Rightarrow> (read_metadata out, x1))"

record ClientRetrieval =
  cr_Token :: string
  cr_BlobSize :: int
  cr_ExpiresAt :: time
  cr_BurnAfterRead :: bool

definition session_decode :: "(bytes \<times> jvalue) list \<Rightarrow> (string \<times> int \<times> string \<times> bool) option" where
  "session_decode obj =
     do { t \<leftarrow> string_field obj ''session_token''; n \<leftarrow> int_field obj ''blob_size''; e \<leftarrow> string_field obj ''expires_at'';
          b \<leftarrow> bool_field obj ''burn_after_read''; Some (t, n, e, b) }"

definition api_StartRetrievalSession ::
    "Client \<Rightarrow> 'x wire \<Rightarrow> string \<Rightarrow> string \<Rightarrow> string \<Rightarrow> 'x \<Rightarrow> (share_err + ClientRetrieval) \<times> 'x" where
  "api_StartRetrievalSession c w publicID blobToken deletionToken x =
     (case doJSON c w session_decode
             \<lparr>rq_Method = ''POST'', rq_Path = ''/api/v1/secrets/'' @ publicID @ ''/retrieval-session'',
              rq_Headers = (headerBlobToken, blobToken) #
                (if deletionToken \<noteq> [] then [(headerDeletionToken, deletionToken)] else []), rq_Body = None\<rparr> x of
        (Inl e, x1) \<Rightarrow> (Inl e, x1)
      | (Inr (token, blobSize, expiresAt, burn), x1) \<Rightarrow>
          (case Parse_RFC3339 expiresAt of
             None \<Rightarrow> (Inl (NewErr ''session expires_at''), x1)
           | Some expires \<Rightarrow>
               (Inr \<lparr>cr_Token = token, cr_BlobSize = blobSize, cr_ExpiresAt = expires, cr_BurnAfterRead = burn\<rparr>, x1)))"

text \<open>
  \<open>ReadRange\<close> reads one byte more than it asked for, to see an answer that is too long; an error behind that byte is not
  met.
\<close>

definition api_ReadRange :: "Client \<Rightarrow> 'x wire \<Rightarrow> string \<Rightarrow> string \<Rightarrow> int \<Rightarrow> int \<Rightarrow> 'x \<Rightarrow> (share_err + bytes) \<times> 'x" where
  "api_ReadRange c w publicID sessionToken start stop x =
     (case api_do c w
             \<lparr>rq_Method = ''GET'', rq_Path = ''/api/v1/secrets/'' @ publicID @ ''/blob'',
              rq_Headers = [(''Authorization'', ''Bearer '' @ sessionToken),
                            (''Range'', ''bytes='' @ FormatInt start @ ''-'' @ FormatInt stop)], rq_Body = None\<rparr> x of
        (Inl e, x1) \<Rightarrow> (Inl e, x1)
      | (Inr resp, x1) \<Rightarrow>
          (if hr_Status resp \<noteq> 206
           then (Inl (ApiErr \<lparr>e_Status = hr_Status resp,
                   e_Message = ''expected a partial content answer, got '' @ FormatInt (hr_Status resp),
                   e_RequestID = hr_Header resp headerRequestID, e_RetryAfter = [], e_Details = None\<rparr>), x1)
           else
             (let limit = nat (int64 (stop - start + 2));
                  data = take limit (hr_Body resp)
              in case (if length (hr_Body resp) < limit then hr_BodyErr resp else None) of
                   Some msg \<Rightarrow> (Inl (ApiErr \<lparr>e_Status = 0, e_Message = msg, e_RequestID = [], e_RetryAfter = [],
                                             e_Details = None\<rparr>), x1)
                 | None \<Rightarrow>
                     (if int (length data) \<noteq> int64 (stop - start + 1)
                      then (Inl (ApiErr \<lparr>e_Status = hr_Status resp, e_Message = ''range answer has the wrong size'',
                              e_RequestID = [], e_RetryAfter = [], e_Details = None\<rparr>), x1)
                      else (Inr data, x1)))))"

definition api_Delete :: "Client \<Rightarrow> 'x wire \<Rightarrow> string \<Rightarrow> string \<Rightarrow> string \<Rightarrow> 'x \<Rightarrow> share_err option \<times> 'x" where
  "api_Delete c w publicID metadataToken deletionToken x =
     doJSON_discard c w
       \<lparr>rq_Method = ''DELETE'', rq_Path = ''/api/v1/secrets/'' @ publicID,
        rq_Headers = [(headerMetadataToken, metadataToken), (headerDeletionToken, deletionToken)], rq_Body = None\<rparr> x"

section \<open>Uploading\<close>

record UploadRequest =
  ur_PublicID :: string
  ur_MetadataToken :: string
  ur_BlobToken :: string
  ur_DeletionToken :: string
  ur_EncryptedMeta :: string
  ur_Expiration :: string
  ur_BurnAfterRead :: bool
  ur_BlobSize :: int

record ClientUpload =
  cu_ID :: string
  cu_Token :: string
  cu_PublicID :: string
  cu_PartSize :: int
  cu_BlobSize :: int
  cu_ExpiresAt :: time

definition UploadRequest_Marshal :: "UploadRequest \<Rightarrow> bytes" where
  "UploadRequest_Marshal r =
     json_object
       [(''public_id'', json_string (ur_PublicID r)), (''metadata_token'', json_string (ur_MetadataToken r)),
        (''blob_token'', json_string (ur_BlobToken r)), (''deletion_token'', json_string (ur_DeletionToken r)),
        (''encrypted_meta'', json_string (ur_EncryptedMeta r)), (''expiration'', json_string (ur_Expiration r)),
        (''burn_after_read'', json_bool (ur_BurnAfterRead r)), (''blob_size'', FormatInt (ur_BlobSize r))]"

definition upload_decode :: "(bytes \<times> jvalue) list \<Rightarrow> (string \<times> string \<times> string \<times> int \<times> int \<times> string) option" where
  "upload_decode obj =
     do { i \<leftarrow> string_field obj ''session_id''; t \<leftarrow> string_field obj ''upload_token''; p \<leftarrow> string_field obj ''public_id'';
          ps \<leftarrow> int_field obj ''part_size''; bs \<leftarrow> int_field obj ''blob_size''; e \<leftarrow> string_field obj ''expires_at'';
          Some (i, t, p, ps, bs, e) }"

definition api_StartUpload :: "Client \<Rightarrow> 'x wire \<Rightarrow> UploadRequest \<Rightarrow> 'x \<Rightarrow> (share_err + ClientUpload) \<times> 'x" where
  "api_StartUpload c w r x =
     (case doJSON c w upload_decode
             \<lparr>rq_Method = ''POST'', rq_Path = ''/api/v1/secrets/uploads'', rq_Headers = [(''Content-Type'', ''application/json'')],
              rq_Body = Some (UploadRequest_Marshal r)\<rparr> x of
        (Inl e, x1) \<Rightarrow> (Inl e, x1)
      | (Inr (sid, token, publicID, partSize, blobSize, expiresAt), x1) \<Rightarrow>
          (case Parse_RFC3339 expiresAt of
             None \<Rightarrow> (Inl (NewErr ''upload expires_at''), x1)
           | Some expires \<Rightarrow>
               (Inr \<lparr>cu_ID = sid, cu_Token = token, cu_PublicID = publicID, cu_PartSize = partSize, cu_BlobSize = blobSize,
                     cu_ExpiresAt = expires\<rparr>, x1)))"

definition api_UploadPart ::
    "Client \<Rightarrow> 'x wire \<Rightarrow> string \<Rightarrow> string \<Rightarrow> int \<Rightarrow> int \<Rightarrow> bytes \<Rightarrow> string \<Rightarrow> 'x \<Rightarrow> share_err option \<times> 'x" where
  "api_UploadPart c w sessionID token partNumber offset data sha256Hex x =
     doJSON_discard c w
       \<lparr>rq_Method = ''PUT'',
        rq_Path = ''/api/v1/secrets/uploads/'' @ sessionID @ ''/parts/'' @ FormatInt partNumber,
        rq_Headers = [(''Authorization'', ''Bearer '' @ token), (''Content-Type'', ''application/octet-stream''),
                      (headerPartOffset, FormatInt offset), (headerPartSize, FormatInt (int (length data))),
                      (headerPartSHA256, sha256Hex)],
        rq_Body = Some data\<rparr> x"

definition api_CompleteUpload :: "Client \<Rightarrow> 'x wire \<Rightarrow> string \<Rightarrow> string \<Rightarrow> 'x \<Rightarrow> (share_err + time) \<times> 'x" where
  "api_CompleteUpload c w sessionID token x =
     (case doJSON c w (\<lambda>obj. string_field obj ''expires_at'')
             \<lparr>rq_Method = ''POST'', rq_Path = ''/api/v1/secrets/uploads/'' @ sessionID @ ''/complete'',
              rq_Headers = [(''Authorization'', ''Bearer '' @ token)], rq_Body = None\<rparr> x of
        (Inl e, x1) \<Rightarrow> (Inl e, x1)
      | (Inr expiresAt, x1) \<Rightarrow>
          (case Parse_RFC3339 expiresAt of
             None \<Rightarrow> (Inl (NewErr ''complete expires_at''), x1)
           | Some expires \<Rightarrow> (Inr expires, x1)))"

definition api_AbortUpload :: "Client \<Rightarrow> 'x wire \<Rightarrow> string \<Rightarrow> string \<Rightarrow> 'x \<Rightarrow> share_err option \<times> 'x" where
  "api_AbortUpload c w sessionID token x =
     doJSON_discard c w
       \<lparr>rq_Method = ''DELETE'', rq_Path = ''/api/v1/secrets/uploads/'' @ sessionID,
        rq_Headers = [(''Authorization'', ''Bearer '' @ token)], rq_Body = None\<rparr> x"

end
