(* ===== verification/Share_Ops.thy ===== *)
theory Share_Ops
  imports Share_Upload Share_Link Api_Calls
begin

text \<open>
  The operations of \<open>internal/share/share.go\<close> over the API client: making a secret, describing, opening and deleting
  one. The randomness of the keys and nonces is one \<open>rng\<close>, drawn from in the order of the code. The goroutines
  that send the parts of an upload call the client one after another, in the order \<open>order\<close> puts the parts in; once a
  call has failed, the context they share has ended and the others send nothing more. Progress callbacks only observe
  and are left out.
\<close>

section \<open>Describing errors\<close>

definition describeLookupError :: "share_err \<Rightarrow> share_err" where
  "describeLookupError e =
     (case AsGone e of
        Some gone \<Rightarrow> GoneErr gone
      | None \<Rightarrow> (if IsStatus e 404 then NotFoundErr else if IsStatus e 403 then ErrLinkMismatch else e))"

definition describeReadError :: "share_err \<Rightarrow> share_err" where
  "describeReadError e =
     (if IsStatus e 403 then NewErr ''the download window has closed; open the link again''
      else if share_Is e ErrDecrypt
      then NewErr ''the data does not decrypt with this link: it was damaged in storage or in transit''
      else e)"

definition describeUploadError :: "share_err \<Rightarrow> share_err" where
  "describeUploadError e =
     (case asApiError e of
        None \<Rightarrow> e
      | Some a \<Rightarrow>
          (if e_Status a = 400 \<and> sublist ''maximum size'' (e_Message a) then ErrTooLarge
           else if e_Status a = 429
           then NewErr ''the server is rate limiting this address; wait a minute and try again''
           else e))"

definition GoneErr_text :: "Share_Errors.Gone \<Rightarrow> string" where
  "GoneErr_text g = ''this secret is gone: '' @ g_Outcome g"

section \<open>Describing a secret\<close>

datatype Kind = KindText | KindFiles

record Info =
  in_Kind :: Kind
  in_BundleName :: string
  in_PasswordProtected :: bool
  in_Reusable :: bool
  in_EncryptedSize :: int
  in_ExpiresAt :: time
  in_CreatedAt :: time
  in_OpenedAt :: "time option"

definition Inspect :: "primitives \<Rightarrow> Client \<Rightarrow> 'x wire \<Rightarrow> Link \<Rightarrow> 'x \<Rightarrow> (share_err + Info) \<times> 'x" where
  "Inspect prim c w link x =
     (case FromShareSecret prim (l_Secret link) [] of
        Inl e \<Rightarrow> (Inl e, x)
      | Inr base \<Rightarrow>
          (case api_Metadata c w (en_PublicID (Encoded base)) (en_MetadataToken (Encoded base)) x of
             (Inl e, x1) \<Rightarrow> (Inl (describeLookupError e), x1)
           | (Inr meta, x1) \<Rightarrow>
               (case DecryptMeta prim base (md_EncryptedMeta meta) of
                  Inl e \<Rightarrow> (Inl ErrLinkMismatch, x1)
                | Inr clientMeta \<Rightarrow>
                    (Inr \<lparr>in_Kind = (if m_Type clientMeta = ''text'' then KindText else KindFiles),
                          in_BundleName = m_BundleName clientMeta, in_PasswordProtected = m_PasswordProtected clientMeta,
                          in_Reusable = (\<not> md_BurnAfterRead meta), in_EncryptedSize = md_BlobSize meta,
                          in_ExpiresAt = md_ExpiresAt meta, in_CreatedAt = md_CreatedAt meta,
                          in_OpenedAt = md_OpenedAt meta\<rparr>, x1))))"

section \<open>Opening a secret\<close>

text \<open>A sink on a state \<open>'w\<close>: what takes a text, makes the writer of a file with its \<open>Close\<close>, and may look at the manifest.\<close>

record 'w sink =
  sk_Text :: "bytes \<Rightarrow> 'w \<Rightarrow> share_err option \<times> 'w"
  sk_File :: "File \<Rightarrow> 'w \<Rightarrow> (share_err + 'w writer \<times> ('w \<Rightarrow> share_err option \<times> 'w)) \<times> 'w"
  sk_Manifest :: "(Manifest \<Rightarrow> 'w \<Rightarrow> share_err option \<times> 'w) option"

text \<open>The loop over the files.\<close>

fun open_files ::
    "primitives \<Rightarrow> 'x fetcher \<Rightarrow> KeySet \<Rightarrow> bool \<Rightarrow> 'w sink \<Rightarrow> File list \<Rightarrow> 'x \<times> 'w \<Rightarrow> share_err option \<times> 'x \<times> 'w" where
  "open_files prim cached ks as_text sink [] (x, v) = (None, x, v)"
| "open_files prim cached ks as_text sink (f # fs) (x, v) =
     (if as_text then
        (case DecryptFile prim cached ks f append_writer (x, []) of
           (Some e, x1, buf) \<Rightarrow> (Some (describeReadError e), x1, v)
         | (None, x1, buf) \<Rightarrow>
             (case sk_Text sink buf v of
                (Some e, v1) \<Rightarrow> (Some e, x1, v1)
              | (None, v1) \<Rightarrow> open_files prim cached ks as_text sink fs (x1, v1)))
      else
        (case sk_File sink f v of
           (Inl e, v1) \<Rightarrow> (Some e, x, v1)
         | (Inr (write, close), v1) \<Rightarrow>
             (case DecryptFile prim cached ks f write (x, v1) of
                (Some e, x1, v2) \<Rightarrow> (Some (describeReadError e), x1, snd (close v2))
              | (None, x1, v2) \<Rightarrow>
                  (case close v2 of
                     (Some e, v3) \<Rightarrow> (Some e, x1, v3)
                   | (None, v3) \<Rightarrow> open_files prim cached ks as_text sink fs (x1, v3)))))"

record Opened =
  op_Info :: Info
  op_Manifest :: Manifest

text \<open>\<open>spare\<close> is what lies behind the bytes of an answer in the memory they were read into.\<close>

definition range_fetcher :: "Client \<Rightarrow> 'x wire \<Rightarrow> (bytes \<Rightarrow> bytes) \<Rightarrow> string \<Rightarrow> string \<Rightarrow> 'x fetcher" where
  "range_fetcher c w spare publicID token start stop x =
     (case api_ReadRange c w publicID token start stop x of
        (Inl e, x1) \<Rightarrow> (Inl e, x1)
      | (Inr bs, x1) \<Rightarrow> (Inr (bs, spare bs), x1))"

text \<open>What \<open>Open\<close> does in an open session.\<close>

definition read_secret ::
    "primitives \<Rightarrow> Client \<Rightarrow> 'x wire \<Rightarrow> (bytes \<Rightarrow> bytes) \<Rightarrow> KeySet \<Rightarrow> Info \<Rightarrow> ClientRetrieval \<Rightarrow> 'w sink \<Rightarrow> 'x \<times> 'w \<Rightarrow>
       (share_err + Opened) \<times> 'x \<times> 'w" where
  "read_secret prim c w spare blobKeys info session sink xv =
     (case CachingFetcher (range_fetcher c w spare (en_PublicID (Encoded blobKeys)) (cr_Token session)) (cr_BlobSize session) (fst xv) of
        (Inl e, x1) \<Rightarrow> (Inl (describeReadError e), x1, snd xv)
      | (Inr cached, x1) \<Rightarrow>
          (case ReadManifest prim cached blobKeys (cr_BlobSize session) x1 of
             (Inl e, x2) \<Rightarrow> (Inl (describeReadError e), x2, snd xv)
           | (Inr manifest, x2) \<Rightarrow>
               (case (case sk_Manifest sink of None \<Rightarrow> (None, snd xv) | Some look \<Rightarrow> look manifest (snd xv)) of
                  (Some e, v1) \<Rightarrow> (Inl e, x2, v1)
                | (None, v1) \<Rightarrow>
                    (case open_files prim cached blobKeys (in_Kind info = KindText \<and> length (mf_Files manifest) = 1) sink
                            (mf_Files manifest) (x2, v1) of
                       (Some e, x3, v2) \<Rightarrow> (Inl e, x3, v2)
                     | (None, x3, v2) \<Rightarrow> (Inr \<lparr>op_Info = info, op_Manifest = manifest\<rparr>, x3, v2)))))"

definition share_Open ::
    "primitives \<Rightarrow> Client \<Rightarrow> 'x wire \<Rightarrow> (bytes \<Rightarrow> bytes) \<Rightarrow> Link \<Rightarrow> string \<Rightarrow> 'w sink \<Rightarrow> 'x \<times> 'w \<Rightarrow>
       (share_err + Opened) \<times> 'x \<times> 'w" where
  "share_Open prim c w spare link password sink xv =
     (case Inspect prim c w link (fst xv) of
        (Inl e, x1) \<Rightarrow> (Inl e, x1, snd xv)
      | (Inr info, x1) \<Rightarrow>
          (if in_PasswordProtected info \<and> password = [] then (Inl ErrPasswordRequired, x1, snd xv)
           else
             (case FromShareSecret prim (l_Secret link) (if in_PasswordProtected info then password else []) of
                Inl e \<Rightarrow> (Inl e, x1, snd xv)
              | Inr blobKeys \<Rightarrow>
                  (case api_StartRetrievalSession c w (en_PublicID (Encoded blobKeys)) (en_BlobToken (Encoded blobKeys))
                          (l_DeletionToken link) x1 of
                     (Inr session, x2) \<Rightarrow> read_secret prim c w spare blobKeys info session sink (x2, snd xv)
                   | (Inl e, x2) \<Rightarrow>
                       (if IsStatus e 403 \<and> in_PasswordProtected info then (Inl ErrWrongPassword, x2, snd xv)
                        else if IsStatus e 403 then (Inl ErrLinkMismatch, x2, snd xv)
                        else if IsStatus e 404 then
                          (case Inspect prim c w link x2 of
                             (Inl lookErr, x3) \<Rightarrow> (Inl lookErr, x3, snd xv)
                           | (Inr again, x3) \<Rightarrow> (Inl NotFoundErr, x3, snd xv))
                        else (Inl e, x2, snd xv))))))"

section \<open>Deleting a secret\<close>

definition share_Delete :: "primitives \<Rightarrow> Client \<Rightarrow> 'x wire \<Rightarrow> Link \<Rightarrow> 'x \<Rightarrow> share_err option \<times> 'x" where
  "share_Delete prim c w link x =
     (if \<not> IsOwner link then (Some ErrNotOwner, x)
      else (case FromShareSecret prim (l_Secret link) [] of
              Inl e \<Rightarrow> (Some e, x)
            | Inr base \<Rightarrow>
                (case api_Delete c w (en_PublicID (Encoded base)) (en_MetadataToken (Encoded base)) (l_DeletionToken link) x of
                   (None, x1) \<Rightarrow> (None, x1)
                 | (Some e, x1) \<Rightarrow>
                     (if IsStatus e 403 then (Some ErrLinkMismatch, x1) else (Some (describeLookupError e), x1)))))"

section \<open>Making a secret\<close>

definition MaxEncryptedUploadBytes :: int where "MaxEncryptedUploadBytes = 1024 * 1024 * 1024"
definition textFileName :: string where "textFileName = ''secret.txt''"

definition Expirations :: "string list" where
  "Expirations = [''5m'', ''10m'', ''15m'', ''1h'', ''4h'', ''12h'', ''1d'', ''3d'', ''7d'']"

definition DefaultExpiration :: string where "DefaultExpiration = ''1d''"

definition ValidExpiration :: "string \<Rightarrow> bool" where
  "ValidExpiration s \<longleftrightarrow> s \<in> set Expirations"

record Params =
  pr_Files :: "Source list"
  pr_Text :: bytes
  pr_Expiration :: string
  pr_Reusable :: bool
  pr_Password :: string

record Result =
  re_Link :: Link
  re_ExpiresAt :: time
  re_Kind :: Kind
  re_Size :: int
  re_Names :: "string list"
  re_Reusable :: bool
  re_PasswordProtected :: bool

text \<open>The source of a text: \<open>bytes.NewReader\<close>.\<close>

definition text_source :: "bytes \<Rightarrow> Source" where
  "text_source txt =
     \<lparr>src_Name = textFileName, src_Path = [], src_Type = ''text/plain'', src_Size = int (length txt),
      src_ReadAt = (\<lambda>offset n. if offset < 0 then ([], ReadFailed)
        else (let got = take (nat n) (drop (nat offset) txt)
              in (got, if offset \<ge> int (length txt) \<or> int (length got) < n then ReadEOF else ReadOk)))\<rparr>"

text \<open>The goroutines of the parts, one after another until one fails.\<close>

fun send_parts :: "Client \<Rightarrow> 'x wire \<Rightarrow> ClientUpload \<Rightarrow> SentPart list \<Rightarrow> 'x \<Rightarrow> share_err option \<times> 'x" where
  "send_parts c w session [] x = (None, x)"
| "send_parts c w session (p # ps) x =
     (case api_UploadPart c w (cu_ID session) (cu_Token session) (sp_Number p) (sp_Offset p) (sp_Data p) (sp_SHA256 p) x of
        (Some e, x1) \<Rightarrow> (Some (describeUploadError e), x1)
      | (None, x1) \<Rightarrow> send_parts c w session ps x1)"

text \<open>
  \<open>upload\<close>. When the encryption fails the parts that were handed over are still being sent; when the context has ended
  their error is the one that is reported.
\<close>

definition upload ::
    "Client \<Rightarrow> 'x wire \<Rightarrow> primitives \<Rightarrow> rng \<Rightarrow> (nat \<Rightarrow> bool) \<Rightarrow> (SentPart list \<Rightarrow> SentPart list) \<Rightarrow> ClientUpload \<Rightarrow> Plan \<Rightarrow>
       Source list \<Rightarrow> KeySet \<Rightarrow> 'x \<Rightarrow> (share_err + time) \<times> 'x" where
  "upload c w prim rng stopped order session plan sources blobKeys x =
     (case cut_bundle prim rng stopped (cu_PartSize session) plan sources blobKeys of
        (failed, parts) \<Rightarrow>
          (case send_parts c w session (order parts) x of
             (sent, x1) \<Rightarrow>
               (case failed of
                  Some e \<Rightarrow> (Inl (if e = ContextErr then (case sent of Some werr \<Rightarrow> werr | None \<Rightarrow> e) else e), x1)
                | None \<Rightarrow>
                    (case sent of
                       Some werr \<Rightarrow> (Inl werr, x1)
                     | None \<Rightarrow>
                         (case api_CompleteUpload c w (cu_ID session) (cu_Token session) x1 of
                            (Inl e, x2) \<Rightarrow> (Inl (describeUploadError e), x2)
                          | (Inr expiresAt, x2) \<Rightarrow> (Inr expiresAt, x2))))))"

text \<open>What is shared: the kind of the secret and its sources.\<close>

definition share_sources :: "Params \<Rightarrow> share_err + Kind \<times> Source list" where
  "share_sources p =
     (if pr_Files p \<noteq> [] then Inr (KindFiles, pr_Files p)
      else if pr_Text p = [] then Inl ErrNothingToShare
      else Inr (KindText, [text_source (pr_Text p)]))"

text \<open>
  Everything \<open>Share\<close> prepares before it calls the server: the keys, the layout and the request. The random draws are two
  for the keys, one for the nonce of the metadata, and those of the records behind them.
\<close>

record prepared =
  pp_Kind :: Kind
  pp_Sources :: "Source list"
  pp_Base :: KeySet
  pp_BlobKeys :: KeySet
  pp_Plan :: Plan
  pp_Request :: UploadRequest

definition prepare :: "primitives \<Rightarrow> rng \<Rightarrow> Params \<Rightarrow> share_err + prepared" where
  "prepare prim rng p =
     (let expiration = (if pr_Expiration p = [] then DefaultExpiration else pr_Expiration p)
      in if \<not> ValidExpiration expiration then Inl (NewErr (''expiry is not one of 5m, 10m, 15m, 1h, 4h, 12h, 1d, 3d, 7d''))
         else (case share_sources p of Inl e \<Rightarrow> Inl e
      | Inr (kind, sources) \<Rightarrow>
         (if EstimateEncryptedSize (map src_Size sources) > MaxEncryptedUploadBytes then Inl ErrTooLarge
          else (case Generate rng of Inl e \<Rightarrow> Inl e
      | Inr base \<Rightarrow>
         (case WithPassword prim base (pr_Password p) of Inl e \<Rightarrow> Inl e
      | Inr blobKeys \<Rightarrow>
         (let bundleName = DefaultBundleName (map src_Name sources)
          in case NewPlan sources bundleName of Inl e \<Rightarrow> Inl e
      | Inr plan \<Rightarrow>
         (case EncryptMeta prim rng 2 base
                 \<lparr>m_Type = (if kind = KindText then ''text'' else ''bundle''),
                  m_PasswordProtected = (pr_Password p \<noteq> []), m_BundleName = bundleName\<rparr> of Inl e \<Rightarrow> Inl e
      | Inr encryptedMeta \<Rightarrow>
         (let enc = Encoded base
          in Inr \<lparr>pp_Kind = kind, pp_Sources = sources, pp_Base = base, pp_BlobKeys = blobKeys, pp_Plan = plan,
                  pp_Request = \<lparr>ur_PublicID = en_PublicID enc, ur_MetadataToken = en_MetadataToken enc,
                    ur_BlobToken = en_BlobToken (Encoded blobKeys), ur_DeletionToken = en_DeletionToken enc,
                    ur_EncryptedMeta = encryptedMeta, ur_Expiration = expiration, ur_BurnAfterRead = (\<not> pr_Reusable p),
                    ur_BlobSize = pl_TotalSize plan\<rparr>\<rparr>))))))))"

text \<open>\<open>Share\<close>; the abort has a context of its own, hence a wire of its own.\<close>

definition Share ::
    "primitives \<Rightarrow> rng \<Rightarrow> Client \<Rightarrow> 'x wire \<Rightarrow> 'x wire \<Rightarrow> (nat \<Rightarrow> bool) \<Rightarrow> (SentPart list \<Rightarrow> SentPart list) \<Rightarrow> Params \<Rightarrow> 'x \<Rightarrow>
       (share_err + Result) \<times> 'x" where
  "Share prim rng c w abort_wire stopped order p x =
     (case prepare prim rng p of
        Inl e \<Rightarrow> (Inl e, x)
      | Inr r \<Rightarrow>
          (case api_StartUpload c w (pp_Request r) x of
             (Inl e, x1) \<Rightarrow> (Inl (describeUploadError e), x1)
           | (Inr session, x1) \<Rightarrow>
               (case upload c w prim (\<lambda>i. rng (i + 3)) stopped order session (pp_Plan r) (pp_Sources r) (pp_BlobKeys r) x1 of
                  (Inl e, x2) \<Rightarrow> (Inl e, snd (api_AbortUpload c abort_wire (cu_ID session) (cu_Token session) x2))
                | (Inr expiresAt, x2) \<Rightarrow>
                    (Inr \<lparr>re_Link = \<lparr>l_Origin = cl_BaseURL c, l_Secret = en_ShareSecret (Encoded (pp_Base r)),
                            l_DeletionToken = en_DeletionToken (Encoded (pp_Base r))\<rparr>,
                          re_ExpiresAt = expiresAt, re_Kind = pp_Kind r,
                          re_Size = foldl (\<lambda>total s. int64 (total + src_Size s)) 0 (pp_Sources r),
                          re_Names = map src_Name (pp_Sources r), re_Reusable = pr_Reusable p,
                          re_PasswordProtected = (pr_Password p \<noteq> [])\<rparr>, x2))))"

end
