(* ===== verification/Site.thy ===== *)
theory Site
  imports Routes Share_Ops
begin

text \<open>
  The client and the server together: the server of \<open>Routes\<close> as the wire of the API client. A request that reaches the
  origin is dispatched, and what the handler answers is written as \<open>c.JSON\<close>, \<open>c.NoContent\<close> and the error handler write it.
  The members of an object are written in the order they are listed; the code writes those of a map in the order of their
  keys, which makes no difference to a reader.
\<close>

section \<open>Answers on the wire\<close>

fun server_value :: "json \<Rightarrow> jvalue" where
  "server_value (JStr s) = VStr s"
| "server_value (JInt i) = VNum (FormatInt i)"
| "server_value (JBool b) = VBool b"
| "server_value (JTime t) = VStr (Format_RFC3339 t)"
| "server_value (JList vs) = VArr (map server_value vs)"
| "server_value (JObj fs) = VObj (map (\<lambda>(name, v). (name, server_value v)) fs)"

text \<open>\<open>Header.Get\<close>: names compare without case.\<close>

definition Header_Get :: "(string \<times> string) list \<Rightarrow> string \<Rightarrow> string" where
  "Header_Get hs name =
     (case find (\<lambda>(k, v). ToLower_ascii k = ToLower_ascii name) hs of Some (k, v) \<Rightarrow> v | None \<Rightarrow> [])"

definition written_answer :: "answer \<Rightarrow> response" where
  "written_answer a = (case a of Inl e \<Rightarrow> httpErrorHandler e | Inr r \<Rightarrow> r)"

definition written_body :: "response \<Rightarrow> bytes" where
  "written_body r = (case body r of Some v \<Rightarrow> json_text (server_value v) @ [chr 10] | None \<Rightarrow> blob r)"

text \<open>Echo's \<open>RequestID\<close> gives the answer the id of the request, \<open>securityHeaders\<close> the headers of every answer.\<close>

definition response_of :: "http_request \<Rightarrow> answer \<Rightarrow> http_response" where
  "response_of q a =
     (let r = written_answer a
      in \<lparr>hr_Status = int (status r),
          hr_Header = Header_Get ((''X-Request-ID'', Header_Get (hq_Headers q) ''X-Request-ID'') # securityHeaders @ headers r),
          hr_Body = written_body r, hr_BodyErr = None\<rparr>)"

definition site_request :: "http_request \<Rightarrow> request" where
  "site_request q =
     \<lparr>param = (\<lambda>_. []), header = Header_Get (hq_Headers q), query = (\<lambda>_. []), ContentLength = hq_ContentLength q,
      content = (case hq_Body q of Some bs \<Rightarrow> bs | None \<Rightarrow> []), content_fails = False\<rparr>"

text \<open>
  The wire: the state counts the requests the server has seen. The client's context does not end, and its requests have no
  query.
\<close>

definition site_wire :: "'s server \<Rightarrow> string \<Rightarrow> (string \<Rightarrow> string option) \<Rightarrow> (nat \<Rightarrow> bytes option \<times> time) \<Rightarrow> (nat \<times> 's world) wire" where
  "site_wire sv origin parse_Host ids =
     \<lparr>wi_Do = (\<lambda>q (n, w).
        if take (length origin) (hq_URL q) \<noteq> origin then (NoAnswer ''no such host'', n, w)
        else (case dispatch sv n (hq_Method q) (drop (length origin) (hq_URL q)) (site_request q) w of
                None \<Rightarrow> (NoAnswer ''no answer'', Suc n, w)
              | Some (a, w1) \<Rightarrow> (Answered (response_of q a), Suc n, w1))),
      wi_Done = (\<lambda>_. False), wi_Sleep = (\<lambda>d x. (True, x)), wi_Random = (\<lambda>(n, w). (fst (ids n), snd (ids n), n, w)),
      wi_Host = parse_Host\<rparr>"

lemma site_wire_simps [simp]:
  "wi_Done (site_wire sv origin parse_Host ids) x = False"
  "wi_Random (site_wire sv origin parse_Host ids) (n, w) = (fst (ids n), snd (ids n), n, w)"
  "wi_Host (site_wire sv origin parse_Host ids) = parse_Host"
  by (simp_all add: site_wire_def)

section \<open>Header names\<close>

lemma ToLower_names [simp]:
  "ToLower_ascii ''X-Metadata-Token'' = ''x-metadata-token''" "ToLower_ascii ''X-Blob-Token'' = ''x-blob-token''"
  "ToLower_ascii ''X-Deletion-Token'' = ''x-deletion-token''" "ToLower_ascii ''X-Request-ID'' = ''x-request-id''"
  "ToLower_ascii ''Authorization'' = ''authorization''" "ToLower_ascii ''Range'' = ''range''"
  "ToLower_ascii ''User-Agent'' = ''user-agent''" "ToLower_ascii ''Content-Type'' = ''content-type''"
  "ToLower_ascii ''X-Part-Offset'' = ''x-part-offset''" "ToLower_ascii ''X-Part-Size'' = ''x-part-size''"
  "ToLower_ascii ''X-Part-SHA256'' = ''x-part-sha256''" "ToLower_ascii ''Retry-After'' = ''retry-after''"
  by code_simp+

lemma Header_Get_simps [simp]:
  "Header_Get [] name = []"
  "Header_Get ((k, v) # hs) name = (if ToLower_ascii k = ToLower_ascii name then v else Header_Get hs name)"
  by (simp_all add: Header_Get_def)

section \<open>The way of a request\<close>

lemma registered_splits [simp]:
  "strings_Split ''/metrics'' (CHR ''/'') = [[], ''metrics'']"
  "strings_Split ''/api/v1/health/live'' (CHR ''/'') = [[], ''api'', ''v1'', ''health'', ''live'']"
  "strings_Split ''/api/v1/health/ready'' (CHR ''/'') = [[], ''api'', ''v1'', ''health'', ''ready'']"
  "strings_Split ''/api/v1/version'' (CHR ''/'') = [[], ''api'', ''v1'', ''version'']"
  "strings_Split ''/api/v1/secrets/:publicID/retrieval-session'' (CHR ''/'') =
     [[], ''api'', ''v1'', ''secrets'', '':publicID'', ''retrieval-session'']"
  "strings_Split ''/api/v1/secrets/:publicID/meta'' (CHR ''/'') = [[], ''api'', ''v1'', ''secrets'', '':publicID'', ''meta'']"
  "strings_Split ''/api/v1/secrets/:publicID/blob'' (CHR ''/'') = [[], ''api'', ''v1'', ''secrets'', '':publicID'', ''blob'']"
  "strings_Split ''/api/v1/secrets/:publicID'' (CHR ''/'') = [[], ''api'', ''v1'', ''secrets'', '':publicID'']"
  "strings_Split ''/api/v1/transfers'' (CHR ''/'') = [[], ''api'', ''v1'', ''transfers'']"
  "strings_Split ''/api/v1/transfers/claim'' (CHR ''/'') = [[], ''api'', ''v1'', ''transfers'', ''claim'']"
  "strings_Split ''/api/v1/transfers/:transferID/answer'' (CHR ''/'') = [[], ''api'', ''v1'', ''transfers'', '':transferID'', ''answer'']"
  "strings_Split ''/api/v1/transfers/:transferID/delivery'' (CHR ''/'') = [[], ''api'', ''v1'', ''transfers'', '':transferID'', ''delivery'']"
  "strings_Split ''/api/v1/transfers/:transferID'' (CHR ''/'') = [[], ''api'', ''v1'', ''transfers'', '':transferID'']"
  "strings_Split ''/api/v1/secrets/uploads'' (CHR ''/'') = [[], ''api'', ''v1'', ''secrets'', ''uploads'']"
  "strings_Split ''/api/v1/secrets/uploads/:sessionID/complete'' (CHR ''/'') =
     [[], ''api'', ''v1'', ''secrets'', ''uploads'', '':sessionID'', ''complete'']"
  "strings_Split ''/api/v1/secrets/uploads/:sessionID'' (CHR ''/'') = [[], ''api'', ''v1'', ''secrets'', ''uploads'', '':sessionID'']"
  "strings_Split ''/api/v1/secrets/uploads/:sessionID/parts/:partNumber'' (CHR ''/'') =
     [[], ''api'', ''v1'', ''secrets'', ''uploads'', '':sessionID'', ''parts'', '':partNumber'']"
  "strings_Split ''/*'' (CHR ''/'') = [[], ''*'']"
  by code_simp+

lemma segment_split:
  assumes "CHR ''/'' \<notin> set s"
  shows "strings_Split (''/api/v1/secrets/'' @ s) (CHR ''/'') = [[], ''api'', ''v1'', ''secrets'', s]"
    "strings_Split (''/api/v1/secrets/'' @ s @ CHR ''/'' # rest) (CHR ''/'') =
       [[], ''api'', ''v1'', ''secrets'', s] @ strings_Split rest (CHR ''/'')"
    "strings_Split (''/api/v1/secrets/uploads/'' @ s) (CHR ''/'') = [[], ''api'', ''v1'', ''secrets'', ''uploads'', s]"
    "strings_Split (''/api/v1/secrets/uploads/'' @ s @ CHR ''/'' # rest) (CHR ''/'') =
       [[], ''api'', ''v1'', ''secrets'', ''uploads'', s] @ strings_Split rest (CHR ''/'')"
  using assms by (simp_all add: strings_Split_append strings_Split_no_sep)

lemmas route_defs = registerRoutes_def matches_def bind_path_def match_any_def open_route_def limited_route_def

lemma secret_routes:
  assumes "pid \<noteq> []"
  shows "strings_Split p (CHR ''/'') = [[], ''api'', ''v1'', ''secrets'', pid, ''meta''] \<Longrightarrow>
      filter (\<lambda>r. matches r ''GET'' p \<and> \<not> match_any r) registerRoutes =
        [limited_route ''GET'' 30 ''/api/v1/secrets/:publicID/meta'' SecretMetadata_ep]"
    "strings_Split p (CHR ''/'') = [[], ''api'', ''v1'', ''secrets'', pid, ''blob''] \<Longrightarrow>
      filter (\<lambda>r. matches r ''GET'' p \<and> \<not> match_any r) registerRoutes =
        [limited_route ''GET'' 600 ''/api/v1/secrets/:publicID/blob'' RetrieveSecretRange_ep]"
    "strings_Split p (CHR ''/'') = [[], ''api'', ''v1'', ''secrets'', pid, ''retrieval-session''] \<Longrightarrow>
      filter (\<lambda>r. matches r ''POST'' p \<and> \<not> match_any r) registerRoutes =
        [limited_route ''POST'' 30 ''/api/v1/secrets/:publicID/retrieval-session'' StartRetrievalSession_ep]"
    "strings_Split p (CHR ''/'') = [[], ''api'', ''v1'', ''secrets'', pid] \<Longrightarrow>
      filter (\<lambda>r. matches r ''DELETE'' p \<and> \<not> match_any r) registerRoutes =
        [limited_route ''DELETE'' 30 ''/api/v1/secrets/:publicID'' DeleteSecret_ep]"
  using assms by (simp_all add: route_defs)

lemma client_routes:
  assumes "echo_router find_route" and "CHR ''/'' \<notin> set pid" and "pid \<noteq> []"
  shows "find_route registerRoutes ''GET'' (''/api/v1/secrets/'' @ pid @ ''/meta'') =
      Inr (limited_route ''GET'' 30 ''/api/v1/secrets/:publicID/meta'' SecretMetadata_ep, [(''publicID'', pid)])"
    "find_route registerRoutes ''GET'' (''/api/v1/secrets/'' @ pid @ ''/blob'') =
      Inr (limited_route ''GET'' 600 ''/api/v1/secrets/:publicID/blob'' RetrieveSecretRange_ep, [(''publicID'', pid)])"
    "find_route registerRoutes ''POST'' (''/api/v1/secrets/'' @ pid @ ''/retrieval-session'') =
      Inr (limited_route ''POST'' 30 ''/api/v1/secrets/:publicID/retrieval-session'' StartRetrievalSession_ep, [(''publicID'', pid)])"
    "find_route registerRoutes ''DELETE'' (''/api/v1/secrets/'' @ pid) =
      Inr (limited_route ''DELETE'' 30 ''/api/v1/secrets/:publicID'' DeleteSecret_ep, [(''publicID'', pid)])"
proof -
  have found: "find_route routes meth p = Inr (r, bound)"
    if "filter (\<lambda>r'. matches r' meth p \<and> \<not> match_any r') routes = [r]" "bind_path r p = Some bound" for routes meth p r bound
    using assms(1) that by (simp add: echo_router_def)
  have meta: "strings_Split (''/api/v1/secrets/'' @ pid @ ''/meta'') (CHR ''/'') = [[], ''api'', ''v1'', ''secrets'', pid, ''meta'']"
    and blob: "strings_Split (''/api/v1/secrets/'' @ pid @ ''/blob'') (CHR ''/'') = [[], ''api'', ''v1'', ''secrets'', pid, ''blob'']"
    and open': "strings_Split (''/api/v1/secrets/'' @ pid @ ''/retrieval-session'') (CHR ''/'') =
      [[], ''api'', ''v1'', ''secrets'', pid, ''retrieval-session'']"
    and delete: "strings_Split (''/api/v1/secrets/'' @ pid) (CHR ''/'') = [[], ''api'', ''v1'', ''secrets'', pid]"
    using segment_split(1) [OF assms(2)] segment_split(2) [OF assms(2), of "''meta''"] segment_split(2) [OF assms(2), of "''blob''"]
      segment_split(2) [OF assms(2), of "''retrieval-session''"] by simp_all
  show "find_route registerRoutes ''GET'' (''/api/v1/secrets/'' @ pid @ ''/meta'') =
      Inr (limited_route ''GET'' 30 ''/api/v1/secrets/:publicID/meta'' SecretMetadata_ep, [(''publicID'', pid)])"
    by (rule found [OF secret_routes(1) [OF assms(3) meta]]) (simp only: bind_path_def meta, simp add: limited_route_def assms(3))
  show "find_route registerRoutes ''GET'' (''/api/v1/secrets/'' @ pid @ ''/blob'') =
      Inr (limited_route ''GET'' 600 ''/api/v1/secrets/:publicID/blob'' RetrieveSecretRange_ep, [(''publicID'', pid)])"
    by (rule found [OF secret_routes(2) [OF assms(3) blob]]) (simp only: bind_path_def blob, simp add: limited_route_def assms(3))
  show "find_route registerRoutes ''POST'' (''/api/v1/secrets/'' @ pid @ ''/retrieval-session'') =
      Inr (limited_route ''POST'' 30 ''/api/v1/secrets/:publicID/retrieval-session'' StartRetrievalSession_ep, [(''publicID'', pid)])"
    by (rule found [OF secret_routes(3) [OF assms(3) open']]) (simp only: bind_path_def open', simp add: limited_route_def assms(3))
  show "find_route registerRoutes ''DELETE'' (''/api/v1/secrets/'' @ pid) =
      Inr (limited_route ''DELETE'' 30 ''/api/v1/secrets/:publicID'' DeleteSecret_ep, [(''publicID'', pid)])"
    by (rule found [OF secret_routes(4) [OF assms(3) delete]]) (simp only: bind_path_def delete, simp add: limited_route_def assms(3))
qed

end
