(* ===== verification/Site_Wire.thy ===== *)
theory Site_Wire
  imports Site Api_Retry
begin

text \<open>
  What a client call comes to when its wire is the server: one request, one handler, and the values of the answer as the
  client decodes them.
\<close>

section \<open>Answers decoded\<close>

lemma fold_answer_words [simp]:
  "fold_name ''encrypted_meta'' = ''ENCRYPTED_META''" "fold_name ''blob_size'' = ''BLOB_SIZE''"
  "fold_name ''burn_after_read'' = ''BURN_AFTER_READ''" "fold_name ''expires_at'' = ''EXPIRES_AT''"
  "fold_name ''created_at'' = ''CREATED_AT''" "fold_name ''opened_at'' = ''OPENED_AT''"
  "fold_name ''session_token'' = ''SESSION_TOKEN''" "fold_name ''error'' = ''ERROR''" "fold_name ''details'' = ''DETAILS''"
  "fold_name ''public_id'' = ''PUBLIC_ID''" "fold_name ''session_id'' = ''SESSION_ID''"
  "fold_name ''upload_token'' = ''UPLOAD_TOKEN''" "fold_name ''part_size'' = ''PART_SIZE''"
  "fold_name ''upload_expires_at'' = ''UPLOAD_EXPIRES_AT''"
  by code_simp+

lemma FormatInt_ascii: "list_all (\<lambda>c. ord c < 128) (FormatInt i)"
proof -
  have "list_all (\<lambda>c. ord c < 128) (nat_digits n)" for n
    using nat_digits_value [of n] by (auto simp: is_digit_def elim: list.pred_mono_strong)
  then show ?thesis by (simp add: FormatInt_def)
qed

lemma two_digits_ascii: "list_all (\<lambda>c. ord c < 128) (two_digits n)"
proof -
  have "m mod 10 < 80" for m :: nat by (rule less_le_trans [of _ 10]) simp_all
  then show ?thesis by (simp add: two_digits_def)
qed

lemma Format_RFC3339_ascii: "list_all (\<lambda>c. ord c < 128) (Format_RFC3339 t)"
  using two_digits_ascii by (simp add: Format_RFC3339_def four_digits_def Let_def split: prod.split)

lemma int64_parse [simp]: "- 9223372036854775808 \<le> i \<Longrightarrow> i \<le> 9223372036854775807 \<Longrightarrow> ParseInt (FormatInt i) = Some i"
  by (simp add: ParseInt_FormatInt)

text \<open>The second a time is written to.\<close>

definition whole_second :: "time \<Rightarrow> time" where
  "whole_second t = t div 1000000000 * 1000000000"

definition printable_time :: "time \<Rightarrow> bool" where
  "printable_time t \<longleftrightarrow> 0 \<le> t \<and> t < 253402300800 * 1000000000"

lemma printed_time: "printable_time t \<Longrightarrow> Parse_RFC3339 (Format_RFC3339 t) = Some (whole_second t)"
  by (simp add: printable_time_def whole_second_def Parse_Format_RFC3339)

lemma utf8_time [simp]: "valid_utf8 (Format_RFC3339 t)"
  by (rule valid_utf8_ascii, rule Format_RFC3339_ascii)

lemma newline_stops: "number_stop [chr 10]"
proof -
  have "ord (chr 10) = 10" by simp
  then have "chr 10 \<noteq> CHR ''.''" "chr 10 \<noteq> CHR ''e''" "chr 10 \<noteq> CHR ''E''"
    by (auto dest: arg_cong [where f = ord])
  then show ?thesis by (simp add: number_stop_def is_digit_def)
qed

lemma written_value_decodes:
  assumes "writable maxNestingDepth (server_value v)"
  shows "json_Decode (written_body (JSON code v)) = Some (server_value v)"
  using json_Decode_text [OF assms newline_stops] by (simp add: written_body_def JSON_def)

text \<open>The metadata of a secret as the client reads it.\<close>

definition metadata_of :: "Secret \<Rightarrow> Metadata" where
  "metadata_of s =
     \<lparr>md_EncryptedMeta = s_EncryptedMeta s, md_BlobSize = s_BlobSize s, md_BurnAfterRead = s_BurnAfterRead s,
      md_ExpiresAt = whole_second (s_ExpiresAt s), md_CreatedAt = whole_second (s_CreatedAt s),
      md_OpenedAt = map_option whole_second (s_RetrievedAt s)\<rparr>"

definition printable_secret :: "Secret \<Rightarrow> bool" where
  "printable_secret s \<longleftrightarrow>
     valid_utf8 (s_EncryptedMeta s) \<and> - 9223372036854775808 \<le> s_BlobSize s \<and> s_BlobSize s \<le> 9223372036854775807 \<and>
     printable_time (s_ExpiresAt s) \<and> printable_time (s_CreatedAt s) \<and> (\<forall>t. s_RetrievedAt s = Some t \<longrightarrow> printable_time t)"

lemma metadata_decodes:
  assumes "printable_secret s"
  shows "\<exists>out. Option.bind (json_Decode (written_body (JSON 200 (SecretMetadataResponse s)))) (as_struct metadata_decode) = Some out \<and>
    read_metadata out = Inr (metadata_of s)"
proof -
  have "writable maxNestingDepth (server_value (SecretMetadataResponse s))"
    using assms by (auto simp: SecretMetadataResponse_def printable_secret_def maxNestingDepth_def valid_utf8_ascii split: option.split)
  from written_value_decodes [OF this] show ?thesis using assms
    by (cases "s_RetrievedAt s")
       (simp_all add: SecretMetadataResponse_def metadata_decode_def field_defs pointer_field_def read_metadata_def
         printable_secret_def printed_time metadata_of_def)
qed

lemma session_decodes:
  assumes "valid_utf8 token" and "- 9223372036854775808 \<le> n" and "n \<le> 9223372036854775807"
  shows "Option.bind (json_Decode (written_body (JSON 201 (JObj [(''session_token'', JStr token), (''blob_size'', JInt n),
      (''expires_at'', JTime t), (''burn_after_read'', JBool b)])))) (as_struct session_decode) =
    Some (token, n, Format_RFC3339 t, b)"
proof -
  have "writable maxNestingDepth (server_value (JObj [(''session_token'', JStr token), (''blob_size'', JInt n),
      (''expires_at'', JTime t), (''burn_after_read'', JBool b)]))"
    using assms by (auto simp: maxNestingDepth_def valid_utf8_ascii)
  from written_value_decodes [OF this] show ?thesis using assms by (simp add: session_decode_def field_defs)
qed

section \<open>A call is one request\<close>

text \<open>The wire of a client of this server, whose origin is an ordinary one and whose rate limiters let every request through.\<close>

record 's site =
  st_Server :: "'s server"
  st_Client :: Client
  st_Host :: "string \<Rightarrow> string option"
  st_Ids :: "nat \<Rightarrow> bytes option \<times> time"

definition wire_of :: "'s site \<Rightarrow> (nat \<times> 's world) wire" where
  "wire_of st = site_wire (st_Server st) (cl_BaseURL (st_Client st)) (st_Host st) (st_Ids st)"

definition serving :: "'s site \<Rightarrow> bool" where
  "serving st \<longleftrightarrow>
     echo_router (sv_Router (st_Server st)) \<and> (\<forall>n rl. sv_Allows (st_Server st) n rl) \<and>
     (\<exists>scheme host. (scheme = ''http'' \<or> scheme = ''https'') \<and> plain_host host \<and> st_Host st host = Some host \<and>
        cl_BaseURL (st_Client st) = scheme @ ''://'' @ host)"

definition sent_request :: "'s site \<Rightarrow> nat \<Rightarrow> call \<Rightarrow> http_request" where
  "sent_request st n rq = build_request (st_Client st) rq (newRequestID (fst (st_Ids st n)) (snd (st_Ids st n)))"

definition answered :: "'s site \<Rightarrow> nat \<Rightarrow> call \<Rightarrow> 's world \<Rightarrow> answer \<Rightarrow> 's world \<Rightarrow> bool" where
  "answered st n rq w a w1 \<longleftrightarrow>
     dispatch (st_Server st) n (rq_Method rq) (rq_Path rq) (site_request (sent_request st n rq)) w = Some (a, w1)"

lemma served_url:
  assumes "serving st" and "path = CHR ''/'' # p" and "plain_path p"
  shows "url_Parse (st_Host st) (cl_BaseURL (st_Client st) @ path) \<noteq> None"
proof -
  obtain scheme host where origin: "scheme = ''http'' \<or> scheme = ''https''" "plain_host host" "st_Host st host = Some host"
    and base: "cl_BaseURL (st_Client st) = scheme @ ''://'' @ host"
    using assms(1) unfolding serving_def by blast
  have "cl_BaseURL (st_Client st) @ path = scheme @ ''://'' @ host @ ''/'' @ p" using base assms(2) by simp
  then show ?thesis using url_Parse_path [of scheme host "st_Host st" p] origin assms(3) by simp
qed

lemma do_once_served:
  assumes "serving st" and "rq_Path rq = CHR ''/'' # p" and "plain_path p" and "answered st n rq w a w1"
  shows "do_once (st_Client st) (wire_of st) rq (n, w) =
    (let resp = response_of (sent_request st n rq) a
     in (if 200 \<le> hr_Status resp \<and> hr_Status resp < 300 then Inr resp
         else Inl (ApiErr (request_failed resp (newRequestID (fst (st_Ids st n)) (snd (st_Ids st n)))))), Suc n, w1)"
  using assms(4) served_url [OF assms(1-3)]
  by (simp add: do_once_def wire_of_def site_wire_def answered_def sent_request_def build_request_def Let_def)

lemma api_do_served:
  assumes "serving st" and "rq_Path rq = CHR ''/'' # p" and "plain_path p" and "answered st n rq w a w1"
    and code: "hr_Status (response_of (sent_request st n rq) a) = code" and final: "\<not> transient code"
  shows "api_do (st_Client st) (wire_of st) rq (n, w) =
    (if 200 \<le> code \<and> code < 300 then Inr (response_of (sent_request st n rq) a)
     else Inl (ApiErr (request_failed (response_of (sent_request st n rq) a) (newRequestID (fst (st_Ids st n)) (snd (st_Ids st n))))),
     Suc n, w1)"
  using do_once_served [OF assms(1-4)] final code
  by (simp add: api_do_def MaxTransientAttempts_def numeral_3_eq_3 wire_of_def Let_def request_failed_fields transient_def)

section \<open>Requests about a secret\<close>

definition path_segment :: "string \<Rightarrow> bool" where
  "path_segment s \<longleftrightarrow> s \<noteq> [] \<and> CHR ''/'' \<notin> set s \<and> plain_path s"

definition at_secret :: "string \<Rightarrow> request \<Rightarrow> request" where
  "at_secret pid req = req\<lparr>param := (\<lambda>x. case map_of [(''publicID'', pid)] x of Some v \<Rightarrow> v | None \<Rightarrow> [])\<rparr>"

lemma at_secret_simps [simp]:
  "param (at_secret pid req) ''publicID'' = pid" "header (at_secret pid req) = header req"
  by (simp_all add: at_secret_def)

abbreviation handled_request :: "'s site \<Rightarrow> nat \<Rightarrow> string \<Rightarrow> call \<Rightarrow> request" where
  "handled_request st n pid rq \<equiv> at_secret pid (site_request (sent_request st n rq))"

lemma limit_body_empty: "rq_Body rq = None \<Longrightarrow>
    limit_body (Some smallRequestBodyLimit) (handled_request st n pid rq) = Inr (handled_request st n pid rq)"
  by (simp add: limit_body_def smallRequestBodyLimit_def at_secret_def site_request_def sent_request_def build_request_def body_length_def)

lemma dispatch_secret:
  assumes "serving st" and "path_segment pid" and "rq_Body rq = None"
  shows "rq_Method rq = ''GET'' \<Longrightarrow> rq_Path rq = ''/api/v1/secrets/'' @ pid @ ''/meta'' \<Longrightarrow>
      answered st n rq w a w1 \<longleftrightarrow> handle_SecretMetadata (sv_Env (st_Server st) n) (handled_request st n pid rq) w = (a, w1)"
    "rq_Method rq = ''GET'' \<Longrightarrow> rq_Path rq = ''/api/v1/secrets/'' @ pid @ ''/blob'' \<Longrightarrow>
      answered st n rq w a w1 \<longleftrightarrow> handle_RetrieveSecretRange (sv_Env (st_Server st) n) (handled_request st n pid rq) w = (a, w1)"
    "rq_Method rq = ''POST'' \<Longrightarrow> rq_Path rq = ''/api/v1/secrets/'' @ pid @ ''/retrieval-session'' \<Longrightarrow>
      answered st n rq w a w1 \<longleftrightarrow> handle_StartRetrievalSession (sv_Env (st_Server st) n) (handled_request st n pid rq) w = (a, w1)"
    "rq_Method rq = ''DELETE'' \<Longrightarrow> rq_Path rq = ''/api/v1/secrets/'' @ pid \<Longrightarrow>
      answered st n rq w a w1 \<longleftrightarrow> handle_DeleteSecret (sv_Env (st_Server st) n) (handled_request st n pid rq) w = (a, w1)"
proof -
  have router: "echo_router (sv_Router (st_Server st))" and allows: "\<And>n rl. sv_Allows (st_Server st) n rl"
    using assms(1) by (auto simp: serving_def)
  have pid: "CHR ''/'' \<notin> set pid" "pid \<noteq> []" using assms(2) by (simp_all add: path_segment_def)
  have go: "answered st n rq w a w1 \<longleftrightarrow> endpoint_handler (st_Server st) n ep (handled_request st n pid rq) w = Some (a, w1)"
    if "sv_Router (st_Server st) registerRoutes (rq_Method rq) (rq_Path rq) = Inr (limited_route m lim p ep, [(''publicID'', pid)])"
    for m lim p ep
  proof -
    have "rt_BodyLimit (limited_route m lim p ep) = Some smallRequestBodyLimit" "rt_Endpoint (limited_route m lim p ep) = ep"
      by (simp_all add: limited_route_def)
    then show ?thesis using allows limit_body_empty [OF assms(3), of pid st n]
      by (simp add: answered_def dispatch_def that limited_route_def at_secret_def)
  qed
  note routes = client_routes [OF router pid]
  show "rq_Method rq = ''GET'' \<Longrightarrow> rq_Path rq = ''/api/v1/secrets/'' @ pid @ ''/meta'' \<Longrightarrow>
      answered st n rq w a w1 \<longleftrightarrow> handle_SecretMetadata (sv_Env (st_Server st) n) (handled_request st n pid rq) w = (a, w1)"
    by (subst go [OF trans [OF _ routes(1)]]) simp_all
  show "rq_Method rq = ''GET'' \<Longrightarrow> rq_Path rq = ''/api/v1/secrets/'' @ pid @ ''/blob'' \<Longrightarrow>
      answered st n rq w a w1 \<longleftrightarrow> handle_RetrieveSecretRange (sv_Env (st_Server st) n) (handled_request st n pid rq) w = (a, w1)"
    by (subst go [OF trans [OF _ routes(2)]]) simp_all
  show "rq_Method rq = ''POST'' \<Longrightarrow> rq_Path rq = ''/api/v1/secrets/'' @ pid @ ''/retrieval-session'' \<Longrightarrow>
      answered st n rq w a w1 \<longleftrightarrow> handle_StartRetrievalSession (sv_Env (st_Server st) n) (handled_request st n pid rq) w = (a, w1)"
    by (subst go [OF trans [OF _ routes(3)]]) simp_all
  show "rq_Method rq = ''DELETE'' \<Longrightarrow> rq_Path rq = ''/api/v1/secrets/'' @ pid \<Longrightarrow>
      answered st n rq w a w1 \<longleftrightarrow> handle_DeleteSecret (sv_Env (st_Server st) n) (handled_request st n pid rq) w = (a, w1)"
    by (subst go [OF trans [OF _ routes(4)]]) simp_all
qed

lemma secret_paths_plain:
  assumes "path_segment pid"
  shows "\<exists>p. ''/api/v1/secrets/'' @ pid @ ''/meta'' = CHR ''/'' # p \<and> plain_path p"
    "\<exists>p. ''/api/v1/secrets/'' @ pid @ ''/blob'' = CHR ''/'' # p \<and> plain_path p"
    "\<exists>p. ''/api/v1/secrets/'' @ pid @ ''/retrieval-session'' = CHR ''/'' # p \<and> plain_path p"
    "\<exists>p. ''/api/v1/secrets/'' @ pid = CHR ''/'' # p \<and> plain_path p"
  using assms by (simp_all add: path_segment_def plain_path_def)

section \<open>How long an answer is\<close>

lemma json_rune_length: "length (fst (json_rune c cs)) + 6 * length (snd (json_rune c cs)) \<le> 6 + 6 * length cs"
  by (auto simp: json_rune_def Let_def escape_ascii_def simp del: utf8_size.simps)

lemma json_escape_length: "length (json_escape s) \<le> 6 * length s"
proof (induction s rule: json_escape.induct)
  case (2 c cs)
  then show ?case using json_rune_length [of c cs] by simp
qed simp

fun text_bound :: "jvalue \<Rightarrow> nat" where
  "text_bound VNull = 4"
| "text_bound (VBool b) = 5"
| "text_bound (VNum s) = length s"
| "text_bound (VStr s) = 6 * length s + 2"
| "text_bound (VArr vs) = 2 + sum_list (map (\<lambda>v. text_bound v + 1) vs)"
| "text_bound (VObj fs) = 2 + sum_list (map (\<lambda>(name, v). 6 * length name + text_bound v + 4) fs)"

lemma json_commas_bound: "length (json_commas xs) \<le> sum_list (map (\<lambda>x. length x + 1) xs)"
  by (induction xs rule: json_commas.induct) simp_all

lemma json_text_bound: "length (json_text v) \<le> text_bound v"
proof (induction v)
  case (VArr vs)
  have "sum_list (map (\<lambda>v. length (json_text v) + 1) vs) \<le> sum_list (map (\<lambda>v. text_bound v + 1) vs)"
    using VArr.IH by (intro sum_list_mono) simp
  then show ?case using json_commas_bound [of "map json_text vs"] by (simp add: json_array_def o_def)
next
  case (VObj fs)
  have "sum_list (map (\<lambda>(name, v). length (json_string name) + length (json_text v) + 2) fs) \<le>
      sum_list (map (\<lambda>(name, v). 6 * length name + text_bound v + 4) fs)"
    using VObj.IH json_escape_length
    by (intro sum_list_mono) (auto simp: json_string_def split_beta intro!: add_mono intro: Basic_BNFs.snds.intros)
  moreover have "length (json_text (VObj fs)) = 2 + length (json_commas (map (\<lambda>(name, v). json_string name @ CHR '':'' # json_text v) fs))"
    by (simp add: json_object_def split_def o_def)
  ultimately show ?case
    using json_commas_bound [of "map (\<lambda>(name, v). json_string name @ CHR '':'' # json_text v) fs"]
    by (simp add: o_def split_def)
qed (use json_escape_length in \<open>auto simp: json_bool_def json_string_def\<close>)

lemma length_Format_RFC3339 [simp]: "length (Format_RFC3339 t) = 20"
  by (simp add: Format_RFC3339_def four_digits_def two_digits_def Let_def split: prod.split)

section \<open>What became of a secret\<close>

definition gone_of :: "SecretTombstone \<Rightarrow> Share_Errors.Gone" where
  "gone_of tomb =
     \<lparr>g_Outcome = outcome_string (tb_Outcome tomb), g_BurnAfterRead = tb_BurnAfterRead tomb,
      g_EndedAt = whole_second (tb_EndedAt tomb), g_FirstOpenedAt = map_option whole_second (tb_FirstOpenedAt tomb),
      g_OpenedByOwner = tb_OpenedByOwner tomb\<rparr>"

definition printable_tombstone :: "SecretTombstone \<Rightarrow> bool" where
  "printable_tombstone tomb \<longleftrightarrow> printable_time (tb_EndedAt tomb) \<and> (\<forall>t. tb_FirstOpenedAt tomb = Some t \<longrightarrow> printable_time t)"

lemma outcome_string_facts [simp]:
  "outcome_string o' \<noteq> []" "length (outcome_string o') \<le> 7" "valid_utf8 (outcome_string o')"
  by (cases o'; simp)+

lemma gone_payload:
  assumes "printable_tombstone tomb"
  shows "error_payload (written_body (httpErrorHandler (GoneError ''secret is gone'' (tombstoneDetails tomb)))) =
    Some (''secret is gone'', Some (map (\<lambda>(k, v). (k, server_value v)) (tombstoneDetails tomb)))"
proof -
  let ?v = "ErrorResponse ''secret is gone'' (tombstoneDetails tomb)"
  have body: "httpErrorHandler (GoneError ''secret is gone'' (tombstoneDetails tomb)) = JSON 410 ?v"
    by (simp add: app_error_defs httpErrorHandler_def)
  have shape: "tombstoneDetails tomb \<noteq> []" by (simp add: tombstoneDetails_def)
  have "text_bound (server_value ?v) \<le> 65000"
    using le_trans [OF outcome_string_facts(2) [of "tb_Outcome tomb"]]
    by (cases "tb_FirstOpenedAt tomb") (simp_all add: ErrorResponse_def tombstoneDetails_def)
  then have short: "length (written_body (JSON 410 ?v)) \<le> 65536"
    using json_text_bound [of "server_value ?v"] by (simp add: written_body_def JSON_def)
  have "writable maxNestingDepth (server_value ?v)"
    by (cases "tb_FirstOpenedAt tomb") (simp_all add: ErrorResponse_def tombstoneDetails_def maxNestingDepth_def)
  from written_value_decodes [OF this, of 410] show ?thesis
    unfolding error_payload_def body using short shape
    by (simp add: ErrorResponse_def field_defs)
qed

lemma AsGone_tombstone:
  assumes "printable_tombstone tomb" and "e_Status a = 410"
    and "e_Details a = Some (map (\<lambda>(k, v). (k, server_value v)) (tombstoneDetails tomb))"
  shows "AsGone (ApiErr a) = Some (gone_of tomb)"
  using assms
  by (cases "tb_FirstOpenedAt tomb")
     (simp_all add: AsGone_def tombstoneDetails_def map_string_def map_bool_def map_key_def printable_tombstone_def printed_time
       gone_of_def)

end
