(* ===== verification/Sink.thy ===== *)
theory Sink
  imports Share_Ops Bundle_Roundtrip
begin

text \<open>
  What a sink has to do for the files of a secret to arrive: the contract between \<open>Open\<close> and the writers it is given, and
  what \<open>Open\<close> does with a sink that keeps it.
\<close>

section \<open>Writers\<close>

lemma append_writerD: "append_writer bs w = (r, w1) \<Longrightarrow> r = None \<and> w1 = w @ bs"
  by simp

locale faithful_writer =
  fixes wr :: "'w writer" and shows_bytes :: "bytes \<Rightarrow> 'w \<Rightarrow> bool"
  assumes writes: "shows_bytes buf v \<Longrightarrow> \<exists>v1. wr bs v = (None, v1) \<and> shows_bytes (buf @ bs) v1"
begin

lemma chunks_go_through:
  assumes "decrypt_chunks prim ks i enc cursor cs append_writer buf = (None, buf1)" and "shows_bytes buf v"
  shows "\<exists>v1. decrypt_chunks prim ks i enc cursor cs wr v = (None, v1) \<and> shows_bytes buf1 v1"
  using assms
proof (induction cs arbitrary: cursor buf v)
  case (Cons c cs)
  obtain rec pt where step: "reslice enc cursor (int64 (cursor + c_Length c)) = Some rec"
      "DecryptRecord prim ks (fst rec) (ChunkAAD i (c_Index c) (c_PlaintextSize c)) = Inr pt"
      "int (length pt) = c_PlaintextSize c"
    and rest: "decrypt_chunks prim ks i enc (int64 (cursor + c_Length c)) cs append_writer (buf @ pt) = (None, buf1)"
    using Cons.prems(1)
    by (auto dest!: append_writerD simp del: append_writer_simp split: option.splits sum.splits if_splits prod.splits)
  obtain v2 where v2: "wr pt v = (None, v2)" "shows_bytes (buf @ pt) v2" using writes [OF Cons.prems(2)] by blast
  from Cons.IH [OF rest v2(2)] show ?case using step v2(1) by simp
qed simp

lemma groups_written:
  assumes "decrypt_groups prim fetch ks i cs append_writer (st, buf) = (None, st1, buf1)" and "shows_bytes buf v"
  shows "\<exists>v1. decrypt_groups prim fetch ks i cs wr (st, v) = (None, st1, v1) \<and> shows_bytes buf1 v1"
  using assms
proof (induction "length cs" arbitrary: cs st buf v rule: less_induct)
  case less
  show ?case
  proof (cases cs)
    case (Cons c cs')
    let ?group = "fst (coalesce (c_PlaintextSize c) cs')" and ?rest = "snd (coalesce (c_PlaintextSize c) cs')"
    obtain enc st2 buf2 where fetched: "fetch (c_Offset c) (int64 (c_Offset c + int64 (int64 (c_Offset (last (c # ?group)) + c_Length (last (c # ?group))) - c_Offset c) - 1)) st = (Inr enc, st2)"
        "int (length (fst enc)) = int64 (int64 (c_Offset (last (c # ?group)) + c_Length (last (c # ?group))) - c_Offset c)"
      and chunks: "decrypt_chunks prim ks i enc 0 (c # ?group) append_writer buf = (None, buf2)"
      and rest: "decrypt_groups prim fetch ks i ?rest append_writer (st2, buf2) = (None, st1, buf1)"
      using less.prems(1) unfolding Cons decrypt_groups.simps Let_def
      by (auto split: prod.splits sum.splits if_splits option.splits)
    obtain v2 where v2: "decrypt_chunks prim ks i enc 0 (c # ?group) wr v = (None, v2)" "shows_bytes buf2 v2"
      using chunks_go_through [OF chunks less.prems(2)] by blast
    have "length ?rest < length cs" using coalesce_rest [of "c_PlaintextSize c" cs'] Cons by simp
    from less.hyps [OF this rest v2(2)] show ?thesis
      using fetched v2(1) unfolding Cons decrypt_groups.simps Let_def by (simp del: decrypt_chunks.simps)
  qed (use less.prems in simp)
qed

end

interpretation buffer: faithful_writer append_writer "(=)"
  by unfold_locales simp

lemma DecryptFile_written:
  assumes "faithful_writer wr shows_bytes" and "DecryptFile prim fetch ks f append_writer (st, []) = (None, st1, cnt)"
    and "shows_bytes [] v"
  shows "\<exists>v1. DecryptFile prim fetch ks f wr (st, v) = (None, st1, v1) \<and> shows_bytes cnt v1"
  using faithful_writer.groups_written [OF assms(1)] assms(2,3) by (simp add: DecryptFile_def)

section \<open>Sinks\<close>

text \<open>
  \<open>ready fs cs v\<close>: the files \<open>fs\<close> are still to come, and those before them arrived with the contents \<open>cs\<close>.
\<close>

locale faithful_sink =
  fixes sink :: "'w sink" and ready :: "File list \<Rightarrow> bytes list \<Rightarrow> 'w \<Rightarrow> bool"
  assumes takes_file: "ready (f # fs) cs v \<Longrightarrow>
    \<exists>wr close v1 shows_bytes. sk_File sink f v = (Inr (wr, close), v1) \<and>
      faithful_writer wr shows_bytes \<and> shows_bytes [] v1 \<and>
      (\<forall>buf v2. shows_bytes buf v2 \<longrightarrow> (\<exists>v3. close v2 = (None, v3) \<and> ready fs (cs @ [buf]) v3))"
begin

lemma files_arrive:
  assumes "length cs = length fs"
    and "\<forall>j < length fs. \<forall>x. good x \<longrightarrow>
      (\<exists>x1. DecryptFile prim cached ks (fs ! j) append_writer (x, []) = (None, x1, cs ! j) \<and> good x1)"
    and "good x" and "ready fs before v"
  shows "\<exists>x1 v1. open_files prim cached ks False sink fs (x, v) = (None, x1, v1) \<and> good x1 \<and> ready [] (before @ cs) v1"
  using assms
proof (induction fs arbitrary: cs x v before)
  case (Cons f fs)
  obtain c cs' where cs: "cs = c # cs'" using Cons.prems(1) by (cases cs) simp_all
  obtain wr close v1 shows_bytes where took: "sk_File sink f v = (Inr (wr, close), v1)"
      "faithful_writer wr shows_bytes" "shows_bytes [] v1"
    and closes: "\<And>buf v2. shows_bytes buf v2 \<Longrightarrow> \<exists>v3. close v2 = (None, v3) \<and> ready fs (before @ [buf]) v3"
    using takes_file [OF Cons.prems(4)] by blast
  obtain x1 where dec: "DecryptFile prim cached ks f append_writer (x, []) = (None, x1, c)" "good x1"
    using Cons.prems(2) [rule_format, of 0 x] Cons.prems(3) cs by auto
  obtain v2 where v2: "DecryptFile prim cached ks f wr (x, v1) = (None, x1, v2)" "shows_bytes c v2"
    using DecryptFile_written [OF took(2) dec(1) took(3)] by blast
  obtain v3 where v3: "close v2 = (None, v3)" "ready fs (before @ [c]) v3" using closes [OF v2(2)] by blast
  have rest: "\<forall>j < length fs. \<forall>x. good x \<longrightarrow>
      (\<exists>x1. DecryptFile prim cached ks (fs ! j) append_writer (x, []) = (None, x1, cs' ! j) \<and> good x1)"
  proof (intro allI impI)
    fix j x assume "j < length fs" "good x"
    then show "\<exists>x1. DecryptFile prim cached ks (fs ! j) append_writer (x, []) = (None, x1, cs' ! j) \<and> good x1"
      using Cons.prems(2) [rule_format, of "Suc j" x] cs by simp
  qed
  from Cons.IH [OF _ rest dec(2) v3(2)] obtain x4 v4
    where "open_files prim cached ks False sink fs (x1, v3) = (None, x4, v4)" "good x4" "ready [] ((before @ [c]) @ cs') v4"
    using Cons.prems(1) cs by auto
  then show ?case using took(1) v2(1) v3(1) cs by auto
qed auto

end

text \<open>A sink that collects what arrives, file by file.\<close>

definition list_writer :: "bytes list writer" where
  "list_writer bs v = (None, butlast v @ [last v @ bs])"

definition list_sink :: "bytes list sink" where
  "list_sink = \<lparr>sk_Text = (\<lambda>t v. (None, v @ [t])), sk_File = (\<lambda>f v. (Inr (list_writer, \<lambda>v. (None, v)), v @ [[]])), sk_Manifest = None\<rparr>"

interpretation lists: faithful_sink list_sink "\<lambda>fs cs v. v = cs"
proof
  fix f fs cs v assume "v = (cs :: bytes list)"
  have "faithful_writer list_writer (\<lambda>buf v. v = cs @ [buf])"
    by unfold_locales (simp add: list_writer_def)
  then show "\<exists>wr close v1 shows_bytes. sk_File list_sink f v = (Inr (wr, close), v1) \<and>
      faithful_writer wr shows_bytes \<and> shows_bytes [] v1 \<and>
      (\<forall>buf v2. shows_bytes buf v2 \<longrightarrow> (\<exists>v3. close v2 = (None, v3) \<and> v3 = cs @ [buf]))"
    using \<open>v = cs\<close> by (auto simp: list_sink_def)
qed

end
