(* ===== verification/Site_Open.thy ===== *)
theory Site_Open
  imports Site_Wire Sink
begin

text \<open>
  The operations of the client against the server: describing a secret that is gone, and opening one that is there.
\<close>

section \<open>Calls about a secret\<close>

definition metadata_call :: "string \<Rightarrow> string \<Rightarrow> call" where
  "metadata_call pid token = \<lparr>rq_Method = ''GET'', rq_Path = ''/api/v1/secrets/'' @ pid @ ''/meta'',
     rq_Headers = [(headerMetadataToken, token)], rq_Body = None\<rparr>"

definition start_call :: "string \<Rightarrow> string \<Rightarrow> string \<Rightarrow> call" where
  "start_call pid blobToken deletionToken =
     \<lparr>rq_Method = ''POST'', rq_Path = ''/api/v1/secrets/'' @ pid @ ''/retrieval-session'',
      rq_Headers = (headerBlobToken, blobToken) # (if deletionToken \<noteq> [] then [(headerDeletionToken, deletionToken)] else []),
      rq_Body = None\<rparr>"

definition range_call :: "string \<Rightarrow> string \<Rightarrow> int \<Rightarrow> int \<Rightarrow> call" where
  "range_call pid token a b =
     \<lparr>rq_Method = ''GET'', rq_Path = ''/api/v1/secrets/'' @ pid @ ''/blob'',
      rq_Headers = [(''Authorization'', ''Bearer '' @ token), (''Range'', ''bytes='' @ FormatInt a @ ''-'' @ FormatInt b)],
      rq_Body = None\<rparr>"

lemma call_fields:
  "rq_Method (metadata_call pid token) = ''GET''" "rq_Path (metadata_call pid token) = ''/api/v1/secrets/'' @ pid @ ''/meta''"
  "rq_Body (metadata_call pid token) = None"
  "rq_Method (start_call pid blobToken deletionToken) = ''POST''"
  "rq_Path (start_call pid blobToken deletionToken) = ''/api/v1/secrets/'' @ pid @ ''/retrieval-session''"
  "rq_Body (start_call pid blobToken deletionToken) = None"
  "rq_Method (range_call pid token a b) = ''GET''" "rq_Path (range_call pid token a b) = ''/api/v1/secrets/'' @ pid @ ''/blob''"
  "rq_Body (range_call pid token a b) = None"
  by (simp_all add: metadata_call_def start_call_def range_call_def)

lemma call_headers:
  "header (handled_request st n pid (metadata_call pid token)) HeaderMetadataToken = token"
  "header (handled_request st n pid (start_call pid blobToken deletionToken)) HeaderBlobToken = blobToken"
  "header (handled_request st n pid (start_call pid blobToken deletionToken)) HeaderDeletionToken = deletionToken"
  "header (handled_request st n pid (range_call pid token a b)) ''Authorization'' = ''Bearer '' @ token"
  "header (handled_request st n pid (range_call pid token a b)) ''Range'' = ''bytes='' @ FormatInt a @ ''-'' @ FormatInt b"
  by (simp_all add: site_request_def sent_request_def build_request_def metadata_call_def start_call_def range_call_def header_defs
      HeaderMetadataToken_def HeaderBlobToken_def HeaderDeletionToken_def)

lemma response_simps:
  "hr_Status (response_of q a) = int (status (written_answer a))" "hr_Body (response_of q a) = written_body (written_answer a)"
  "hr_BodyErr (response_of q a) = None"
  by (simp_all add: response_of_def Let_def)

lemma api_Metadata_served:
  assumes st: "serving st" and pid: "path_segment pid" and live: "printable_secret s"
    and handled: "handle_SecretMetadata (sv_Env (st_Server st) n) (handled_request st n pid (metadata_call pid token)) w =
      (Inr (JSON 200 (SecretMetadataResponse s)), w1)"
  shows "api_Metadata (st_Client st) (wire_of st) pid token (n, w) = (Inr (metadata_of s), Suc n, w1)"
proof -
  let ?rq = "metadata_call pid token" and ?a = "Inr (JSON 200 (SecretMetadataResponse s)) :: answer"
  have "answered st n ?rq w ?a w1"
    using handled by (subst dispatch_secret(1) [OF st pid]) (simp_all add: call_fields)
  moreover obtain p where "rq_Path ?rq = CHR ''/'' # p" "plain_path p"
    using secret_paths_plain(1) [OF pid] by (auto simp: call_fields)
  moreover have "hr_Status (response_of (sent_request st n ?rq) ?a) = 200"
    by (simp add: response_simps written_answer_def JSON_def)
  ultimately have call: "api_do (st_Client st) (wire_of st) ?rq (n, w) = (Inr (response_of (sent_request st n ?rq) ?a), Suc n, w1)"
    using api_do_served [OF st, of ?rq p n w ?a w1 200] by (simp add: transient_def)
  obtain out where out: "Option.bind (json_Decode (written_body (JSON 200 (SecretMetadataResponse s)))) (as_struct metadata_decode) = Some out"
    "read_metadata out = Inr (metadata_of s)"
    using metadata_decodes [OF live] by blast
  have "doJSON (st_Client st) (wire_of st) metadata_decode ?rq (n, w) = (Inr out, Suc n, w1)"
    using out(1) by (simp add: doJSON_def call response_simps written_answer_def JSON_def)
  then show ?thesis using out(2) by (simp add: api_Metadata_def metadata_call_def)
qed

lemma api_Metadata_gone:
  assumes st: "serving st" and pid: "path_segment pid" and tomb: "printable_tombstone tomb"
    and handled: "handle_SecretMetadata (sv_Env (st_Server st) n) (handled_request st n pid (metadata_call pid token)) w =
      (Inl (GoneError ''secret is gone'' (tombstoneDetails tomb)), w1)"
  shows "\<exists>e. api_Metadata (st_Client st) (wire_of st) pid token (n, w) = (Inl e, Suc n, w1) \<and> AsGone e = Some (gone_of tomb)"
proof -
  let ?rq = "metadata_call pid token" and ?a = "Inl (GoneError ''secret is gone'' (tombstoneDetails tomb)) :: answer"
  let ?resp = "response_of (sent_request st n ?rq) ?a"
  have "answered st n ?rq w ?a w1"
    using handled by (subst dispatch_secret(1) [OF st pid]) (simp_all add: call_fields)
  moreover obtain p where "rq_Path ?rq = CHR ''/'' # p" "plain_path p"
    using secret_paths_plain(1) [OF pid] by (auto simp: call_fields)
  moreover have code: "hr_Status ?resp = 410"
    by (simp add: response_simps written_answer_def httpErrorHandler_def app_error_defs JSON_def)
  ultimately have call: "api_do (st_Client st) (wire_of st) ?rq (n, w) =
      (Inl (ApiErr (request_failed ?resp (newRequestID (fst (st_Ids st n)) (snd (st_Ids st n))))), Suc n, w1)"
    using api_do_served [OF st, of ?rq p n w ?a w1 410] by (simp add: transient_def)
  let ?e = "request_failed ?resp (newRequestID (fst (st_Ids st n)) (snd (st_Ids st n)))"
  have "e_Status ?e = 410" by (simp add: request_failed_fields code)
  moreover have "e_Details ?e = Some (map (\<lambda>(k, v). (k, server_value v)) (tombstoneDetails tomb))"
    using gone_payload [OF tomb] by (simp add: request_failed_def response_simps written_answer_def)
  ultimately have "AsGone (ApiErr ?e) = Some (gone_of tomb)" by (rule AsGone_tombstone [OF tomb])
  moreover have "api_Metadata (st_Client st) (wire_of st) pid token (n, w) = (Inl (ApiErr ?e), Suc n, w1)"
    using call by (simp add: api_Metadata_def doJSON_def metadata_call_def)
  ultimately show ?thesis by blast
qed

text \<open>An answer that starts a retrieval session.\<close>

lemma api_Start_served:
  assumes st: "serving st" and pid: "path_segment pid"
    and handled: "handle_StartRetrievalSession (sv_Env (st_Server st) n) (handled_request st n pid (start_call pid blobToken deletionToken)) w =
      (Inr (JSON 201 (JObj [(''session_token'', JStr token), (''blob_size'', JInt k), (''expires_at'', JTime t),
         (''burn_after_read'', JBool b)])), w1)"
    and shown: "valid_utf8 token" "0 \<le> k" "k \<le> 9223372036854775807" "printable_time t"
  shows "api_StartRetrievalSession (st_Client st) (wire_of st) pid blobToken deletionToken (n, w) =
    (Inr \<lparr>cr_Token = token, cr_BlobSize = k, cr_ExpiresAt = whole_second t, cr_BurnAfterRead = b\<rparr>, Suc n, w1)"
proof -
  let ?rq = "start_call pid blobToken deletionToken"
  let ?v = "JObj [(''session_token'', JStr token), (''blob_size'', JInt k), (''expires_at'', JTime t), (''burn_after_read'', JBool b)]"
  let ?a = "Inr (JSON 201 ?v) :: answer"
  have "answered st n ?rq w ?a w1"
    using handled by (subst dispatch_secret(3) [OF st pid]) (simp_all add: call_fields)
  moreover obtain p where "rq_Path ?rq = CHR ''/'' # p" "plain_path p"
    using secret_paths_plain(3) [OF pid] by (auto simp: call_fields)
  moreover have "hr_Status (response_of (sent_request st n ?rq) ?a) = 201"
    by (simp add: response_simps written_answer_def JSON_def)
  ultimately have call: "api_do (st_Client st) (wire_of st) ?rq (n, w) = (Inr (response_of (sent_request st n ?rq) ?a), Suc n, w1)"
    using api_do_served [OF st, of ?rq p n w ?a w1 201] by (simp add: transient_def)
  have "Option.bind (json_Decode (written_body (JSON 201 ?v))) (as_struct session_decode) = Some (token, k, Format_RFC3339 t, b)"
    using shown by (intro session_decodes) simp_all
  then have "doJSON (st_Client st) (wire_of st) session_decode ?rq (n, w) = (Inr (token, k, Format_RFC3339 t, b), Suc n, w1)"
    by (simp add: doJSON_def call response_simps written_answer_def JSON_def)
  then show ?thesis using printed_time [OF shown(4)] by (simp add: api_StartRetrievalSession_def start_call_def)
qed

lemma api_ReadRange_served:
  assumes st: "serving st" and pid: "path_segment pid"
    and handled: "handle_RetrieveSecretRange (sv_Env (st_Server st) n) (handled_request st n pid (range_call pid token a b)) w = (Inr r, w1)"
    and r: "status r = 206" "body r = None" "int (length (blob r)) = b - a + 1" and small: "b - a + 2 \<le> 9223372036854775807" "a \<le> b"
  shows "api_ReadRange (st_Client st) (wire_of st) pid token a b (n, w) = (Inr (blob r), Suc n, w1)"
proof -
  let ?rq = "range_call pid token a b"
  have "answered st n ?rq w (Inr r) w1"
    using handled by (subst dispatch_secret(2) [OF st pid]) (simp_all add: call_fields)
  moreover obtain p where "rq_Path ?rq = CHR ''/'' # p" "plain_path p"
    using secret_paths_plain(2) [OF pid] by (auto simp: call_fields)
  moreover have "hr_Status (response_of (sent_request st n ?rq) (Inr r)) = 206"
    by (simp add: response_simps written_answer_def r)
  ultimately have "api_do (st_Client st) (wire_of st) ?rq (n, w) = (Inr (response_of (sent_request st n ?rq) (Inr r)), Suc n, w1)"
    using api_do_served [OF st, of ?rq p n w "Inr r" w1 206] by (simp add: transient_def)
  moreover have "int64 (b - a + 2) = b - a + 2" "int64 (b - a + 1) = b - a + 1" using small by (auto intro!: int64_id)
  moreover have "length (blob r) = nat (b - a + 1)" using r(3) small by simp
  ultimately show ?thesis using r small
    by (simp add: api_ReadRange_def range_call_def response_simps written_answer_def written_body_def)
qed

end
