(* ===== verification/Site_Session.thy ===== *)
theory Site_Session
  imports Site_Open
begin

text \<open>
  A client in conversation with a server that is undisturbed: what it takes for an open to go through, request by request.
\<close>

section \<open>Opening succeeds\<close>

lemma open_secret_succeeds:
  assumes inv: "secrets_inv db" and s: "secret_of db pid = Some s" and live: "now < s_ExpiresAt s"
    and fresh: "s_RetrievedAt s = None" and tok: "s_BlobTokenHash s = bh"
  shows "\<exists>s1 db1. open_secret no_faults s own pid bh now db = Inr (s1, db1) \<and>
    retrieval_sessions db1 = retrieval_sessions db \<and> map s_PublicID (secrets db1) = map s_PublicID (secrets db)"
proof -
  have "claimable now pid bh s \<longleftrightarrow> s_BurnAfterRead s"
    using secret_of_key [OF s] live fresh tok by (simp add: claimable_def)
  then have "s_BurnAfterRead s \<Longrightarrow> fst (q_ClaimBurnAfterRead now pid bh db) = 1" using claim_count [OF inv s] by simp
  then show ?thesis
    by (auto simp: open_secret_def q_ClaimBurnAfterRead_def q_CreateTombstone_def q_MarkSecretOpened_def Let_def comp_def)
qed

lemma repo_Start_succeeds:
  assumes inv: "secrets_inv db" and s: "secret_of db pid = Some s" and live: "now < s_ExpiresAt s"
    and fresh: "s_RetrievedAt s = None" and tok: "s_BlobTokenHash s = bh"
    and new: "sh \<notin> set (map rs_SessionTokenHash (retrieval_sessions db))"
  obtains s' db' where "repo_StartRetrievalSession no_faults pid bh dh sh e now db = (Inr s', db')"
    "s_BlobSize s' = s_BlobSize s" "s_BurnAfterRead s' = s_BurnAfterRead s"
proof -
  obtain s1 db1 where op: "open_secret no_faults s (by_owner dh s) pid bh now db = Inr (s1, db1)"
    "retrieval_sessions db1 = retrieval_sessions db" "map s_PublicID (secrets db1) = map s_PublicID (secrets db)"
    using open_secret_succeeds [OF inv s live fresh tok] by blast
  have fine: "no_faults QCommit = Fine" by (simp add: no_faults_def)
  have "pid \<in> set (map s_PublicID (secrets db1))" using op(3) lookup_by_SomeD [OF s] by auto
  then obtain db2 where "q_CreateRetrievalSession
      \<lparr>rs_PublicID = pid, rs_SessionTokenHash = sh, rs_ExpiresAt = e, rs_CreatedAt = now\<rparr> db1 = Inr db2"
    using new op(2) by (simp add: q_CreateRetrievalSession_def)
  then have run: "repo_StartRetrievalSession no_faults pid bh dh sh e now db = (Inr s1, db2)"
    using s live fresh tok op(1) fine
    by (simp add: repo_StartRetrievalSession_def secret_lookups inv by_owner_def commit_def)
  from repo_StartRetrievalSession_InrD [OF inv run] s have "s1 = opened_secret (by_owner dh s) now s" by auto
  then show ?thesis using that [OF run] by (simp add: opened_secret_def split: if_splits)
qed

section \<open>An undisturbed server\<close>

text \<open>
  Between the times \<open>t0\<close> and \<open>t1\<close> nothing fails and no other request interferes, and the server has randomness for its
  tokens.
\<close>

definition undisturbed :: "'s site \<Rightarrow> time \<Rightarrow> time \<Rightarrow> bool" where
  "undisturbed st t0 t1 \<longleftrightarrow>
     (\<forall>n. alone (sv_Env (st_Server st) n) \<and> flt (sv_Env (st_Server st) n) = (\<lambda>_. no_faults) \<and>
        (\<forall>i. t0 \<le> clock (sv_Env (st_Server st) n) i \<and> clock (sv_Env (st_Server st) n) i < t1) \<and>
        (\<exists>bs. random (sv_Env (st_Server st) n) 0 = Some bs \<and> length bs = 32))"

lemma undisturbedD:
  assumes "undisturbed st t0 t1"
  shows "alone (sv_Env (st_Server st) n)" "flt (sv_Env (st_Server st) n) i = no_faults"
    "t0 \<le> clock (sv_Env (st_Server st) n) i" "clock (sv_Env (st_Server st) n) i < t1"
    "\<exists>bs. random (sv_Env (st_Server st) n) 0 = Some bs \<and> length bs = 32"
  using assms by (simp_all add: undisturbed_def)

text \<open>The storage answers the ranges of an object with its bytes, as S3 documents; \<open>ok\<close> says that the object is there.\<close>

definition stores_object :: "'s s3api \<Rightarrow> string \<Rightarrow> bytes \<Rightarrow> ('s \<Rightarrow> bool) \<Rightarrow> bool" where
  "stores_object api key obj ok \<longleftrightarrow>
     (\<forall>st a b. ok st \<and> 0 \<le> a \<and> a \<le> b \<and> b < int (length obj) \<longrightarrow>
        (\<exists>st1. GetObject api key (''bytes='' @ FormatInt a @ ''-'' @ FormatInt b) st = (Inr (part_of obj a (b - a + 1)), st1) \<and> ok st1))"

lemma stores_objectD:
  assumes "stores_object api key obj ok" and "ok st" and "0 \<le> a" and "a \<le> b" and "b < int (length obj)"
  obtains st1 where "s3_GetRange api key a b st = (Inr (part_of obj a (b - a + 1)), st1)" "ok st1"
  using assms unfolding stores_object_def s3_GetRange_def by fastforce

section \<open>Path segments and tokens\<close>

lemma url_char_plain: "b64_val c \<noteq> None \<Longrightarrow> 32 < ord c \<and> ord c < 127 \<and> c \<notin> {CHR ''?'', CHR ''#'', CHR ''%'', CHR ''/''}"
  by (auto simp: b64_val_def split: if_splits)

lemma ValidPublicID_segment: "ValidPublicID pid \<Longrightarrow> path_segment pid"
  using url_char_plain by (fastforce simp: ValidPublicID_def isUnpaddedBase64URL_iff path_segment_def plain_path_def list_all_iff)

lemma encode_key_utf8: "valid_utf8 (EncodeToString bs)"
proof -
  have "list_all (\<lambda>c. ord c < 128) (EncodeToString bs)"
    unfolding list_all_iff
  proof
    fix c assume "c \<in> set (EncodeToString bs)"
    then have "b64_val c \<noteq> None" using set_EncodeToString [of c bs] by auto
    then show "ord c < 128" using url_char_plain [of c] by simp
  qed
  then show ?thesis by (rule valid_utf8_ascii)
qed

section \<open>Reading in a session\<close>

definition session_good :: "RetrievalSession \<Rightarrow> Secret \<Rightarrow> ('s \<Rightarrow> bool) \<Rightarrow> nat \<times> 's world \<Rightarrow> bool" where
  "session_good r s ok nw \<longleftrightarrow>
     secrets_inv (database (snd nw)) \<and> readable r s (database (snd nw)) \<and> ok (store (snd nw))"

lemma session_serves_ranges:
  assumes st: "serving st" "undisturbed st t0 t1" and t1: "t1 \<le> rs_ExpiresAt r" "t1 \<le> s_ExpiresAt s"
    and token: "rs_SessionTokenHash r = TokenHash token" "ValidToken token" and pid: "rs_PublicID r = pid" "ValidPublicID pid"
    and size: "s_BlobSize s = int (length bdl)" "int (length bdl) \<le> max_int64"
    and store: "\<forall>n. stores_object (s3 (sv_Env (st_Server st) n)) (s_StorageKey s) bdl ok"
  shows "range_server (range_fetcher (st_Client st) (wire_of st) spare pid token) bdl (session_good r s ok)"
proof
  fix nw a b assume good: "session_good r s ok nw" and range: "0 \<le> a" "a \<le> b" "b < int (length bdl)" "b - a + 1 \<le> range_limit"
  obtain n w where nw: "nw = (n, w)" by (cases nw)
  let ?ctx = "sv_Env (st_Server st) n"
  have good': "secrets_inv (database w)" "readable r s (database w)" "ok (store w)"
    using good by (simp_all add: session_good_def nw)
  obtain st1 where obj: "s3_GetRange (s3 ?ctx) (s_StorageKey s) a b (store w) = (Inr (part_of bdl a (b - a + 1)), st1)" "ok st1"
    using stores_objectD [OF store [rule_format, of n] good'(3) range(1-3)] by blast
  have now: "clock ?ctx 0 < rs_ExpiresAt r" "clock ?ctx 0 < s_ExpiresAt s"
    using undisturbedD(4) [OF st(2), of n 0] t1 by auto
  have flt: "flt ?ctx = (\<lambda>_. no_faults)" using undisturbedD(2) [OF st(2)] by (simp add: fun_eq_iff)
  have "b - a + 1 \<le> maxRangeBytes" using range(4) by (simp add: range_limit_def maxRangeBytes_def)
  from session_range_answered [OF good'(1,2) now undisturbedD(1) [OF st(2)] flt token pid at_secret_simps(1) call_headers(4,5) range(1,2) _ _ this obj(1)]
  obtain resp where resp: "handle_RetrieveSecretRange ?ctx (handled_request st n pid (range_call pid token a b)) w = (Inr resp, w\<lparr>store := st1\<rparr>)"
    "status resp = 206" "body resp = None" "blob resp = part_of bdl a (b - a + 1)"
    using range(3) size by auto
  have len: "int (length (blob resp)) = b - a + 1" using resp(4) part_of_length [of a "b - a + 1" bdl] range by simp
  have "api_ReadRange (st_Client st) (wire_of st) pid token a b (n, w) = (Inr (blob resp), Suc n, w\<lparr>store := st1\<rparr>)"
    using range by (intro api_ReadRange_served [OF st(1) ValidPublicID_segment [OF pid(2)] resp(1-3) len]) (simp_all add: range_limit_def)
  then show "\<exists>spare' nw1. range_fetcher (st_Client st) (wire_of st) spare pid token a b nw = (Inr (part_of bdl a (b - a + 1), spare'), nw1) \<and>
      session_good r s ok nw1"
    using resp(4) good' obj(2) by (auto simp: range_fetcher_def nw session_good_def)
qed

section \<open>The requests before\<close>

lemma metadata_answered:
  assumes inv: "secrets_inv (database w)" and s: "secret_of (database w) pid = Some s"
    and fresh: "s_BurnAfterRead s \<longrightarrow> s_RetrievedAt s = None" and now: "clock ctx 0 < s_ExpiresAt s"
    and quiet: "alone ctx" "flt ctx = (\<lambda>_. no_faults)"
    and req: "metadata_request req pid token" "TokenHash token = s_MetadataTokenHash s"
  shows "handle_SecretMetadata ctx req w = (Inr (JSON 200 (SecretMetadataResponse s)), w)"
proof -
  have "q_GetSecretByPublicID pid (clock ctx 0) (database w) = Some s" using s now q_GetSecretByPublicID_iff [OF inv] by simp
  moreover have "pid \<noteq> []" "token \<noteq> []" using req(1) Valid_not_Nil by (auto simp: metadata_request_def)
  ultimately show ?thesis using req quiet fresh
    by (auto simp: handle_SecretMetadata_def authenticateMetadata_def metadata_request_def repo_GetByPublicID_def)
qed

lemma start_answered:
  assumes inv: "secrets_inv (database w)" and s: "secret_of (database w) pid = Some s" and live: "clock ctx 0 < s_ExpiresAt s"
    and fresh: "s_RetrievedAt s = None" and quiet: "alone ctx" "flt ctx 0 = no_faults" and bs: "random ctx 0 = Some bs" "length bs = 32"
    and new: "TokenHash (EncodeToString bs) \<notin> set (map rs_SessionTokenHash (retrieval_sessions (database w)))"
    and req: "param req ''publicID'' = pid" "ValidPublicID pid" "header req HeaderBlobToken = token" "ValidToken token"
      "TokenHash token = s_BlobTokenHash s" "header req HeaderDeletionToken = [] \<or> ValidToken (header req HeaderDeletionToken)"
  obtains w1 r where "handle_StartRetrievalSession ctx req w =
      (Inr (JSON 201 (JObj [(''session_token'', JStr (EncodeToString bs)), (''blob_size'', JInt (s_BlobSize s)),
         (''expires_at'', JTime (clock ctx 0 + retrievalSessionTTL)), (''burn_after_read'', JBool (s_BurnAfterRead s))])), w1)"
    "store w1 = store w" "secrets_inv (database w1)" "readable r s (database w1)" "rs_PublicID r = pid"
    "rs_SessionTokenHash r = TokenHash (EncodeToString bs)" "rs_ExpiresAt r = clock ctx 0 + retrievalSessionTTL"
proof -
  let ?dh = "if header req HeaderDeletionToken \<noteq> [] then TokenHash (header req HeaderDeletionToken) else []"
  let ?e = "clock ctx 0 + retrievalSessionTTL"
  obtain s' db' where run: "repo_StartRetrievalSession no_faults pid (TokenHash token) ?dh (TokenHash (EncodeToString bs)) ?e
      (clock ctx 0) (database w) = (Inr s', db')" and s': "s_BlobSize s' = s_BlobSize s" "s_BurnAfterRead s' = s_BurnAfterRead s"
    using repo_Start_succeeds [OF inv s live fresh req(5) [symmetric] new] by blast
  let ?w1 = "w\<lparr>database := db'\<rparr>" and ?r = "\<lparr>rs_PublicID = pid, rs_SessionTokenHash = TokenHash (EncodeToString bs),
      rs_ExpiresAt = ?e, rs_CreatedAt = clock ctx 0\<rparr>"
  have nil: "pid \<noteq> []" "token \<noteq> []" using req Valid_not_Nil by auto
  have "handle_StartRetrievalSession ctx req w =
      (Inr (JSON 201 (JObj [(''session_token'', JStr (EncodeToString bs)), (''blob_size'', JInt (s_BlobSize s)),
         (''expires_at'', JTime ?e), (''burn_after_read'', JBool (s_BurnAfterRead s))])), ?w1)"
    using run s' req nil quiet bs
    by (auto simp: handle_StartRetrievalSession_def newRetrievalSessionToken_def on_db_def Let_def)
  moreover have "secrets_inv (database ?w1)" using repo_StartRetrievalSession_inv [OF inv] run by (metis snd_conv world.select_convs(2) world.surjective world.update_convs(2))
  moreover have "\<exists>s1. secret_of db' pid = Some s1 \<and> secret_le (Some s) (Some s1)"
    using repo_StartRetrievalSession_le [of pid "database w"] repo_StartRetrievalSession_InrD [OF inv run] s run by (metis snd_conv)
  then have "readable ?r s (database ?w1)"
    using repo_StartRetrievalSession_InrD [OF inv run] by (auto simp: readable_def)
  ultimately show ?thesis using that [of ?w1 ?r] by simp
qed

end
