(* ===== verification/Site_Story.thy ===== *)
theory Site_Story
  imports Site_Session
begin

text \<open>
  The stories the program is about, told through the client and the server at once: a link opens to what was shared, and
  a link to a secret that is gone says what became of it.
\<close>

section \<open>Keys of a link\<close>

lemma shared_keys:
  assumes gen: "Generate rng = Inr base" and pw: "WithPassword prim base password = Inr blobKeys"
  shows "ValidPublicID (en_PublicID (Encoded base))" "ValidToken (en_MetadataToken (Encoded base))"
    "ValidToken (en_BlobToken (Encoded blobKeys))" "en_PublicID (Encoded blobKeys) = en_PublicID (Encoded base)"
    "length (k_blobKey blobKeys) = 32"
proof -
  from Generate_InrD [OF gen] obtain secret deletion where base: "build_keys secret secret deletion = Inr base" by blast
  obtain m where blob: "build_keys secret m deletion = Inr blobKeys"
    using pw base build_keys_InrD(1,2) [OF base] by (auto simp: WithPassword_def split: if_splits sum.splits)
  note b = build_keys_InrD [OF base] build_keys_InrD [OF blob] build_keys_meta [OF base blob]
  have ne: "encode_key x = EncodeToString x" if "length x \<noteq> 0" for x using that by (auto simp: encode_key_def)
  show "ValidPublicID (en_PublicID (Encoded base))" "ValidToken (en_MetadataToken (Encoded base))"
    "ValidToken (en_BlobToken (Encoded blobKeys))" "en_PublicID (Encoded blobKeys) = en_PublicID (Encoded base)"
    "length (k_blobKey blobKeys) = 32"
    using b by (simp_all add: Encoded_def ne ValidPublicID_encode ValidToken_encode)
qed

text \<open>Keys without a deletion token say the same about everything else.\<close>

lemma Encoded_no_deletion [simp]:
  "en_PublicID (Encoded (k\<lparr>k_deletionToken := d\<rparr>)) = en_PublicID (Encoded k)"
  "en_MetadataToken (Encoded (k\<lparr>k_deletionToken := d\<rparr>)) = en_MetadataToken (Encoded k)"
  "en_BlobToken (Encoded (k\<lparr>k_deletionToken := d\<rparr>)) = en_BlobToken (Encoded k)"
  by (simp_all add: Encoded_def)

section \<open>Describing what is there\<close>

lemma Inspect_served:
  assumes st: "serving st" "undisturbed st t0 t1" and base: "FromShareSecret prim (l_Secret link) [] = Inr base"
    and pid: "ValidPublicID (en_PublicID (Encoded base))" and token: "ValidToken (en_MetadataToken (Encoded base))"
    and inv: "secrets_inv (database w)" and s: "secret_of (database w) (en_PublicID (Encoded base)) = Some s"
    and hash: "s_MetadataTokenHash s = TokenHash (en_MetadataToken (Encoded base))"
    and live: "t1 \<le> s_ExpiresAt s" "s_BurnAfterRead s \<longrightarrow> s_RetrievedAt s = None" "printable_secret s"
    and meta: "DecryptMeta prim base (s_EncryptedMeta s) = Inr meta"
  shows "Inspect prim (st_Client st) (wire_of st) link (n, w) =
    (Inr \<lparr>in_Kind = (if m_Type meta = ''text'' then KindText else KindFiles), in_BundleName = m_BundleName meta,
       in_PasswordProtected = m_PasswordProtected meta, in_Reusable = (\<not> s_BurnAfterRead s), in_EncryptedSize = s_BlobSize s,
       in_ExpiresAt = whole_second (s_ExpiresAt s), in_CreatedAt = whole_second (s_CreatedAt s),
       in_OpenedAt = map_option whole_second (s_RetrievedAt s)\<rparr>, Suc n, w)"
proof -
  let ?ctx = "sv_Env (st_Server st) n" and ?pid = "en_PublicID (Encoded base)" and ?token = "en_MetadataToken (Encoded base)"
  let ?req = "handled_request st n ?pid (metadata_call ?pid ?token)"
  have "clock ?ctx 0 < s_ExpiresAt s" using undisturbedD(4) [OF st(2), of n 0] live(1) by simp
  moreover have "flt ?ctx = (\<lambda>_. no_faults)" using undisturbedD(2) [OF st(2)] by (simp add: fun_eq_iff)
  moreover have "metadata_request ?req ?pid ?token"
    using pid token by (simp add: metadata_request_def call_headers del: at_secret_simps(2)) 
  ultimately have "handle_SecretMetadata ?ctx ?req w = (Inr (JSON 200 (SecretMetadataResponse s)), w)"
    using metadata_answered [OF inv s live(2) _ undisturbedD(1) [OF st(2)]] hash by simp
  from api_Metadata_served [OF st(1) ValidPublicID_segment [OF pid] live(3) this] show ?thesis
    using base meta by (simp add: Inspect_def metadata_of_def)
qed

text \<open>A bundle is encrypted with the same bytes whether or not its keys carry a deletion token.\<close>

lemma EncryptRecord_no_deletion [simp]:
  "EncryptRecord prim rng i (k\<lparr>k_deletionToken := d\<rparr>) p aad = EncryptRecord prim rng i k p aad"
  by (simp add: EncryptRecord_def recordAAD_def split: sum.split)

lemma Encrypt_no_deletion [simp]:
  "Encrypt prim rng plan sources (k\<lparr>k_deletionToken := d\<rparr>) = Encrypt prim rng plan sources k"
proof -
  have "encrypt_records prim rng sources (k\<lparr>k_deletionToken := d\<rparr>) rs buf out i = encrypt_records prim rng sources k rs buf out i"
    for rs buf out i
    by (induction rs arbitrary: buf out i) (simp_all add: Let_def split: prod.split sum.split)
  moreover have "seal_manifest prim rng i plan (k\<lparr>k_deletionToken := d\<rparr>) = seal_manifest prim rng i plan k" for i
    by (simp add: seal_manifest_def)
  ultimately show ?thesis by (simp add: Encrypt_def split: sum.split prod.split)
qed

section \<open>Reading what was opened\<close>

lemma read_secret_served:
  assumes aead: "aead_opens prim" and rng: "\<forall>i. rng i \<noteq> None" and key: "length (k_blobKey ks) = 32"
    and plan: "NewPlan sources bundleName = Inr plan" and name: "bundleName \<noteq> []" "valid_utf8 bundleName"
    and srcs: "\<forall>j < length sources. reads_as (sources ! j) (contents ! j) \<and> src_Name (sources ! j) \<noteq> [] \<and> utf8_names (sources ! j)"
    and size: "pl_DataSize plan \<le> 4611686018427387904" and cs: "length contents = length sources"
    and bdl: "Encrypt prim rng plan sources ks = Inr bdl" "cr_BlobSize session = int (length bdl)"
    and server: "range_server (range_fetcher c w spare (en_PublicID (Encoded ks)) (cr_Token session)) bdl good" "good x"
    and sink: "faithful_sink sink ready"
    and look: "(case sk_Manifest sink of None \<Rightarrow> (None, v) | Some look \<Rightarrow> look (pl_Manifest plan) v) = (None, v0)"
    and text_kind: "in_Kind info = KindText \<and> length sources = 1 \<Longrightarrow> sk_Text sink (contents ! 0) v0 = (None, v_text)"
    and file_kind: "\<not> (in_Kind info = KindText \<and> length sources = 1) \<Longrightarrow> ready (mf_Files (pl_Manifest plan)) [] v0"
  shows "\<exists>x1 v1. read_secret prim c w spare ks info session sink (x, v) =
      (Inr \<lparr>op_Info = info, op_Manifest = pl_Manifest plan\<rparr>, x1, v1) \<and>
    (if in_Kind info = KindText \<and> length sources = 1 then v1 = v_text else ready [] contents v1)"
proof -
  let ?m = "pl_Manifest plan"
  obtain bdl' where bdl': "Encrypt prim rng plan sources ks = Inr bdl'" "int (length bdl') \<le> 9223372036854775807" "bdl' \<noteq> []"
      "length (mf_Files ?m) = length sources"
    and reads: "\<forall>fetch good st. range_server fetch bdl' (good :: 'a \<Rightarrow> bool) \<and> good st \<longrightarrow>
        (\<exists>st1. ReadManifest prim fetch ks (int (length bdl')) st = (Inr ?m, st1) \<and> good st1) \<and>
        (\<forall>j < length sources. \<exists>st1.
           DecryptFile prim fetch ks (mf_Files ?m ! j) append_writer (st, []) = (None, st1, contents ! j) \<and> good st1)"
    using bundle_reads_back [OF aead rng key plan name srcs size] by (elim exE conjE) (rule that)
  have eq: "bdl' = bdl" using bdl(1) bdl'(1) by simp
  obtain cached x1 where cached: "CachingFetcher (range_fetcher c w spare (en_PublicID (Encoded ks)) (cr_Token session))
      (int (length bdl)) x = (Inr cached, x1)" "good x1" "range_server cached bdl good"
    using cached_serves [OF server bdl'(3,2) [unfolded eq]] by (elim exE conjE) (rule that)
  note reads' = reads [rule_format, of cached good, unfolded eq, OF conjI, OF cached(3)]
  obtain x2 where manifest: "ReadManifest prim cached ks (int (length bdl)) x1 = (Inr ?m, x2)" "good x2"
    using reads' [OF cached(2)] by blast
  have files: "\<forall>j < length (mf_Files ?m). \<forall>x. good x \<longrightarrow>
      (\<exists>x1. DecryptFile prim cached ks (mf_Files ?m ! j) append_writer (x, []) = (None, x1, contents ! j) \<and> good x1)"
    using reads' unfolding bdl'(4) by blast
  have start: "read_secret prim c w spare ks info session sink (x, v) =
      (case open_files prim cached ks (in_Kind info = KindText \<and> length sources = 1) sink (mf_Files ?m) (x2, v0) of
         (Some e, x3, v2) \<Rightarrow> (Inl e, x3, v2) | (None, x3, v2) \<Rightarrow> (Inr \<lparr>op_Info = info, op_Manifest = ?m\<rparr>, x3, v2))"
    using cached(1) manifest(1) look bdl'(4) by (cases "sk_Manifest sink") (simp_all add: read_secret_def bdl(2))
  show ?thesis
  proof (cases "in_Kind info = KindText \<and> length sources = 1")
    case True
    then obtain f where f: "mf_Files ?m = [f]" using bdl'(4) by (auto simp: length_Suc_conv)
    then obtain x3 where "DecryptFile prim cached ks f append_writer (x2, []) = (None, x3, contents ! 0)"
      using files manifest(2) by auto
    then show ?thesis using start text_kind [OF True] True f by simp
  next
    case False
    have "length contents = length (mf_Files ?m)" using cs bdl'(4) by simp
    from faithful_sink.files_arrive [OF sink this files manifest(2) file_kind [OF False]]
    obtain x3 v1 where "open_files prim cached ks False sink (mf_Files ?m) (x2, v0) = (None, x3, v1)" "ready [] contents v1"
      by auto
    moreover have "(in_Kind info = KindText \<and> length sources = 1) = False" using False by blast
    ultimately show ?thesis unfolding start by (simp only:) simp
  qed
qed

section \<open>A link opens to what was shared\<close>

text \<open>What \<open>Share\<close> prepared and what it told the server.\<close>

lemma prepare_InrD:
  assumes "prepare prim rng p = Inr r"
  shows "Generate rng = Inr (pp_Base r)" "WithPassword prim (pp_Base r) (pr_Password p) = Inr (pp_BlobKeys r)"
    "NewPlan (pp_Sources r) (DefaultBundleName (map src_Name (pp_Sources r))) = Inr (pp_Plan r)"
    "EncryptMeta prim rng 2 (pp_Base r) \<lparr>m_Type = (if pp_Kind r = KindText then ''text'' else ''bundle''),
       m_PasswordProtected = (pr_Password p \<noteq> []), m_BundleName = DefaultBundleName (map src_Name (pp_Sources r))\<rparr> =
       Inr (ur_EncryptedMeta (pp_Request r))"
    "ur_PublicID (pp_Request r) = en_PublicID (Encoded (pp_Base r))"
    "ur_MetadataToken (pp_Request r) = en_MetadataToken (Encoded (pp_Base r))"
    "ur_BlobToken (pp_Request r) = en_BlobToken (Encoded (pp_BlobKeys r))"
    "ur_BlobSize (pp_Request r) = pl_TotalSize (pp_Plan r)"
  using assms by (auto simp: prepare_def Let_def split: if_splits sum.splits prod.splits)

lemma small_meta:
  assumes "length name \<le> 900"
  shows "length (Meta_Marshal \<lparr>m_Type = (if k = KindText then ''text'' else ''bundle''), m_PasswordProtected = pw, m_BundleName = name\<rparr>) \<le> 6000"
proof -
  let ?v = "Meta_value \<lparr>m_Type = (if k = KindText then ''text'' else ''bundle''), m_PasswordProtected = pw, m_BundleName = name\<rparr>"
  have "text_bound ?v \<le> 6000" using assms by (cases "name = []") (simp_all add: Meta_value_def)
  then show ?thesis using json_text_bound [of ?v] unfolding Meta_Marshal_value by linarith
qed

lemma valid_utf8_kind: "valid_utf8 (if k = KindText then ''text'' else ''bundle'')"
  by (simp add: valid_utf8_ascii)

text \<open>The row of a secret holds what the request announced.\<close>

definition row_of :: "UploadRequest \<Rightarrow> Secret \<Rightarrow> bool" where
  "row_of rq s \<longleftrightarrow> s_PublicID s = ur_PublicID rq \<and> s_MetadataTokenHash s = TokenHash (ur_MetadataToken rq) \<and>
     s_BlobTokenHash s = TokenHash (ur_BlobToken rq) \<and> s_EncryptedMeta s = ur_EncryptedMeta rq \<and> s_BlobSize s = ur_BlobSize rq \<and>
     s_BurnAfterRead s = ur_BurnAfterRead rq"

definition shared_bundle :: "primitives \<Rightarrow> rng \<Rightarrow> Params \<Rightarrow> prepared \<Rightarrow> bytes list \<Rightarrow> bytes \<Rightarrow> bool" where
  "shared_bundle prim rng p r contents bdl \<longleftrightarrow>
     (\<forall>i. rng i \<noteq> None) \<and> prepare prim rng p = Inr r \<and>
     Encrypt prim (\<lambda>i. rng (i + 3)) (pp_Plan r) (pp_Sources r) (pp_BlobKeys r) = Inr bdl \<and>
     pl_DataSize (pp_Plan r) \<le> 4611686018427387904 \<and>
     (let name = DefaultBundleName (map src_Name (pp_Sources r)) in valid_utf8 name \<and> length name \<le> 900) \<and>
     length contents = length (pp_Sources r) \<and>
     (\<forall>j < length contents. reads_as (pp_Sources r ! j) (contents ! j) \<and> src_Name (pp_Sources r ! j) \<noteq> [] \<and> utf8_names (pp_Sources r ! j))"

definition waiting :: "'s site \<Rightarrow> time \<Rightarrow> time \<Rightarrow> 's world \<Rightarrow> prepared \<Rightarrow> Secret \<Rightarrow> bytes \<Rightarrow> ('s \<Rightarrow> bool) \<Rightarrow> bool" where
  "waiting st t0 t1 w r s bdl ok \<longleftrightarrow>
     secrets_inv (database w) \<and> secret_of (database w) (s_PublicID s) = Some s \<and> row_of (pp_Request r) s \<and>
     s_RetrievedAt s = None \<and> t1 \<le> s_ExpiresAt s \<and> t1 \<le> t0 + retrievalSessionTTL \<and> printable_secret s \<and>
     (\<forall>n. printable_time (clock (sv_Env (st_Server st) n) 0 + retrievalSessionTTL)) \<and>
     (\<forall>n bs. random (sv_Env (st_Server st) n) 0 = Some bs \<longrightarrow>
        TokenHash (EncodeToString bs) \<notin> set (map rs_SessionTokenHash (retrieval_sessions (database w)))) \<and>
     (\<forall>n. stores_object (s3 (sv_Env (st_Server st) n)) (s_StorageKey s) bdl ok) \<and> ok (store w)"

definition shown_info :: "Params \<Rightarrow> prepared \<Rightarrow> Secret \<Rightarrow> Info" where
  "shown_info p r s =
     \<lparr>in_Kind = pp_Kind r, in_BundleName = DefaultBundleName (map src_Name (pp_Sources r)),
      in_PasswordProtected = (pr_Password p \<noteq> []), in_Reusable = (\<not> s_BurnAfterRead s), in_EncryptedSize = s_BlobSize s,
      in_ExpiresAt = whole_second (s_ExpiresAt s), in_CreatedAt = whole_second (s_CreatedAt s), in_OpenedAt = None\<rparr>"

lemma shared_bundle_size:
  assumes "aead_opens prim" and "shared_bundle prim rng p r contents bdl"
  shows "int (length bdl) = pl_TotalSize (pp_Plan r)" "int (length bdl) \<le> max_int64"
proof -
  note b = assms(2) [unfolded shared_bundle_def Let_def]
  have pre: "\<forall>i. rng (i + 3) \<noteq> None" "length (k_blobKey (pp_BlobKeys r)) = 32" "DefaultBundleName (map src_Name (pp_Sources r)) \<noteq> []"
    using b prepare_InrD [of prim rng p r] shared_keys(5) by (auto simp: DefaultBundleName_def split: list.split)
  have srcs: "\<forall>j < length (pp_Sources r). reads_as (pp_Sources r ! j) (contents ! j) \<and> src_Name (pp_Sources r ! j) \<noteq> [] \<and> utf8_names (pp_Sources r ! j)"
    using b by simp
  have plan: "NewPlan (pp_Sources r) (DefaultBundleName (map src_Name (pp_Sources r))) = Inr (pp_Plan r)"
    using b prepare_InrD(3) by blast
  have "int (length bdl) = pl_TotalSize (pp_Plan r) \<and> int (length bdl) \<le> max_int64"
    using bundle_reads_back [OF assms(1) pre(1,2) plan pre(3) _ srcs] b by (auto simp: max_int64_def)
  then show "int (length bdl) = pl_TotalSize (pp_Plan r)" "int (length bdl) \<le> max_int64" by blast+
qed

lemma Inspect_shared:
  assumes st: "serving st" "undisturbed st t0 t1" and aead: "aead_opens prim" and shared: "shared_bundle prim rng p r contents bdl"
    and waits: "waiting st t0 t1 w r s bdl ok" and link: "l_Secret link = en_ShareSecret (Encoded (pp_Base r))"
  shows "Inspect prim (st_Client st) (wire_of st) link (n, w) = (Inr (shown_info p r s), Suc n, w)"
proof -
  note b = shared [unfolded shared_bundle_def Let_def] and db = waits [unfolded waiting_def row_of_def]
  have prep: "prepare prim rng p = Inr r" using b by blast
  note r = prepare_InrD [OF prep]
  obtain base where base: "WithPassword prim (pp_Base r) [] = Inr base" "base = pp_Base r" by (simp add: WithPassword_def)
  let ?base = "base\<lparr>k_deletionToken := []\<rparr>"
  have keys: "FromShareSecret prim (l_Secret link) [] = Inr ?base" using link_rebuilds [OF r(1) base(1)] link by simp
  note ids = shared_keys [OF r(1) base(1)]
  have "DecryptMeta prim ?base (s_EncryptedMeta s) = Inr \<lparr>m_Type = (if pp_Kind r = KindText then ''text'' else ''bundle''),
      m_PasswordProtected = (pr_Password p \<noteq> []), m_BundleName = DefaultBundleName (map src_Name (pp_Sources r))\<rparr>"
    using envelope_opens [OF aead r(1) r(4) small_meta _ _ keys [unfolded link]] b db valid_utf8_kind by simp
  moreover have "secret_of (database w) (en_PublicID (Encoded (pp_Base r))) = Some s" using db r(5) by metis
  ultimately show ?thesis using Inspect_served [where w = w and s = s and n = n and meta = "\<lparr>m_Type = (if pp_Kind r = KindText then ''text'' else ''bundle''),
      m_PasswordProtected = (pr_Password p \<noteq> []), m_BundleName = DefaultBundleName (map src_Name (pp_Sources r))\<rparr>", OF st keys] ids(1,2) base(2) db r(5,6)
    by (cases "pp_Kind r") (simp_all add: shown_info_def)
qed

lemma shared_session_starts:
  assumes st: "serving st" "undisturbed st t0 t1" and aead: "aead_opens prim" and shared: "shared_bundle prim rng p r contents bdl"
    and waits: "waiting st t0 t1 w r s bdl ok" and deletion: "dt = [] \<or> ValidToken dt"
    and ks: "ks = pp_BlobKeys r\<lparr>k_deletionToken := []\<rparr>"
  shows "\<exists>session x good. api_StartRetrievalSession (st_Client st) (wire_of st) (en_PublicID (Encoded ks)) (en_BlobToken (Encoded ks)) dt (n, w) =
      (Inr session, x) \<and> cr_BlobSize session = int (length bdl) \<and>
    range_server (range_fetcher (st_Client st) (wire_of st) spare (en_PublicID (Encoded ks)) (cr_Token session)) bdl good \<and> good x"
proof -
  note b = shared [unfolded shared_bundle_def Let_def] and db = waits [unfolded waiting_def row_of_def]
  have prep: "prepare prim rng p = Inr r" using b by blast
  note r = prepare_InrD [OF prep] and size = shared_bundle_size [OF aead shared]
  let ?ctx = "sv_Env (st_Server st) n" and ?pid = "en_PublicID (Encoded ks)" and ?token = "en_BlobToken (Encoded ks)"
  note ids = shared_keys [OF r(1,2)]
  obtain bs where bs: "random ?ctx 0 = Some bs" "length bs = 32" using undisturbedD(5) [OF st(2)] by blast
  let ?req = "handled_request st n ?pid (start_call ?pid ?token dt)"
  have pid: "?pid = s_PublicID s" "ValidPublicID ?pid" using ids db r(5) ks by simp_all
  have at: "secret_of (database w) ?pid = Some s" using db pid(1) by metis
  have token: "ValidToken ?token" "TokenHash ?token = s_BlobTokenHash s" using ids db r(7) ks by simp_all
  have live: "clock ?ctx 0 < s_ExpiresAt s" "t1 \<le> clock ?ctx 0 + retrievalSessionTTL"
    using undisturbedD(3,4) [OF st(2), of n 0] db by auto
  obtain w1 rs where start: "handle_StartRetrievalSession ?ctx ?req w =
      (Inr (JSON 201 (JObj [(''session_token'', JStr (EncodeToString bs)), (''blob_size'', JInt (s_BlobSize s)),
         (''expires_at'', JTime (clock ?ctx 0 + retrievalSessionTTL)), (''burn_after_read'', JBool (s_BurnAfterRead s))])), w1)"
    and w1: "store w1 = store w" "secrets_inv (database w1)" "readable rs s (database w1)" "rs_PublicID rs = ?pid"
      "rs_SessionTokenHash rs = TokenHash (EncodeToString bs)" "rs_ExpiresAt rs = clock ?ctx 0 + retrievalSessionTTL"
    using start_answered [where ctx = ?ctx and req = ?req and w = w and s = s, OF _ at live(1) _ undisturbedD(1) [OF st(2)] undisturbedD(2) [OF st(2)] bs _
        at_secret_simps(1) pid(2) call_headers(2) token] db call_headers(3) deletion bs(1) by (metis (no_types, lifting))
  let ?session = "\<lparr>cr_Token = EncodeToString bs, cr_BlobSize = s_BlobSize s,
      cr_ExpiresAt = whole_second (clock ?ctx 0 + retrievalSessionTTL), cr_BurnAfterRead = s_BurnAfterRead s\<rparr>"
  have blob: "s_BlobSize s = int (length bdl)" using db r(8) size(1) by simp
  have "api_StartRetrievalSession (st_Client st) (wire_of st) ?pid ?token dt (n, w) = (Inr ?session, Suc n, w1)"
    using api_Start_served [OF st(1) ValidPublicID_segment [OF pid(2)] start encode_key_utf8] blob size(2) db by (simp add: max_int64_def)
  moreover have "range_server (range_fetcher (st_Client st) (wire_of st) spare ?pid (EncodeToString bs)) bdl (session_good rs s ok)"
    using db live w1 blob size(2) pid(2) ValidToken_encode [OF bs(2)] by (intro session_serves_ranges [OF st]) simp_all
  moreover have "session_good rs s ok (Suc n, w1)" using w1 db by (simp add: session_good_def)
  ultimately show ?thesis using blob
    by (intro exI [where x = ?session] exI [where x = "(Suc n, w1)"] exI [where x = "session_good rs s ok"]) simp
qed

lemma shared_link_opens:
  assumes st: "serving st" "undisturbed st t0 t1" and aead: "aead_opens prim" and shared: "shared_bundle prim rng p r contents bdl"
    and waits: "waiting st t0 t1 w r s bdl ok"
    and link: "l_Secret link = en_ShareSecret (Encoded (pp_Base r))" "l_DeletionToken link = [] \<or> ValidToken (l_DeletionToken link)"
    and sink: "faithful_sink sink ready"
    and look: "(case sk_Manifest sink of None \<Rightarrow> (None, v) | Some look \<Rightarrow> look (pl_Manifest (pp_Plan r)) v) = (None, v0)"
    and text_kind: "pp_Kind r = KindText \<and> length contents = 1 \<Longrightarrow> sk_Text sink (contents ! 0) v0 = (None, v_text)"
    and file_kind: "\<not> (pp_Kind r = KindText \<and> length contents = 1) \<Longrightarrow> ready (mf_Files (pl_Manifest (pp_Plan r))) [] v0"
  shows "\<exists>x1 v1. share_Open prim (st_Client st) (wire_of st) spare link (pr_Password p) sink ((n, w), v) =
      (Inr \<lparr>op_Info = shown_info p r s, op_Manifest = pl_Manifest (pp_Plan r)\<rparr>, x1, v1) \<and>
    (if pp_Kind r = KindText \<and> length contents = 1 then v1 = v_text else ready [] contents v1)"
proof -
  note b = shared [unfolded shared_bundle_def Let_def]
  have prep: "prepare prim rng p = Inr r" using b by blast
  note r = prepare_InrD [OF prep]
  let ?ks = "pp_BlobKeys r\<lparr>k_deletionToken := []\<rparr>"
  obtain session x good where start: "api_StartRetrievalSession (st_Client st) (wire_of st) (en_PublicID (Encoded ?ks)) (en_BlobToken (Encoded ?ks))
      (l_DeletionToken link) (Suc n, w) = (Inr session, x)" "cr_BlobSize session = int (length bdl)"
    "range_server (range_fetcher (st_Client st) (wire_of st) spare (en_PublicID (Encoded ?ks)) (cr_Token session)) bdl good" "good x"
    using shared_session_starts [where n = "Suc n" and spare = spare, OF st aead shared waits link(2) refl] by (elim exE conjE) (rule that)
  have "FromShareSecret prim (l_Secret link) (pr_Password p) = Inr ?ks" using link_rebuilds [OF r(1,2)] link(1) by simp
  then have opened: "share_Open prim (st_Client st) (wire_of st) spare link (pr_Password p) sink ((n, w), v) =
      read_secret prim (st_Client st) (wire_of st) spare ?ks (shown_info p r s) session sink (x, v)"
    using Inspect_shared [OF st aead shared waits link(1), of n] start(1)
    by (cases "pr_Password p = []") (simp_all add: share_Open_def shown_info_def)
  have as_text: "pp_Kind r = KindText \<and> length contents = 1 \<longleftrightarrow> in_Kind (shown_info p r s) = KindText \<and> length (pp_Sources r) = 1"
    using b by (simp add: shown_info_def)
  have pre: "\<forall>i. rng (i + 3) \<noteq> None" "length (k_blobKey ?ks) = 32" "DefaultBundleName (map src_Name (pp_Sources r)) \<noteq> []"
    "valid_utf8 (DefaultBundleName (map src_Name (pp_Sources r)))" "pl_DataSize (pp_Plan r) \<le> 4611686018427387904"
    "length contents = length (pp_Sources r)" "cr_BlobSize session = int (length bdl)"
    using b shared_keys(5) [OF r(1,2)] start(2) by (auto simp: DefaultBundleName_def split: list.split)
  have srcs: "\<forall>j < length (pp_Sources r). reads_as (pp_Sources r ! j) (contents ! j) \<and> src_Name (pp_Sources r ! j) \<noteq> [] \<and> utf8_names (pp_Sources r ! j)"
    using b by simp
  have enc: "Encrypt prim (\<lambda>i. rng (i + 3)) (pp_Plan r) (pp_Sources r) ?ks = Inr bdl" using b by simp
  show ?thesis
    unfolding opened as_text
    by (rule read_secret_served [OF aead pre(1,2) r(3) pre(3,4) srcs pre(5,6) enc pre(7) start(3,4) sink look
          text_kind [unfolded as_text] file_kind [unfolded as_text]])
qed

section \<open>A link to what is gone\<close>

lemma gone_answered:
  assumes inv: "secrets_inv (database w)"
    and gone: "\<forall>s. secret_of (database w) pid = Some s \<longrightarrow> s_ExpiresAt s \<le> clock ctx 0 \<or> (s_BurnAfterRead s \<and> s_RetrievedAt s \<noteq> None \<and>
      s_MetadataTokenHash s = TokenHash token)"
    and tomb: "tombstone_of (database w) pid = Some tomb" "clock ctx 0 < tb_KeepUntil tomb" "tb_MetadataTokenHash tomb = TokenHash token"
    and quiet: "alone ctx" "flt ctx = (\<lambda>_. no_faults)" and req: "metadata_request req pid token"
  shows "handle_SecretMetadata ctx req w = (Inl (GoneError ''secret is gone'' (tombstoneDetails tomb)), w)"
proof -
  have nil: "pid \<noteq> []" "token \<noteq> []" using req Valid_not_Nil by (auto simp: metadata_request_def)
  have "secretGone ctx 1 pid (TokenHash token) (clock ctx 0) (database w) = GoneError ''secret is gone'' (tombstoneDetails tomb)"
    using tomb quiet by (simp add: secretGone_def repo_GetTombstone_def secret_lookups inv)
  moreover have "q_GetSecretByPublicID pid (clock ctx 0) (database w) = None \<or>
      (\<exists>s. q_GetSecretByPublicID pid (clock ctx 0) (database w) = Some s \<and> s_BurnAfterRead s \<and> s_RetrievedAt s \<noteq> None \<and>
        s_MetadataTokenHash s = TokenHash token)"
    using gone q_GetSecretByPublicID_iff [OF inv] by (auto split: option.split)
  ultimately show ?thesis using req nil quiet
    by (auto simp: handle_SecretMetadata_def authenticateMetadata_def metadata_request_def repo_GetByPublicID_def)
qed

lemma gone_link_told:
  assumes st: "serving st" "undisturbed st t0 t1" and base: "FromShareSecret prim (l_Secret link) [] = Inr base"
    and pid: "pid = en_PublicID (Encoded base)" "ValidPublicID pid" and token: "token = en_MetadataToken (Encoded base)" "ValidToken token"
    and inv: "secrets_inv (database w)"
    and gone: "\<forall>s. secret_of (database w) pid = Some s \<longrightarrow> s_ExpiresAt s \<le> t0 \<or> (s_BurnAfterRead s \<and> s_RetrievedAt s \<noteq> None \<and>
      s_MetadataTokenHash s = TokenHash token)"
    and tomb: "tombstone_of (database w) pid = Some tomb" "t1 \<le> tb_KeepUntil tomb" "tb_MetadataTokenHash tomb = TokenHash token"
      "printable_tombstone tomb"
  shows "Inspect prim (st_Client st) (wire_of st) link (n, w) = (Inl (Share_Errors.GoneErr (gone_of tomb)), Suc n, w)"
proof -
  let ?ctx = "sv_Env (st_Server st) n" and ?req = "handled_request st n pid (metadata_call pid token)"
  have now: "t0 \<le> clock ?ctx 0" "clock ?ctx 0 < tb_KeepUntil tomb" using undisturbedD(3,4) [OF st(2), of n 0] tomb(2) by auto
  have "flt ?ctx = (\<lambda>_. no_faults)" using undisturbedD(2) [OF st(2)] by (simp add: fun_eq_iff)
  moreover have "metadata_request ?req pid token" using pid(2) token(2) by (simp add: metadata_request_def call_headers del: at_secret_simps(2))
  ultimately have "handle_SecretMetadata ?ctx ?req w = (Inl (GoneError ''secret is gone'' (tombstoneDetails tomb)), w)"
    using gone now by (intro gone_answered [OF inv _ tomb(1) now(2) tomb(3) undisturbedD(1) [OF st(2)]]) (auto dest: order_trans)
  from api_Metadata_gone [OF st(1) ValidPublicID_segment [OF pid(2)] tomb(4) this]
  obtain e where "api_Metadata (st_Client st) (wire_of st) pid token (n, w) = (Inl e, Suc n, w)" "AsGone e = Some (gone_of tomb)" by blast
  then show ?thesis using base pid(1) token(1) by (simp add: Inspect_def describeLookupError_def)
qed

section \<open>An example\<close>

definition demo_params :: Params where
  "demo_params = \<lparr>pr_Files = [], pr_Text = ''hello'', pr_Expiration = [], pr_Reusable = False, pr_Password = []\<rparr>"

lemma text_source_reads: "reads_as (text_source txt) txt"
  by (auto simp: reads_as_def text_source_def part_of_def Let_def)

lemma text_source_fields [simp]:
  "src_Name (text_source txt) = ''secret.txt''" "src_Path (text_source txt) = []" "src_Type (text_source txt) = ''text/plain''"
  "src_Size (text_source txt) = int (length txt)"
  by (simp_all add: text_source_def textFileName_def)

lemma EncryptMeta_utf8:
  assumes "EncryptMeta prim rng i k meta = Inr envelope"
  shows "valid_utf8 envelope"
proof -
  have "ord c < 128" if "c \<in> set (encode_key bs)" for c bs
  proof -
    have "b64_val c \<noteq> None" using that set_EncodeToString [of c bs] by (auto simp: encode_key_def split: if_splits)
    then show ?thesis using url_char_plain [of c] by simp
  qed
  then have "list_all (\<lambda>c. ord c < 128) (encode_key bs)" for bs by (simp add: list_all_iff)
  then show ?thesis using assms
    by (intro valid_utf8_ascii) (auto simp: EncryptMeta_def envelopeVersion_def split: sum.splits if_splits)
qed

lemma demo_text_plan: "\<exists>plan. NewPlan [text_source ''hello''] ''secret.txt'' = Inr plan \<and> pl_DataSize plan = 45"
  by (simp add: NewPlan_def Let_def plan_chunks.simps bundle_consts Manifest_Marshal_def
      File_Marshal_def Chunk_Marshal_def json_object_def json_array_def json_string_def json_quote_def json_rune_def
      escape_ascii_def FormatInt_def nat_digits.simps)

lemma shared_bundle_exists:
  assumes params: "share_sources p = Inr (k, sources)" "pr_Password p = []" "pr_Expiration p = []"
    and plan: "NewPlan sources (DefaultBundleName (map src_Name sources)) = Inr plan" "pl_DataSize plan \<le> 4611686018427387904"
    and small: "\<not> EstimateEncryptedSize (map src_Size sources) > MaxEncryptedUploadBytes"
    and name: "valid_utf8 (DefaultBundleName (map src_Name sources))" "length (DefaultBundleName (map src_Name sources)) \<le> 900"
    and srcs: "length contents = length sources"
      "\<forall>j < length sources. reads_as (sources ! j) (contents ! j) \<and> src_Name (sources ! j) \<noteq> [] \<and> utf8_names (sources ! j)"
  shows "\<exists>r bdl. shared_bundle open_primitives demo_rng p r contents bdl \<and> pp_Kind r = k \<and> pp_Sources r = sources"
proof -
  obtain base where base: "Generate demo_rng = Inr base" using demo_Generate by blast
  have "length (k_metaKey base) = 32" using Generate_InrD [OF base] build_keys_InrD(3) by metis
  then have env: "\<exists>envelope. EncryptMeta open_primitives demo_rng 2 base meta = Inr envelope" for meta
    by (simp add: EncryptMeta_def newNonce_def rand_Read_def demo_rng_def)
  have "ValidExpiration DefaultExpiration" by (simp add: ValidExpiration_def DefaultExpiration_def Expirations_def)
  then obtain r where r: "prepare open_primitives demo_rng p = Inr r" "pp_Sources r = sources" "pp_Kind r = k" "pp_Plan r = plan"
    using base plan params small env [of "\<lparr>m_Type = (if k = KindText then ''text'' else ''bundle''),
                  m_PasswordProtected = False, m_BundleName = DefaultBundleName (map src_Name sources)\<rparr>"]
    by (auto simp: prepare_def WithPassword_def Let_def)
  note p = prepare_InrD [OF r(1)]
  have reads: "\<forall>j < length sources. reads_as (sources ! j) (contents ! j)" using srcs(2) by blast
  have rng: "\<forall>i. demo_rng (i + 3) \<noteq> None" by (simp add: demo_rng_def)
  from Encrypt_run [OF open_primitives_opens rng shared_keys(5) [OF p(1,2)] p(3) [unfolded r(2)] reads]
  obtain bdl where "Encrypt open_primitives (\<lambda>i. demo_rng (i + 3)) (pp_Plan r) sources (pp_BlobKeys r) = Inr bdl" by blast
  then have "shared_bundle open_primitives demo_rng p r contents bdl"
    using r srcs name plan(2) by (simp add: shared_bundle_def demo_rng_def Let_def)
  then show ?thesis using r(2,3) by blast
qed

lemma small_estimate: "\<not> EstimateEncryptedSize [5] > MaxEncryptedUploadBytes"
  by code_simp

lemma demo_bundle: "\<exists>r bdl. shared_bundle open_primitives demo_rng demo_params r [''hello''] bdl \<and> pp_Kind r = KindText"
proof -
  obtain plan where plan: "NewPlan [text_source ''hello''] ''secret.txt'' = Inr plan" "pl_DataSize plan = 45"
    using demo_text_plan by blast
  have names: "valid_utf8 ''secret.txt''" "valid_utf8 ''text/plain''" by (rule valid_utf8_ascii, simp)+
  have "\<exists>r bdl. shared_bundle open_primitives demo_rng demo_params r [''hello''] bdl \<and> pp_Kind r = KindText \<and>
      pp_Sources r = [text_source ''hello'']"
    using plan small_estimate names text_source_reads [of "''hello''"]
    by (intro shared_bundle_exists [where plan = plan])
       (simp_all add: demo_params_def share_sources_def DefaultBundleName_def utf8_names_def del: valid_utf8.simps(2))
  then show ?thesis by blast
qed

text \<open>A server with the secret of a request in its database and the bundle in its storage.\<close>

definition demo_secret :: "prepared \<Rightarrow> Secret" where
  "demo_secret r = (let rq = pp_Request r in
     \<lparr>s_PublicID = ur_PublicID rq, s_MetadataTokenHash = TokenHash (ur_MetadataToken rq), s_BlobTokenHash = TokenHash (ur_BlobToken rq),
      s_DeletionTokenHash = TokenHash (ur_DeletionToken rq), s_EncryptedMeta = ur_EncryptedMeta rq, s_BlobSize = ur_BlobSize rq,
      s_BurnAfterRead = ur_BurnAfterRead rq, s_ExpiresAt = 100, s_CreatedAt = 0, s_RetrievedAt = None, s_StorageKey = ''blobs/k''\<rparr>)"

definition demo_shared :: "prepared \<Rightarrow> bytes \<Rightarrow> memory world" where
  "demo_shared r bdl = \<lparr>store = empty_memory\<lparr>objects := [(''blobs/k'', bdl)]\<rparr>,
     database = empty_db\<lparr>secrets := [demo_secret r]\<rparr>, counters = no_metrics\<rparr>"

definition demo_server :: "time \<Rightarrow> memory server" where
  "demo_server t =
     \<lparr>sv_Router = first_router, sv_Config = default_Config ''postgres://db'' (default_S3Config ''s3'' ''a'' ''k''), sv_Env = (\<lambda>_. quiet t), sv_Allows = (\<lambda>_ _. True),
      sv_Wakes = (\<lambda>_ _. TimerFired), sv_Disk = (\<lambda>_. SpoolOk), sv_BindUpload = (\<lambda>_. None), sv_ValidateUpload = (\<lambda>_. []),
      sv_BindCreate = (\<lambda>_. None), sv_BindClaim = (\<lambda>_. None), sv_BindAnswer = (\<lambda>_. None), sv_BindDelivery = (\<lambda>_. None),
      sv_Pings = (\<lambda>_. True), sv_Version = ''dev'', sv_Metrics = (\<lambda>_. Inr (NoContent 200)), sv_Page = (\<lambda>_. Inr (NoContent 200))\<rparr>"

definition demo_site :: "time \<Rightarrow> memory site" where
  "demo_site t = \<lparr>st_Server = demo_server t, st_Client = \<lparr>cl_BaseURL = ''https://secretli.example'', cl_UserAgent = ''secretli-cli/dev''\<rparr>,
     st_Host = Some, st_Ids = (\<lambda>_. (None, 0))\<rparr>"

lemma demo_site_serves: "serving (demo_site t)" "t < t1 \<Longrightarrow> t0 \<le> t \<Longrightarrow> undisturbed (demo_site t) t0 t1"
proof -
  show "serving (demo_site t)"
    unfolding serving_def
    by (intro conjI exI [where x = "''https''"] exI [where x = "''secretli.example''"])
       (simp_all add: demo_site_def demo_server_def first_router_echo plain_host_def)
qed (simp add: undisturbed_def demo_site_def demo_server_def fun_eq_iff)

lemma memory_stores:
  assumes "int (length obj) \<le> max_int64"
  shows "stores_object memory_s3 k obj (\<lambda>m. map_of (objects m) k = Some obj)"
  unfolding stores_object_def
proof (intro allI impI)
  fix m :: memory and a b assume "map_of (objects m) k = Some obj \<and> 0 \<le> a \<and> a \<le> b \<and> b < int (length obj)"
  then show "\<exists>st1. GetObject memory_s3 k (''bytes='' @ FormatInt a @ ''-'' @ FormatInt b) m = (Inr (part_of obj a (b - a + 1)), st1) \<and>
      map_of (objects st1) k = Some obj"
    using memory_range_format [of a b obj] assms by (auto simp: memory_s3_def part_of_def)
qed

lemma demo_waiting:
  assumes shared: "shared_bundle open_primitives demo_rng p r contents bdl"
  shows "waiting (demo_site 5) 0 10 (demo_shared r bdl) r (demo_secret r) bdl (\<lambda>m. map_of (objects m) ''blobs/k'' = Some bdl)"
proof -
  note b = shared [unfolded shared_bundle_def Let_def] and size = shared_bundle_size [OF open_primitives_opens shared]
  have prep: "prepare open_primitives demo_rng p = Inr r" using b by blast
  have "valid_utf8 (ur_EncryptedMeta (pp_Request r))" using EncryptMeta_utf8 [OF prepare_InrD(4) [OF prep]] .
  then show ?thesis
    using memory_stores [OF size(2)] size prepare_InrD(8) [OF prep]
    by (simp add: waiting_def demo_shared_def demo_secret_def demo_site_def demo_server_def Let_def row_of_def printable_secret_def
        printable_time_def retrievalSessionTTL_def duration_defs empty_db_def secrets_inv_def id_defs max_int64_def)
qed

lemma list_sink_fields: "sk_Manifest list_sink = None" "sk_Text list_sink t v = (None, v @ [t])"
  by (simp_all add: list_sink_def)

section \<open>The stories\<close>

text \<open>
  Property C2. What is shared is what the link opens to, through the client, the routes, the handlers, the
  database and the storage: while the secret is there and nothing interferes, \<open>Open\<close> of the link with the password, against the server whose row and
  storage hold what \<open>Share\<close> prepared, describes the secret and gives the sink its text, or every file, byte by byte.
\<close>

theorem link_opens_to_what_was_shared:
  assumes "serving st" and "undisturbed st t0 t1" and "aead_opens prim" and "shared_bundle prim rng p r contents bdl"
    and "waiting st t0 t1 w r s bdl ok"
    and "l_Secret link = en_ShareSecret (Encoded (pp_Base r))" and "l_DeletionToken link = [] \<or> ValidToken (l_DeletionToken link)"
    and "faithful_sink sink ready"
    and "(case sk_Manifest sink of None \<Rightarrow> (None, v) | Some look \<Rightarrow> look (pl_Manifest (pp_Plan r)) v) = (None, v0)"
    and "pp_Kind r = KindText \<and> length contents = 1 \<Longrightarrow> sk_Text sink (contents ! 0) v0 = (None, v_text)"
    and "\<not> (pp_Kind r = KindText \<and> length contents = 1) \<Longrightarrow> ready (mf_Files (pl_Manifest (pp_Plan r))) [] v0"
  shows "\<exists>x1 v1. share_Open prim (st_Client st) (wire_of st) spare link (pr_Password p) sink ((n, w), v) =
      (Inr \<lparr>op_Info = shown_info p r s, op_Manifest = pl_Manifest (pp_Plan r)\<rparr>, x1, v1) \<and>
    (if pp_Kind r = KindText \<and> length contents = 1 then v1 = v_text else ready [] contents v1)"
  using assms by (rule shared_link_opens)

theorem link_opens_to_what_was_shared_witness:
  "\<exists>r bdl x1 opened. shared_bundle open_primitives demo_rng demo_params r [''hello''] bdl \<and>
     share_Open open_primitives (st_Client (demo_site 5)) (wire_of (demo_site 5)) (\<lambda>_. [])
       \<lparr>l_Origin = ''https://secretli.example'', l_Secret = en_ShareSecret (Encoded (pp_Base r)), l_DeletionToken = []\<rparr> [] list_sink
       ((0, demo_shared r bdl), []) = (Inr opened, x1, [''hello''])"
proof -
  obtain r bdl where shared: "shared_bundle open_primitives demo_rng demo_params r [''hello''] bdl" and kind: "pp_Kind r = KindText"
    using demo_bundle by blast
  let ?link = "\<lparr>l_Origin = ''https://secretli.example'', l_Secret = en_ShareSecret (Encoded (pp_Base r)), l_DeletionToken = []\<rparr>"
  have "\<exists>x1 v1. share_Open open_primitives (st_Client (demo_site 5)) (wire_of (demo_site 5)) (\<lambda>_. []) ?link (pr_Password demo_params) list_sink
      ((0, demo_shared r bdl), []) =
      (Inr \<lparr>op_Info = shown_info demo_params r (demo_secret r), op_Manifest = pl_Manifest (pp_Plan r)\<rparr>, x1, v1) \<and>
    (if pp_Kind r = KindText \<and> length [''hello''] = 1 then v1 = [''hello''] else v1 = [''hello''])"
    by (rule link_opens_to_what_was_shared [where v = "[]" and ?v0.0 = "[]", OF demo_site_serves(1) demo_site_serves(2) open_primitives_opens shared demo_waiting [OF shared],
          OF _ _ _ _ lists.faithful_sink_axioms])
       (simp_all add: kind list_sink_fields)
  then obtain x1 where "share_Open open_primitives (st_Client (demo_site 5)) (wire_of (demo_site 5)) (\<lambda>_. []) ?link (pr_Password demo_params)
      list_sink ((0, demo_shared r bdl), []) =
      (Inr \<lparr>op_Info = shown_info demo_params r (demo_secret r), op_Manifest = pl_Manifest (pp_Plan r)\<rparr>, x1, [''hello''])"
    using kind by auto
  moreover have "pr_Password demo_params = []" by (simp add: demo_params_def)
  ultimately show ?thesis using shared by metis
qed

text \<open>
  Property C15. A link to a secret that is gone says what became of it: as long as the tombstone is kept, describing
  or opening the link through the client ends with the outcome, the end and the first opening the server recorded, at once, changing
  nothing, and giving the sink nothing.
\<close>

theorem gone_link_says_what_became_of_it:
  assumes "serving st" and "undisturbed st t0 t1" and "FromShareSecret prim (l_Secret link) [] = Inr base"
    and "pid = en_PublicID (Encoded base)" and "ValidPublicID pid"
    and "token = en_MetadataToken (Encoded base)" and "ValidToken token" and "secrets_inv (database w)"
    and "\<forall>s. secret_of (database w) pid = Some s \<longrightarrow> s_ExpiresAt s \<le> t0 \<or> (s_BurnAfterRead s \<and> s_RetrievedAt s \<noteq> None \<and>
      s_MetadataTokenHash s = TokenHash token)"
    and "tombstone_of (database w) pid = Some tomb" and "t1 \<le> tb_KeepUntil tomb" and "tb_MetadataTokenHash tomb = TokenHash token"
    and "printable_tombstone tomb"
  shows "Inspect prim (st_Client st) (wire_of st) link (n, w) = (Inl (Share_Errors.GoneErr (gone_of tomb)), Suc n, w) \<and>
    share_Open prim (st_Client st) (wire_of st) spare link password sink ((n, w), v) =
      (Inl (Share_Errors.GoneErr (gone_of tomb)), (Suc n, w), v)"
  using gone_link_told [OF assms] by (simp add: share_Open_def)

theorem gone_link_says_what_became_of_it_witness:
  "\<exists>secret w tomb. Inspect open_primitives (st_Client (demo_site 5)) (wire_of (demo_site 5))
      \<lparr>l_Origin = ''https://secretli.example'', l_Secret = secret, l_DeletionToken = []\<rparr> (0, w) =
      (Inl (Share_Errors.GoneErr \<lparr>g_Outcome = ''opened'', g_BurnAfterRead = True, g_EndedAt = 0, g_FirstOpenedAt = Some 0, g_OpenedByOwner = False\<rparr>), 1, w)"
proof -
  obtain base where base: "Generate demo_rng = Inr base" using demo_Generate by blast
  have none: "WithPassword open_primitives base [] = Inr base" by (simp add: WithPassword_def)
  note ids = shared_keys [OF base none]
  let ?pid = "en_PublicID (Encoded base)" and ?token = "en_MetadataToken (Encoded base)"
  let ?tomb = "\<lparr>tb_PublicID = ?pid, tb_MetadataTokenHash = TokenHash ?token, tb_DeletionTokenHash = [], tb_Outcome = TombstoneOpened,
    tb_BurnAfterRead = True, tb_EndedAt = 3, tb_FirstOpenedAt = Some 3, tb_OpenedByOwner = False, tb_KeepUntil = 10\<rparr>"
  let ?w = "\<lparr>store = empty_memory, database = empty_db\<lparr>secret_tombstones := [?tomb]\<rparr>, counters = no_metrics\<rparr>"
  let ?link = "\<lparr>l_Origin = ''https://secretli.example'', l_Secret = en_ShareSecret (Encoded base), l_DeletionToken = []\<rparr>"
  have "Inspect open_primitives (st_Client (demo_site 5)) (wire_of (demo_site 5)) ?link (0, ?w) =
      (Inl (Share_Errors.GoneErr (gone_of ?tomb)), Suc 0, ?w) \<and>
    share_Open open_primitives (st_Client (demo_site 5)) (wire_of (demo_site 5)) (\<lambda>_. []) ?link [] list_sink ((0, ?w), []) =
      (Inl (Share_Errors.GoneErr (gone_of ?tomb)), (Suc 0, ?w), [])"
    by (rule gone_link_says_what_became_of_it [where base = "base\<lparr>k_deletionToken := []\<rparr>", OF demo_site_serves(1) demo_site_serves(2) [of 5 10 0]])
       (use link_rebuilds [OF base none] ids in \<open>simp_all add: empty_db_def secrets_inv_def id_defs printable_tombstone_def printable_time_def\<close>)
  then show ?thesis by (auto simp: gone_of_def whole_second_def)
qed

end
