(* ===== verification/Cli_Format.thy ===== *)
theory Cli_Format
  imports Rfc3339 Share_Ops "HOL-Library.Signed_Division"
begin

text \<open>
  \<open>internal/cli/format.go\<close>: what the command says about times, sizes and secrets. The time zone of the machine is a
  function from an instant in seconds to the offset from UTC in seconds. The fractions of hours \<open>Sub\<close> is divided by are
  exact enough that truncating the \<open>float64\<close> is truncating the quotient.
\<close>

section \<open>Moments\<close>

type_synonym location = "int \<Rightarrow> int"

definition unix_seconds :: "time \<Rightarrow> int" where
  "unix_seconds t = t div time_Second"

text \<open>The wall clock of an instant, in seconds since 1970-01-01T00:00:00 on that clock.\<close>

definition wall_clock :: "location \<Rightarrow> time \<Rightarrow> int" where
  "wall_clock loc t = unix_seconds t + loc (unix_seconds t)"

text \<open>\<open>time.Date\<close> at midnight of a day: the offset is looked up at the wall time, then at the instant that gives.\<close>

definition midnight :: "location \<Rightarrow> int \<Rightarrow> time" where
  "midnight loc day =
     (let unix = day * 86400; off = loc unix
      in (if off \<noteq> 0 then unix - loc (unix - off) else unix) * time_Second)"

definition calendar_day :: "location \<Rightarrow> time \<Rightarrow> int" where
  "calendar_day loc t = wall_clock loc t div 86400"

definition days_apart :: "location \<Rightarrow> time \<Rightarrow> time \<Rightarrow> int" where
  "days_apart loc t now = (midnight loc (calendar_day loc t) - midnight loc (calendar_day loc now)) sdiv (24 * time_Hour)"

definition date_of_day :: "int \<Rightarrow> nat \<times> nat \<times> nat" where
  "date_of_day day =
     (let (y, n) = year_of_days 1970 (nat day); (m, d) = month_of_days y 1 n in (y, m, d + 1))"

definition month_names :: "string list" where
  "month_names = [''Jan'', ''Feb'', ''Mar'', ''Apr'', ''May'', ''Jun'', ''Jul'', ''Aug'', ''Sep'', ''Oct'', ''Nov'', ''Dec'']"

definition weekday_names :: "string list" where
  "weekday_names = [''Thursday'', ''Friday'', ''Saturday'', ''Sunday'', ''Monday'', ''Tuesday'', ''Wednesday'']"

definition formatMoment :: "location \<Rightarrow> time \<Rightarrow> time \<Rightarrow> string" where
  "formatMoment loc t now =
     (let secs = nat (wall_clock loc t mod 86400);
          clock_text = two_digits (secs div 3600) @ '':'' @ two_digits (secs div 60 mod 60);
          days = days_apart loc t now;
          (y, m, d) = date_of_day (calendar_day loc t);
          date = FormatInt (int d) @ '' '' @ month_names ! (m - 1)
      in if days = 0 then ''today at '' @ clock_text
         else if days = 1 then ''tomorrow at '' @ clock_text
         else if days = -1 then ''yesterday at '' @ clock_text
         else if days < 0 \<and> days > -7 then ''on '' @ weekday_names ! nat (calendar_day loc t mod 7) @ '' at '' @ clock_text
         else if y = fst (date_of_day (calendar_day loc now)) then ''on '' @ date @ '' at '' @ clock_text
         else ''on '' @ date @ '' '' @ four_digits y @ '' at '' @ clock_text)"

definition plural :: "int \<Rightarrow> string \<Rightarrow> string" where
  "plural n unit_name = (if n = 1 then ''1 '' @ unit_name else FormatInt n @ '' '' @ unit_name @ ''s'')"

definition formatAgo :: "time \<Rightarrow> time \<Rightarrow> string" where
  "formatAgo t now =
     (let d = now - t
      in if d < time_Minute then ''just now''
         else if d < time_Hour then plural (d div time_Minute) ''minute'' @ '' ago''
         else if d < 24 * time_Hour then plural (d div time_Hour) ''hour'' @ '' ago''
         else plural (d div (24 * time_Hour)) ''day'' @ '' ago'')"

section \<open>Sizes\<close>

text \<open>The quotient rounded to the nearest integer, a half to the even one: how \<open>float64\<close> and the verb \<open>%.1f\<close> round.\<close>

definition round_even :: "int \<Rightarrow> int \<Rightarrow> int" where
  "round_even a b =
     (let q = a div b; r = 2 * (a mod b)
      in if r < b then q else if r > b then q + 1 else if even q then q else q + 1)"

definition to_float64 :: "int \<Rightarrow> int" where
  "to_float64 n =
     (let k = length (filter (\<lambda>i. n \<ge> 2 ^ (53 + i)) [0..<10]) in round_even n (2 ^ k) * 2 ^ k)"

definition one_decimal :: "int \<Rightarrow> int \<Rightarrow> string" where
  "one_decimal n unit_size =
     (let tenths = round_even (10 * to_float64 n) unit_size in FormatInt (tenths div 10) @ ''.'' @ FormatInt (tenths mod 10))"

definition formatSize :: "int \<Rightarrow> string" where
  "formatSize n =
     (if n < 1024 then FormatInt n @ '' B''
      else if n < 1024 * 1024 then one_decimal n 1024 @ '' KB''
      else if n < 1024 * 1024 * 1024 then one_decimal n (1024 * 1024) @ '' MB''
      else one_decimal n (1024 * 1024 * 1024) @ '' GB'')"

section \<open>Secrets\<close>

definition describe_what :: "Info \<Rightarrow> string \<Rightarrow> string" where
  "describe_what info files =
     (if in_Reusable info then ''A reusable '' else ''A one-time '') @
     (if in_Kind info = KindText then ''text secret'' else files) @
     (if in_PasswordProtected info then '' with a password'' else '''')"

definition describeInfo :: "location \<Rightarrow> Info \<Rightarrow> bool \<Rightarrow> time \<Rightarrow> string" where
  "describeInfo loc info owner now =
     describe_what info ''set of files'' @ '', sent '' @ formatAgo (in_CreatedAt info) now @ '', expires '' @
     formatMoment loc (in_ExpiresAt info) now @ ''.'' @
     (if owner \<and> in_Reusable info then
        (case in_OpenedAt info of
           Some t \<Rightarrow> '' First opened '' @ formatMoment loc t now @ ''.''
         | None \<Rightarrow> '' Nobody has opened it yet.'')
      else [])"

definition apostrophe :: string where "apostrophe = [CHR 0x27]"

definition goneSentence :: "location \<Rightarrow> time \<Rightarrow> Share_Errors.Gone \<Rightarrow> bool \<Rightarrow> string" where
  "goneSentence loc now g owner =
     (let when = formatMoment loc (g_EndedAt g) now;
          first = (case g_FirstOpenedAt g of Some t \<Rightarrow> formatMoment loc t now | None \<Rightarrow> [])
      in if g_Outcome g = ''opened'' then
           (if owner \<and> g_OpenedByOwner g
            then ''Your secret is gone: you opened it yourself '' @ when @ '', and it was a one-time secret.''
            else if owner
            then ''Your secret was opened '' @ when @ ''. It was a one-time secret, so nothing is left on the server.''
            else if g_OpenedByOwner g
            then ''This secret is gone: the sender opened it '' @ when @ '', and a one-time secret opens only once.''
            else ''This secret was already opened '' @ when @ '', and a one-time secret opens only once. If that wasn'' @ apostrophe @
              ''t you, tell the sender: the link may have reached someone else.'')
         else if g_Outcome g = ''expired'' then
           (if owner \<and> first \<noteq> [] then ''Your secret expired '' @ when @ ''. It was first opened '' @ first @ ''.''
            else if owner then ''Your secret expired unopened '' @ when @ ''. Nothing is left on the server.''
            else ''This secret expired '' @ when @
              ''. Nothing is left on the server, so ask the sender for a new link if you still need it.'')
         else if g_Outcome g = ''deleted'' then
           (if owner then ''You deleted this secret '' @ when @ ''.'' @
              (if first \<noteq> [] then '' It had been opened before, first '' @ first @ ''.'' else [])
            else ''The sender deleted this secret '' @ when @ ''. Ask them for a new link if you still need it.'')
         else ''This secret is gone ('' @ g_Outcome g @ '').'')"

section \<open>What they say\<close>

text \<open>In a place without changes of the clock \<open>today\<close>, \<open>tomorrow\<close> and \<open>yesterday\<close> are what the calendar says.\<close>

lemma midnight_fixed: "(\<And>u. loc u = off) \<Longrightarrow> midnight loc day = (day * 86400 - off) * time_Second"
  by (simp add: midnight_def Let_def)

lemma days_apart_fixed:
  assumes "\<And>u. loc u = off"
  shows "days_apart loc t now = calendar_day loc t - calendar_day loc now"
proof -
  let ?k = "calendar_day loc t - calendar_day loc now"
  have "midnight loc (calendar_day loc t) - midnight loc (calendar_day loc now) = ?k * (24 * time_Hour)"
    unfolding midnight_fixed [OF assms] by (simp add: duration_defs algebra_simps)
  moreover have "(?k * n) sdiv n = ?k" if "0 < n" for n :: int
    using that by (simp add: signed_divide_int_def sgn_mult abs_mult sgn_mult_abs)
  moreover have "0 < 24 * time_Hour" by (simp add: duration_defs)
  ultimately show ?thesis by (simp add: days_apart_def)
qed

text \<open>
  On the day the clock goes forward, which has 23 hours, tomorrow is called today: in Berlin at noon of 2026-03-29, of
  what happens at noon of the 30th.
\<close>

definition berlin_2026 :: location where
  "berlin_2026 u = (if u < 1774746000 then 3600 else 7200)"

lemma short_day_has_no_tomorrow:
  "calendar_day berlin_2026 (1774864800 * time_Second) = calendar_day berlin_2026 (1774778400 * time_Second) + 1"
  "days_apart berlin_2026 (1774864800 * time_Second) (1774778400 * time_Second) = 0"
  by (simp_all add: calendar_day_def wall_clock_def unix_seconds_def berlin_2026_def days_apart_def midnight_def duration_defs
      signed_divide_int_def)

lemma formatSize_examples:
  "formatSize 0 = ''0 B''" "formatSize 1536 = ''1.5 KB''" "formatSize 1048575 = ''1024.0 KB''" "formatSize 5242880 = ''5.0 MB''"
  by code_simp+

end
