(* ===== verification/Cli_Path.thy ===== *)
theory Cli_Path
  imports Prelude
begin

text \<open>
  \<open>path/filepath\<close> on Unix, as far as the command uses it, and \<open>safeName\<close> of \<open>internal/cli/open.go\<close>: the name a shared
  file is saved under never leaves the output directory.
\<close>

section \<open>Clean, Base, Join, Ext\<close>

text \<open>The elements of a path without empty ones and dots, and with every \<open>..\<close> resolved that can be.\<close>

fun clean_elems :: "bool \<Rightarrow> string list \<Rightarrow> string list \<Rightarrow> string list" where
  "clean_elems rooted acc [] = rev acc"
| "clean_elems rooted acc (s # ss) =
     (if s = [] \<or> s = ''.'' then clean_elems rooted acc ss
      else if s = ''..'' then
        (case acc of
           [] \<Rightarrow> clean_elems rooted (if rooted then [] else [''..'']) ss
         | a # as \<Rightarrow> clean_elems rooted (if a = ''..'' then ''..'' # acc else as) ss)
      else clean_elems rooted (s # acc) ss)"

definition is_rooted :: "string \<Rightarrow> bool" where
  "is_rooted p \<longleftrightarrow> take 1 p = ''/''"

definition path_elems :: "string \<Rightarrow> string list" where
  "path_elems p = clean_elems (is_rooted p) [] (strings_Split p (CHR ''/''))"

fun join_slash :: "string list \<Rightarrow> string" where
  "join_slash [] = []"
| "join_slash [s] = s"
| "join_slash (s # t # ss) = s @ ''/'' @ join_slash (t # ss)"

definition filepath_Clean :: "string \<Rightarrow> string" where
  "filepath_Clean p =
     (let es = path_elems p
      in if is_rooted p then ''/'' @ join_slash es else if es = [] then ''.'' else join_slash es)"

definition filepath_Base :: "string \<Rightarrow> string" where
  "filepath_Base p =
     (if p = [] then ''.''
      else let trimmed = rev (dropWhile (\<lambda>c. c = CHR ''/'') (rev p));
               b = rev (takeWhile (\<lambda>c. c \<noteq> CHR ''/'') (rev trimmed))
           in if b = [] then ''/'' else b)"

definition filepath_Join :: "string \<Rightarrow> string \<Rightarrow> string" where
  "filepath_Join dir name =
     (if dir \<noteq> [] then filepath_Clean (join_slash [dir, name]) else if name \<noteq> [] then filepath_Clean name else [])"

text \<open>From the last dot of the last element on.\<close>

definition filepath_Ext :: "string \<Rightarrow> string" where
  "filepath_Ext p =
     (let b = takeWhile (\<lambda>c. c \<noteq> CHR ''/'') (rev p)
      in if CHR ''.'' \<in> set b then ''.'' @ rev (takeWhile (\<lambda>c. c \<noteq> CHR ''.'') b) else [])"

section \<open>safeName\<close>

definition safeName :: "string \<Rightarrow> string" where
  "safeName name =
     (let slashed = map (\<lambda>c. if c = chr 92 then CHR ''/'' else c) name;
          b = filepath_Base (filepath_Clean (''/'' @ slashed))
      in if b = [] \<or> b = ''/'' \<or> b = ''.'' then ''file'' else b)"

text \<open>An ordinary element: what a directory can hold under a name of its own.\<close>

definition plain_elem :: "string \<Rightarrow> bool" where
  "plain_elem s \<longleftrightarrow> s \<noteq> [] \<and> s \<noteq> ''.'' \<and> s \<noteq> ''..'' \<and> CHR ''/'' \<notin> set s"

lemma plain_elemD: "plain_elem s \<Longrightarrow> s \<noteq> [] \<and> s \<noteq> ''.'' \<and> s \<noteq> ''..'' \<and> CHR ''/'' \<notin> set s"
  by (simp add: plain_elem_def)

lemma clean_elems_skip: "s = [] \<or> s = ''.'' \<Longrightarrow> clean_elems r acc (s # ss) = clean_elems r acc ss"
  by simp

lemma clean_elems_up:
  "clean_elems True [] (''..'' # ss) = clean_elems True [] ss"
  "a \<noteq> ''..'' \<Longrightarrow> clean_elems r (a # as) (''..'' # ss) = clean_elems r as ss"
  by simp_all

lemma clean_elems_down: "plain_elem s \<Longrightarrow> clean_elems r acc (s # ss) = clean_elems r (s # acc) ss"
  by (drule plain_elemD) simp

declare clean_elems.simps(2) [simp del]

lemma elem_cases:
  assumes "CHR ''/'' \<notin> set s"
  obtains "s = [] \<or> s = ''.''" | "s = ''..''" | "plain_elem s"
  using assms unfolding plain_elem_def by metis

lemma clean_elems_rooted:
  assumes "\<forall>s \<in> set ss. CHR ''/'' \<notin> set s" and "\<forall>s \<in> set acc. plain_elem s"
  shows "\<forall>s \<in> set (clean_elems True acc ss). plain_elem s"
  using assms
proof (induction ss arbitrary: acc)
  case (Cons s ss)
  have "\<forall>s \<in> set ss. CHR ''/'' \<notin> set s" using Cons.prems(1) by simp
  note IH = Cons.IH [OF this]
  from Cons.prems(1) have "CHR ''/'' \<notin> set s" by simp
  then show ?case
  proof (cases rule: elem_cases)
    case 1
    show ?thesis unfolding clean_elems_skip [OF 1] by (rule IH [OF Cons.prems(2)])
  next
    case 2
    show ?thesis
    proof (cases acc)
      case (Cons a as)
      then have "plain_elem a" "\<forall>s \<in> set as. plain_elem s" using Cons.prems(2) by simp_all
      then show ?thesis unfolding 2 Cons using IH [of as] clean_elems_up(2) plain_elemD [of a] by metis
    next
      case Nil
      show ?thesis unfolding 2 Nil clean_elems_up(1) by (rule IH) simp
    qed
  next
    case 3
    show ?thesis unfolding clean_elems_down [OF 3] by (rule IH) (use 3 Cons.prems(2) in simp)
  qed
qed simp

lemma path_elems_rooted: "is_rooted p \<Longrightarrow> s \<in> set (path_elems p) \<Longrightarrow> plain_elem s"
  using clean_elems_rooted [of "strings_Split p (CHR ''/'')" "[]"] strings_Split_parts [of _ p "CHR ''/''"]
  by (auto simp: path_elems_def)

lemma join_slash_Cons: "ss \<noteq> [] \<Longrightarrow> join_slash (s # ss) = s @ ''/'' @ join_slash ss"
  by (cases ss) simp_all

lemma last_of_join: "\<exists>front. join_slash (ss @ [s]) = front @ s \<and> (front = [] \<or> last front = CHR ''/'')"
proof (induction ss)
  case (Cons t ss)
  then obtain front where front: "join_slash (ss @ [s]) = front @ s" "front = [] \<or> last front = CHR ''/''" by blast
  then have "join_slash ((t # ss) @ [s]) = (t @ ''/'' @ front) @ s" by (simp add: join_slash_Cons)
  moreover have "last (t @ ''/'' @ front) = CHR ''/''" using front(2) by auto
  ultimately show ?case by blast
qed simp

lemma Base_of_last:
  assumes s: "s \<noteq> []" "CHR ''/'' \<notin> set s" and front: "front = [] \<or> last front = CHR ''/''"
  shows "filepath_Base (front @ s) = s"
proof -
  obtain c cs where rev_s: "rev s = c # cs" "c \<noteq> CHR ''/''" using s by (metis list.exhaust list.set_intros(1) rev_is_Nil_conv set_rev)
  have s_eq: "s = rev cs @ [c]" using arg_cong [OF rev_s(1), of rev] by simp
  have trimmed: "rev (dropWhile (\<lambda>c. c = CHR ''/'') (rev (front @ s))) = front @ s" unfolding s_eq using rev_s(2) by simp
  have "takeWhile (\<lambda>c. c \<noteq> CHR ''/'') (rev front) = []" using front by (cases front rule: rev_cases) auto
  moreover have "\<forall>c \<in> set (rev s). c \<noteq> CHR ''/''" using s(2) by auto
  ultimately have "takeWhile (\<lambda>c. c \<noteq> CHR ''/'') (rev (front @ s)) = rev s"
    by (simp add: takeWhile_append)
  then show ?thesis using s trimmed by (simp add: filepath_Base_def Let_def)
qed

lemma Base_of_Clean:
  assumes "is_rooted p"
  shows "filepath_Base (filepath_Clean p) = (if path_elems p = [] then ''/'' else last (path_elems p))"
proof (cases "path_elems p = []")
  case True
  then show ?thesis using assms by (simp add: filepath_Clean_def filepath_Base_def)
next
  case False
  then obtain es s where es: "path_elems p = es @ [s]" by (metis rev_exhaust)
  then have s: "s \<noteq> []" "CHR ''/'' \<notin> set s" using path_elems_rooted [OF assms, of s] by (auto simp: plain_elem_def)
  obtain front where "join_slash (es @ [s]) = front @ s" "front = [] \<or> last front = CHR ''/''" using last_of_join by blast
  then have "filepath_Clean p = (''/'' @ front) @ s" "last (''/'' @ front) = CHR ''/''"
    using assms es by (auto simp: filepath_Clean_def Let_def)
  then show ?thesis using Base_of_last [OF s, of "''/'' @ front"] es by simp
qed

lemma safeName_plain: "plain_elem (safeName name)"
proof -
  let ?p = "''/'' @ map (\<lambda>c. if c = chr 92 then CHR ''/'' else c) name"
  have rooted: "is_rooted ?p" by (simp add: is_rooted_def)
  show ?thesis
  proof (cases "path_elems ?p = []")
    case True
    then show ?thesis using Base_of_Clean [OF rooted] by (simp add: safeName_def Let_def plain_elem_def)
  next
    case False
    then have "plain_elem (last (path_elems ?p))" using path_elems_rooted [OF rooted] last_in_set by blast
    then show ?thesis using Base_of_Clean [OF rooted] False by (auto simp: safeName_def Let_def plain_elem_def)
  qed
qed

text \<open>A plain name is its own safe name.\<close>

lemma plain_split: "CHR ''/'' \<notin> set s \<Longrightarrow> strings_Split (''/'' @ s) (CHR ''/'') = [[], s]"
  by (simp add: strings_Split_no_sep)

lemma safeName_id:
  assumes "plain_elem name" and "chr 92 \<notin> set name"
  shows "safeName name = name"
proof -
  have same: "map (\<lambda>c. if c = chr 92 then CHR ''/'' else c) name = name" using assms(2) by (intro map_idI) auto
  have "path_elems (''/'' @ name) = [name]"
    using assms(1) plain_elemD [OF assms(1)] unfolding path_elems_def
    by (subst plain_split) (simp_all add: clean_elems_skip clean_elems_down)
  moreover have "name \<noteq> ''/''" using assms(1) by (auto simp: plain_elem_def)
  ultimately show ?thesis using Base_of_Clean [of "''/'' @ name"] assms(1) unfolding safeName_def same
    by (simp add: is_rooted_def plain_elem_def Let_def)
qed

section \<open>Where a saved file lies\<close>

lemma clean_elems_append:
  assumes "plain_elem s"
  shows "clean_elems rooted acc (ss @ [s]) = clean_elems rooted acc ss @ [s]"
proof (induction ss arbitrary: acc)
  case (Cons t ss)
  then show ?case by (cases acc) (simp_all add: clean_elems.simps(2))
qed (simp add: clean_elems_down [OF assms])

lemma split_snoc: "CHR ''/'' \<notin> set s \<Longrightarrow> strings_Split (dir @ ''/'' @ s) (CHR ''/'') = strings_Split dir (CHR ''/'') @ [s]"
  by (induction dir) (auto simp: strings_Split_no_sep split: list.split)

lemma path_elems_join:
  assumes "dir \<noteq> []" and "plain_elem s"
  shows "path_elems (dir @ ''/'' @ s) = path_elems dir @ [s]" "is_rooted (dir @ ''/'' @ s) = is_rooted dir"
proof -
  show rooted: "is_rooted (dir @ ''/'' @ s) = is_rooted dir" using assms(1) by (cases dir) (simp_all add: is_rooted_def)
  show "path_elems (dir @ ''/'' @ s) = path_elems dir @ [s]"
    using assms(2) rooted split_snoc [of s dir] clean_elems_append [OF assms(2)] by (simp add: path_elems_def plain_elem_def)
qed

text \<open>The path of a saved file: the output directory, cleaned, with the name behind it.\<close>

lemma Join_plain:
  assumes "dir \<noteq> []" and "plain_elem s"
  shows "filepath_Join dir s = (if is_rooted dir then ''/'' else []) @ join_slash (path_elems dir @ [s])"
  using assms path_elems_join [OF assms] by (auto simp: filepath_Join_def filepath_Clean_def Let_def)

lemma Join_inject:
  assumes "dir \<noteq> []" and "plain_elem s" and "plain_elem s'" and "filepath_Join dir s = filepath_Join dir s'"
  shows "s = s'"
proof -
  have "join_slash (es @ [s]) = join_slash (es @ [s']) \<Longrightarrow> s = s'" for es
    by (induction es) (simp_all add: join_slash_Cons)
  then show ?thesis using assms Join_plain by simp
qed

end
