(* ===== verification/Cli_Env.thy ===== *)
theory Cli_Env
  imports Cli_Format Cli_Path
begin

text \<open>
  \<open>internal/cli/cli.go\<close> and \<open>prompt.go\<close>: what the command runs in, how it speaks and asks, where links and passwords come from, and
  how it ends. What a run reads is the record \<open>cli_env\<close>, what it changes the record \<open>screen\<close>. One command takes one moment.
  Cobra, which parses the arguments, is left out: the commands start with their options parsed.
\<close>

section \<open>The disk\<close>

text \<open>
  Files and directories by their cleaned path. \<open>dk_Denied\<close> are the paths the system does not let the command open or create;
  \<open>dk_WriteFails\<close> says where writing at an offset fails.
\<close>

record disk =
  dk_Files :: "string \<Rightarrow> bytes option"
  dk_Dirs :: "string \<Rightarrow> bool"
  dk_Denied :: "string \<Rightarrow> bool"
  dk_WriteFails :: "string \<Rightarrow> nat \<Rightarrow> bool"

definition render_path :: "bool \<Rightarrow> string list \<Rightarrow> string" where
  "render_path rooted es = (if rooted then ''/'' @ join_slash es else if es = [] then ''.'' else join_slash es)"

lemma filepath_Clean_render: "filepath_Clean p = render_path (is_rooted p) (path_elems p)"
  by (simp add: filepath_Clean_def render_path_def Let_def)

definition os_exists :: "disk \<Rightarrow> string \<Rightarrow> bool" where
  "os_exists d path \<longleftrightarrow> dk_Files d path \<noteq> None \<or> dk_Dirs d path"

text \<open>The path with its parents.\<close>

definition path_line :: "string \<Rightarrow> string list" where
  "path_line p = map (\<lambda>k. render_path (is_rooted p) (take k (path_elems p))) [0..<Suc (length (path_elems p))]"

definition os_MkdirAll :: "string \<Rightarrow> disk \<Rightarrow> string option \<times> disk" where
  "os_MkdirAll dir d =
     (if dir = [] then (Some ''mkdir : no such file or directory'', d)
      else if dk_Dirs d (filepath_Clean dir) then (None, d)
      else if list_ex (\<lambda>p. dk_Files d p \<noteq> None \<or> (dk_Denied d p \<and> \<not> dk_Dirs d p)) (path_line dir)
      then (Some (''mkdir '' @ dir @ '': not possible''), d)
      else (None, d\<lparr>dk_Dirs := (\<lambda>p. dk_Dirs d p \<or> p \<in> set (path_line dir))\<rparr>))"

definition parent_dir :: "string \<Rightarrow> string" where
  "parent_dir p = render_path (is_rooted p) (butlast (path_elems p))"

text \<open>\<open>os.OpenFile\<close> for writing, creating and truncating; with \<open>excl\<close> only what does not exist yet.\<close>

definition os_Create :: "bool \<Rightarrow> string \<Rightarrow> disk \<Rightarrow> string option \<times> disk" where
  "os_Create excl path d =
     (if \<not> dk_Dirs d (parent_dir path) then (Some (''open '' @ path @ '': no such file or directory''), d)
      else if excl \<and> os_exists d path then (Some (''open '' @ path @ '': file exists''), d)
      else if dk_Dirs d path then (Some (''open '' @ path @ '': is a directory''), d)
      else if dk_Denied d path then (Some (''open '' @ path @ '': permission denied''), d)
      else (None, d\<lparr>dk_Files := (dk_Files d)(path := Some [])\<rparr>))"

definition os_Append :: "string \<Rightarrow> bytes \<Rightarrow> disk \<Rightarrow> string option \<times> disk" where
  "os_Append path bs d =
     (case dk_Files d path of
        None \<Rightarrow> (Some (''write '' @ path @ '': file already closed''), d)
      | Some old \<Rightarrow>
          (if dk_WriteFails d path (length old) then (Some (''write '' @ path @ '': no space left on device''), d)
           else (None, d\<lparr>dk_Files := (dk_Files d)(path := Some (old @ bs))\<rparr>)))"

section \<open>Environment and screen\<close>

text \<open>
  \<open>ce_Mime\<close> is \<open>mime.TypeByExtension\<close>, which reads the system's tables; \<open>ce_QR\<close> draws a QR code or fails, \<open>ce_Clipboard\<close> runs a
  clipboard tool if the system has it. \<open>sc_StdinRead\<close> says that stdin has been read to its end; a second read finds nothing more, also
  at a terminal.
\<close>

record cli_env =
  ce_Stdin :: "bytes option"
  ce_StdinTTY :: bool
  ce_StdoutTTY :: bool
  ce_Server :: string
  ce_JSON :: bool
  ce_Quiet :: bool
  ce_Now :: time
  ce_Zone :: location
  ce_Version :: string
  ce_PasswordVar :: string
  ce_HasTTY :: bool
  ce_Answers :: "nat \<Rightarrow> bytes option"
  ce_ReadFile :: "string \<Rightarrow> string + bytes"
  ce_Mime :: "string \<Rightarrow> string"
  ce_QR :: "string \<Rightarrow> string + string"
  ce_Clipboard :: "string list \<Rightarrow> string option option"

text \<open>What lands on stdout: bytes, or a value written as JSON.\<close>

datatype printed = PrintedText bytes | PrintedJSON json

record savedFile =
  sf_Name :: string
  sf_Size :: int
  sf_Path :: string

record screen =
  sc_Stdout :: "printed list"
  sc_Stderr :: string
  sc_Asked :: nat
  sc_StdinRead :: bool
  sc_Disk :: disk
  sc_Clipboard :: "string option"
  sc_Text :: "bytes option"
  sc_Saved :: "savedFile list"

definition print_out :: "bytes \<Rightarrow> screen \<Rightarrow> screen" where
  "print_out s sc = sc\<lparr>sc_Stdout := sc_Stdout sc @ [PrintedText s]\<rparr>"

definition print_err :: "string \<Rightarrow> screen \<Rightarrow> screen" where
  "print_err s sc = sc\<lparr>sc_Stderr := sc_Stderr sc @ s\<rparr>"

definition say :: "cli_env \<Rightarrow> string \<Rightarrow> screen \<Rightarrow> screen" where
  "say e s sc = (if ce_Quiet e \<or> ce_JSON e then sc else if ce_StdoutTTY e then print_out s sc else print_err s sc)"

definition note_err :: "cli_env \<Rightarrow> string \<Rightarrow> screen \<Rightarrow> screen" where
  "note_err e s sc = (if ce_Quiet e then sc else print_err s sc)"

definition kind_text :: "Kind \<Rightarrow> string" where
  "kind_text k = (if k = KindText then ''text'' else ''files'')"

fun join_comma :: "string list \<Rightarrow> string" where
  "join_comma [] = []"
| "join_comma [s] = s"
| "join_comma (s # t # ss) = s @ '', '' @ join_comma (t # ss)"

definition emitJSON :: "json \<Rightarrow> screen \<Rightarrow> screen" where
  "emitJSON v sc = sc\<lparr>sc_Stdout := sc_Stdout sc @ [PrintedJSON v]\<rparr>"

definition DefaultServer :: string where "DefaultServer = ''https://secretli.app''"

definition normalizeServer :: "string \<Rightarrow> string" where
  "normalizeServer s =
     (let s = TrimRight_slash (TrimSpace s) in if s \<noteq> [] \<and> \<not> sublist ''://'' s then ''https://'' @ s else s)"

text \<open>\<open>PersistentPreRunE\<close>, before every command.\<close>

definition PersistentPreRunE :: "cli_env \<Rightarrow> cli_env" where
  "PersistentPreRunE e = e\<lparr>ce_Server := normalizeServer (ce_Server e)\<rparr>"

definition env_client :: "cli_env \<Rightarrow> string \<Rightarrow> Client" where
  "env_client e origin = \<lparr>cl_BaseURL = TrimRight_slash origin, cl_UserAgent = ''secretli-cli/'' @ ce_Version e\<rparr>"

section \<open>Errors\<close>

text \<open>
  The errors a command ends with. \<open>NeedsPassword\<close> and \<open>BadLink\<close> wrap what they hold; \<open>DescribedGone\<close> unwraps to a
  \<open>GoneError\<close>. \<open>UsageErr\<close> is cobra's, which no command's work has wrapped.
\<close>

datatype cli_err =
    ShareE share_err
  | DescribedGone Share_Errors.Gone bool
  | ExitWith int
  | NeedsPassword cli_err
  | BadLink share_err
  | PlainE string
  | UsageErr string

fun as_share :: "cli_err \<Rightarrow> share_err option" where
  "as_share (ShareE e) = Some e"
| "as_share (BadLink e) = Some e"
| "as_share (DescribedGone g owner) = Some (Share_Errors.GoneErr g)"
| "as_share _ = None"

fun share_as_gone :: "share_err \<Rightarrow> Share_Errors.Gone option" where
  "share_as_gone (Share_Errors.GoneErr g) = Some g"
| "share_as_gone (Wrapped e m) = share_as_gone e"
| "share_as_gone _ = None"

fun as_gone :: "cli_err \<Rightarrow> Share_Errors.Gone option" where
  "as_gone (NeedsPassword e) = as_gone e"
| "as_gone e = Option.bind (as_share e) share_as_gone"

fun cli_Is :: "cli_err \<Rightarrow> share_err \<Rightarrow> bool" where
  "cli_Is (NeedsPassword e) target = (target = ErrPasswordRequired \<or> cli_Is e target)"
| "cli_Is e target = (case as_share e of Some s \<Rightarrow> share_Is s target | None \<Rightarrow> False)"

fun cli_api :: "cli_err \<Rightarrow> api_Error option" where
  "cli_api (NeedsPassword e) = cli_api e"
| "cli_api e = Option.bind (as_share e) asApiError"

fun share_err_text :: "share_err \<Rightarrow> string" where
  "share_err_text ErrInvalidShareSecret = ''invalid share secret''"
| "share_err_text ErrInvalidToken = ''invalid token''"
| "share_err_text ErrInvalidEnvelope = ''invalid metadata envelope''"
| "share_err_text ErrDecrypt = ''decryption failed''"
| "share_err_text ErrInvalidFooter = ''invalid bundle footer''"
| "share_err_text ErrInvalidManifest = ''invalid bundle manifest''"
| "share_err_text ErrManifestTooLarge = ''bundle manifest is too large''"
| "share_err_text ErrEmpty = ''bundle must contain at least one file''"
| "share_err_text ErrRangeMismatch = ''bundle range size mismatch''"
| "share_err_text ErrNotALink = ''not a Secretli link''"
| "share_err_text ErrNotOwner = ''this needs the owner link, the one with the part after '' @ [chr 34] @ ''!'' @ [chr 34]"
| "share_err_text ErrPasswordRequired = ''this secret needs a password''"
| "share_err_text ErrWrongPassword = ''wrong password''"
| "share_err_text ErrLinkMismatch = ''this link doesn'' @ apostrophe @ ''t fit the secret it points to''"
| "share_err_text ErrTooLarge = ''too large to share: the limit is 1 GiB''"
| "share_err_text ErrNothingToShare = ''nothing to share''"
| "share_err_text (ApiErr a) = api_Error_text a"
| "share_err_text (Share_Errors.GoneErr g) = GoneErr_text g"
| "share_err_text NotFoundErr = ''this secret is gone: it was opened already, or it expired''"
| "share_err_text ContextErr = ''context canceled''"
| "share_err_text (NewErr m) = m"
| "share_err_text (Wrapped e m) = share_err_text e @ '': '' @ m"
| "share_err_text Panicked = ''panic''"

fun cli_err_text :: "cli_env \<Rightarrow> cli_err \<Rightarrow> string" where
  "cli_err_text env (ShareE e) = share_err_text e"
| "cli_err_text env (DescribedGone g owner) = goneSentence (ce_Zone env) (ce_Now env) g owner"
| "cli_err_text env (ExitWith code) = []"
| "cli_err_text env (NeedsPassword e) = share_err_text ErrPasswordRequired @ '': '' @ cli_err_text env e"
| "cli_err_text env (BadLink e) = share_err_text e @ '': expected https://host/s#'' @ map chr [226, 128, 166] @ '' as the web app prints it''"
| "cli_err_text env (PlainE m) = m"
| "cli_err_text env (UsageErr m) = m"

definition describeGone :: "cli_err \<Rightarrow> bool \<Rightarrow> cli_err" where
  "describeGone e owner = (case as_gone e of Some g \<Rightarrow> DescribedGone g owner | None \<Rightarrow> e)"

definition ExitOK :: int where "ExitOK = 0"
definition ExitError :: int where "ExitError = 1"
definition ExitUsage :: int where "ExitUsage = 2"
definition ExitPassword :: int where "ExitPassword = 3"
definition ExitGone :: int where "ExitGone = 4"
definition ExitServer :: int where "ExitServer = 5"

definition exitCode :: "cli_err \<Rightarrow> int" where
  "exitCode e =
     (if (case e of UsageErr m \<Rightarrow> True | _ \<Rightarrow> False) then ExitUsage
      else if cli_Is e ErrPasswordRequired \<or> cli_Is e ErrWrongPassword then ExitPassword
      else if as_gone e \<noteq> None \<or> cli_Is e NotFoundErr then ExitGone
      else if (case cli_api e of
                 Some a \<Rightarrow> e_Status a = 0 \<or> e_Status a \<ge> 500 \<or> e_Status a = 429
               | None \<Rightarrow> False) then ExitServer
      else ExitError)"

definition cli_message :: "cli_env \<Rightarrow> cli_err \<Rightarrow> string" where
  "cli_message env e =
     (case as_gone e of
        Some g \<Rightarrow> goneSentence (ce_Zone env) (ce_Now env) g False
      | None \<Rightarrow> if cli_Is e ContextErr then ''interrupted'' else cli_err_text env e)"

definition report :: "cli_env \<Rightarrow> cli_err \<Rightarrow> screen \<Rightarrow> int \<times> screen" where
  "report env e sc =
     (case e of
        ExitWith code \<Rightarrow> (code, sc)
      | _ \<Rightarrow>
          (let code = exitCode e
           in if ce_JSON env then
                (code, emitJSON (JObj ([(''error'', JStr (cli_message env e)), (''code'', JInt code)] @
                   (case as_gone e of
                      None \<Rightarrow> []
                    | Some g \<Rightarrow>
                        [(''outcome'', JStr (g_Outcome g)), (''ended_at'', JTime (g_EndedAt g)),
                         (''opened_by_owner'', JBool (g_OpenedByOwner g))] @
                        (case g_FirstOpenedAt g of Some t \<Rightarrow> [(''first_opened_at'', JTime t)] | None \<Rightarrow> [])))) sc)
              else
                (code, print_err ((''secretli: '' @ cli_message env e @ [chr 10]) @
                   (if code = ExitUsage then ''Run '' @ apostrophe @ ''secretli --help'' @ apostrophe @ '' for usage.'' @ [chr 10] else [])) sc)))"

text \<open>\<open>Main\<close>: how a command that was run ends.\<close>

definition finish_command :: "cli_env \<Rightarrow> cli_err option \<times> 'x \<times> screen \<Rightarrow> int \<times> 'x \<times> screen" where
  "finish_command env r =
     (case r of
        (None, x, sc) \<Rightarrow> (ExitOK, x, sc)
      | (Some e, x, sc) \<Rightarrow> (let (code, sc1) = report env e sc in (code, x, sc1)))"

section \<open>Asking\<close>

definition can_ask :: "cli_env \<Rightarrow> bool" where
  "can_ask e \<longleftrightarrow> ce_HasTTY e \<or> ce_StdinTTY e"

text \<open>The next answer, with the prompt on stderr when there is no terminal of its own.\<close>

definition next_answer :: "cli_env \<Rightarrow> string \<Rightarrow> screen \<Rightarrow> bytes option \<times> screen" where
  "next_answer e prompt sc =
     (ce_Answers e (sc_Asked sc), (if ce_HasTTY e then sc else print_err prompt sc)\<lparr>sc_Asked := Suc (sc_Asked sc)\<rparr>)"

definition trim_newline :: "string \<Rightarrow> string" where
  "trim_newline s = rev (dropWhile (\<lambda>c. c = chr 10 \<or> c = chr 13) (rev s))"

definition askLine :: "cli_env \<Rightarrow> string \<Rightarrow> screen \<Rightarrow> (cli_err + string) \<times> screen" where
  "askLine e prompt sc =
     (case next_answer e prompt sc of
        (None, sc1) \<Rightarrow> (Inl (PlainE ''input/output error''), sc1)
      | (Some line, sc1) \<Rightarrow> (if line = [] then Inl (PlainE ''EOF'') else Inr (trim_newline line), sc1))"

text \<open>What is typed does not show, so a newline follows the prompt.\<close>

definition askSecret :: "cli_env \<Rightarrow> string \<Rightarrow> screen \<Rightarrow> (cli_err + string) \<times> screen" where
  "askSecret e prompt sc =
     (case next_answer e (prompt @ [chr 10]) sc of
        (None, sc1) \<Rightarrow> (Inl (PlainE ''input/output error''), sc1)
      | (Some line, sc1) \<Rightarrow> (Inr line, sc1))"

definition confirm :: "cli_env \<Rightarrow> string \<Rightarrow> screen \<Rightarrow> (cli_err + bool) \<times> screen" where
  "confirm e prompt sc =
     (case askLine e (prompt @ '' [y/N] '') sc of
        (Inl err, sc1) \<Rightarrow> (Inl err, sc1)
      | (Inr answer, sc1) \<Rightarrow>
          (let a = ToLower_ascii (TrimSpace answer) in (Inr (a = ''y'' \<or> a = ''yes''), sc1)))"

text \<open>A line up to its end, and whether there was one.\<close>

definition first_line :: "bytes \<Rightarrow> bytes" where
  "first_line bs = takeWhile (\<lambda>c. c \<noteq> chr 10) bs @ (if chr 10 \<in> set bs then [chr 10] else [])"

definition linkArg :: "cli_env \<Rightarrow> (string \<Rightarrow> string option) \<Rightarrow> string option \<Rightarrow> screen \<Rightarrow> (cli_err + Link) \<times> screen" where
  "linkArg e parse_Host arg sc =
     (case (case arg of
              Some raw \<Rightarrow> (Inr raw, sc)
            | None \<Rightarrow>
                (if \<not> ce_StdinTTY e then
                   (case ce_Stdin e of
                      None \<Rightarrow> (Inl (PlainE ''no link given, and nothing on stdin''), sc)
                    | Some bs \<Rightarrow>
                        (if first_line bs = [] then (Inl (PlainE ''no link given, and nothing on stdin''), sc)
                         else (Inr (first_line bs), sc)))
                 else if \<not> can_ask e then (Inl (PlainE ''no link given''), sc)
                 else askLine e ''Paste the link: '' sc)) of
        (Inl err, sc1) \<Rightarrow> (Inl err, sc1)
      | (Inr raw, sc1) \<Rightarrow>
          (case ParseLink parse_Host raw of Inl err \<Rightarrow> (Inl (BadLink err), sc1) | Inr link \<Rightarrow> (Inr link, sc1)))"

record passwordSource =
  ps_Flag :: bool
  ps_File :: string

definition resolve :: "passwordSource \<Rightarrow> cli_env \<Rightarrow> bool \<Rightarrow> bool \<Rightarrow> screen \<Rightarrow> (cli_err + string) \<times> screen" where
  "resolve p e required again sc =
     (if ps_File p \<noteq> [] then
        (case ce_ReadFile e (ps_File p) of
           Inl m \<Rightarrow> (Inl (PlainE (''read password file: '' @ m)), sc)
         | Inr b \<Rightarrow> (Inr (rev (dropWhile (\<lambda>c. c = chr 13) (rev (fst (strings_Cut b (chr 10)))))), sc))
      else if \<not> ps_Flag p \<and> \<not> required then (Inr [], sc)
      else if ce_PasswordVar e \<noteq> [] then (Inr (ce_PasswordVar e), sc)
      else if \<not> can_ask e
      then (Inl (PlainE ''a password is needed: use --password-file or SECRETLI_PASSWORD when not at a terminal''), sc)
      else
        (case askSecret e ''Password: '' sc of
           (Inl err, sc1) \<Rightarrow> (Inl err, sc1)
         | (Inr pw, sc1) \<Rightarrow>
             (if pw = [] then (Inl (PlainE ''the password is empty''), sc1)
              else if again then
                (case askSecret e ''Again: '' sc1 of
                   (Inl err, sc2) \<Rightarrow> (Inl err, sc2)
                 | (Inr pw2, sc2) \<Rightarrow> (if pw2 \<noteq> pw then Inl (PlainE ''the passwords differ'') else Inr pw, sc2))
              else (Inr pw, sc1))))"

section \<open>What speaking and asking leave alone\<close>

lemma say_disk [simp]: "sc_Disk (say e s sc) = sc_Disk sc" "sc_Disk (note_err e s sc) = sc_Disk sc" "sc_Disk (emitJSON v sc) = sc_Disk sc"
  "sc_Disk (print_out s sc) = sc_Disk sc" "sc_Disk (print_err s sc) = sc_Disk sc"
  by (simp_all add: say_def note_err_def emitJSON_def print_out_def print_err_def)

lemma askSecret_disk: "askSecret e q sc = (r, sc1) \<Longrightarrow> sc_Disk sc1 = sc_Disk sc"
  by (auto simp: askSecret_def next_answer_def split: option.splits)

lemma askLine_disk: "askLine e q sc = (r, sc1) \<Longrightarrow> sc_Disk sc1 = sc_Disk sc"
  by (auto simp: askLine_def next_answer_def split: option.splits)

lemma linkArg_disk: "linkArg e parse_Host arg sc = (r, sc1) \<Longrightarrow> sc_Disk sc1 = sc_Disk sc"
  by (auto simp: linkArg_def dest!: askLine_disk split: option.splits sum.splits prod.splits if_splits)

lemma resolve_disk: "resolve ps e required again sc = (r, sc1) \<Longrightarrow> sc_Disk sc1 = sc_Disk sc"
  by (auto simp: resolve_def dest!: askSecret_disk split: if_splits sum.splits prod.splits)

end
