(* ===== verification/Cli_Open.thy ===== *)
theory Cli_Open
  imports Cli_Env Sink
begin

text \<open>
  \<open>internal/cli/open.go\<close>: the sink that writes a text to stdout and files to a directory, and the command that opens a link.
  The progress bar only observes and is left out.
\<close>

section \<open>The sink\<close>

record openOptions =
  oo_Out :: string
  oo_Stdout :: bool
  oo_Force :: bool
  oo_Password :: bool
  oo_PasswordFile :: string

definition saved_path :: "openOptions \<Rightarrow> File \<Rightarrow> string" where
  "saved_path o' f = filepath_Join (oo_Out o') (safeName (f_Name f))"

text \<open>The first of the files that is there already.\<close>

definition existing_file :: "openOptions \<Rightarrow> disk \<Rightarrow> File list \<Rightarrow> string option" where
  "existing_file o' d fs = find (os_exists d) (map (saved_path o') fs)"

definition sink_Manifest :: "openOptions \<Rightarrow> Manifest \<Rightarrow> screen \<Rightarrow> share_err option \<times> screen" where
  "sink_Manifest o' m sc =
     (if oo_Stdout o' then
        (if length (mf_Files m) \<noteq> 1
         then (Some (NewErr (''--stdout is for a single file, and this secret has '' @ FormatInt (int (length (mf_Files m))))), sc)
         else (None, sc))
      else if length (mf_Files m) = 1 \<and> f_Name (mf_Files m ! 0) = ''secret.txt'' \<and> mf_BundleName m = ''secret.txt'' then (None, sc)
      else (case os_MkdirAll (oo_Out o') (sc_Disk sc) of
              (Some e, d) \<Rightarrow> (Some (NewErr (''create '' @ oo_Out o' @ '': '' @ e)), sc\<lparr>sc_Disk := d\<rparr>)
            | (None, d) \<Rightarrow>
                (if oo_Force o' then (None, sc\<lparr>sc_Disk := d\<rparr>)
                 else (case existing_file o' d (mf_Files m) of
                         None \<Rightarrow> (None, sc\<lparr>sc_Disk := d\<rparr>)
                       | Some path \<Rightarrow>
                           (Some (NewErr (path @ '' exists; use --force to overwrite, or --out for another directory'')),
                            sc\<lparr>sc_Disk := d\<rparr>)))))"

definition sink_Text :: "bytes \<Rightarrow> screen \<Rightarrow> share_err option \<times> screen" where
  "sink_Text txt sc = (None, sc\<lparr>sc_Text := Some txt\<rparr>)"

definition stdout_writer :: "screen writer" where
  "stdout_writer bs sc = (None, print_out bs sc)"

definition file_writer :: "string \<Rightarrow> screen writer" where
  "file_writer path bs sc =
     (case os_Append path bs (sc_Disk sc) of
        (Some e, d) \<Rightarrow> (Some (NewErr e), sc\<lparr>sc_Disk := d\<rparr>)
      | (None, d) \<Rightarrow> (None, sc\<lparr>sc_Disk := d\<rparr>))"

definition sink_File ::
    "openOptions \<Rightarrow> File \<Rightarrow> screen \<Rightarrow> (share_err + screen writer \<times> (screen \<Rightarrow> share_err option \<times> screen)) \<times> screen" where
  "sink_File o' f sc =
     (if oo_Stdout o' then
        (Inr (stdout_writer, \<lambda>sc. (None, sc)),
         sc\<lparr>sc_Saved := sc_Saved sc @ [\<lparr>sf_Name = f_Name f, sf_Size = f_Size f, sf_Path = []\<rparr>]\<rparr>)
      else
        (let path = saved_path o' f
         in case os_Create (\<not> oo_Force o') path (sc_Disk sc) of
              (Some e, d) \<Rightarrow> (Inl (NewErr e), sc\<lparr>sc_Disk := d\<rparr>)
            | (None, d) \<Rightarrow>
                (Inr (file_writer path, \<lambda>sc. (None, sc)),
                 sc\<lparr>sc_Disk := d, sc_Saved := sc_Saved sc @ [\<lparr>sf_Name = f_Name f, sf_Size = f_Size f, sf_Path = path\<rparr>]\<rparr>)))"

definition fileSink :: "openOptions \<Rightarrow> screen sink" where
  "fileSink o' = \<lparr>sk_Text = sink_Text, sk_File = sink_File o', sk_Manifest = Some (sink_Manifest o')\<rparr>"

section \<open>The command\<close>

definition savedFile_json :: "savedFile \<Rightarrow> json" where
  "savedFile_json s =
     JObj ([(''name'', JStr (sf_Name s)), (''size'', JInt (sf_Size s))] @
           (if sf_Path s = [] then [] else [(''path'', JStr (sf_Path s))]))"

definition printOpened :: "cli_env \<Rightarrow> openOptions \<Rightarrow> Opened \<Rightarrow> screen \<Rightarrow> screen" where
  "printOpened e o' opened sc =
     (let info = op_Info opened; as_text = in_Kind info = KindText \<and> sc_Text sc \<noteq> None; txt = the (sc_Text sc)
      in if ce_JSON e then
           emitJSON (JObj [(''kind'', JStr (kind_text (in_Kind info))), (''reusable'', JBool (in_Reusable info)),
             (''password'', JBool (in_PasswordProtected info)), (''expires_at'', JTime (in_ExpiresAt info)),
             (''created_at'', JTime (in_CreatedAt info)),
             (if as_text then (''text'', JStr txt) else (''files'', JList (map savedFile_json (sc_Saved sc))))]) sc
         else if as_text then
           (let sc1 = print_out txt sc
            in if ce_StdoutTTY e \<and> txt \<noteq> [] \<and> last txt \<noteq> chr 10 then print_out [chr 10] sc1 else sc1)
         else if oo_Stdout o' then sc
         else say e (''Saved '' @ join_comma (map (\<lambda>s. sf_Name s @ '' ('' @ formatSize (sf_Size s) @ '')'') (sc_Saved sc)) @
                     '' to '' @ oo_Out o' @ ''.'' @ [chr 10]) sc)"

lemma printOpened_disk [simp]: "sc_Disk (printOpened e o' opened sc) = sc_Disk sc"
  by (simp add: printOpened_def Let_def)

text \<open>
  The loop around \<open>share.Open\<close>; \<open>left\<close> is how often a mistyped password can still be asked for. Where the answer is empty the code
  returns what the prompt returned, which is no error.
\<close>

fun open_attempts ::
    "nat \<Rightarrow> cli_env \<Rightarrow> openOptions \<Rightarrow> primitives \<Rightarrow> 'x wire \<Rightarrow> (bytes \<Rightarrow> bytes) \<Rightarrow> Link \<Rightarrow> string \<Rightarrow> 'x \<times> screen \<Rightarrow>
       cli_err option \<times> 'x \<times> screen" where
  "open_attempts left e o' prim w spare link password xs =
     (case share_Open prim (env_client e (l_Origin link)) w spare link password (fileSink o') xs of
        (Inr opened, x1, sc1) \<Rightarrow> (None, x1, printOpened e o' opened sc1)
      | (Inl err, x1, sc1) \<Rightarrow>
          (if share_Is err ErrWrongPassword \<and> oo_PasswordFile o' = [] \<and> ce_PasswordVar e = [] \<and> left > 0 \<and> can_ask e then
             (case askSecret e ''Password: '' (note_err e (''Wrong password. Try again.'' @ [chr 10]) sc1) of
                (Inl err2, sc2) \<Rightarrow> (Some (describeGone err2 (IsOwner link)), x1, sc2)
              | (Inr pw, sc2) \<Rightarrow>
                  (if pw = [] then (None, x1, sc2) else open_attempts (left - 1) e o' prim w spare link pw (x1, sc2)))
           else (Some (describeGone (ShareE err) (IsOwner link)), x1, sc1)))"

declare open_attempts.simps [simp del]

definition cmd_open ::
    "cli_env \<Rightarrow> openOptions \<Rightarrow> primitives \<Rightarrow> 'x wire \<Rightarrow> (bytes \<Rightarrow> bytes) \<Rightarrow> string option \<Rightarrow> 'x \<times> screen \<Rightarrow> cli_err option \<times> 'x \<times> screen" where
  "cmd_open e o' prim w spare arg xs =
     (case linkArg e (wi_Host w) arg (snd xs) of
        (Inl err, sc1) \<Rightarrow> (Some err, fst xs, sc1)
      | (Inr link, sc1) \<Rightarrow>
          (case Inspect prim (env_client e (l_Origin link)) w link (fst xs) of
             (Inl err, x1) \<Rightarrow> (Some (describeGone (ShareE err) (IsOwner link)), x1, sc1)
           | (Inr info, x1) \<Rightarrow>
               (let sc2 = say e (describeInfo (ce_Zone e) info (IsOwner link) (ce_Now e) @ [chr 10]) sc1
                in case resolve \<lparr>ps_Flag = oo_Password o', ps_File = oo_PasswordFile o'\<rparr> e (in_PasswordProtected info) False sc2 of
                     (Inl err, sc3) \<Rightarrow> (Some (if in_PasswordProtected info then NeedsPassword err else err), x1, sc3)
                   | (Inr password, sc3) \<Rightarrow> open_attempts 2 e o' prim w spare link password (x1, sc3))))"

text \<open>
  Whoever answers the second prompt with nothing is told that all went well: the command ends without an error, and so with code 0,
  though it opened nothing.
\<close>

lemma empty_answer_is_no_error:
  assumes "share_Open prim (env_client e (l_Origin link)) w spare link password (fileSink o') xs = (Inl ErrWrongPassword, x1, sc1)"
    and "oo_PasswordFile o' = []" and "ce_PasswordVar e = []" and "can_ask e" and "ce_Answers e (sc_Asked sc1) = Some []"
  shows "fst (finish_command e (open_attempts 2 e o' prim w spare link password xs)) = ExitOK"
proof -
  have "sc_Asked (note_err e m sc1) = sc_Asked sc1" for m by (simp add: note_err_def print_err_def)
  then show ?thesis using assms
    by (subst open_attempts.simps) (simp add: askSecret_def next_answer_def finish_command_def)
qed

text \<open>What an owner is told about a secret that is gone is what a recipient is told: \<open>message\<close> asks for the sentence anew.\<close>

lemma owner_gets_the_recipients_sentence:
  "cli_message env (DescribedGone g True) = goneSentence (ce_Zone env) (ce_Now env) g False"
  by (simp add: cli_message_def)

end
