(* ===== verification/Cli_Confined.thy ===== *)
theory Cli_Confined
  imports Cli_Open
begin

text \<open>
  What opening a link can do to the disk, whatever the server answers and whatever names the sender chose: it only writes files
  directly in the output directory, and without \<open>--force\<close> only files that were not there.
\<close>

section \<open>Writers and sinks that keep a property\<close>

locale keeping_writer =
  fixes wr :: "'w writer" and P :: "'w \<Rightarrow> bool"
  assumes write_keeps: "P v \<Longrightarrow> P (snd (wr bs v))"
begin

lemma chunks_keep: "P v \<Longrightarrow> P (snd (decrypt_chunks prim ks i enc cursor cs wr v))"
proof (induction cs arbitrary: cursor v)
  case (Cons c cs)
  have "P v1" if "wr bs v = (r, v1)" for bs r v1 using write_keeps [OF Cons.prems, of bs] that by simp
  then show ?case using Cons by (auto split: option.split sum.split prod.split)
qed simp

lemma groups_keep: "P v \<Longrightarrow> P (snd (snd (decrypt_groups prim fetch ks i cs wr (st, v))))"
proof (induction "length cs" arbitrary: cs st v rule: less_induct)
  case less
  show ?case
  proof (cases cs)
    case (Cons c cs')
    let ?group = "fst (coalesce (c_PlaintextSize c) cs')" and ?rest = "snd (coalesce (c_PlaintextSize c) cs')"
    have "length ?rest < length cs" using coalesce_rest [of "c_PlaintextSize c" cs'] Cons by simp
    then have rest: "P v1 \<Longrightarrow> P (snd (snd (decrypt_groups prim fetch ks i ?rest wr (st1, v1))))" for st1 v1
      by (rule less.hyps)
    have "P v1" if "decrypt_chunks prim ks i enc 0 (c # ?group) wr v = (r, v1)" for enc r v1
      using chunks_keep [OF less.prems, of prim ks i enc 0 "c # ?group"] that by simp
    then show ?thesis using rest less.prems unfolding Cons decrypt_groups.simps Let_def
      by (auto simp del: decrypt_chunks.simps split: prod.split sum.split option.split)
  qed (use less.prems in simp)
qed

lemma file_keeps: "P v \<Longrightarrow> P (snd (snd (DecryptFile prim fetch ks f wr (st, v))))"
  unfolding DecryptFile_def by (rule groups_keep)

end

locale keeping_sink =
  fixes sink :: "'w sink" and P :: "'w \<Rightarrow> bool"
  assumes text_keeps: "P v \<Longrightarrow> P (snd (sk_Text sink bs v))"
    and look_keeps: "sk_Manifest sink = Some look \<Longrightarrow> P v \<Longrightarrow> P (snd (look m v))"
    and create_keeps: "P v \<Longrightarrow> P (snd (sk_File sink f v))"
    and opened_keeps: "P v \<Longrightarrow> sk_File sink f v = (Inr (wr, close), v1) \<Longrightarrow> keeping_writer wr P \<and> (\<forall>v. P v \<longrightarrow> P (snd (close v)))"
begin

lemma files_keep: "P v \<Longrightarrow> P (snd (snd (open_files prim cached ks as_text sink fs (x, v))))"
proof (induction fs arbitrary: x v)
  case (Cons f fs)
  show ?case
  proof (cases as_text)
    case True
    have "P v1" if "sk_Text sink bs v = (r, v1)" for bs r v1 using text_keeps [OF Cons.prems, of bs] that by simp
    then show ?thesis using Cons True by (auto split: prod.split option.split)
  next
    case False
    have "P v1" if "sk_File sink f v = (r, v1)" for r v1 using create_keeps [OF Cons.prems, of f] that by simp
    moreover have "P v2" "P (snd (close v2))"
      if took: "sk_File sink f v = (Inr (wr, close), v1)" and dec: "DecryptFile prim cached ks f wr (x, v1) = (r, x1, v2)" for wr close v1 r x1 v2
    proof -
      have "P v1" using create_keeps [OF Cons.prems, of f] took by simp
      then show "P v2" using keeping_writer.file_keeps [of wr P v1] opened_keeps [OF Cons.prems took] dec by (metis snd_conv)
      then show "P (snd (close v2))" using opened_keeps [OF Cons.prems took] by blast
    qed
    ultimately show ?thesis using Cons.IH False by (auto split: prod.split sum.split option.split) (metis snd_conv)+
  qed
qed simp

lemma look_kept: "sk_Manifest sink = Some look \<Longrightarrow> look m v = (r, v1) \<Longrightarrow> P v \<Longrightarrow> P v1"
  using look_keeps by (metis snd_conv)

lemma files_kept: "open_files prim cached ks t sink fs (x, v1) = (r, x1, v2) \<Longrightarrow> P v1 \<Longrightarrow> P v2"
  using files_keep by (metis snd_conv)

lemma read_keeps: "P v \<Longrightarrow> P (snd (snd (read_secret prim c w spare ks info session sink (x, v))))"
  by (cases "sk_Manifest sink")
     (auto simp: read_secret_def intro: files_kept look_kept split: prod.split sum.split option.split)

lemma open_keeps: "P v \<Longrightarrow> P (snd (snd (share_Open prim c w spare link password sink (x, v))))"
  using read_keeps by (auto simp: share_Open_def split: prod.split sum.split)

end

section \<open>The output directory\<close>

definition confined :: "openOptions \<Rightarrow> disk \<Rightarrow> screen \<Rightarrow> bool" where
  "confined o' d sc \<longleftrightarrow>
     (\<forall>path. dk_Files (sc_Disk sc) path \<noteq> dk_Files d path \<longrightarrow>
        (\<exists>name. path = filepath_Join (oo_Out o') (safeName name)) \<and> \<not> oo_Stdout o' \<and> (oo_Force o' \<or> dk_Files d path = None))"

lemma confined_disk: "dk_Files (sc_Disk sc1) = dk_Files (sc_Disk sc) \<Longrightarrow> confined o' d sc \<Longrightarrow> confined o' d sc1"
  by (simp add: confined_def)

lemma Create_confined:
  assumes "confined o' d sc" and "\<not> oo_Stdout o'" and "os_Create (\<not> oo_Force o') (saved_path o' f) (sc_Disk sc) = (None, d1)"
  shows "confined o' d (sc\<lparr>sc_Disk := d1, sc_Saved := saved\<rparr>)" "oo_Force o' \<or> dk_Files d (saved_path o' f) = None"
proof -
  have d1: "dk_Files d1 = (dk_Files (sc_Disk sc))(saved_path o' f := Some [])" "oo_Force o' \<or> dk_Files (sc_Disk sc) (saved_path o' f) = None"
    using assms(3) by (auto simp: os_Create_def os_exists_def split: if_splits)
  show free: "oo_Force o' \<or> dk_Files d (saved_path o' f) = None"
    using d1(2) assms(1) unfolding confined_def by metis
  show "confined o' d (sc\<lparr>sc_Disk := d1, sc_Saved := saved\<rparr>)"
    using assms(1,2) free by (auto simp: confined_def d1(1) saved_path_def)
qed

lemma Append_confined:
  assumes "confined o' d sc" and "\<not> oo_Stdout o'" and "oo_Force o' \<or> dk_Files d (saved_path o' f) = None"
  shows "confined o' d (snd (file_writer (saved_path o' f) bs sc))"
  using assms by (auto simp: file_writer_def os_Append_def confined_def saved_path_def split: option.split prod.split)

lemma Manifest_files: "dk_Files (sc_Disk (snd (sink_Manifest o' m sc))) = dk_Files (sc_Disk sc)"
proof -
  obtain r d where made: "os_MkdirAll (oo_Out o') (sc_Disk sc) = (r, d)" by fastforce
  then have "dk_Files d = dk_Files (sc_Disk sc)" by (auto simp: os_MkdirAll_def split: if_splits)
  then show ?thesis using made by (cases r) (simp_all add: sink_Manifest_def split: option.split)
qed

interpretation confined_stdout: keeping_writer stdout_writer "confined o' d" for o' d
  by unfold_locales (simp add: stdout_writer_def print_out_def confined_def)

interpretation confined: keeping_sink "fileSink o'" "confined o' d" for o' d
proof
  fix v bs assume "confined o' d v"
  then show "confined o' d (snd (sk_Text (fileSink o') bs v))" by (simp add: fileSink_def sink_Text_def confined_def)
next
  fix look m v assume "sk_Manifest (fileSink o') = Some look" and v: "confined o' d v"
  then have look: "look = sink_Manifest o'" by (simp add: fileSink_def)
  show "confined o' d (snd (look m v))"
    unfolding look by (rule confined_disk [OF Manifest_files v])
next
  fix f v assume v: "confined o' d v"
  have failed: "dk_Files d1 = dk_Files (sc_Disk v)" if "os_Create (\<not> oo_Force o') (saved_path o' f) (sc_Disk v) = (Some e, d1)" for e d1
    using that by (auto simp: os_Create_def split: if_splits)
  have "confined o' d (snd (sink_File o' f v))"
  proof (cases "oo_Stdout o'")
    case True
    then show ?thesis using confined_disk [OF _ v] by (simp add: sink_File_def)
  next
    case False
    obtain r d1 where made: "os_Create (\<not> oo_Force o') (saved_path o' f) (sc_Disk v) = (r, d1)" by fastforce
    show ?thesis
    proof (cases r)
      case None
      then show ?thesis using False made Create_confined(1) [OF v False] by (simp add: sink_File_def Let_def)
    next
      case (Some e)
      then show ?thesis using False made failed confined_disk [OF _ v] by (simp add: sink_File_def Let_def)
    qed
  qed
  then show "confined o' d (snd (sk_File (fileSink o') f v))" by (simp add: fileSink_def)
next
  fix f v wr close v1 assume v: "confined o' d v" and "sk_File (fileSink o') f v = (Inr (wr, close), v1)"
  then have took: "sink_File o' f v = (Inr (wr, close), v1)" by (simp add: fileSink_def)
  have "(oo_Stdout o' \<and> wr = stdout_writer \<and> close = (\<lambda>sc. (None, sc))) \<or>
      (\<not> oo_Stdout o' \<and> wr = file_writer (saved_path o' f) \<and> close = (\<lambda>sc. (None, sc)) \<and>
        (\<exists>d1. os_Create (\<not> oo_Force o') (saved_path o' f) (sc_Disk v) = (None, d1)))"
  proof (cases "oo_Stdout o'")
    case True
    then show ?thesis using took by (simp add: sink_File_def)
  next
    case False
    obtain r d1 where "os_Create (\<not> oo_Force o') (saved_path o' f) (sc_Disk v) = (r, d1)" by fastforce
    then show ?thesis using took False by (cases r) (simp_all add: sink_File_def Let_def)
  qed
  then consider "oo_Stdout o'" "wr = stdout_writer" "close = (\<lambda>sc. (None, sc))"
    | d1 where "\<not> oo_Stdout o'" "wr = file_writer (saved_path o' f)" "close = (\<lambda>sc. (None, sc))"
        "os_Create (\<not> oo_Force o') (saved_path o' f) (sc_Disk v) = (None, d1)"
    by blast
  then show "keeping_writer wr (confined o' d) \<and> (\<forall>v. confined o' d v \<longrightarrow> confined o' d (snd (close v)))"
  proof cases
    case 1
    then show ?thesis using confined_stdout.keeping_writer_axioms by simp
  next
    case (2 d1)
    have "keeping_writer (file_writer (saved_path o' f)) (confined o' d)"
      by (unfold_locales, rule Append_confined [OF _ 2(1) Create_confined(2) [OF v 2(1,4)]])
    then show ?thesis using 2(2,3) by simp
  qed
qed

lemma attempts_confined:
  "confined o' d sc \<Longrightarrow> confined o' d (snd (snd (open_attempts left e o' prim w spare link password (x, sc))))"
proof (induction left arbitrary: password x sc)
  case (0 password x sc)
  have opened: "confined o' d sc1"
    if "share_Open prim (env_client e (l_Origin link)) w spare link password (fileSink o') (x, sc) = (r, x1, sc1)" for r x1 sc1
    using confined.open_keeps [OF 0] that by (metis snd_conv)
  then show ?case by (subst open_attempts.simps) (auto intro: confined_disk [OF _ opened] split: sum.split prod.split)
next
  case (Suc left password x sc)
  have opened: "confined o' d sc1"
    if "share_Open prim (env_client e (l_Origin link)) w spare link password (fileSink o') (x, sc) = (r, x1, sc1)" for r x1 sc1
    using confined.open_keeps [OF Suc.prems] that by (metis snd_conv)
  have asked: "confined o' d sc2" if "askSecret e q (note_err e m sc1) = (r, sc2)" "confined o' d sc1" for q m r sc1 sc2
    using askSecret_disk [OF that(1)] confined_disk [OF _ that(2)] by simp
  show ?case
    by (subst open_attempts.simps)
       (auto intro: opened confined_disk [OF _ opened] asked [OF _ opened] Suc.IH split: sum.split prod.split)
qed

lemma open_confined: "confined o' (sc_Disk sc) (snd (snd (cmd_open e o' prim w spare arg (x, sc))))"
proof -
  have same: "confined o' (sc_Disk sc) sc1" if "sc_Disk sc1 = sc_Disk sc" for sc1 using that by (simp add: confined_def)
  have "sc_Disk sc1 = sc_Disk sc" if "linkArg e h arg sc = (r, sc1)" for h r sc1 using linkArg_disk [OF that] .
  moreover have "sc_Disk sc2 = sc_Disk sc1" if "resolve ps e q a (say e m sc1) = (r, sc2)" for ps q a m r sc1 sc2
    using resolve_disk [OF that] by simp
  ultimately show ?thesis
    by (auto simp: cmd_open_def Let_def intro!: same attempts_confined split: sum.split prod.split)
qed

text \<open>
  Property C6. Whatever a server answers and whatever names a sender has given the files, \<open>secretli open\<close> writes to nothing but files
  directly in the output directory, each under a plain name, and without \<open>--force\<close> only to files that were not there.
\<close>

theorem opened_files_stay_in_the_directory:
  "{path. dk_Files (sc_Disk (snd (snd (cmd_open e o' prim w spare arg (x, sc))))) path \<noteq> dk_Files (sc_Disk sc) path} \<subseteq>
   {filepath_Join (oo_Out o') s | s. plain_elem s \<and> (oo_Force o' \<or> dk_Files (sc_Disk sc) (filepath_Join (oo_Out o') s) = None)}"
  using open_confined [of o' sc e prim w spare arg x] safeName_plain unfolding confined_def by blast

end
