(* ===== verification/Cli_Saved.thy ===== *)
theory Cli_Saved
  imports Cli_Open Site_Story
begin

text \<open>
  What \<open>secretli open\<close> leaves on the disk: the sink of the command keeps the contract of a sink as long as the names of the files
  differ and the disk lets it write, and the whole command saves exactly what was shared.
\<close>

section \<open>The disk while files arrive\<close>

definition saved_files :: "openOptions \<Rightarrow> (File \<times> bytes) list \<Rightarrow> (string \<Rightarrow> bytes option) \<Rightarrow> string \<Rightarrow> bytes option" where
  "saved_files o' fcs m = fold (\<lambda>(f, c) m. m(saved_path o' f := Some c)) fcs m"

lemma saved_files_snoc: "saved_files o' (fcs @ [(f, c)]) m = (saved_files o' fcs m)(saved_path o' f := Some c)"
  by (simp add: saved_files_def)

lemma saved_files_other: "path \<notin> saved_path o' ` fst ` set fcs \<Longrightarrow> saved_files o' fcs m path = m path"
  by (induction fcs arbitrary: m) (auto simp: saved_files_def)

lemma saved_files_at:
  assumes "distinct (map (saved_path o') fs)" and "length cs = length fs" and "j < length fs"
  shows "saved_files o' (zip fs cs) m (saved_path o' (fs ! j)) = Some (cs ! j)"
  using assms
proof (induction fs cs arbitrary: j m rule: list_induct2')
  case (4 f fs c cs)
  have step: "saved_files o' (zip (f # fs) (c # cs)) m = saved_files o' (zip fs cs) (m(saved_path o' f := Some c))"
    by (simp add: saved_files_def)
  show ?case
  proof (cases j)
    case 0
    have "saved_path o' f \<notin> saved_path o' ` fst ` set (zip fs cs)" using 4(2) by (auto dest: set_zip_leftD)
    then show ?thesis unfolding step 0 by (simp add: saved_files_other)
  next
    case (Suc k)
    then show ?thesis unfolding step using 4 by simp
  qed
qed simp_all

text \<open>
  The files \<open>fs\<close> can be written to the disk \<open>d\<close>: the output directory is there, nothing but old files is in the way, and those only with
  \<open>--force\<close>.
\<close>

definition can_save :: "openOptions \<Rightarrow> File list \<Rightarrow> disk \<Rightarrow> bool" where
  "can_save o' fs d \<longleftrightarrow>
     \<not> oo_Stdout o' \<and> distinct (map (saved_path o') fs) \<and>
     (\<forall>f \<in> set fs. dk_Dirs d (parent_dir (saved_path o' f)) \<and> \<not> dk_Dirs d (saved_path o' f) \<and> \<not> dk_Denied d (saved_path o' f) \<and>
        (\<forall>n. \<not> dk_WriteFails d (saved_path o' f) n) \<and> (oo_Force o' \<or> dk_Files d (saved_path o' f) = None))"

definition saving :: "openOptions \<Rightarrow> File list \<Rightarrow> disk \<Rightarrow> File list \<Rightarrow> bytes list \<Rightarrow> screen \<Rightarrow> bool" where
  "saving o' all d fs cs sc \<longleftrightarrow>
     can_save o' all d \<and> (\<exists>before. all = before @ fs \<and> length before = length cs \<and>
       sc_Disk sc = d\<lparr>dk_Files := saved_files o' (zip before cs) (dk_Files d)\<rparr>)"

definition arriving :: "disk \<Rightarrow> string \<Rightarrow> (string \<Rightarrow> bytes option) \<Rightarrow> bytes \<Rightarrow> screen \<Rightarrow> bool" where
  "arriving d path m buf sc \<longleftrightarrow> (\<forall>n. \<not> dk_WriteFails d path n) \<and> sc_Disk sc = d\<lparr>dk_Files := m(path := Some buf)\<rparr>"

interpretation to_file: faithful_writer "file_writer path" "arriving d path m" for d path m
  by unfold_locales (auto simp: arriving_def file_writer_def os_Append_def)

interpretation to_stdout: faithful_writer stdout_writer "\<lambda>buf sc. concat (map (\<lambda>p. case p of PrintedText s \<Rightarrow> s | PrintedJSON v \<Rightarrow> []) (sc_Stdout sc)) = before @ buf"
  for before
  by unfold_locales (auto simp: stdout_writer_def print_out_def)

interpretation saved: faithful_sink "fileSink o'" "saving o' all d" for o' all d
proof
  fix f fs cs sc
  assume "saving o' all d (f # fs) cs sc"
  then obtain before where ok: "can_save o' all d" and all: "all = before @ f # fs" "length before = length cs"
    and disk: "sc_Disk sc = d\<lparr>dk_Files := saved_files o' (zip before cs) (dk_Files d)\<rparr>"
    by (auto simp: saving_def)
  let ?path = "saved_path o' f" and ?m = "saved_files o' (zip before cs) (dk_Files d)"
  have f: "dk_Dirs d (parent_dir ?path)" "\<not> dk_Dirs d ?path" "\<not> dk_Denied d ?path" "\<And>n. \<not> dk_WriteFails d ?path n"
    "oo_Force o' \<or> dk_Files d ?path = None" "\<not> oo_Stdout o'"
    using ok all(1) by (auto simp: can_save_def)
  have "?path \<notin> saved_path o' ` fst ` set (zip before cs)"
    using ok all(1) by (auto simp: can_save_def dest: set_zip_leftD)
  then have "?m ?path = dk_Files d ?path" by (rule saved_files_other)
  then have "os_Create (\<not> oo_Force o') ?path (sc_Disk sc) = (None, d\<lparr>dk_Files := ?m(?path := Some [])\<rparr>)"
    using f disk by (auto simp: os_Create_def os_exists_def)
  then obtain sc1 where opened: "sink_File o' f sc = (Inr (file_writer ?path, \<lambda>sc. (None, sc)), sc1)"
      "sc_Disk sc1 = d\<lparr>dk_Files := ?m(?path := Some [])\<rparr>"
    using f(6) by (simp add: sink_File_def Let_def)
  have "saving o' all d fs (cs @ [buf]) sc2" if "arriving d ?path ?m buf sc2" for buf sc2
  proof -
    have "zip (before @ [f]) (cs @ [buf]) = zip before cs @ [(f, buf)]" using all(2) by simp
    then have "sc_Disk sc2 = d\<lparr>dk_Files := saved_files o' (zip (before @ [f]) (cs @ [buf])) (dk_Files d)\<rparr>"
      using that by (simp add: arriving_def saved_files_snoc)
    then show ?thesis using ok all unfolding saving_def by (intro conjI exI [where x = "before @ [f]"]) simp_all
  qed
  then show "\<exists>wr close v1 shows_bytes. sk_File (fileSink o') f sc = (Inr (wr, close), v1) \<and>
      faithful_writer wr shows_bytes \<and> shows_bytes [] v1 \<and>
      (\<forall>buf v2. shows_bytes buf v2 \<longrightarrow> (\<exists>v3. close v2 = (None, v3) \<and> saving o' all d fs (cs @ [buf]) v3))"
    using opened f(4) to_file.faithful_writer_axioms
    by (intro exI [where x = "file_writer ?path"] exI [where x = "\<lambda>sc. (None, sc)"] exI [where x = sc1] exI [where x = "arriving d ?path ?m"])
       (simp add: fileSink_def arriving_def)
qed

section \<open>The command saves what was shared\<close>

lemma sink_Manifest_ok:
  assumes "os_MkdirAll (oo_Out o') (sc_Disk sc) = (None, d)" and save: "can_save o' (mf_Files m) d"
    and "\<not> (length (mf_Files m) = 1 \<and> f_Name (mf_Files m ! 0) = ''secret.txt'' \<and> mf_BundleName m = ''secret.txt'')"
  shows "sink_Manifest o' m sc = (None, sc\<lparr>sc_Disk := d\<rparr>)"
proof -
  have "existing_file o' d (mf_Files m) = None" if "\<not> oo_Force o'"
    using save that by (auto simp: existing_file_def find_None_iff can_save_def os_exists_def)
  then show ?thesis using assms by (auto simp: sink_Manifest_def can_save_def)
qed

lemma wi_Host_wire_of [simp]: "wi_Host (wire_of st) = st_Host st"
  by (simp add: wire_of_def)

lemma ParseLink_deletion:
  assumes "ParseLink parse_Host raw = Inr link"
  shows "l_DeletionToken link = [] \<or> ValidToken (l_DeletionToken link)"
proof -
  have "link_token (l_DeletionToken link)" if "l_DeletionToken link \<noteq> []"
    using assms that by (auto simp: ParseLink_def dest: linkFragment_SomeD split: option.splits if_splits)
  then show ?thesis by (auto simp: link_token_iff)
qed

lemma open_command_saves:
  assumes st: "serving st" "undisturbed st t0 t1" and aead: "aead_opens prim" and shared: "shared_bundle prim rng p r contents bdl"
    and waits: "waiting st t0 t1 w r s bdl ok"
    and arg: "ParseLink (st_Host st) raw = Inr link" "st_Client st = env_client e (l_Origin link)"
    and link: "l_Secret link = en_ShareSecret (Encoded (pp_Base r))"
    and pw: "\<forall>sc. fst (resolve \<lparr>ps_Flag = oo_Password o', ps_File = oo_PasswordFile o'\<rparr> e (pr_Password p \<noteq> []) False sc) = Inr (pr_Password p)"
    and kind: "pp_Kind r = KindFiles"
    and disk: "os_MkdirAll (oo_Out o') (sc_Disk sc) = (None, d)" "can_save o' (mf_Files (pl_Manifest (pp_Plan r))) d"
    and named: "map src_Name (pp_Sources r) \<noteq> [''secret.txt'']"
  shows "\<exists>x sc1. cmd_open e o' prim (wire_of st) spare (Some raw) ((n, w), sc) = (None, x, sc1) \<and>
    sc_Disk sc1 = d\<lparr>dk_Files := saved_files o' (zip (mf_Files (pl_Manifest (pp_Plan r))) contents) (dk_Files d)\<rparr>"
proof -
  let ?m = "pl_Manifest (pp_Plan r)" and ?ps = "\<lparr>ps_Flag = oo_Password o', ps_File = oo_PasswordFile o'\<rparr>" and ?info = "shown_info p r s"
  let ?sc1 = "say e (describeInfo (ce_Zone e) ?info (IsOwner link) (ce_Now e) @ [chr 10]) sc"
  obtain sc2 where asked: "resolve ?ps e (pr_Password p \<noteq> []) False ?sc1 = (Inr (pr_Password p), sc2)"
    using pw [rule_format, of ?sc1] by (cases "resolve ?ps e (pr_Password p \<noteq> []) False ?sc1") auto
  have sc2: "sc_Disk sc2 = sc_Disk sc" using resolve_disk [OF asked] by simp
  have prep: "prepare prim rng p = Inr r" using shared by (simp add: shared_bundle_def)
  note plan = NewPlan_InrD [OF prepare_InrD(3) [OF prep]]
  have names: "length (mf_Files ?m) = length (pp_Sources r)" "\<And>j. j < length (pp_Sources r) \<Longrightarrow> f_Name (mf_Files ?m ! j) = src_Name (pp_Sources r ! j)"
    using plan(1) by (auto simp: source_file_def)
  have "\<not> (length (mf_Files ?m) = 1 \<and> f_Name (mf_Files ?m ! 0) = ''secret.txt'' \<and> mf_BundleName ?m = ''secret.txt'')"
    using names named by (auto simp: length_Suc_conv)
  then have look: "sink_Manifest o' ?m sc2 = (None, sc2\<lparr>sc_Disk := d\<rparr>)" using disk sc2 by (intro sink_Manifest_ok) simp_all
  have "saving o' (mf_Files ?m) d (mf_Files ?m) [] (sc2\<lparr>sc_Disk := d\<rparr>)"
    using disk(2) by (simp add: saving_def saved_files_def)
  moreover have sink: "faithful_sink (fileSink o') (saving o' (mf_Files ?m) d)" by (rule saved.faithful_sink_axioms)
  ultimately obtain x sc3 where opened: "share_Open prim (st_Client st) (wire_of st) spare link (pr_Password p) (fileSink o') ((Suc n, w), sc2) =
      (Inr \<lparr>op_Info = ?info, op_Manifest = ?m\<rparr>, x, sc3)" "saving o' (mf_Files ?m) d [] contents sc3"
    using shared_link_opens [where v = sc2 and ?v0.0 = "sc2\<lparr>sc_Disk := d\<rparr>" and n = "Suc n" and spare = spare, OF st aead shared waits link ParseLink_deletion [OF arg(1)] sink]
      kind look by (auto simp: fileSink_def)
  have "in_PasswordProtected ?info \<longleftrightarrow> pr_Password p \<noteq> []" by (simp add: shown_info_def)
  then have "cmd_open e o' prim (wire_of st) spare (Some raw) ((n, w), sc) = (None, x, printOpened e o' \<lparr>op_Info = ?info, op_Manifest = ?m\<rparr> sc3)"
    using arg(1) Inspect_shared [OF st aead shared waits link, of n] asked opened(1) unfolding arg(2)
    by (simp add: cmd_open_def linkArg_def Let_def open_attempts.simps)
  moreover have "sc_Disk sc3 = d\<lparr>dk_Files := saved_files o' (zip (mf_Files ?m) contents) (dk_Files d)\<rparr>"
    using opened(2) by (simp add: saving_def)
  ultimately show ?thesis by simp
qed

lemma saved_exactly:
  assumes "can_save o' fs d" and "length cs = length fs"
  shows "j < length fs \<Longrightarrow> saved_files o' (zip fs cs) (dk_Files d) (saved_path o' (fs ! j)) = Some (cs ! j)"
    "path \<notin> saved_path o' ` set fs \<Longrightarrow> saved_files o' (zip fs cs) (dk_Files d) path = dk_Files d path"
proof -
  show "j < length fs \<Longrightarrow> saved_files o' (zip fs cs) (dk_Files d) (saved_path o' (fs ! j)) = Some (cs ! j)"
    using assms by (intro saved_files_at) (simp_all add: can_save_def)
  show "path \<notin> saved_path o' ` set fs \<Longrightarrow> saved_files o' (zip fs cs) (dk_Files d) path = dk_Files d path"
    by (rule saved_files_other) (auto dest: set_zip_leftD)
qed

lemma MkdirAll_files: "os_MkdirAll dir d0 = (r, d) \<Longrightarrow> dk_Files d = dk_Files d0"
  by (auto simp: os_MkdirAll_def split: if_splits)

text \<open>
  Property C3. \<open>secretli open\<close> saves exactly what was shared: given a link to files that is still good, the password, and a disk that
  takes files of these names in the output directory, the command succeeds, every file lies there under its safe name with
  exactly the bytes that were shared, and no other file has changed; without \<open>--force\<close> the names were free before.
\<close>

theorem open_saves_exactly_what_was_shared:
  assumes "serving st" and "undisturbed st t0 t1" and "aead_opens prim" and shared: "shared_bundle prim rng p r contents bdl"
    and "waiting st t0 t1 w r s bdl ok"
    and "ParseLink (st_Host st) raw = Inr link" and "st_Client st = env_client e (l_Origin link)"
    and "l_Secret link = en_ShareSecret (Encoded (pp_Base r))"
    and "\<forall>sc. fst (resolve \<lparr>ps_Flag = oo_Password o', ps_File = oo_PasswordFile o'\<rparr> e (pr_Password p \<noteq> []) False sc) = Inr (pr_Password p)"
    and "pp_Kind r = KindFiles"
    and disk: "os_MkdirAll (oo_Out o') (sc_Disk sc) = (None, d)" "can_save o' (mf_Files (pl_Manifest (pp_Plan r))) d"
    and "map src_Name (pp_Sources r) \<noteq> [''secret.txt'']"
  shows "\<exists>x sc1. finish_command e (cmd_open e o' prim (wire_of st) spare (Some raw) ((n, w), sc)) = (ExitOK, x, sc1) \<and>
    (\<forall>j < length contents.
       dk_Files (sc_Disk sc1) (filepath_Join (oo_Out o') (safeName (src_Name (pp_Sources r ! j)))) = Some (contents ! j)) \<and>
    (\<forall>path. path \<notin> (\<lambda>src. filepath_Join (oo_Out o') (safeName (src_Name src))) ` set (pp_Sources r) \<longrightarrow>
       dk_Files (sc_Disk sc1) path = dk_Files (sc_Disk sc) path)"
proof -
  let ?fs = "mf_Files (pl_Manifest (pp_Plan r))"
  obtain x sc1 where run: "cmd_open e o' prim (wire_of st) spare (Some raw) ((n, w), sc) = (None, x, sc1)"
    "sc_Disk sc1 = d\<lparr>dk_Files := saved_files o' (zip ?fs contents) (dk_Files d)\<rparr>"
    using open_command_saves [OF assms] by blast
  have prep: "prepare prim rng p = Inr r" and len: "length contents = length (pp_Sources r)" using shared by (simp_all add: shared_bundle_def)
  note plan = NewPlan_InrD [OF prepare_InrD(3) [OF prep]]
  have fs: "length ?fs = length (pp_Sources r)" "\<And>j. j < length (pp_Sources r) \<Longrightarrow> f_Name (?fs ! j) = src_Name (pp_Sources r ! j)"
    using plan(1) by (auto simp: source_file_def)
  then have paths: "saved_path o' (?fs ! j) = filepath_Join (oo_Out o') (safeName (src_Name (pp_Sources r ! j)))"
    if "j < length (pp_Sources r)" for j using that by (simp add: saved_path_def)
  have "saved_path o' ` set ?fs = (\<lambda>src. filepath_Join (oo_Out o') (safeName (src_Name src))) ` set (pp_Sources r)"
    using paths fs(1) by (force simp: set_conv_nth)
  then show ?thesis
    using run saved_exactly [OF disk(2), of contents] fs(1) len paths MkdirAll_files [OF disk(1)]
    by (auto simp: finish_command_def)
qed

section \<open>An example\<close>

definition demo_cli :: cli_env where
  "demo_cli = \<lparr>ce_Stdin = Some [], ce_StdinTTY = False, ce_StdoutTTY = False, ce_Server = DefaultServer, ce_JSON = False, ce_Quiet = True,
     ce_Now = 5, ce_Zone = (\<lambda>_. 0), ce_Version = ''dev'', ce_PasswordVar = [], ce_HasTTY = False, ce_Answers = (\<lambda>_. None),
     ce_ReadFile = (\<lambda>_. Inl ''no such file''), ce_Mime = (\<lambda>_. []), ce_QR = (\<lambda>_. Inl ''no QR''), ce_Clipboard = (\<lambda>_. None)\<rparr>"

definition demo_screen :: screen where
  "demo_screen = \<lparr>sc_Stdout = [], sc_Stderr = [], sc_Asked = 0, sc_StdinRead = False,
     sc_Disk = \<lparr>dk_Files = (\<lambda>_. None), dk_Dirs = (\<lambda>p. p = ''.''), dk_Denied = (\<lambda>_. False), dk_WriteFails = (\<lambda>_ _. False)\<rparr>, sc_Clipboard = None,
     sc_Text = None, sc_Saved = []\<rparr>"

definition demo_options :: openOptions where
  "demo_options = \<lparr>oo_Out = ''.'', oo_Stdout = False, oo_Force = False, oo_Password = False, oo_PasswordFile = []\<rparr>"

definition demo_file_params :: Params where
  "demo_file_params = \<lparr>pr_Files = [memory_source ''a'' ''hello''], pr_Text = [], pr_Expiration = [], pr_Reusable = False, pr_Password = []\<rparr>"

lemma demo_file_bundle:
  "\<exists>r bdl. shared_bundle open_primitives demo_rng demo_file_params r [''hello''] bdl \<and> pp_Kind r = KindFiles \<and>
     pp_Sources r = [memory_source ''a'' ''hello'']"
proof -
  obtain plan where plan: "NewPlan [memory_source ''a'' ''hello''] ''a'' = Inr plan" "pl_DataSize plan = 45" using demo_plan by blast
  have fields: "src_Path (memory_source ''a'' ''hello'') = []" "src_Type (memory_source ''a'' ''hello'') = []" "src_Size (memory_source ''a'' ''hello'') = 5"
    by (simp_all add: memory_source_def)
  show ?thesis
    using plan small_estimate valid_a memory_source_reads [of "''a''" "''hello''"]
    by (intro shared_bundle_exists [where plan = plan])
       (simp_all add: demo_file_params_def share_sources_def DefaultBundleName_def utf8_names_def fields del: valid_utf8.simps(2))
qed

lemma plain_a: "plain_elem ''a''" "chr 92 \<notin> set ''a''"
proof -
  have "ord (chr 92) \<noteq> ord (CHR ''a'')" by simp
  then have "chr 92 \<noteq> CHR ''a''" by metis
  then show "chr 92 \<notin> set ''a''" by simp
qed (simp add: plain_elem_def)

lemma demo_path: "filepath_Join ''.'' ''a'' = ''a''" "parent_dir ''a'' = ''.''" "safeName ''a'' = ''a''"
proof -
  have dot: "path_elems ''.'' = []" "\<not> is_rooted ''.''" by (simp_all add: path_elems_def is_rooted_def clean_elems_skip)
  then show "filepath_Join ''.'' ''a'' = ''a''" using Join_plain [of "''.''" "''a''"] plain_a by simp
  have "path_elems ''a'' = [''a'']" using plain_a by (simp add: path_elems_def clean_elems_down)
  then show "parent_dir ''a'' = ''.''" by (simp add: parent_dir_def render_path_def is_rooted_def)
  show "safeName ''a'' = ''a''" by (rule safeName_id [OF plain_a])
qed

lemma demo_can_save: "can_save demo_options [f] (sc_Disk demo_screen)" if "f_Name f = ''a''" for f
  using that demo_path by (simp add: can_save_def saved_path_def demo_options_def demo_screen_def)

lemma demo_MkdirAll: "os_MkdirAll (oo_Out demo_options) (sc_Disk demo_screen) = (None, sc_Disk demo_screen)"
  by (simp add: os_MkdirAll_def demo_options_def demo_screen_def filepath_Clean_render path_elems_def is_rooted_def clean_elems_skip render_path_def)

definition demo_printed :: "prepared \<Rightarrow> Link" where
  "demo_printed r = \<lparr>l_Origin = ''https://secretli.example'', l_Secret = en_ShareSecret (Encoded (pp_Base r)), l_DeletionToken = []\<rparr>"

lemma demo_printed_parses:
  assumes "prepare open_primitives demo_rng p = Inr r"
  shows "ParseLink Some (Link_String (demo_printed r)) = Inr (demo_printed r)"
proof -
  have "link_token (en_ShareSecret (Encoded (pp_Base r)))"
    using prepare_InrD(1) [OF assms] by (auto elim!: Generate_InrD simp: Encoded_def ShareSecretLength_def build_keys_InrD(1) intro!: link_token_encode_key)
  then show ?thesis
    by (intro Link_String_parses [of "''https''" "''secretli.example''"])
       (simp_all add: demo_printed_def plain_host_def well_formed_link_def IsOwner_def)
qed

theorem open_saves_exactly_what_was_shared_witness:
  "\<exists>r bdl x sc1. shared_bundle open_primitives demo_rng demo_file_params r [''hello''] bdl \<and>
     finish_command demo_cli (cmd_open demo_cli demo_options open_primitives (wire_of (demo_site 5)) (\<lambda>_. [])
       (Some (Link_String (demo_printed r))) ((0, demo_shared r bdl), demo_screen)) = (ExitOK, x, sc1) \<and>
     dk_Files (sc_Disk sc1) = [''a'' \<mapsto> ''hello'']"
proof -
  obtain r bdl where shared: "shared_bundle open_primitives demo_rng demo_file_params r [''hello''] bdl"
    and kind: "pp_Kind r = KindFiles" and srcs: "pp_Sources r = [memory_source ''a'' ''hello'']" using demo_file_bundle by blast
  have prep: "prepare open_primitives demo_rng demo_file_params = Inr r" using shared by (simp add: shared_bundle_def)
  note plan = NewPlan_InrD [OF prepare_InrD(3) [OF prep]]
  have name: "src_Name (memory_source ''a'' ''hello'') = ''a''" by (simp add: memory_source_def)
  have "length (mf_Files (pl_Manifest (pp_Plan r))) = 1" "f_Name (mf_Files (pl_Manifest (pp_Plan r)) ! 0) = ''a''"
    using plan(1) srcs name by (auto simp: source_file_def)
  then obtain f where f: "mf_Files (pl_Manifest (pp_Plan r)) = [f]" "f_Name f = ''a''" by (auto simp: length_Suc_conv)
  have client: "st_Client (demo_site 5) = env_client demo_cli (l_Origin (demo_printed r))" "st_Host (demo_site 5) = Some"
    by (simp_all add: demo_site_def env_client_def demo_cli_def demo_printed_def TrimRight_slash_def)
  have pw: "pr_Password demo_file_params = []"
    "\<forall>sc. fst (resolve \<lparr>ps_Flag = oo_Password demo_options, ps_File = oo_PasswordFile demo_options\<rparr> demo_cli False False sc) = Inr []"
    by (simp_all add: demo_file_params_def resolve_def demo_options_def)
  let ?run = "\<lambda>x sc1. finish_command demo_cli (cmd_open demo_cli demo_options open_primitives (wire_of (demo_site 5)) (\<lambda>_. [])
      (Some (Link_String (demo_printed r))) ((0, demo_shared r bdl), demo_screen)) = (ExitOK, x, sc1)"
  have "\<exists>x sc1. ?run x sc1 \<and>
      (\<forall>j < length [''hello'']. dk_Files (sc_Disk sc1)
        (filepath_Join (oo_Out demo_options) (safeName (src_Name (pp_Sources r ! j)))) = Some ([''hello''] ! j)) \<and>
      (\<forall>path. path \<notin> (\<lambda>src. filepath_Join (oo_Out demo_options) (safeName (src_Name src))) ` set (pp_Sources r) \<longrightarrow>
        dk_Files (sc_Disk sc1) path = dk_Files (sc_Disk demo_screen) path)"
    by (rule open_saves_exactly_what_was_shared [where link = "demo_printed r" and ?t0.0 = 0 and ?t1.0 = 10, OF demo_site_serves(1) demo_site_serves(2)
          open_primitives_opens shared demo_waiting [OF shared] _ client(1)])
       (use f kind srcs name pw client demo_can_save demo_MkdirAll demo_printed_parses [OF prep] in \<open>simp_all add: demo_printed_def\<close>)
  then obtain x sc1 where run: "?run x sc1" and at: "dk_Files (sc_Disk sc1) ''a'' = Some ''hello''"
    and other: "\<And>path. path \<noteq> ''a'' \<Longrightarrow> dk_Files (sc_Disk sc1) path = None"
    using srcs name demo_path by (auto simp: demo_options_def demo_screen_def)
  then show ?thesis using shared by (intro exI conjI [OF shared] conjI [OF run]) (auto simp: fun_eq_iff)
qed

end
