(* ===== verification/Cli_Commands.thy ===== *)
theory Cli_Commands
  imports Cli_Env Share_Ops
begin

text \<open>
  The other commands: \<open>internal/cli/share.go\<close>, \<open>status.go\<close> and \<open>delete.go\<close>. Files to share are read from the disk of
  the screen, and do not change while they are being read.
\<close>

section \<open>Reading what to share\<close>

definition readStdin :: "cli_env \<Rightarrow> screen \<Rightarrow> (cli_err + bytes) \<times> screen" where
  "readStdin e sc =
     (case ce_Stdin e of
        None \<Rightarrow> (Inl (PlainE ''read stdin: input/output error''), sc)
      | Some bs \<Rightarrow> (Inr (if sc_StdinRead sc then [] else bs), sc\<lparr>sc_StdinRead := True\<rparr>))"

definition typeFor :: "cli_env \<Rightarrow> string \<Rightarrow> string" where
  "typeFor e name =
     (let t = ce_Mime e (filepath_Ext name)
      in if t = [] then ''application/octet-stream''
         else (case strings_Cut t (CHR '';'') of (before, after, found) \<Rightarrow> if found then TrimSpace before else t))"

text \<open>A source read from memory, and one read from a file: both read like the source of a text.\<close>

definition named_source :: "cli_env \<Rightarrow> string \<Rightarrow> bytes \<Rightarrow> Source" where
  "named_source e name data = (text_source data)\<lparr>src_Name := name, src_Type := typeFor e name\<rparr>"

definition fileSource :: "cli_env \<Rightarrow> disk \<Rightarrow> string \<Rightarrow> cli_err + Source" where
  "fileSource e d path =
     (let at = filepath_Clean path
      in if path = [] then Inl (PlainE ''stat : no such file or directory'')
         else if dk_Dirs d at
         then Inl (PlainE (path @ '' is a directory; pack it first: tar cz '' @ path @ '' | secretli share --name '' @
                filepath_Base path @ ''.tgz''))
         else (case dk_Files d at of
                 None \<Rightarrow> Inl (PlainE (''stat '' @ path @ '': no such file or directory''))
               | Some data \<Rightarrow>
                   (if dk_Denied d at then Inl (PlainE (''open '' @ path @ '': permission denied''))
                    else Inr (named_source e (filepath_Base path) data))))"

record shareOptions =
  so_Text :: string
  so_Name :: string
  so_Expires :: string
  so_PasswordFile :: string
  so_Reusable :: bool
  so_Password :: bool
  so_QR :: bool
  so_Copy :: bool

fun arg_sources :: "cli_env \<Rightarrow> shareOptions \<Rightarrow> string list \<Rightarrow> screen \<Rightarrow> (cli_err + Source list) \<times> screen" where
  "arg_sources e o' [] sc = (Inr [], sc)"
| "arg_sources e o' (arg # args) sc =
     (case (if arg = ''-'' then
              (case readStdin e sc of
                 (Inl err, sc1) \<Rightarrow> (Inl err, sc1)
               | (Inr data, sc1) \<Rightarrow> (Inr (named_source e (if so_Name o' = [] then ''stdin'' else so_Name o') data), sc1))
            else (fileSource e (sc_Disk sc) arg, sc)) of
        (Inl err, sc1) \<Rightarrow> (Inl err, sc1)
      | (Inr src, sc1) \<Rightarrow>
          (case arg_sources e o' args sc1 of
             (Inl err, sc2) \<Rightarrow> (Inl err, sc2)
           | (Inr srcs, sc2) \<Rightarrow> (Inr (src # srcs), sc2)))"

definition TrimSuffix_char :: "bytes \<Rightarrow> char \<Rightarrow> bytes" where
  "TrimSuffix_char s c = (if s \<noteq> [] \<and> last s = c then butlast s else s)"

text \<open>The files and the text of a command without file arguments.\<close>

definition stdin_content :: "cli_env \<Rightarrow> shareOptions \<Rightarrow> screen \<Rightarrow> (cli_err + Source list \<times> bytes) \<times> screen" where
  "stdin_content e o' sc =
     (if so_Text o' \<noteq> [] then (Inr ([], so_Text o'), sc)
      else if so_Name o' \<noteq> [] then
        (case readStdin e sc of
           (Inl err, sc1) \<Rightarrow> (Inl err, sc1)
         | (Inr data, sc1) \<Rightarrow> (Inr ([named_source e (so_Name o') data], []), sc1))
      else if \<not> ce_StdinTTY e then
        (case readStdin e sc of (Inl err, sc1) \<Rightarrow> (Inl err, sc1) | (Inr data, sc1) \<Rightarrow> (Inr ([], data), sc1))
      else
        (case readStdin e (note_err e (''Type or paste the secret, then press Ctrl-D on an empty line.'' @ [chr 10]) sc) of
           (Inl err, sc1) \<Rightarrow> (Inl err, sc1)
         | (Inr data, sc1) \<Rightarrow> (Inr ([], TrimSuffix_char (TrimSuffix_char data (chr 10)) (chr 13)), sc1)))"

section \<open>Printing a link\<close>

text \<open>The clipboard tools of a desktop that is neither macOS nor Windows, in the order they are tried.\<close>

definition clipboard_tools :: "string list list" where
  "clipboard_tools =
     [[''wl-copy''], [''xclip'', ''-selection'', ''clipboard''], [''xsel'', ''--clipboard'', ''--input''], [''clip.exe'']]"

fun try_tools :: "(string list \<Rightarrow> string option option) \<Rightarrow> string list list \<Rightarrow> string option" where
  "try_tools run [] = Some ''no clipboard tool found (pbcopy, wl-copy, xclip, xsel or clip.exe)''"
| "try_tools run (c # cs) =
     (case run c of
        None \<Rightarrow> try_tools run cs
      | Some None \<Rightarrow> None
      | Some (Some err) \<Rightarrow> Some (hd c @ '': '' @ err))"

definition copyToClipboard :: "cli_env \<Rightarrow> string \<Rightarrow> screen \<Rightarrow> string option \<times> screen" where
  "copyToClipboard e txt sc =
     (case try_tools (ce_Clipboard e) clipboard_tools of
        Some err \<Rightarrow> (Some err, sc)
      | None \<Rightarrow> (None, sc\<lparr>sc_Clipboard := Some txt\<rparr>))"

definition printQR :: "cli_env \<Rightarrow> string \<Rightarrow> screen \<Rightarrow> string option \<times> screen" where
  "printQR e txt sc =
     (case ce_QR e txt of Inl err \<Rightarrow> (Some (''make QR code: '' @ err), sc) | Inr drawing \<Rightarrow> (None, print_err drawing sc))"

definition ownerNote :: string where
  "ownerNote = ''Owner link, keep it to yourself: it can delete the secret and shows whether it was opened.''"

definition shared_json :: "Result \<Rightarrow> json" where
  "shared_json r =
     JObj ([(''link'', JStr (Link_String (Recipient (re_Link r)))), (''owner_link'', JStr (Link_String (re_Link r))),
       (''expires_at'', JTime (re_ExpiresAt r)), (''opens'', JStr (if re_Reusable r then ''until_expiry'' else ''once'')),
       (''password'', JBool (re_PasswordProtected r)), (''kind'', JStr (kind_text (re_Kind r))), (''size'', JInt (re_Size r))] @
       (if re_Kind r = KindFiles then [(''files'', JList (map JStr (re_Names r)))] else []))"

definition offer_QR :: "cli_env \<Rightarrow> shareOptions \<Rightarrow> string \<Rightarrow> screen \<Rightarrow> screen" where
  "offer_QR e o' link sc =
     (if so_QR o' then
        (case printQR e link sc of
           (Some err, sc1) \<Rightarrow> note_err e (''Couldn'' @ apostrophe @ ''t draw the QR code: '' @ err @ [chr 10]) sc1
         | (None, sc1) \<Rightarrow> sc1)
      else sc)"

definition offer_copy :: "cli_env \<Rightarrow> shareOptions \<Rightarrow> string \<Rightarrow> screen \<Rightarrow> screen" where
  "offer_copy e o' link sc =
     (if so_Copy o' then
        (case copyToClipboard e link sc of
           (Some err, sc1) \<Rightarrow> note_err e (''Couldn'' @ apostrophe @ ''t copy to the clipboard: '' @ err @ [chr 10]) sc1
         | (None, sc1) \<Rightarrow> note_err e (''Copied the link to the clipboard.'' @ [chr 10]) sc1)
      else sc)"

definition printShared :: "cli_env \<Rightarrow> shareOptions \<Rightarrow> Result \<Rightarrow> screen \<Rightarrow> screen" where
  "printShared e o' r sc =
     (let link = Link_String (Recipient (re_Link r)); owner = Link_String (re_Link r);
          sc1 = offer_copy e o' link (offer_QR e o' link sc);
          opens = (if re_Reusable r then ''Opens until it expires'' else ''Opens once'');
          summary = opens @ '', expires '' @ formatMoment (ce_Zone e) (re_ExpiresAt r) (ce_Now e) @ ''.'';
          nl = [chr 10]
      in if ce_JSON e then emitJSON (shared_json r) sc1
         else if ce_Quiet e \<or> \<not> ce_StdoutTTY e then
           (let sc2 = print_out (link @ nl) sc1
            in if ce_Quiet e then sc2 else print_err (summary @ nl @ ownerNote @ nl @ owner @ nl) sc2)
         else print_out (''Your link is ready. '' @ summary @ nl @ nl @ ''  '' @ link @ nl @ nl @ ownerNote @ nl @ nl @ ''  '' @ owner @ nl) sc1)"

section \<open>share\<close>

text \<open>What the command shares, with the password, before it calls the server.\<close>

definition share_params :: "cli_env \<Rightarrow> shareOptions \<Rightarrow> string list \<Rightarrow> screen \<Rightarrow> (cli_err + Params) \<times> screen" where
  "share_params e o' args sc =
     (if \<not> ValidExpiration (so_Expires o') then (Inl (PlainE (''--expires must be one of '' @ join_comma Expirations)), sc)
      else (case arg_sources e o' args sc of
              (Inl err, sc1) \<Rightarrow> (Inl err, sc1)
            | (Inr files, sc1) \<Rightarrow>
                (if so_Text o' \<noteq> [] \<and> files \<noteq> [] then (Inl (PlainE ''share text or files, not both at once''), sc1)
                 else (case (if files = [] then stdin_content e o' sc1 else (Inr (files, []), sc1)) of
                         (Inl err, sc2) \<Rightarrow> (Inl err, sc2)
                       | (Inr (sources, txt), sc2) \<Rightarrow>
                           (if sources = [] \<and> txt = [] then (Inl (ShareE ErrNothingToShare), sc2)
                            else (case resolve \<lparr>ps_Flag = so_Password o', ps_File = so_PasswordFile o'\<rparr> e False True sc2 of
                                    (Inl err, sc3) \<Rightarrow> (Inl err, sc3)
                                  | (Inr password, sc3) \<Rightarrow>
                                      (Inr \<lparr>pr_Files = sources, pr_Text = txt, pr_Expiration = so_Expires o',
                                            pr_Reusable = so_Reusable o', pr_Password = password\<rparr>, sc3)))))))"

definition cmd_share ::
    "cli_env \<Rightarrow> shareOptions \<Rightarrow> primitives \<Rightarrow> rng \<Rightarrow> 'x wire \<Rightarrow> 'x wire \<Rightarrow> (nat \<Rightarrow> bool) \<Rightarrow> (SentPart list \<Rightarrow> SentPart list) \<Rightarrow>
       string list \<Rightarrow> 'x \<times> screen \<Rightarrow> cli_err option \<times> 'x \<times> screen" where
  "cmd_share e o' prim rng w abort_wire stopped order args xs =
     (case share_params e o' args (snd xs) of
        (Inl err, sc1) \<Rightarrow> (Some err, fst xs, sc1)
      | (Inr params, sc1) \<Rightarrow>
          (case Share prim rng (env_client e (ce_Server e)) w abort_wire stopped order params (fst xs) of
             (Inl err, x1) \<Rightarrow> (Some (ShareE err), x1, sc1)
           | (Inr r, x1) \<Rightarrow> (None, x1, printShared e o' r sc1)))"

section \<open>status\<close>

definition gone_json :: "Share_Errors.Gone \<Rightarrow> json" where
  "gone_json g =
     JObj ([(''state'', JStr ''gone''), (''outcome'', JStr (g_Outcome g)), (''one_time'', JBool (g_BurnAfterRead g)),
       (''ended_at'', JTime (g_EndedAt g)), (''opened_by_owner'', JBool (g_OpenedByOwner g))] @
       (case g_FirstOpenedAt g of Some t \<Rightarrow> [(''first_opened_at'', JTime t)] | None \<Rightarrow> []))"

definition live_json :: "Info \<Rightarrow> json" where
  "live_json info =
     JObj ([(''state'', JStr ''live''), (''kind'', JStr (kind_text (in_Kind info))), (''name'', JStr (in_BundleName info)),
       (''password'', JBool (in_PasswordProtected info)), (''reusable'', JBool (in_Reusable info)),
       (''encrypted_size'', JInt (in_EncryptedSize info)), (''expires_at'', JTime (in_ExpiresAt info)),
       (''created_at'', JTime (in_CreatedAt info))] @
       (case in_OpenedAt info of Some t \<Rightarrow> [(''opened_at'', JTime t)] | None \<Rightarrow> []))"

definition printStatus :: "cli_env \<Rightarrow> Info \<Rightarrow> screen \<Rightarrow> screen" where
  "printStatus e info sc =
     (let moment = (\<lambda>t. formatMoment (ce_Zone e) t (ce_Now e)); nl = [chr 10];
          sc1 = print_out (describe_what info (''set of files ('' @ in_BundleName info @ '')'') @ ''.'' @ nl @ ''Sent '' @
                  moment (in_CreatedAt info) @ '', expires '' @ moment (in_ExpiresAt info) @ ''.'' @ nl) sc
      in case in_OpenedAt info of
           Some t \<Rightarrow> print_out (''First opened '' @ moment t @ ''.'' @ nl) sc1
         | None \<Rightarrow> print_out (''Not opened yet.'' @ nl) sc1)"

definition cmd_status ::
    "cli_env \<Rightarrow> primitives \<Rightarrow> 'x wire \<Rightarrow> string option \<Rightarrow> 'x \<times> screen \<Rightarrow> cli_err option \<times> 'x \<times> screen" where
  "cmd_status e prim w arg xs =
     (case linkArg e (wi_Host w) arg (snd xs) of
        (Inl err, sc1) \<Rightarrow> (Some err, fst xs, sc1)
      | (Inr link, sc1) \<Rightarrow>
          (case Inspect prim (env_client e (l_Origin link)) w link (fst xs) of
             (Inl err, x1) \<Rightarrow>
               (case share_as_gone err of
                  Some g \<Rightarrow>
                    (Some (ExitWith ExitGone), x1,
                     (if ce_JSON e then emitJSON (gone_json g) sc1
                      else print_out (goneSentence (ce_Zone e) (ce_Now e) g (IsOwner link) @ [chr 10]) sc1))
                | None \<Rightarrow> (Some (ShareE err), x1, sc1))
           | (Inr info, x1) \<Rightarrow>
               (None, x1, if ce_JSON e then emitJSON (live_json info) sc1 else printStatus e info sc1)))"

section \<open>delete\<close>

definition cmd_delete ::
    "cli_env \<Rightarrow> bool \<Rightarrow> primitives \<Rightarrow> 'x wire \<Rightarrow> string option \<Rightarrow> 'x \<times> screen \<Rightarrow> cli_err option \<times> 'x \<times> screen" where
  "cmd_delete e yes prim w arg xs =
     (case linkArg e (wi_Host w) arg (snd xs) of
        (Inl err, sc1) \<Rightarrow> (Some err, fst xs, sc1)
      | (Inr link, sc1) \<Rightarrow>
          (if \<not> IsOwner link then (Some (ShareE ErrNotOwner), fst xs, sc1)
           else
             (case (if yes then (Inr True, sc1)
                    else if \<not> can_ask e then (Inl (PlainE ''use --yes to delete without being asked''), sc1)
                    else confirm e ''Delete it for everyone? The link stops working right away.'' sc1) of
                (Inl err, sc2) \<Rightarrow> (Some err, fst xs, sc2)
              | (Inr agreed, sc2) \<Rightarrow>
                  (if \<not> agreed then (Some (ExitWith ExitError), fst xs, sc2)
                   else
                     (case share_Delete prim (env_client e (l_Origin link)) w link (fst xs) of
                        (Some err, x1) \<Rightarrow> (Some (describeGone (ShareE err) True), x1, sc2)
                      | (None, x1) \<Rightarrow>
                          (None, x1,
                           if ce_JSON e then emitJSON (JObj [(''deleted'', JBool True)]) sc2
                           else say e (''Deleted. The link doesn'' @ apostrophe @ ''t open anything any more.'' @ [chr 10]) sc2))))))"

end
