(* ===== verification/Cli_Status.thy ===== *)
theory Cli_Status
  imports Cli_Commands Cli_Saved
begin

text \<open>
  \<open>secretli status\<close> against the server: whatever fails and however often the client tries again, asking for the description of a
  secret changes nothing there.
\<close>

section \<open>Calls that keep what every exchange keeps\<close>

locale keeping_wire =
  fixes w :: "'x wire" and c :: Client and rq :: call and P :: "'x \<Rightarrow> bool"
  assumes random_keeps: "P x \<Longrightarrow> wi_Random w x = (r, now, x1) \<Longrightarrow> P x1"
    and sleep_keeps: "P x \<Longrightarrow> wi_Sleep w d x = (woke, x1) \<Longrightarrow> P x1"
    and exchange_keeps: "P x \<Longrightarrow> wi_Do w (build_request c rq request_id) x = (outcome, x1) \<Longrightarrow> P x1"
begin

lemma do_once_keeps: "P x \<Longrightarrow> do_once c w rq x = (r, x1) \<Longrightarrow> P x1"
  by (auto simp: do_once_def Let_def split: prod.splits if_splits http_result.splits dest: random_keeps exchange_keeps)

lemma do_attempts_keeps: "P x \<Longrightarrow> do_attempts c w rq left attempt e x = (r, x1) \<Longrightarrow> P x1"
proof (induction left arbitrary: attempt e x)
  case (Suc left)
  note ih = Suc.IH
  show ?case using Suc.prems
    by (auto split: if_splits prod.splits sum.splits option.splits bool.splits dest: do_once_keeps sleep_keeps)
       (metis do_once_keeps sleep_keeps ih)
qed simp

lemma doJSON_keeps: "P x \<Longrightarrow> doJSON c w decode rq x = (r, x1) \<Longrightarrow> P x1"
  by (auto simp: doJSON_def api_do_def split: prod.splits sum.splits option.splits dest: do_attempts_keeps)

end

section \<open>Metadata requests\<close>

lemma metadata_reads_only: "alone ctx \<Longrightarrow> snd (handle_SecretMetadata ctx req w) = w"
  by (auto simp: handle_SecretMetadata_def authenticateMetadata_def Let_def split: sum.splits prod.splits if_splits)

text \<open>Sites whose server works on one request at a time; what fails in it is open.\<close>

definition served_alone :: "'s site \<Rightarrow> bool" where
  "served_alone st \<longleftrightarrow> echo_router (sv_Router (st_Server st)) \<and> (\<forall>n. alone (sv_Env (st_Server st) n))"

lemma metadata_dispatch:
  assumes st: "served_alone st" and pid: "path_segment pid"
    and sent: "dispatch (st_Server st) n ''GET'' (''/api/v1/secrets/'' @ pid @ ''/meta'') req w = Some (a, w1)"
  shows "w1 = w"
proof -
  have "CHR ''/'' \<notin> set pid" "pid \<noteq> []" using pid by (simp_all add: path_segment_def)
  note route = client_routes(1) [OF _ this, of "sv_Router (st_Server st)"]
  show ?thesis
    using sent st route metadata_reads_only [of "sv_Env (st_Server st) n"]
    by (auto simp: served_alone_def dispatch_def limited_route_def split: if_splits sum.splits) (metis snd_conv)
qed

definition unchanged_since :: "'s site \<Rightarrow> string \<Rightarrow> 's world \<Rightarrow> nat \<times> 's world \<Rightarrow> bool" where
  "unchanged_since st pid w0 x \<longleftrightarrow> served_alone st \<and> path_segment pid \<and> snd x = w0"

interpretation looking: keeping_wire "wire_of st" "st_Client st" "metadata_call pid token" "unchanged_since st pid w0" for st pid token w0
proof
  fix x r now x1
  assume "unchanged_since st pid w0 x" "wi_Random (wire_of st) x = (r, now, x1)"
  then show "unchanged_since st pid w0 x1" by (cases x) (auto simp: unchanged_since_def wire_of_def)
next
  fix x d woke x1
  assume "unchanged_since st pid w0 x" "wi_Sleep (wire_of st) d x = (woke, x1)"
  then show "unchanged_since st pid w0 x1" by (simp add: unchanged_since_def wire_of_def site_wire_def)
next
  fix x request_id outcome x1
  assume "unchanged_since st pid w0 x" "wi_Do (wire_of st) (build_request (st_Client st) (metadata_call pid token) request_id) x = (outcome, x1)"
  then show "unchanged_since st pid w0 x1"
    by (cases x) (auto simp: unchanged_since_def wire_of_def site_wire_def build_request_def metadata_call_def dest: metadata_dispatch split: option.splits)
qed

lemma FromShareSecret_publicID:
  assumes "FromShareSecret prim secret password = Inr k"
  shows "ValidPublicID (en_PublicID (Encoded k))"
proof -
  obtain s m d where "build_keys s m d = Inr k" using assms by (auto simp: FromShareSecret_def split: sum.splits if_splits)
  then have "length (k_publicID k) = 16" by (rule build_keys_InrD(5))
  then show ?thesis using ValidPublicID_encode by (auto simp: Encoded_def encode_key_def)
qed

lemma Inspect_changes_nothing:
  assumes "served_alone st" and "Inspect prim (st_Client st) (wire_of st) link (n, w) = (r, n1, w1)"
  shows "w1 = w"
proof (cases "FromShareSecret prim (l_Secret link) []")
  case (Inr base)
  let ?pid = "en_PublicID (Encoded base)"
  have "unchanged_since st ?pid w (n, w)"
    using assms(1) ValidPublicID_segment [OF FromShareSecret_publicID [OF Inr]] by (simp add: unchanged_since_def)
  note kept = looking.doJSON_keeps [OF this]
  show ?thesis using assms(2) Inr kept
    by (fastforce simp: Inspect_def api_Metadata_def metadata_call_def unchanged_since_def split: sum.splits prod.splits)
qed (use assms in \<open>simp add: Inspect_def\<close>)

section \<open>status\<close>

lemma printStatus_disk [simp]: "sc_Disk (printStatus e info sc) = sc_Disk sc"
  by (simp add: printStatus_def Let_def split: option.split)

text \<open>
  Property C7. \<open>secretli status\<close> opens nothing: whatever link it is given, whatever the database or the storage
  answers and however often the client asks again, the server ends with the secrets, the stored objects and the counters it had, and the
  disk of the one who asks is as it was.
\<close>

theorem status_opens_nothing:
  assumes "served_alone st" and "\<And>link. ParseLink (st_Host st) raw = Inr link \<Longrightarrow> st_Client st = env_client e (l_Origin link)"
  shows "\<exists>result n1 sc1. finish_command e (cmd_status e prim (wire_of st) (Some raw) ((n, w), sc)) = (result, (n1, w), sc1) \<and>
    sc_Disk sc1 = sc_Disk sc"
proof -
  obtain result x1 sc1 where run: "cmd_status e prim (wire_of st) (Some raw) ((n, w), sc) = (result, x1, sc1)"
    using prod_cases3 by blast
  have "snd x1 = w \<and> sc_Disk sc1 = sc_Disk sc"
  proof (cases "ParseLink (st_Host st) raw")
    case (Inr link)
    obtain r n1 w1 where look: "Inspect prim (st_Client st) (wire_of st) link (n, w) = (r, n1, w1)" using prod_cases3 by blast
    note same = Inspect_changes_nothing [OF assms(1) look]
    show ?thesis using run Inr look same assms(2) [OF Inr]
      by (cases r) (auto simp: cmd_status_def linkArg_def split: option.splits if_splits)
  qed (use run in \<open>auto simp: cmd_status_def linkArg_def\<close>)
  then show ?thesis using run
    by (cases x1; cases result) (auto simp: finish_command_def report_def Let_def split: cli_err.splits if_splits)
qed

theorem status_opens_nothing_witness:
  "\<exists>r bdl result n1 sc1. shared_bundle open_primitives demo_rng demo_file_params r [''hello''] bdl \<and>
     finish_command demo_cli (cmd_status demo_cli open_primitives (wire_of (demo_site 5)) (Some (Link_String (demo_printed r)))
       ((0, demo_shared r bdl), demo_screen)) = (result, (n1, demo_shared r bdl), sc1)"
proof -
  obtain r bdl where shared: "shared_bundle open_primitives demo_rng demo_file_params r [''hello''] bdl" using demo_file_bundle by blast
  then have prep: "prepare open_primitives demo_rng demo_file_params = Inr r" by (simp add: shared_bundle_def)
  have "served_alone (demo_site 5)" by (simp add: served_alone_def demo_site_def demo_server_def first_router_echo)
  moreover have "st_Client (demo_site 5) = env_client demo_cli (l_Origin (demo_printed r))" "st_Host (demo_site 5) = Some"
    by (simp_all add: demo_site_def env_client_def demo_cli_def demo_printed_def TrimRight_slash_def)
  ultimately have "\<exists>result n1 sc1. finish_command demo_cli (cmd_status demo_cli open_primitives (wire_of (demo_site 5))
      (Some (Link_String (demo_printed r))) ((0, demo_shared r bdl), demo_screen)) = (result, (n1, demo_shared r bdl), sc1) \<and>
      sc_Disk sc1 = sc_Disk demo_screen"
    using demo_printed_parses [OF prep] by (intro status_opens_nothing) simp_all
  then show ?thesis using shared by blast
qed

end
