(* ===== verification/Spec2Isabelle.thy ===== *)
theory Spec2Isabelle
  imports Secret_Runs Transfer_Events Upload_Handler Transfer_Handler Cleanup Share_Upload Api_Retry
    Site_Story Cli_Confined Cli_Saved Cli_Commands Cli_Status
begin

text \<open>
  A verification library for secretli, a service that hands out secrets through links. A sender encrypts a text or files on the own
  machine, uploads the ciphertext in parts and gives away a link; the key travels behind the \<open>#\<close> of the link and never reaches the
  server. A secret opens once, or until it expires; its end leaves a tombstone that says what became of it. Two people without a
  channel for a link meet over a short code, whose relay is a write-once mailbox. The repository's Go code is the server
  (\<open>internal/adapter\<close>, \<open>internal/domain\<close>, \<open>internal/cleanup\<close>, \<open>internal/platform\<close>) and the command line client
  (\<open>internal/share\<close>, \<open>internal/cli\<close>). Definitions keep the names of the functions they model; the files are named below.

  \<^bold>\<open>The server, from the tables upwards\<close>

  \<^item> \<open>Prelude\<close>, \<open>Base64\<close>, \<open>Strconv\<close>, \<open>Sha256\<close> (with \<open>Sha256_Vectors\<close>), \<open>App_Errors\<close>: types shared by all, what is used of Go's
    standard library, and the errors of \<open>internal/platform/errors\<close> with their status codes. SHA-256 runs.
  \<^item> \<open>Domain\<close> (\<open>internal/domain\<close>, \<open>internal/platform/crypto\<close>): the records, the constants, the validation of what clients send, token hashes.
  \<^item> \<open>Db\<close> (\<open>internal/adapter/postgres/dbsqlc\<close>): the tables as lists of rows with keys, unique indexes, cascades and the notify
    trigger, and one definition per SQL statement.
  \<^item> \<open>Repo_Base\<close>, \<open>Secret_Repo\<close>, \<open>Upload_Repo\<close> (\<open>secret_repo.go\<close>) and \<open>Transfer_Repo\<close> (\<open>transfer_repo.go\<close>): every repository method. Each
    statement has a fate: it ran, it failed, or it ran and its answer was lost; a theorem over all fates covers every failure.
  \<^item> \<open>Secret_Life\<close>, \<open>Secret_Trace\<close>, \<open>Upload_Life\<close>: runs, that is any sequence of repository calls with any fates, and their invariants.
    A one-time secret opens at most once; the first outcome stands; the cleanup removes only what is due; an upload session ends once and
    becomes exactly its secret; a method that fails leaves nothing behind; mailboxes are write-once and keep the order of the protocol.
  \<^item> \<open>Secret_Runs\<close>: runs of all three kinds of calls together (\<open>server_run\<close>). A stored row is never overwritten, not even by a creation or
    a completed upload under its id; and what ended a secret, read off the table of secrets (\<open>end_of_life\<close>), is what its tombstone says.
  \<^item> \<open>Transfer_Events\<close> (\<open>transfer_events.go\<close>): the waiters and the listening goroutine as an inductive step relation, with the
    invariant that no change of a transfer goes unnoticed.
  \<^item> \<open>Server\<close> (\<open>internal/adapter/s3\<close>, \<open>internal/adapter/metrics\<close>), \<open>Secret_Handler\<close>, \<open>Upload_Handler\<close>, \<open>Transfer_Handler\<close>: the
    handlers, whole, over a world of storage, database and counters. What a handler reads from outside (clock, random bytes, fates, what
    other requests do in between) is an \<open>env\<close> indexed by the place in the handler, so the theorems speak of interleavings.
  \<^item> \<open>Cleanup\<close> (\<open>internal/cleanup/worker.go\<close>): the drain loops, which end whatever fails, as a partial function that is proved to return.
  \<^item> \<open>Middleware\<close>, \<open>Routes\<close> (\<open>internal/adapter/httpserver\<close>, \<open>internal/platform/config\<close>, \<open>internal/platform/correlation\<close>): configuration, headers,
    rate and body limits, and the table of routes.

  \<^bold>\<open>The client\<close>

  \<^item> \<open>Json\<close>, \<open>Json_Parse\<close>, \<open>Json_Roundtrip\<close>, \<open>Rfc3339\<close>, \<open>Url\<close>, \<open>Hkdf\<close>: the codecs and the key derivation of the standard library as far as
    they are used; all of them run, and what is written reads back.
  \<^item> \<open>Share_Errors\<close>, \<open>Keys\<close> (\<open>internal/share/keys\<close>): keys and tokens derived from a share secret, and the metadata envelope.
  \<^item> \<open>Bundle\<close>, \<open>Bundle_Reader\<close> (\<open>internal/share/bundle\<close>), with \<open>Bundle_Layout\<close>, \<open>Bundle_Json\<close>, \<open>Bundle_Roundtrip\<close>: the layout of the
    encrypted blob. The check of a manifest accepts exactly the tilings, and an encrypted bundle reads back over range requests.
  \<^item> \<open>Share_Upload\<close>, \<open>Share_Link\<close>, \<open>Share_Ops\<close>, \<open>Sink\<close> (\<open>internal/share/share.go\<close>): links, \<open>Share\<close>, \<open>Inspect\<close>, \<open>Open\<close>, \<open>Delete\<close>. The
    streamed upload refines the plain encryption and sends parts the server accepts.
  \<^item> \<open>Api_Client\<close>, \<open>Api_Calls\<close>, \<open>Api_Retry\<close> (\<open>internal/share/api/client.go\<close>): requests, decoding, retries and their bounds.
  \<^item> \<open>Cli_Path\<close>, \<open>Cli_Format\<close>, \<open>Cli_Env\<close>, \<open>Cli_Open\<close>, \<open>Cli_Commands\<close> (\<open>internal/cli\<close>): the commands over what a run reads
    (\<open>cli_env\<close>) and changes (\<open>screen\<close>, with the disk). \<open>Cli_Confined\<close>: opening writes only plain names in the output directory.
    \<open>Cli_Status\<close>: asking for the status changes nothing.

  \<^bold>\<open>Both together\<close>

  \<open>Site\<close> makes the server of \<open>Routes\<close> the wire of the client; \<open>Site_Wire\<close>, \<open>Site_Open\<close> and \<open>Site_Session\<close> follow a call through
  router, limits, handler, repository and storage and back through the decoder. \<open>Site_Story\<close> has the end-to-end properties: a link opens to
  what was shared, and a link to what is gone says what became of it. \<open>Cli_Saved\<close> carries the first to the disk of the one who opens.

  \<^bold>\<open>Interfaces\<close>

  Contracts between parts are locales, interpreted on the model's own definitions: \<open>keyed_update\<close> (a row update that keeps the key; the
  retrieval time of secrets, the end of upload sessions), \<open>mailbox_update\<close> (claim, answer, deliver, close, expire), \<open>leg\<close> (the two legs
  of the relay), \<open>drain\<close> and \<open>drain_clears\<close> (the batches of the cleanup), \<open>range_server\<close> (what the bundle reader needs of a server),
  \<open>faithful_writer\<close> and \<open>faithful_sink\<close> (what \<open>Open\<close> needs of a sink; the list sink and the file sink of the command),
  \<open>keeping_writer\<close>, \<open>keeping_sink\<close> and \<open>keeping_wire\<close> (what is kept by anything that goes through a sink or a wire).

  \<^bold>\<open>Parameters, bounds and fuel\<close>

  Code that is not in the repository is an argument: the storage service (\<open>s3api\<close>), XChaCha20-Poly1305 and scrypt (\<open>primitives\<close>; where
  it matters, \<open>aead_opens\<close> says that opening inverts sealing), the random source, Echo's router (\<open>echo_router\<close>, its documented precedence),
  Bind and the validator, the wire, the parser of hosts, the system's MIME table, the clipboard tools and the drawing of QR codes.
  The witnesses instantiate them: storage in memory, a cipher that
  only appends a tag, a router that takes the first match. Integers are \<open>int\<close> with \<open>int64\<close> and \<open>int32\<close> written out where the code can
  overflow; hashes work on words.
  Loops are structural, or end by a proved measure; the long poll and the cleanup loop are partial functions whose returning is proved. The JSON
  parser takes the length of its text as fuel, and every value consumes at least one character, so the bound never cuts a text off. The
  retry loop and the loop around a mistyped password have the three attempts of the code.
  A handler or command takes the fates and clock readings it is given; goroutines of an upload run one after another in an arbitrary order.

  \<^bold>\<open>Not modelled\<close>

  \<^item> \<open>main.go\<close>, \<open>cmd\<close>, \<open>httpserver/server.go\<close>, \<open>postgres/postgres.go\<close>, the registration of metrics, \<open>mime.go\<close> and \<open>web/embed.go\<close>: they
    connect, start and configure libraries.
  \<^item> Cobra's parsing of arguments and flags, the progress bar, logging and the duration histogram: they observe or parse in a library.
  \<^item> \<open>internal/share/sharetest\<close>, a server for tests, and the web frontend, which is TypeScript.
  \<^item> Time inside one command or statement: a command reads one moment. Timestamps are exact; PostgreSQL rounds them to microseconds.
\<close>

end
